(* ===== verification/Prelude.thy ===== *)
theory Prelude
  imports Main
begin

text \<open>
  Shared vocabulary of the development: Python exceptions, computations that read and
  write a state and may raise, SQL tables as lists of rows, and the lemmas about them
  that every component uses.

  A Python coroutine that works on a state of type \<open>'s\<close> is an \<open>('s, 'a) act\<close>: it
  returns a value or raises, and the state it leaves behind survives the exception, as
  the interpreter's objects do. What a transaction undoes is written out where the code
  opens one.

  A table is the list of its rows in insertion order. \<open>UPDATE ... WHERE\<close> rewrites
  every row that satisfies the condition (none, one or many), a \<open>CHECK\<close> constraint or a
  column's range is tested on every row a statement writes, and a statement whose new
  rows break one raises and writes nothing.
\<close>

named_theorems act_simps \<open>how computations run\<close>
named_theorems sql_simps \<open>what SQL statements do to tables\<close>
named_theorems frames \<open>what a computation leaves unchanged\<close>
named_theorems pres_intros \<open>rules that show a computation keeps an invariant\<close>

section \<open>Exceptions\<close>

datatype exc =
    AppError int string int   \<comment> \<open>code, message, HTTP status\<close>
  | RuntimeError string
  | AssertionError string
  | IndexError
  | AttributeError
  | ValueError string
  | DBError string            \<comment> \<open>constraint or range violation reported by the database, with the table\<close>
  | ProgrammingError string   \<comment> \<open>a statement that names a column the schema does not have\<close>
  | HTTPException int string  \<comment> \<open>status and detail, raised by a FastAPI dependency\<close>
  | InvalidRequestError string \<comment> \<open>the session refuses a call in its present state\<close>
  | KeyError string
  | RequestValidationError   \<comment> \<open>a body or query parameter that its schema does not admit\<close>
  | NoResultFound             \<comment> \<open>\<open>scalar_one()\<close> on an empty result\<close>
  | DoesNotReturn             \<comment> \<open>no exception: a loop that runs forever\<close>

section \<open>Computations with state and exceptions\<close>

type_synonym ('s, 'a) act = "'s \<Rightarrow> (exc + 'a) \<times> 's"

definition ret :: "'a \<Rightarrow> ('s, 'a) act" where
  "ret x = (\<lambda>s. (Inr x, s))"

definition raise :: "exc \<Rightarrow> ('s, 'a) act" where
  "raise e = (\<lambda>s. (Inl e, s))"

definition bind_act :: "('s, 'a) act \<Rightarrow> ('a \<Rightarrow> ('s, 'b) act) \<Rightarrow> ('s, 'b) act" where
  "bind_act m f = (\<lambda>s. case m s of (Inl e, s') \<Rightarrow> (Inl e, s') | (Inr x, s') \<Rightarrow> f x s')"

definition reads :: "('s \<Rightarrow> 'a) \<Rightarrow> ('s, 'a) act" where
  "reads f = (\<lambda>s. (Inr (f s), s))"

definition modify :: "('s \<Rightarrow> 's) \<Rightarrow> ('s, unit) act" where
  "modify f = (\<lambda>s. (Inr (), f s))"

definition raise_if :: "bool \<Rightarrow> exc \<Rightarrow> ('s, unit) act" where
  "raise_if b e = (if b then raise e else ret ())"

definition when_act :: "bool \<Rightarrow> ('s, unit) act \<Rightarrow> ('s, unit) act" where
  "when_act b m = (if b then m else ret ())"

text \<open>\<open>for x in xs: body\<close>, the loop variable's accumulator threaded through.\<close>

fun fold_act :: "('x \<Rightarrow> 'b \<Rightarrow> ('s, 'b) act) \<Rightarrow> 'x list \<Rightarrow> 'b \<Rightarrow> ('s, 'b) act" where
  "fold_act f [] b = ret b"
| "fold_act f (x # xs) b = bind_act (f x b) (fold_act f xs)"

text \<open>\<open>try: m except Exception: h; raise\<close>: the handler's changes are kept, the exception goes on.\<close>

definition on_error :: "('s, 'a) act \<Rightarrow> (exc \<Rightarrow> 's \<Rightarrow> 's) \<Rightarrow> ('s, 'a) act" where
  "on_error m h = (\<lambda>s. case m s of (Inl e, s') \<Rightarrow> (Inl e, h e s') | (Inr x, s') \<Rightarrow> (Inr x, s'))"

lemma ret_run [act_simps, simp]: "ret x s = (Inr x, s)"
  by (simp add: ret_def)

lemma raise_run [act_simps, simp]: "raise e s = (Inl e, s)"
  by (simp add: raise_def)

lemma reads_run [act_simps, simp]: "reads f s = (Inr (f s), s)"
  by (simp add: reads_def)

lemma modify_run [act_simps, simp]: "modify f s = (Inr (), f s)"
  by (simp add: modify_def)

lemma bind_run [act_simps]:
  "bind_act m f s = (case m s of (Inl e, s') \<Rightarrow> (Inl e, s') | (Inr x, s') \<Rightarrow> f x s')"
  by (simp add: bind_act_def)

lemma bind_Inr [simp]: "m s = (Inr x, s') \<Longrightarrow> bind_act m f s = f x s'"
  by (simp add: bind_act_def)

lemma bind_Inl [simp]: "m s = (Inl e, s') \<Longrightarrow> bind_act m f s = (Inl e, s')"
  by (simp add: bind_act_def)

lemma bind_ok_iff:
  "bind_act m f s = (Inr y, s'') \<longleftrightarrow> (\<exists>x s'. m s = (Inr x, s') \<and> f x s' = (Inr y, s''))"
  by (auto simp: bind_act_def split: prod.splits sum.splits)

lemma bind_okE:
  assumes "bind_act m f s = (Inr y, s'')"
  obtains x s' where "m s = (Inr x, s')" and "f x s' = (Inr y, s'')"
  using assms by (auto simp: bind_ok_iff)

lemma bind_assoc: "bind_act (bind_act m f) g = bind_act m (\<lambda>x. bind_act (f x) g)"
  by (rule ext) (auto simp: bind_act_def split: prod.splits sum.splits)

lemma ret_ok_iff: "ret x s = (Inr y, s') \<longleftrightarrow> y = x \<and> s' = s"
  by auto

lemma raise_ok_iff: "raise e s = (Inr y, s') \<longleftrightarrow> False"
  by auto

lemma raise_if_run [act_simps]: "raise_if b e s = (if b then (Inl e, s) else (Inr (), s))"
  by (simp add: raise_if_def)

lemma raise_if_ok_iff: "raise_if b e s = (Inr u, s') \<longleftrightarrow> \<not> b \<and> s' = s"
  by (auto simp: raise_if_def)

lemma when_act_run [act_simps]: "when_act b m s = (if b then m s else (Inr (), s))"
  by (simp add: when_act_def)

lemma on_error_run [act_simps]:
  "on_error m h s = (case m s of (Inl e, s') \<Rightarrow> (Inl e, h e s') | (Inr x, s') \<Rightarrow> (Inr x, s'))"
  by (simp add: on_error_def)

lemma on_error_ok_iff: "on_error m h s = (Inr x, s') \<longleftrightarrow> m s = (Inr x, s')"
  by (auto simp: on_error_def split: prod.splits sum.splits)

lemmas ok_simps = bind_ok_iff ret_ok_iff raise_ok_iff raise_if_ok_iff on_error_ok_iff

text \<open>A run known by its result: the form in which a concrete run is handed to a lemma.\<close>

lemma run_of_fst: "fst (m s) = r \<Longrightarrow> m s = (r, snd (m s))"
  by (metis prod.collapse)

subsection \<open>Invariants of computations\<close>

text \<open>
  \<open>keeps I m\<close>: from a state with \<open>I\<close>, the computation leaves a state with \<open>I\<close>, whether it
  returns or raises.
\<close>

definition keeps :: "('s \<Rightarrow> bool) \<Rightarrow> ('s, 'a) act \<Rightarrow> bool" where
  "keeps I m \<longleftrightarrow> (\<forall>s r s'. I s \<longrightarrow> m s = (r, s') \<longrightarrow> I s')"

lemma keepsI: "(\<And>s r s'. I s \<Longrightarrow> m s = (r, s') \<Longrightarrow> I s') \<Longrightarrow> keeps I m"
  by (auto simp: keeps_def)

lemma keepsD: "keeps I m \<Longrightarrow> I s \<Longrightarrow> m s = (r, s') \<Longrightarrow> I s'"
  by (auto simp: keeps_def)

lemma keeps_ret [pres_intros]: "keeps I (ret x)"
  by (auto simp: keeps_def)

lemma keeps_raise [pres_intros]: "keeps I (raise e)"
  by (auto simp: keeps_def)

lemma keeps_reads [pres_intros]: "keeps I (reads f)"
  by (auto simp: keeps_def)

lemma keeps_raise_if [pres_intros]: "keeps I (raise_if b e)"
  by (auto simp: keeps_def raise_if_run split: if_splits)

lemma keeps_modify: "(\<And>s. I s \<Longrightarrow> I (f s)) \<Longrightarrow> keeps I (modify f)"
  by (auto simp: keeps_def)

lemma keeps_bind [pres_intros]:
  assumes "keeps I m" and "\<And>x. keeps I (f x)"
  shows "keeps I (bind_act m f)"
proof (rule keepsI)
  fix s r s'
  assume I: "I s" and run: "bind_act m f s = (r, s')"
  obtain q t where m: "m s = (q, t)" by fastforce
  have "I t" using keepsD [OF assms(1) I m] .
  then show "I s'" using run m keepsD [OF assms(2)]
    by (cases q) (auto simp: bind_act_def)
qed

lemma keeps_when [pres_intros]: "keeps I m \<Longrightarrow> keeps I (when_act b m)"
  by (auto simp: when_act_def keeps_ret)

lemma keeps_if [pres_intros]:
  "keeps I m \<Longrightarrow> keeps I n \<Longrightarrow> keeps I (if b then m else n)"
  by auto

lemma keeps_case_prod: "(\<And>a b. keeps I (f a b)) \<Longrightarrow> keeps I (case p of (a, b) \<Rightarrow> f a b)"
  by (cases p) simp

lemma keeps_fold_act [pres_intros]:
  "(\<And>x b. keeps I (f x b)) \<Longrightarrow> keeps I (fold_act f xs b)"
  by (induction xs arbitrary: b) (auto intro: keeps_ret keeps_bind)

section \<open>Python lists\<close>

text \<open>\<open>xs[i]\<close>: a negative index counts from the end; \<open>None\<close> is \<open>IndexError\<close>.\<close>

definition py_index :: "'a list \<Rightarrow> int \<Rightarrow> nat option" where
  "py_index xs i =
     (if 0 \<le> i \<and> i < int (length xs) then Some (nat i)
      else if - int (length xs) \<le> i \<and> i < 0 then Some (nat (int (length xs) + i))
      else None)"

lemma py_index_bound: "py_index xs i = Some k \<Longrightarrow> k < length xs"
  by (auto simp: py_index_def split: if_splits)

lemma py_index_in_range [simp]:
  "0 \<le> i \<Longrightarrow> i < int (length xs) \<Longrightarrow> py_index xs i = Some (nat i)"
  by (simp add: py_index_def)

text \<open>Deleting the first element that satisfies a condition (\<open>del queue[i]; break\<close>).\<close>

fun remove_first :: "('a \<Rightarrow> bool) \<Rightarrow> 'a list \<Rightarrow> 'a list" where
  "remove_first P [] = []"
| "remove_first P (x # xs) = (if P x then xs else x # remove_first P xs)"

lemma set_remove_first_subset: "set (remove_first P xs) \<subseteq> set xs"
  by (induction xs) auto

lemma remove_first_key:
  "distinct (map f xs) \<Longrightarrow> remove_first (\<lambda>x. f x = k) xs = filter (\<lambda>x. f x \<noteq> k) xs"
proof (induction xs)
  case Nil
  then show ?case by simp
next
  case (Cons x xs)
  show ?case
  proof (cases "f x = k")
    case True
    with Cons.prems have "\<forall>y \<in> set xs. f y \<noteq> k" by (metis image_eqI distinct.simps(2) list.map(2) set_map)
    with True show ?thesis by (simp add: filter_id_conv)
  next
    case False
    with Cons show ?thesis by simp
  qed
qed

text \<open>\<open>:x IS NULL OR column = :x\<close>: an absent filter selects every row.\<close>

definition opt_eq :: "'a option \<Rightarrow> 'a \<Rightarrow> bool" where
  "opt_eq f s = (case f of None \<Rightarrow> True | Some t \<Rightarrow> s = t)"

section \<open>Tables\<close>

definition update_where :: "('r \<Rightarrow> bool) \<Rightarrow> ('r \<Rightarrow> 'r) \<Rightarrow> 'r list \<Rightarrow> 'r list" where
  "update_where P f rows = map (\<lambda>r. if P r then f r else r) rows"

text \<open>
  One \<open>UPDATE\<close> statement on the table \<open>tab\<close> (\<open>put\<close> writes it back): \<open>ck\<close> is the table's
  constraints, the result is the rows written (\<open>RETURNING\<close>; its length is \<open>rowcount\<close>).
\<close>

definition sql_update ::
  "string \<Rightarrow> ('r \<Rightarrow> bool) \<Rightarrow> ('d \<Rightarrow> 'r list) \<Rightarrow> (('r list \<Rightarrow> 'r list) \<Rightarrow> 'd \<Rightarrow> 'd) \<Rightarrow>
   ('r \<Rightarrow> bool) \<Rightarrow> ('r \<Rightarrow> 'r) \<Rightarrow> ('d, 'r list) act" where
  "sql_update name ck tab put P f = (\<lambda>d.
     let written = map f (filter P (tab d)) in
     if list_all ck written then (Inr written, put (update_where P f) d)
     else (Inl (DBError name), d))"

text \<open>One \<open>INSERT\<close>: \<open>clash\<close> is the table's unique keys compared with an existing row.\<close>

definition sql_insert ::
  "string \<Rightarrow> ('r \<Rightarrow> bool) \<Rightarrow> ('r \<Rightarrow> 'r \<Rightarrow> bool) \<Rightarrow> ('d \<Rightarrow> 'r list) \<Rightarrow>
   (('r list \<Rightarrow> 'r list) \<Rightarrow> 'd \<Rightarrow> 'd) \<Rightarrow> 'r \<Rightarrow> ('d, unit) act" where
  "sql_insert name ck clash tab put row = (\<lambda>d.
     if ck row \<and> \<not> list_ex (clash row) (tab d) then (Inr (), put (\<lambda>rows. rows @ [row]) d)
     else (Inl (DBError name), d))"

text \<open>
  \<open>INSERT ... ON CONFLICT (key) DO UPDATE SET ...\<close>: the row proposed for insertion is
  checked before the conflict is looked for, as PostgreSQL does.
\<close>

definition sql_upsert ::
  "string \<Rightarrow> ('r \<Rightarrow> bool) \<Rightarrow> ('d \<Rightarrow> 'r list) \<Rightarrow> (('r list \<Rightarrow> 'r list) \<Rightarrow> 'd \<Rightarrow> 'd) \<Rightarrow>
   ('r \<Rightarrow> bool) \<Rightarrow> 'r \<Rightarrow> ('r \<Rightarrow> 'r) \<Rightarrow> ('d, unit) act" where
  "sql_upsert name ck tab put K row f = (\<lambda>d.
     if \<not> ck row then (Inl (DBError name), d)
     else if list_ex K (tab d) then
       (if list_all ck (map f (filter K (tab d))) then (Inr (), put (update_where K f) d)
        else (Inl (DBError name), d))
     else (Inr (), put (\<lambda>rows. rows @ [row]) d))"

lemma sql_update_ok_iff:
  "sql_update name ck tab put P f d = (Inr rs, d') \<longleftrightarrow>
     (\<forall>r \<in> set (tab d). P r \<longrightarrow> ck (f r)) \<and> rs = map f (filter P (tab d)) \<and>
     d' = put (update_where P f) d"
  by (auto simp: sql_update_def Let_def list_all_iff)

lemma sql_insert_ok_iff:
  "sql_insert name ck clash tab put row d = (Inr u, d') \<longleftrightarrow>
     ck row \<and> (\<forall>r \<in> set (tab d). \<not> clash row r) \<and> d' = put (\<lambda>rows. rows @ [row]) d"
  by (auto simp: sql_insert_def list_ex_iff)

lemma sql_upsert_ok_iff:
  "sql_upsert name ck tab put K row f d = (Inr u, d') \<longleftrightarrow>
     ck row \<and>
     (if \<exists>r \<in> set (tab d). K r
      then (\<forall>r \<in> set (tab d). K r \<longrightarrow> ck (f r)) \<and> d' = put (update_where K f) d
      else d' = put (\<lambda>rows. rows @ [row]) d)"
  by (auto simp: sql_upsert_def list_ex_iff list_all_iff)

lemma update_where_Nil [simp]: "update_where P f [] = []"
  by (simp add: update_where_def)

lemma update_where_Cons [simp]:
  "update_where P f (r # rows) = (if P r then f r else r) # update_where P f rows"
  by (simp add: update_where_def)

lemma length_update_where [simp]: "length (update_where P f rows) = length rows"
  by (simp add: update_where_def)

lemma update_where_id [simp]: "(\<And>r. r \<in> set rows \<Longrightarrow> \<not> P r) \<Longrightarrow> update_where P f rows = rows"
  by (auto simp: update_where_def intro: map_idI)

lemma map_update_where:
  "(\<And>r. P r \<Longrightarrow> k (f r) = k r) \<Longrightarrow> map k (update_where P f rows) = map k rows"
  by (auto simp: update_where_def)

lemma image_update_where:
  assumes "\<And>r. P r \<Longrightarrow> k (f r) = k r"
  shows "k ` set (update_where P f rows) = k ` set rows"
  using map_update_where [of P k f rows] assms by (metis set_map)

lemma set_update_where:
  "set (update_where P f rows) = f ` {r \<in> set rows. P r} \<union> {r \<in> set rows. \<not> P r}"
  by (auto simp: update_where_def)

lemma list_all_update_where:
  "list_all ck rows \<Longrightarrow> (\<forall>r \<in> set rows. P r \<longrightarrow> ck (f r)) \<Longrightarrow> list_all ck (update_where P f rows)"
  by (auto simp: list_all_iff set_update_where)

subsection \<open>Column sums\<close>

text \<open>\<open>SUM(g) FROM rows\<close>; every conservation law is about such a sum.\<close>

definition col_sum :: "('r \<Rightarrow> int) \<Rightarrow> 'r list \<Rightarrow> int" where
  "col_sum g rows = sum_list (map g rows)"

lemma col_sum_Nil [simp]: "col_sum g [] = 0"
  by (simp add: col_sum_def)

lemma col_sum_Cons [simp]: "col_sum g (r # rows) = g r + col_sum g rows"
  by (simp add: col_sum_def)

lemma col_sum_append [simp]: "col_sum g (xs @ ys) = col_sum g xs + col_sum g ys"
  by (simp add: col_sum_def)

lemma col_sum_add: "col_sum (\<lambda>r. g r + h r) rows = col_sum g rows + col_sum h rows"
  by (induction rows) auto

lemma col_sum_cong: "(\<And>r. r \<in> set rows \<Longrightarrow> g r = h r) \<Longrightarrow> col_sum g rows = col_sum h rows"
  by (induction rows) auto

lemma col_sum_zero: "(\<And>r. r \<in> set rows \<Longrightarrow> g r = 0) \<Longrightarrow> col_sum g rows = 0"
  by (induction rows) auto

lemma col_sum_nonneg: "(\<And>r. r \<in> set rows \<Longrightarrow> 0 \<le> g r) \<Longrightarrow> 0 \<le> col_sum g rows"
  by (induction rows) auto

lemma col_sum_update_same:
  "(\<And>r. P r \<Longrightarrow> g (f r) = g r) \<Longrightarrow> col_sum g (update_where P f rows) = col_sum g rows"
  by (induction rows) auto

lemma col_sum_update_shift:
  assumes "\<And>r. P r \<Longrightarrow> g (f r) = g r + c"
  shows "col_sum g (update_where P f rows) = col_sum g rows + c * int (length (filter P rows))"
  using assms by (induction rows) (auto simp: algebra_simps)

text \<open>Rows with a unique key: at most one row has the key, and exactly one if it is there.\<close>

lemma length_filter_key:
  "distinct (map k rows) \<Longrightarrow>
   length (filter (\<lambda>r. k r = x) rows) = (if x \<in> k ` set rows then 1 else 0)"
proof (induction rows)
  case Nil
  then show ?case by simp
next
  case (Cons r rows)
  then show ?case by (cases "k r = x") auto
qed

lemma col_sum_update_key:
  assumes "distinct (map k rows)" and "x \<in> k ` set rows"
    and "\<And>r. k r = x \<Longrightarrow> g (f r) = g r + c"
  shows "col_sum g (update_where (\<lambda>r. k r = x) f rows) = col_sum g rows + c"
  using col_sum_update_shift [of "\<lambda>r. k r = x" g f c rows] assms
  by (simp add: length_filter_key)

text \<open>The first row of a \<open>SELECT\<close> with no order on a unique key (\<open>fetchone()\<close>).\<close>

definition lookup_row :: "('r \<Rightarrow> bool) \<Rightarrow> 'r list \<Rightarrow> 'r option" where
  "lookup_row P rows = find P rows"

lemma lookup_row_Nil [simp]: "lookup_row P [] = None"
  by (simp add: lookup_row_def)

lemma lookup_row_Cons [simp]:
  "lookup_row P (r # rows) = (if P r then Some r else lookup_row P rows)"
  by (simp add: lookup_row_def)

lemma lookup_row_None_iff: "lookup_row P rows = None \<longleftrightarrow> (\<forall>r \<in> set rows. \<not> P r)"
  by (induction rows) auto

lemma lookup_row_SomeD: "lookup_row P rows = Some r \<Longrightarrow> r \<in> set rows \<and> P r"
  by (induction rows) (auto split: if_splits)

lemma lookup_row_append:
  "lookup_row P (xs @ ys) = (case lookup_row P xs of None \<Rightarrow> lookup_row P ys | Some r \<Rightarrow> Some r)"
  by (induction xs) auto

lemma lookup_row_key:
  "distinct (map k rows) \<Longrightarrow> r \<in> set rows \<Longrightarrow> lookup_row (\<lambda>r'. k r' = k r) rows = Some r"
  by (induction rows) (auto simp: image_iff)

lemma lookup_row_update_key:
  "(\<And>r. k (f r) = k r) \<Longrightarrow>
   lookup_row (\<lambda>r. k r = y) (update_where (\<lambda>r. k r = x) f rows) =
     (if y = x then map_option f (lookup_row (\<lambda>r. k r = y) rows)
      else lookup_row (\<lambda>r. k r = y) rows)"
  by (induction rows) auto

text \<open>The same with a condition besides the key in the \<open>WHERE\<close> clause.\<close>

lemma lookup_row_update_guarded:
  "(\<And>r. k (f r) = k r) \<Longrightarrow>
   lookup_row (\<lambda>r. k r = y) (update_where (\<lambda>r. k r = x \<and> Q r) f rows) =
     (if y = x then map_option (\<lambda>r. if Q r then f r else r) (lookup_row (\<lambda>r. k r = y) rows)
      else lookup_row (\<lambda>r. k r = y) rows)"
  by (induction rows) auto

lemma filter_key_lookup:
  "distinct (map k rows) \<Longrightarrow>
   filter (\<lambda>r. k r = x \<and> Q r) rows =
     (case lookup_row (\<lambda>r. k r = x) rows of None \<Rightarrow> [] | Some r \<Rightarrow> if Q r then [r] else [])"
proof (induction rows)
  case Nil
  then show ?case by simp
next
  case (Cons a rows)
  show ?case
  proof (cases "k a = x")
    case True
    with Cons.prems have none: "k r \<noteq> x" if "r \<in> set rows" for r
      using that by (auto simp: image_iff)
    then have "filter (\<lambda>r. k r = x \<and> Q r) rows = []" by (simp add: filter_empty_conv)
    with True show ?thesis by simp
  next
    case False
    with Cons show ?thesis by simp
  qed
qed

lemmas filter_key_lookup_all = filter_key_lookup [where Q = "\<lambda>_. True", simplified]

text \<open>
  \<open>col_sum_key_split\<close>: a keyed sum is the row's share plus the rest, the form in which an
  update at one key is read off.
\<close>

lemma col_sum_key_split:
  assumes "distinct (map k rows)" and "lookup_row (\<lambda>r. k r = x) rows = Some r"
  shows "col_sum g rows = g r + col_sum g (filter (\<lambda>r. k r \<noteq> x) rows)"
  using assms
proof (induction rows)
  case Nil
  then show ?case by simp
next
  case (Cons a rows)
  show ?case
  proof (cases "k a = x")
    case True
    with Cons.prems have "\<forall>b \<in> set rows. k b \<noteq> x" and "a = r"
      by (metis image_eqI distinct.simps(2) list.map(2) set_map, simp)
    then have "filter (\<lambda>r. k r \<noteq> x) rows = rows" by (simp add: filter_id_conv)
    with True \<open>a = r\<close> show ?thesis by simp
  next
    case False
    with Cons show ?thesis by simp
  qed
qed

subsection \<open>Frame rules of statements\<close>

text \<open>A statement on one table keeps every property of the state that writing that table keeps.\<close>

lemma keeps_sql_update [pres_intros]:
  assumes "\<And>d. I d \<Longrightarrow> (\<forall>r \<in> set (tab d). P r \<longrightarrow> ck (f r)) \<Longrightarrow> I (put (update_where P f) d)"
  shows "keeps I (sql_update name ck tab put P f)"
  using assms by (auto simp: keeps_def sql_update_def Let_def list_all_iff split: if_splits)

lemma keeps_sql_insert [pres_intros]:
  assumes "\<And>d. I d \<Longrightarrow> ck row \<Longrightarrow> (\<forall>r \<in> set (tab d). \<not> clash row r) \<Longrightarrow>
             I (put (\<lambda>rows. rows @ [row]) d)"
  shows "keeps I (sql_insert name ck clash tab put row)"
  using assms by (auto simp: keeps_def sql_insert_def list_ex_iff split: if_splits)

lemma keeps_sql_upsert [pres_intros]:
  assumes "\<And>d. I d \<Longrightarrow> (\<forall>r \<in> set (tab d). K r \<longrightarrow> ck (f r)) \<Longrightarrow> I (put (update_where K f) d)"
    and "\<And>d. I d \<Longrightarrow> ck row \<Longrightarrow> (\<forall>r \<in> set (tab d). \<not> K r) \<Longrightarrow> I (put (\<lambda>rows. rows @ [row]) d)"
  shows "keeps I (sql_upsert name ck tab put K row f)"
  using assms by (auto simp: keeps_def sql_upsert_def list_ex_iff list_all_iff split: if_splits)

end
