(* ===== verification/Cursors.thy ===== *)
theory Cursors
  imports Numerals_Py
begin

text \<open>
  The opaque cursors of the ledger's pages: \<open>cursor_encode\<close> of
  \<open>pm_account/application/schemas.py\<close> with \<open>base64.b64encode\<close> written out, and a decoder of
  the cursors it issues, which shows that two positions never share a cursor.
\<close>

section \<open>Base64\<close>

definition b64_alphabet :: string where
  "b64_alphabet = ''ABCDEFGHIJKLMNOPQRSTUVWXYZabcdefghijklmnopqrstuvwxyz0123456789+/''"

definition b64_char :: "nat \<Rightarrow> char" where
  "b64_char n = b64_alphabet ! n"

definition b64_val :: "char \<Rightarrow> nat" where
  "b64_val c = length (takeWhile (\<lambda>x. x \<noteq> c) b64_alphabet)"

text \<open>Three bytes become four characters of the alphabet; the last group is padded.\<close>

fun b64encode :: "string \<Rightarrow> string" where
  "b64encode [] = []"
| "b64encode [a] =
     (let x = of_char a :: nat in
      [b64_char (x div 4), b64_char ((x mod 4) * 16), CHR ''='', CHR ''=''])"
| "b64encode [a, b] =
     (let x = of_char a :: nat; y = of_char b in
      [b64_char (x div 4), b64_char ((x mod 4) * 16 + y div 16), b64_char ((y mod 16) * 4), CHR ''=''])"
| "b64encode (a # b # c # s) =
     (let x = of_char a :: nat; y = of_char b; z = of_char c in
      b64_char (x div 4) # b64_char ((x mod 4) * 16 + y div 16) #
      b64_char ((y mod 16) * 4 + z div 64) # b64_char (z mod 64) # b64encode s)"

fun b64decode :: "string \<Rightarrow> string option" where
  "b64decode [] = Some []"
| "b64decode (p # q # r # t # s) =
     (let x = b64_val p * 4 + b64_val q div 16; y = (b64_val q mod 16) * 16 + b64_val r div 4;
          z = (b64_val r mod 4) * 64 + b64_val t in
      if r = CHR ''='' then Some [char_of x]
      else if t = CHR ''='' then Some [char_of x, char_of y]
      else map_option (\<lambda>rest. char_of x # char_of y # char_of z # rest) (b64decode s))"
| "b64decode _ = None"

lemma b64_table: "\<forall>n \<in> set [0..<64]. b64_val (b64_char n) = n \<and> b64_char n \<noteq> CHR ''=''"
  by code_simp

lemma b64_val_char [simp]: "n < 64 \<Longrightarrow> b64_val (b64_char n) = n"
  using b64_table by simp

lemma b64_char_no_pad [simp]: "n < 64 \<Longrightarrow> b64_char n \<noteq> CHR ''=''"
  using b64_table by simp

lemma of_char_lt_256: "(of_char c :: nat) < 256"
  by (rule nat_of_char_less_256)

text \<open>The six-bit groups of three bytes, and the bytes read back from them.\<close>

lemma two_digits:
  assumes "(c :: nat) < m"
  shows "(b * m + c) div m = b" "(b * m + c) mod m = c"
  using assms by simp_all

lemma two_digits_less:
  assumes "(b :: nat) < k" and "c < m"
  shows "b * m + c < k * m"
proof -
  have "Suc b * m \<le> k * m" using assms(1) by (intro mult_right_mono) simp_all
  then show ?thesis using assms(2) by simp
qed

lemma b64_groups:
  fixes x y z :: nat
  assumes "x < 256" and "y < 256" and "z < 256"
  shows "x div 4 < 64" "(x mod 4) * 16 + y div 16 < 64" "(y mod 16) * 4 + z div 64 < 64"
    "z mod 64 < 64" "(x mod 4) * 16 < 64" "(y mod 16) * 4 < 64"
proof -
  have d: "x div 4 < 64" "y div 16 < 16" "z div 64 < 4"
    using assms by (simp_all add: less_mult_imp_div_less)
  then show "x div 4 < 64" by simp
  show "(x mod 4) * 16 + y div 16 < 64" using two_digits_less [of "x mod 4" 4 "y div 16" 16] d by simp
  show "(y mod 16) * 4 + z div 64 < 64" using two_digits_less [of "y mod 16" 16 "z div 64" 4] d by simp
  show "z mod 64 < 64" by simp
  show "(x mod 4) * 16 < 64" using two_digits_less [of "x mod 4" 4 0 16] by simp
  show "(y mod 16) * 4 < 64" using two_digits_less [of "y mod 16" 16 0 4] by simp
qed

lemma b64_bytes:
  fixes x y z :: nat
  assumes "y < 256" and "z < 256"
  shows "(x div 4) * 4 + ((x mod 4) * 16 + y div 16) div 16 = x"
    "(((x mod 4) * 16 + y div 16) mod 16) * 16 + ((y mod 16) * 4 + z div 64) div 4 = y"
    "(((y mod 16) * 4 + z div 64) mod 4) * 64 + z mod 64 = z"
proof -
  have d: "y div 16 < 16" "z div 64 < 4" using assms by (simp_all add: less_mult_imp_div_less)
  show "(x div 4) * 4 + ((x mod 4) * 16 + y div 16) div 16 = x"
    by (simp only: two_digits [OF d(1)]) (simp add: div_mult_mod_eq)
  show "(((x mod 4) * 16 + y div 16) mod 16) * 16 + ((y mod 16) * 4 + z div 64) div 4 = y"
    by (simp only: two_digits [OF d(1)] two_digits [OF d(2)]) (simp add: div_mult_mod_eq)
  show "(((y mod 16) * 4 + z div 64) mod 4) * 64 + z mod 64 = z"
    by (simp only: two_digits [OF d(2)]) (simp add: div_mult_mod_eq)
qed

lemma b64_roundtrip [simp]: "b64decode (b64encode s) = Some s"
proof (induction s rule: b64encode.induct)
  case (2 a)
  have "(0 :: nat) < 256" by simp
  then show ?case
    using b64_groups [OF of_char_lt_256 [of a], of 0 0] b64_bytes(1) [of 0 0 "of_char a"]
    by (simp add: Let_def)
next
  case (3 a b)
  show ?case
    using b64_groups [OF of_char_lt_256 [of a] of_char_lt_256 [of b], of 0]
      b64_bytes(1) [OF of_char_lt_256 [of b], of 0 "of_char a"] b64_bytes(2) [OF of_char_lt_256 [of b], of 0]
    by (simp add: Let_def del: mod_mult_self3 mod_mult_self4 div_mult_self3 div_mult_self4)
next
  case (4 a b c s)
  then show ?case
    using b64_groups [OF of_char_lt_256 [of a] of_char_lt_256 [of b] of_char_lt_256 [of c]]
      b64_bytes(1) [OF of_char_lt_256 [of b] of_char_lt_256 [of c], of "of_char a"]
      b64_bytes(2,3) [OF of_char_lt_256 [of b] of_char_lt_256 [of c]]
    by (simp add: Let_def del: mod_mult_self3 mod_mult_self4 div_mult_self3 div_mult_self4)
qed simp

section \<open>Cursors\<close>

text \<open>\<open>json.dumps({"id": last_id})\<close>, encoded.\<close>

definition cursor_encode :: "int \<Rightarrow> string" where
  "cursor_encode last_id =
     b64encode ((CHR 0x7B) # CHR 0x22 # ''id'' @ CHR 0x22 # '': '' @ show_int last_id @ [CHR 0x7D])"

text \<open>What a reader of an issued cursor gets: the number between the label and the brace.\<close>

definition read_int :: "string \<Rightarrow> int" where
  "read_int s = (case s of [] \<Rightarrow> 0 | c # t \<Rightarrow> if c = CHR ''-'' then - int (dec_val t) else int (dec_val s))"

definition issued_cursor_id :: "string \<Rightarrow> int option" where
  "issued_cursor_id s = map_option (\<lambda>t. read_int (butlast (drop 7 t))) (b64decode s)"

lemma read_int_show [simp]: "read_int (show_int i) = i"
proof (cases "i < 0")
  case True
  then show ?thesis by (simp add: read_int_def show_int_def)
next
  case False
  then obtain c t where s: "show_nat (nat i) = c # t" by (cases "show_nat (nat i)") auto
  then have "is_digit c" using show_nat_digits [of c "nat i"] by simp
  then have "c \<noteq> CHR ''-''" by auto
  then show ?thesis
    using False s dec_val_show_nat [of "nat i"] by (simp add: read_int_def show_int_def)
qed

lemma issued_cursor_roundtrip [simp]: "issued_cursor_id (cursor_encode i) = Some i"
  by (simp add: issued_cursor_id_def cursor_encode_def)

text \<open>An issued cursor determines the ledger entry it stands for: decoding the Base64 of the
  cursor and reading the number gives the id it was made from, so no two ids share a cursor.\<close>

theorem cursor_roundtrip:
  "issued_cursor_id (cursor_encode i) = Some i \<and> (cursor_encode i = cursor_encode j \<longleftrightarrow> i = j)"
  by (metis issued_cursor_roundtrip option.inject)

end
