(* ===== verification/Ids.thy ===== *)
theory Ids
  imports Cursors
begin

text \<open>
  The generator of business identifiers, \<open>pm_common/id_generator.py\<close>: a millisecond clock, a
  machine number and a sequence number within the millisecond, packed in one integer and
  printed in decimal. The clock is the sequence of readings \<open>clk\<close>, of which \<open>n\<close> have been used;
  waiting for the next millisecond reads until the clock has moved, so a call can fail to
  return, which is \<open>None\<close>.
\<close>

definition EPOCH_MS :: int where "EPOCH_MS = 1700000000000"
definition MACHINE_BITS :: nat where "MACHINE_BITS = 10"
definition SEQUENCE_BITS :: nat where "SEQUENCE_BITS = 12"
definition MAX_SEQUENCE :: int where "MAX_SEQUENCE = push_bit SEQUENCE_BITS 1 - 1"

record snowflake =
  machine_id :: int
  seq_no :: int
  last_timestamp_ms :: int

definition SnowflakeIdGenerator :: "int \<Rightarrow> exc + snowflake" where
  "SnowflakeIdGenerator machine =
     (if 0 \<le> machine \<and> machine < push_bit MACHINE_BITS 1
      then Inr \<lparr>machine_id = machine, seq_no = 0, last_timestamp_ms = - 1\<rparr>
      else Inl (ValueError (''machine_id must be 0-'' @ show_int (push_bit MACHINE_BITS 1 - 1))))"

partial_function (option) wait_next_ms :: "(nat \<Rightarrow> int) \<Rightarrow> int \<Rightarrow> nat \<Rightarrow> (int \<times> nat) option" where
  "wait_next_ms clk last_ts n =
     (if clk n \<le> last_ts then wait_next_ms clk last_ts (Suc n) else Some (clk n, Suc n))"

definition id_int :: "int \<Rightarrow> int \<Rightarrow> int \<Rightarrow> int" where
  "id_int ts machine sq =
     or (or (push_bit (MACHINE_BITS + SEQUENCE_BITS) (ts - EPOCH_MS)) (push_bit SEQUENCE_BITS machine)) sq"

definition next_id :: "(nat \<Rightarrow> int) \<Rightarrow> snowflake \<Rightarrow> nat \<Rightarrow> (string \<times> snowflake \<times> nat) option" where
  "next_id clk g n =
     (let ts = clk n;
          issue = (\<lambda>ts sq n. Some (show_int (id_int ts (machine_id g) sq),
                     g\<lparr>seq_no := sq, last_timestamp_ms := ts\<rparr>, n)) in
      if ts = last_timestamp_ms g then
        (let sq = and (seq_no g + 1) MAX_SEQUENCE in
         if sq = 0 then (case wait_next_ms clk ts (Suc n) of None \<Rightarrow> None | Some (ts', n') \<Rightarrow> issue ts' sq n')
         else issue ts sq (Suc n))
      else issue ts 0 (Suc n))"

text \<open>The first \<open>k\<close> identifiers that a generator gives from a reading on.\<close>

fun next_ids :: "nat \<Rightarrow> (nat \<Rightarrow> int) \<Rightarrow> snowflake \<Rightarrow> nat \<Rightarrow> string list option" where
  "next_ids 0 clk g n = Some []"
| "next_ids (Suc k) clk g n =
     (case next_id clk g n of
        None \<Rightarrow> None
      | Some (i, g', n') \<Rightarrow> map_option ((#) i) (next_ids k clk g' n'))"

section \<open>The layout\<close>

lemma or_packed:
  assumes "0 \<le> b" and "b < 2 ^ k"
  shows "or (push_bit k a) b = push_bit k a + (b :: int)"
proof -
  have "take_bit k b = b" using assms by (rule take_bit_int_eq_self)
  then have low: "bit b i \<Longrightarrow> i < k" for i using bit_take_bit_iff [of k b i] by simp
  have "and (push_bit k a) b = 0"
    by (rule bit_eqI) (auto simp: bit_and_iff bit_push_bit_iff_int dest: low)
  then show ?thesis by (simp add: disjunctive_add_eq_or)
qed

lemma id_int_sum:
  assumes "0 \<le> machine" and "machine < 1024" and "0 \<le> sq" and "sq < 4096"
  shows "id_int ts machine sq = (ts - EPOCH_MS) * 4194304 + machine * 4096 + sq"
proof -
  have "or (push_bit 22 (ts - EPOCH_MS)) (push_bit 12 machine) =
      push_bit 12 (or (push_bit 10 (ts - EPOCH_MS)) machine)"
    by (simp add: push_bit_or)
  also have "\<dots> = push_bit 12 (push_bit 10 (ts - EPOCH_MS) + machine)"
    using or_packed [of machine 10] assms by simp
  finally have inner: "or (push_bit 22 (ts - EPOCH_MS)) (push_bit 12 machine) =
      push_bit 12 (push_bit 10 (ts - EPOCH_MS) + machine)" .
  have "id_int ts machine sq = or (or (push_bit 22 (ts - EPOCH_MS)) (push_bit 12 machine)) sq"
    by (simp add: id_int_def MACHINE_BITS_def SEQUENCE_BITS_def)
  also have "\<dots> = push_bit 12 (push_bit 10 (ts - EPOCH_MS) + machine) + sq"
    unfolding inner by (rule or_packed) (use assms in simp_all)
  finally show ?thesis by (simp add: push_bit_eq_mult algebra_simps)
qed

section \<open>Identifiers increase while the clock does not go back\<close>

definition gen_ok :: "snowflake \<Rightarrow> bool" where
  "gen_ok g \<longleftrightarrow> 0 \<le> machine_id g \<and> machine_id g < 1024 \<and> 0 \<le> seq_no g \<and> seq_no g < 4096"

definition last_id :: "snowflake \<Rightarrow> int" where
  "last_id g = (last_timestamp_ms g - EPOCH_MS) * 4194304 + machine_id g * 4096 + seq_no g"

definition never_back :: "(nat \<Rightarrow> int) \<Rightarrow> bool" where
  "never_back clk \<longleftrightarrow> (\<forall>i j. i \<le> j \<longrightarrow> clk i \<le> clk j)"

definition moves_on :: "(nat \<Rightarrow> int) \<Rightarrow> bool" where
  "moves_on clk \<longleftrightarrow> (\<forall>t. \<exists>i. t < clk i)"

lemma wait_returns:
  assumes "never_back clk" and "moves_on clk"
  shows "\<exists>m. n < m \<and> last_ts < clk (m - 1) \<and> wait_next_ms clk last_ts n = Some (clk (m - 1), m)"
proof -
  obtain i where i: "last_ts < clk i" using assms(2) by (auto simp: moves_on_def)
  show ?thesis
  proof (induction "Suc i - n" arbitrary: n)
    case 0
    then have "i \<le> n" by simp
    then have "last_ts < clk n" using i assms(1) unfolding never_back_def by (metis less_le_trans)
    then show ?case by (intro exI [of _ "Suc n"]) (simp add: wait_next_ms.simps)
  next
    case (Suc k)
    show ?case
    proof (cases "clk n \<le> last_ts")
      case False
      then show ?thesis by (intro exI [of _ "Suc n"]) (simp add: wait_next_ms.simps)
    next
      case True
      have "k = Suc i - Suc n" using Suc.hyps(2) by simp
      from Suc.hyps(1) [OF this] obtain m where
        "Suc n < m" "last_ts < clk (m - 1)" "wait_next_ms clk last_ts (Suc n) = Some (clk (m - 1), m)" by blast
      with True show ?thesis by (intro exI [of _ m]) (simp add: wait_next_ms.simps [of clk last_ts n])
    qed
  qed
qed

lemma next_sequence:
  assumes "0 \<le> s" and "s < 4096"
  shows "and (s + 1) MAX_SEQUENCE = (if s = 4095 then 0 else s + 1)"
proof -
  have mask: "MAX_SEQUENCE = mask 12" by (simp add: MAX_SEQUENCE_def SEQUENCE_BITS_def mask_eq_exp_minus_1 push_bit_eq_mult)
  have "and (s + 1) MAX_SEQUENCE = (s + 1) mod 4096"
    unfolding mask by (simp add: take_bit_eq_mask [symmetric] take_bit_eq_mod)
  then show ?thesis using assms by (simp add: mod_pos_pos_trivial)
qed

text \<open>One call: it returns, and what it returns is above the identifier before.\<close>

lemma next_id_increases:
  assumes "never_back clk" and "moves_on clk" and "gen_ok g" and "last_timestamp_ms g \<le> clk n"
  shows "\<exists>g' n'. next_id clk g n = Some (show_int (last_id g'), g', n') \<and> last_id g < last_id g' \<and>
    gen_ok g' \<and> last_timestamp_ms g' \<le> clk n'"
proof -
  have issue: "id_int ts (machine_id g) sq = last_id (g\<lparr>seq_no := sq, last_timestamp_ms := ts\<rparr>)"
    if "0 \<le> sq" "sq < 4096" for ts sq
    using that assms(3) by (simp add: id_int_sum gen_ok_def last_id_def)
  have later: "last_id g < last_id (g\<lparr>seq_no := 0, last_timestamp_ms := ts\<rparr>)" if "last_timestamp_ms g < ts" for ts
    using that assms(3) by (simp add: last_id_def gen_ok_def)
  have mono: "clk i \<le> clk j" if "i \<le> j" for i j using that assms(1) by (simp add: never_back_def)
  show ?thesis
  proof (cases "clk n = last_timestamp_ms g")
    case False
    then have "last_timestamp_ms g < clk n" using assms(4) by simp
    with False issue [of 0 "clk n"] later [of "clk n"] assms(3) mono [of n "Suc n"] show ?thesis
      by (simp add: next_id_def gen_ok_def Let_def)
  next
    case same: True
    show ?thesis
    proof (cases "seq_no g = 4095")
      case False
      then have sq: "and (seq_no g + 1) MAX_SEQUENCE = seq_no g + 1" "0 \<le> seq_no g + 1" "seq_no g + 1 < 4096"
        using next_sequence [of "seq_no g"] assms(3) by (simp_all add: gen_ok_def)
      with same issue [of "seq_no g + 1" "clk n"] assms(3) mono [of n "Suc n"] show ?thesis
        by (simp add: next_id_def gen_ok_def last_id_def Let_def)
    next
      case True
      then have "and (seq_no g + 1) MAX_SEQUENCE = 0" using next_sequence [of "seq_no g"] by simp
      moreover obtain m where m: "Suc n < m" "clk n < clk (m - 1)"
        "wait_next_ms clk (clk n) (Suc n) = Some (clk (m - 1), m)"
        using wait_returns [OF assms(1,2)] by blast
      ultimately show ?thesis
        using same issue [of 0 "clk (m - 1)"] later [of "clk (m - 1)"] assms(3) mono [of "m - 1" m]
        by (simp add: next_id_def gen_ok_def Let_def)
    qed
  qed
qed

lemma next_ids_increase:
  assumes "never_back clk" and "moves_on clk" and "gen_ok g" and "last_timestamp_ms g \<le> clk n"
  shows "\<exists>ids. next_ids k clk g n = Some ids \<and> length ids = k \<and>
    sorted_wrt (<) (last_id g # map read_int ids)"
  using assms(3,4)
proof (induction k arbitrary: g n)
  case 0
  then show ?case by simp
next
  case (Suc k)
  obtain g' n' where step: "next_id clk g n = Some (show_int (last_id g'), g', n')" "last_id g < last_id g'"
    and ok: "gen_ok g'" "last_timestamp_ms g' \<le> clk n'"
    using next_id_increases [OF assms(1,2) Suc.prems] by blast
  from Suc.IH [OF ok] obtain ids where "next_ids k clk g' n' = Some ids" "length ids = k"
    "sorted_wrt (<) (last_id g' # map read_int ids)" by blast
  with step show ?case by (intro exI [of _ "show_int (last_id g') # ids"]) auto
qed

text \<open>Claim C26. As long as the clock does not go back and goes on, the generator always returns and its
  identifiers, read as numbers, are strictly increasing, across milliseconds, within one, and when
  the 4096 numbers of a millisecond run out; so no identifier is given twice.\<close>

theorem snowflake_ids_increase:
  assumes "never_back clk" and "moves_on clk" and "0 \<le> clk 0"
    and "SnowflakeIdGenerator machine = Inr g"
  shows "\<exists>ids. next_ids k clk g 0 = Some ids \<and> length ids = k \<and>
    sorted_wrt (<) (map read_int ids) \<and> distinct ids"
proof -
  have g: "g = \<lparr>machine_id = machine, seq_no = 0, last_timestamp_ms = - 1\<rparr>" "0 \<le> machine" "machine < 1024"
    using assms(4) by (simp_all add: SnowflakeIdGenerator_def MACHINE_BITS_def push_bit_eq_mult split: if_splits)
  then have "gen_ok g" "last_timestamp_ms g \<le> clk 0" using assms(3) by (simp_all add: gen_ok_def)
  from next_ids_increase [OF assms(1,2) this] obtain ids where ids: "next_ids k clk g 0 = Some ids" "length ids = k"
    "sorted_wrt (<) (last_id g # map read_int ids)" by blast
  then have "sorted_wrt (<) (map read_int ids)" by simp
  moreover from this have "distinct ids" by (metis distinct_map strict_sorted_iff)
  ultimately show ?thesis using ids by blast
qed

theorem snowflake_ids_increase_witness:
  "\<exists>ids. next_ids 5000 (\<lambda>n. 1700000000000 + int n div 5000) \<lparr>machine_id = 3, seq_no = 0, last_timestamp_ms = - 1\<rparr> 0 =
     Some ids \<and> length ids = 5000 \<and> distinct ids"
proof -
  have "never_back (\<lambda>n. 1700000000000 + int n div 5000)" by (auto simp: never_back_def intro: zdiv_mono1)
  moreover have "moves_on (\<lambda>n. 1700000000000 + int n div 5000)"
    unfolding moves_on_def
  proof
    fix t :: int
    have "t \<le> int (nat t)" by simp
    then have "t < 1700000000000 + int (5000 * nat t) div 5000" by simp
    then show "\<exists>i. t < 1700000000000 + int i div 5000" ..
  qed
  moreover have "SnowflakeIdGenerator 3 = Inr \<lparr>machine_id = 3, seq_no = 0, last_timestamp_ms = - 1\<rparr>" by code_simp
  ultimately show ?thesis
    using snowflake_ids_increase [of "\<lambda>n. 1700000000000 + int n div 5000" 3 _ 5000] by force
qed

text \<open>When the clock goes back, the generator gives the same identifier again: it remembers only
  the last millisecond, and returns to sequence number zero on any other.\<close>

theorem snowflake_repeats_after_setback:
  "\<exists>i j. i \<noteq> j \<and>
     next_ids 3 (\<lambda>n. if n = 1 then EPOCH_MS + 4 else EPOCH_MS + 5)
       \<lparr>machine_id = 0, seq_no = 0, last_timestamp_ms = - 1\<rparr> 0 = Some [i, j, i]"
proof (intro exI conjI)
  let ?i = "show_int (id_int (EPOCH_MS + 5) 0 0)" and ?j = "show_int (id_int (EPOCH_MS + 4) 0 0)"
  show "?i \<noteq> ?j" by (simp add: show_int_inj id_int_sum)
  show "next_ids 3 (\<lambda>n. if n = 1 then EPOCH_MS + 4 else EPOCH_MS + 5)
       \<lparr>machine_id = 0, seq_no = 0, last_timestamp_ms = - 1\<rparr> 0 = Some [?i, ?j, ?i]"
    by (simp add: next_id_def Let_def EPOCH_MS_def eval_nat_numeral)
qed

end
