(* ===== verification/Domain.thy ===== *)
theory Domain
  imports Numerals_Py
begin

text \<open>
  The data every component shares: the enumerations of \<open>pm_common/enums.py\<close>, the
  dataclasses of the order, matching and account modules, and the error classes of
  \<open>pm_common/errors.py\<close>.

  The dataclasses hold enumeration values as strings, and a new \<open>Order\<close> carries the
  empty string in the fields that \<open>transform_order\<close> and \<open>check_and_freeze\<close> fill in; the
  constructors named \<open>UNSET_...\<close> are that empty string. Instants are integers.
\<close>

section \<open>Enumerations\<close>

datatype market_status = DRAFT | ACTIVE | SUSPENDED | HALTED | RESOLVED | SETTLED | VOIDED

datatype book_type = NATIVE_BUY | NATIVE_SELL | SYNTHETIC_BUY | SYNTHETIC_SELL | UNSET_BOOK_TYPE

datatype trade_scenario = MINT | TRANSFER_YES | TRANSFER_NO | BURN

datatype frozen_asset = FUNDS | YES_SHARES | NO_SHARES | UNSET_ASSET

datatype side = YES | NO

datatype direction = BUY | SELL | UNSET_DIRECTION

datatype time_in_force = GTC | IOC

datatype order_status = NEW | OPEN | PARTIALLY_FILLED | FILLED | CANCELLED | REJECTED

datatype ledger_entry_type =
    DEPOSIT | WITHDRAW
  | ORDER_FREEZE | ORDER_UNFREEZE
  | MINT_COST | MINT_RESERVE_IN
  | BURN_REVENUE | BURN_RESERVE_OUT
  | TRANSFER_PAYMENT | TRANSFER_RECEIPT
  | NETTING | NETTING_RESERVE_OUT
  | FEE | FEE_REVENUE
  | SETTLEMENT_PAYOUT | SETTLEMENT_VOID

datatype resolution_result = RES_YES | RES_NO | RES_VOID

datatype wal_event_type =
  ORDER_ACCEPTED | ORDER_MATCHED | ORDER_PARTIALLY_FILLED | ORDER_CANCELLED | ORDER_EXPIRED

section \<open>Orders and trades\<close>

record order =
  ord_id :: string
  client_order_id :: string
  ord_market_id :: string
  ord_user_id :: string
  original_side :: side
  original_direction :: direction
  original_price :: int
  book_type :: book_type
  book_direction :: direction
  book_price :: int
  quantity :: int
  frozen_amount :: int
  frozen_asset_type :: frozen_asset
  time_in_force :: time_in_force
  ord_status :: order_status
  cancel_reason :: "string option"
  filled_quantity :: int
  remaining_quantity :: int
  ord_created_at :: "int option"
  ord_updated_at :: "int option"

text \<open>\<open>__post_init__\<close>: the remaining quantity is derived whenever an \<open>Order\<close> is built.\<close>

definition order_post_init :: "order \<Rightarrow> order" where
  "order_post_init o1 = o1\<lparr>remaining_quantity := quantity o1 - filled_quantity o1\<rparr>"

definition is_active :: "order \<Rightarrow> bool" where
  "is_active o1 \<longleftrightarrow> ord_status o1 \<in> {OPEN, PARTIALLY_FILLED}"

definition is_cancellable :: "order \<Rightarrow> bool" where
  "is_cancellable o1 \<longleftrightarrow> ord_status o1 \<in> {OPEN, PARTIALLY_FILLED}"

record book_order =
  bo_order_id :: string
  bo_user_id :: string
  bo_book_type :: book_type
  bo_quantity :: int
  bo_created_at :: int

record trade_result =
  buy_order_id :: string
  sell_order_id :: string
  buy_user_id :: string
  sell_user_id :: string
  tr_market_id :: string
  tr_price :: int
  tr_quantity :: int
  buy_book_type :: book_type
  sell_book_type :: book_type
  buy_original_price :: int
  maker_order_id :: string
  taker_order_id :: string

section \<open>Error classes\<close>

definition UsernameExistsError :: exc where
  "UsernameExistsError = AppError 1001 ''Username already exists'' 409"

definition EmailExistsError :: exc where
  "EmailExistsError = AppError 1002 ''Email already exists'' 409"

definition InvalidCredentialsError :: exc where
  "InvalidCredentialsError = AppError 1003 ''Invalid username or password'' 401"

definition AccountDisabledError :: exc where
  "AccountDisabledError = AppError 1004 ''Account is disabled'' 422"

definition InvalidRefreshTokenError :: exc where
  "InvalidRefreshTokenError = AppError 1005 ''Refresh token is invalid or expired'' 401"

definition InsufficientBalanceError :: "int \<Rightarrow> int \<Rightarrow> exc" where
  "InsufficientBalanceError required available =
     AppError 2001 (''Insufficient balance: required '' @ show_int required @
       '' cents, available '' @ show_int available @ '' cents'') 422"

definition AccountFrozenError :: "string \<Rightarrow> exc" where
  "AccountFrozenError user_id = AppError 2002 (''Account is frozen for user '' @ user_id) 422"

definition MarketNotFoundError :: "string \<Rightarrow> exc" where
  "MarketNotFoundError market_id = AppError 3001 (''Market not found: '' @ market_id) 404"

definition MarketNotActiveError :: "string \<Rightarrow> exc" where
  "MarketNotActiveError market_id = AppError 3002 (''Market is not active: '' @ market_id) 422"

definition MarketStateInvalidForResolutionError :: "string \<Rightarrow> exc" where
  "MarketStateInvalidForResolutionError market_id =
     AppError 3003 (''Market state does not allow resolution: '' @ market_id) 422"

definition InvalidResolutionResultError :: "string \<Rightarrow> exc" where
  "InvalidResolutionResultError result = AppError 3004 (''Invalid resolution result: '' @ result) 422"

definition PriceOutOfRangeError :: "int \<Rightarrow> exc" where
  "PriceOutOfRangeError price = AppError 4001 (''Price out of range: '' @ show_int price) 422"

definition OrderLimitExceededError :: "string \<Rightarrow> exc" where
  "OrderLimitExceededError detail = AppError 4002 (''Order limit exceeded: '' @ detail) 422"

definition SelfTradeError :: exc where
  "SelfTradeError = AppError 4003 ''Self-trade prevented'' 422"

definition OrderNotFoundError :: "string \<Rightarrow> exc" where
  "OrderNotFoundError oid = AppError 4004 (''Order not found: '' @ oid) 404"

definition DuplicateOrderError :: "string \<Rightarrow> exc" where
  "DuplicateOrderError coid = AppError 4005 (''Duplicate client_order_id: '' @ coid) 409"

definition OrderNotCancellableError :: "string \<Rightarrow> string \<Rightarrow> exc" where
  "OrderNotCancellableError oid status =
     AppError 4006 (''Order '' @ oid @ '' in status '' @ status @ '' cannot be cancelled'') 422"

definition InsufficientPositionError :: "string \<Rightarrow> exc" where
  "InsufficientPositionError detail = AppError 5001 (''Insufficient position: '' @ detail) 422"

definition RateLimitError :: exc where
  "RateLimitError = AppError 9001 ''Rate limit exceeded'' 429"

definition InternalError :: "string \<Rightarrow> exc" where
  "InternalError detail = AppError 9002 detail 500"

lemma AppError_classes [simp]:
  "InsufficientBalanceError r a \<noteq> DBError t"
  "InsufficientPositionError d \<noteq> DBError t"
  "MarketNotFoundError m \<noteq> MarketNotActiveError m'"
  by (simp_all add: InsufficientBalanceError_def InsufficientPositionError_def
      MarketNotFoundError_def MarketNotActiveError_def)

end
