(* ===== verification/Order_Book.thy ===== *)
theory Order_Book
  imports Domain
begin

text \<open>
  The in-memory order book of one market, \<open>pm_matching/engine/order_book.py\<close>: a hundred
  queues a side, indexed by price in cents, the best price a side (0 and 100 stand for an
  empty side), and the index from order id to side and price. Then its invariant, which
  every operation keeps, and the contract \<open>book_contract\<close> that the engine relies on: adding
  and cancelling as operations on the set of resting orders.
\<close>

record order_book =
  ob_market_id :: string
  bids :: "book_order list list"
  asks :: "book_order list list"
  best_bid :: int
  best_ask :: int
  order_index :: "string \<Rightarrow> (direction \<times> int) option"

definition OrderBook :: "string \<Rightarrow> order_book" where
  "OrderBook m = \<lparr>ob_market_id = m, bids = replicate 100 [], asks = replicate 100 [],
     best_bid = 0, best_ask = 100, order_index = (\<lambda>_. None)\<rparr>"

definition refresh_best_bid :: "order_book \<Rightarrow> order_book" where
  "refresh_best_bid ob =
     (case find (\<lambda>p. bids ob ! p \<noteq> []) (rev [1..<100]) of
        Some p \<Rightarrow> ob\<lparr>best_bid := int p\<rparr>
      | None \<Rightarrow> ob\<lparr>best_bid := 0\<rparr>)"

definition refresh_best_ask :: "order_book \<Rightarrow> order_book" where
  "refresh_best_ask ob =
     (case find (\<lambda>p. asks ob ! p \<noteq> []) [1..<100] of
        Some p \<Rightarrow> ob\<lparr>best_ask := int p\<rparr>
      | None \<Rightarrow> ob\<lparr>best_ask := 100\<rparr>)"

definition add_order :: "book_order \<Rightarrow> int \<Rightarrow> direction \<Rightarrow> (order_book, unit) act" where
  "add_order bo price sd = (\<lambda>ob.
     if sd = BUY then
       (case py_index (bids ob) price of
          None \<Rightarrow> (Inl IndexError, ob)
        | Some k \<Rightarrow>
            let ob1 = ob\<lparr>bids := (bids ob)[k := bids ob ! k @ [bo]]\<rparr>;
                ob2 = (if best_bid ob1 < price then ob1\<lparr>best_bid := price\<rparr> else ob1)
            in (Inr (), ob2\<lparr>order_index := (order_index ob2)(bo_order_id bo \<mapsto> (sd, price))\<rparr>))
     else
       (case py_index (asks ob) price of
          None \<Rightarrow> (Inl IndexError, ob)
        | Some k \<Rightarrow>
            let ob1 = ob\<lparr>asks := (asks ob)[k := asks ob ! k @ [bo]]\<rparr>;
                ob2 = (if price < best_ask ob1 then ob1\<lparr>best_ask := price\<rparr> else ob1)
            in (Inr (), ob2\<lparr>order_index := (order_index ob2)(bo_order_id bo \<mapsto> (sd, price))\<rparr>)))"

definition book_cancel :: "string \<Rightarrow> (order_book, unit) act" where
  "book_cancel oid = (\<lambda>ob.
     case order_index ob oid of
       None \<Rightarrow> (Inr (), ob)
     | Some (sd, price) \<Rightarrow>
         let ob1 = ob\<lparr>order_index := (order_index ob)(oid := None)\<rparr> in
         (case py_index (if sd = BUY then bids ob1 else asks ob1) price of
            None \<Rightarrow> (Inl IndexError, ob1)
          | Some k \<Rightarrow>
              let ob2 = (if sd = BUY
                    then ob1\<lparr>bids := (bids ob1)[k := remove_first (\<lambda>bo. bo_order_id bo = oid) (bids ob1 ! k)]\<rparr>
                    else ob1\<lparr>asks := (asks ob1)[k := remove_first (\<lambda>bo. bo_order_id bo = oid) (asks ob1 ! k)]\<rparr>)
              in (Inr (), if sd = BUY \<and> price = best_bid ob2 then refresh_best_bid ob2
                          else if sd = SELL \<and> price = best_ask ob2 then refresh_best_ask ob2
                          else ob2)))"

section \<open>Invariant\<close>

definition side_of :: "order_book \<Rightarrow> direction \<Rightarrow> book_order list list" where
  "side_of ob sd = (if sd = BUY then bids ob else asks ob)"

definition level :: "order_book \<Rightarrow> direction \<Rightarrow> int \<Rightarrow> book_order list" where
  "level ob sd p = side_of ob sd ! nat p"

definition is_best_bid :: "book_order list list \<Rightarrow> int \<Rightarrow> bool" where
  "is_best_bid qs b \<longleftrightarrow> 0 \<le> b \<and> b < 100 \<and> (b \<noteq> 0 \<longrightarrow> qs ! nat b \<noteq> []) \<and>
     (\<forall>p. b < int p \<and> p < 100 \<longrightarrow> qs ! p = [])"

definition is_best_ask :: "book_order list list \<Rightarrow> int \<Rightarrow> bool" where
  "is_best_ask qs a \<longleftrightarrow> 0 < a \<and> a \<le> 100 \<and> (a \<noteq> 100 \<longrightarrow> qs ! nat a \<noteq> []) \<and>
     (\<forall>p. 0 < p \<and> int p < a \<longrightarrow> qs ! p = [])"

text \<open>The queues of one side: prices 1 to 99 only, no empty or duplicate entries.\<close>

definition queues_ok :: "book_order list list \<Rightarrow> bool" where
  "queues_ok qs \<longleftrightarrow> length qs = 100 \<and> qs ! 0 = [] \<and>
     (\<forall>p < 100. distinct (map bo_order_id (qs ! p)) \<and> (\<forall>bo \<in> set (qs ! p). 0 < bo_quantity bo))"

definition index_ok :: "order_book \<Rightarrow> bool" where
  "index_ok ob \<longleftrightarrow> (\<forall>oid sd p. order_index ob oid = Some (sd, p) \<longleftrightarrow>
     sd \<noteq> UNSET_DIRECTION \<and> 0 < p \<and> p < 100 \<and> oid \<in> bo_order_id ` set (level ob sd p))"

definition ob_inv :: "order_book \<Rightarrow> bool" where
  "ob_inv ob \<longleftrightarrow> queues_ok (bids ob) \<and> queues_ok (asks ob) \<and>
     is_best_bid (bids ob) (best_bid ob) \<and> is_best_ask (asks ob) (best_ask ob) \<and> index_ok ob"

lemma OrderBook_inv: "ob_inv (OrderBook m)"
  by (auto simp: ob_inv_def OrderBook_def queues_ok_def is_best_bid_def is_best_ask_def
      index_ok_def level_def side_of_def nth_replicate)

lemma find_SomeD: "find P xs = Some x \<Longrightarrow> x \<in> set xs \<and> P x"
  by (auto simp: find_Some_iff)

lemma find_rev_upt:
  "find P (rev [1..<n]) = Some b \<Longrightarrow> b \<in> {1..<n} \<and> P b \<and> (\<forall>p. b < p \<and> p < n \<longrightarrow> \<not> P p)"
  by (induction n) (auto split: if_splits simp: less_Suc_eq)

lemma find_upt_first:
  assumes "find P [1..<n] = Some a"
  shows "a \<in> {1..<n} \<and> P a \<and> (\<forall>p. 0 < p \<and> p < a \<longrightarrow> \<not> P p)"
proof -
  from assms obtain i where i: "i < length [1..<n]" "P ([1..<n] ! i)" "a = [1..<n] ! i"
    and before: "\<forall>j<i. \<not> P ([1..<n] ! j)"
    by (auto simp: find_Some_iff)
  then have a: "a = Suc i" by simp
  have "\<not> P p" if "0 < p" "p < a" for p
    using before [rule_format, of "p - 1"] i(1) that a by simp
  with i a show ?thesis by auto
qed

lemma refresh_best_bid_frame [simp]:
  "bids (refresh_best_bid ob) = bids ob" "asks (refresh_best_bid ob) = asks ob"
  "best_ask (refresh_best_bid ob) = best_ask ob" "order_index (refresh_best_bid ob) = order_index ob"
  "ob_market_id (refresh_best_bid ob) = ob_market_id ob"
  by (auto simp: refresh_best_bid_def split: option.splits)

lemma refresh_best_ask_frame [simp]:
  "bids (refresh_best_ask ob) = bids ob" "asks (refresh_best_ask ob) = asks ob"
  "best_bid (refresh_best_ask ob) = best_bid ob" "order_index (refresh_best_ask ob) = order_index ob"
  "ob_market_id (refresh_best_ask ob) = ob_market_id ob"
  by (auto simp: refresh_best_ask_def split: option.splits)

lemma refresh_best_bid_is_best: "is_best_bid (bids ob) (best_bid (refresh_best_bid ob))"
proof (cases "find (\<lambda>p. bids ob ! p \<noteq> []) (rev [1..<100])")
  case None
  then have "\<forall>p. 0 < p \<and> p < 100 \<longrightarrow> bids ob ! p = []" by (auto simp: find_None_iff)
  then show ?thesis using None by (auto simp: refresh_best_bid_def is_best_bid_def)
next
  case (Some b)
  from find_rev_upt [OF this] Some show ?thesis
    by (auto simp: refresh_best_bid_def is_best_bid_def)
qed

lemma refresh_best_ask_is_best: "is_best_ask (asks ob) (best_ask (refresh_best_ask ob))"
proof (cases "find (\<lambda>p. asks ob ! p \<noteq> []) [1..<100]")
  case None
  then have "\<forall>p. 0 < p \<and> p < 100 \<longrightarrow> asks ob ! p = []" by (auto simp: find_None_iff)
  then show ?thesis using None by (auto simp: refresh_best_ask_def is_best_ask_def)
next
  case (Some a)
  from find_upt_first [OF this] Some show ?thesis
    by (auto simp: refresh_best_ask_def is_best_ask_def)
qed

lemma queues_ok_length: "queues_ok qs \<Longrightarrow> length qs = 100"
  by (simp add: queues_ok_def)

lemma queues_ok_update:
  assumes "queues_ok qs" and "0 < k" and "distinct (map bo_order_id q)"
    and "\<forall>bo \<in> set q. 0 < bo_quantity bo"
  shows "queues_ok (qs[k := q])"
proof (cases "k < 100")
  case True
  show ?thesis
    unfolding queues_ok_def
  proof (intro conjI allI impI)
    fix p :: nat
    assume "p < 100"
    then have "distinct (map bo_order_id (qs[k := q] ! p)) \<and>
        (\<forall>bo \<in> set (qs[k := q] ! p). 0 < bo_quantity bo)"
      using assms True by (cases "p = k") (simp_all add: queues_ok_def)
    then show "distinct (map bo_order_id (qs[k := q] ! p))"
      and "\<forall>bo \<in> set (qs[k := q] ! p). 0 < bo_quantity bo" by simp_all
  qed (use assms in \<open>simp_all add: queues_ok_def\<close>)
next
  case False
  then show ?thesis using assms by (simp add: queues_ok_def)
qed

text \<open>The new best price after one level has grown, or has changed without becoming empty.\<close>

lemma is_best_bid_add:
  assumes "is_best_bid qs b" and "length qs = 100" and "0 < p" and "p < 100"
  shows "is_best_bid (qs[nat p := q @ [x]]) (if b < p then p else b)"
  using assms by (auto simp: is_best_bid_def nth_list_update)

lemma is_best_ask_add:
  assumes "is_best_ask qs a" and "length qs = 100" and "0 < p" and "p < 100"
  shows "is_best_ask (qs[nat p := q @ [x]]) (if p < a then p else a)"
  using assms by (auto simp: is_best_ask_def nth_list_update)

lemma is_best_bid_keep:
  assumes "is_best_bid qs b" and "k < length qs" and "length qs = 100"
    and "q \<noteq> [] \<or> int k \<noteq> b" and "q = [] \<or> qs ! k \<noteq> []"
  shows "is_best_bid (qs[k := q]) b"
  using assms by (auto simp: is_best_bid_def nth_list_update)

lemma is_best_ask_keep:
  assumes "is_best_ask qs a" and "k < length qs" and "length qs = 100"
    and "q \<noteq> [] \<or> int k \<noteq> a" and "q = [] \<or> qs ! k \<noteq> []"
  shows "is_best_ask (qs[k := q]) a"
  using assms by (auto simp: is_best_ask_def nth_list_update)

section \<open>Resting orders and the contract of the book\<close>

definition resting :: "order_book \<Rightarrow> (direction \<times> int \<times> book_order) set" where
  "resting ob = {(sd, p, bo). sd \<noteq> UNSET_DIRECTION \<and> 0 < p \<and> p < 100 \<and> bo \<in> set (level ob sd p)}"

definition entry_id :: "direction \<times> int \<times> book_order \<Rightarrow> string" where
  "entry_id e = bo_order_id (snd (snd e))"

lemma direction_cases: "sd \<noteq> UNSET_DIRECTION \<longleftrightarrow> sd = BUY \<or> sd = SELL"
  by (cases sd) auto

lemma index_ok_Some:
  "index_ok ob \<Longrightarrow> order_index ob oid = Some (sd, p) \<longleftrightarrow>
     (\<exists>bo. (sd, p, bo) \<in> resting ob \<and> bo_order_id bo = oid)"
  by (auto simp: index_ok_def resting_def)

lemma index_ok_None:
  assumes "index_ok ob"
  shows "order_index ob oid = None \<longleftrightarrow> oid \<notin> entry_id ` resting ob"
proof
  assume none: "order_index ob oid = None"
  show "oid \<notin> entry_id ` resting ob"
  proof
    assume "oid \<in> entry_id ` resting ob"
    then obtain sd p bo where "(sd, p, bo) \<in> resting ob" "bo_order_id bo = oid"
      by (auto simp: entry_id_def)
    with index_ok_Some [OF assms] none show False by (metis option.simps(3))
  qed
next
  assume no: "oid \<notin> entry_id ` resting ob"
  show "order_index ob oid = None"
  proof (rule ccontr)
    assume "order_index ob oid \<noteq> None"
    then obtain sd p where "order_index ob oid = Some (sd, p)" by auto
    with index_ok_Some [OF assms] obtain bo where "(sd, p, bo) \<in> resting ob" "bo_order_id bo = oid"
      by blast
    then have "oid \<in> entry_id ` resting ob" by (force simp: entry_id_def)
    with no show False ..
  qed
qed

lemma resting_unique:
  assumes "ob_inv ob" and "(sd, p, bo) \<in> resting ob" and "(sd', p', bo') \<in> resting ob"
    and "bo_order_id bo = bo_order_id bo'"
  shows "sd' = sd \<and> p' = p \<and> bo' = bo"
proof -
  have idx: "index_ok ob" using assms(1) by (simp add: ob_inv_def)
  have "order_index ob (bo_order_id bo) = Some (sd, p)"
    using index_ok_Some [OF idx] assms(2) by blast
  moreover have "order_index ob (bo_order_id bo) = Some (sd', p')"
    using index_ok_Some [OF idx] assms(3,4) by metis
  ultimately have same: "sd' = sd" "p' = p" by simp_all
  have "0 < p" "p < 100" using assms(2) by (simp_all add: resting_def)
  then have "nat p < 100" by simp
  then have "distinct (map bo_order_id (level ob sd p))"
    using assms(1) by (auto simp: ob_inv_def queues_ok_def level_def side_of_def)
  moreover have "bo \<in> set (level ob sd p)" "bo' \<in> set (level ob sd p)"
    using assms(2,3) same by (simp_all add: resting_def)
  ultimately have "bo' = bo" using assms(4) by (metis distinct_map inj_onD)
  with same show ?thesis by simp
qed

lemma level_ok:
  assumes "ob_inv ob" and "0 < p" and "p < 100"
  shows "distinct (map bo_order_id (level ob sd p))" "b \<in> set (level ob sd p) \<Longrightarrow> 0 < bo_quantity b"
proof -
  have "nat p < 100" using assms by simp
  then have "distinct (map bo_order_id (level ob sd p)) \<and> (\<forall>b \<in> set (level ob sd p). 0 < bo_quantity b)"
    using assms by (auto simp: ob_inv_def queues_ok_def level_def side_of_def)
  then show "distinct (map bo_order_id (level ob sd p))"
    "b \<in> set (level ob sd p) \<Longrightarrow> 0 < bo_quantity b" by auto
qed

text \<open>Replacing the queue of one price: what it does to the resting orders.\<close>

definition put_level :: "direction \<Rightarrow> int \<Rightarrow> book_order list \<Rightarrow> order_book \<Rightarrow> order_book" where
  "put_level sd p q ob =
     (if sd = BUY then ob\<lparr>bids := (bids ob)[nat p := q]\<rparr> else ob\<lparr>asks := (asks ob)[nat p := q]\<rparr>)"

lemma level_put_level:
  assumes "length (bids ob) = 100" and "length (asks ob) = 100"
    and "0 < p" and "p < 100" and "0 < p'" and "sd \<in> {BUY, SELL}" and "sd' \<in> {BUY, SELL}"
  shows "level (put_level sd p q ob) sd' p' = (if sd' = sd \<and> p' = p then q else level ob sd' p')"
proof (cases "nat p' = nat p")
  case True
  then have "p' = p" using assms by simp
  then show ?thesis using assms by (auto simp: level_def side_of_def put_level_def)
next
  case False
  then have "p' \<noteq> p" by auto
  with False show ?thesis by (auto simp: level_def side_of_def put_level_def)
qed

lemma resting_put_level:
  assumes "length (bids ob) = 100" and "length (asks ob) = 100"
    and "0 < p" and "p < 100" and "sd \<in> {BUY, SELL}"
  shows "resting (put_level sd p q ob) =
         {e \<in> resting ob. (fst e, fst (snd e)) \<noteq> (sd, p)} \<union> (\<lambda>bo. (sd, p, bo)) ` set q"
proof (rule set_eqI)
  fix e :: "direction \<times> int \<times> book_order"
  obtain sd' p' bo where e: "e = (sd', p', bo)" by (cases e)
  show "e \<in> resting (put_level sd p q ob) \<longleftrightarrow>
        e \<in> {e \<in> resting ob. (fst e, fst (snd e)) \<noteq> (sd, p)} \<union> (\<lambda>bo. (sd, p, bo)) ` set q"
  proof (cases "sd' \<noteq> UNSET_DIRECTION \<and> 0 < p' \<and> p' < 100")
    case True
    then have "sd' \<in> {BUY, SELL}" by (cases sd') auto
    with True level_put_level [OF assms(1-4) _ assms(5), of p' sd' q] show ?thesis
      by (auto simp: e resting_def)
  next
    case False
    with assms show ?thesis by (auto simp: e resting_def)
  qed
qed

text \<open>\<open>index_ok\<close> from the same change made to the index.\<close>

lemma index_okI:
  assumes "\<And>oid sd p. order_index ob oid = Some (sd, p) \<longleftrightarrow>
    (\<exists>bo. (sd, p, bo) \<in> resting ob \<and> bo_order_id bo = oid)"
  shows "index_ok ob"
  unfolding index_ok_def assms by (auto simp: resting_def)

lemma resting_cong:
  "bids ob' = bids ob \<Longrightarrow> asks ob' = asks ob \<Longrightarrow> resting ob' = resting ob"
  by (auto simp: resting_def level_def side_of_def)

lemma ob_inv_lengths: "ob_inv ob \<Longrightarrow> length (bids ob) = 100 \<and> length (asks ob) = 100"
  by (simp add: ob_inv_def queues_ok_def)

lemma add_order_result:
  assumes "length (bids ob) = 100" and "length (asks ob) = 100" and "0 < p" and "p < 100"
    and "sd \<in> {BUY, SELL}"
  shows "add_order bo p sd ob =
    (Inr (), (put_level sd p (level ob sd p @ [bo]) ob)
       \<lparr>best_bid := if sd = BUY \<and> best_bid ob < p then p else best_bid ob,
        best_ask := if sd = SELL \<and> p < best_ask ob then p else best_ask ob,
        order_index := (order_index ob)(bo_order_id bo \<mapsto> (sd, p))\<rparr>)"
  using assms by (auto simp: add_order_def put_level_def level_def side_of_def Let_def)

text \<open>\<open>add_order\<close> with a fresh id and a positive quantity inserts the order and keeps the invariant.\<close>

lemma add_order_ok:
  assumes inv: "ob_inv ob" and p: "0 < p" "p < 100" and sd: "sd \<in> {BUY, SELL}"
    and qty: "0 < bo_quantity bo" and fresh: "bo_order_id bo \<notin> entry_id ` resting ob"
  obtains ob' where "add_order bo p sd ob = (Inr (), ob')" and "ob_inv ob'"
    and "resting ob' = insert (sd, p, bo) (resting ob)" and "ob_market_id ob' = ob_market_id ob"
proof -
  note len = ob_inv_lengths [OF inv]
  let ?q = "level ob sd p @ [bo]"
  define ob' where "ob' = (put_level sd p ?q ob)
       \<lparr>best_bid := if sd = BUY \<and> best_bid ob < p then p else best_bid ob,
        best_ask := if sd = SELL \<and> p < best_ask ob then p else best_ask ob,
        order_index := (order_index ob)(bo_order_id bo \<mapsto> (sd, p))\<rparr>"
  have run: "add_order bo p sd ob = (Inr (), ob')"
    using add_order_result [of ob p sd bo] len p sd by (simp add: ob'_def)
  have rest: "resting ob' = insert (sd, p, bo) (resting ob)"
  proof -
    have "resting ob' = resting (put_level sd p ?q ob)"
      by (rule resting_cong) (simp_all add: ob'_def)
    also have "\<dots> = insert (sd, p, bo) (resting ob)"
      using resting_put_level [of ob p sd ?q] len p sd by (auto simp: resting_def)
    finally show ?thesis .
  qed
  have idx: "index_ok ob'"
  proof (rule index_okI)
    fix oid sd' p'
    show "order_index ob' oid = Some (sd', p') \<longleftrightarrow>
        (\<exists>bo. (sd', p', bo) \<in> resting ob' \<and> bo_order_id bo = oid)"
    proof (cases "oid = bo_order_id bo")
      case True
      then have "\<not> (\<exists>b. (sd', p', b) \<in> resting ob \<and> bo_order_id b = oid)"
        using fresh by (force simp: entry_id_def)
      moreover have "order_index ob' oid = Some (sd, p)" using True by (simp add: ob'_def)
      ultimately show ?thesis using True by (auto simp: rest)
    next
      case False
      then have "order_index ob' oid = order_index ob oid" by (simp add: ob'_def)
      moreover have "index_ok ob" using inv by (simp add: ob_inv_def)
      ultimately show ?thesis using False index_ok_Some [of ob oid sd' p'] by (auto simp: rest)
    qed
  qed
  have nodup: "distinct (map bo_order_id ?q)" and pos: "\<forall>b \<in> set ?q. 0 < bo_quantity b"
  proof -
    note old = level_ok [OF inv p]
    have "bo_order_id bo \<notin> bo_order_id ` set (level ob sd p)"
    proof
      assume "bo_order_id bo \<in> bo_order_id ` set (level ob sd p)"
      then obtain b where "b \<in> set (level ob sd p)" "bo_order_id bo = bo_order_id b" by auto
      then have "(sd, p, b) \<in> resting ob" using p sd by (auto simp: resting_def)
      with \<open>bo_order_id bo = bo_order_id b\<close> fresh show False by (force simp: entry_id_def)
    qed
    then show "distinct (map bo_order_id ?q)" "\<forall>b \<in> set ?q. 0 < bo_quantity b"
      using qty old by auto
  qed
  have "ob_inv ob'"
  proof (cases "sd = BUY")
    case True
    then show ?thesis
      using inv idx queues_ok_update [of "bids ob" "nat p" ?q] nodup pos p
        is_best_bid_add [of "bids ob" "best_bid ob" p "level ob BUY p" bo] len
      by (simp add: ob_inv_def ob'_def put_level_def split: if_splits)
  next
    case False
    with sd have "sd = SELL" by simp
    then show ?thesis
      using inv idx queues_ok_update [of "asks ob" "nat p" ?q] nodup pos p
        is_best_ask_add [of "asks ob" "best_ask ob" p "level ob SELL p" bo] len
      by (simp add: ob_inv_def ob'_def put_level_def split: if_splits)
  qed
  then show thesis
    using that run rest by (simp add: ob'_def put_level_def)
qed

text \<open>\<open>cancel_order\<close> removes the order with that id, if it rests, and never raises.\<close>

definition cancelled_book :: "string \<Rightarrow> direction \<Rightarrow> int \<Rightarrow> order_book \<Rightarrow> order_book" where
  "cancelled_book oid sd p ob =
     (let ob1 = put_level sd p (filter (\<lambda>b. bo_order_id b \<noteq> oid) (level ob sd p))
                  (ob\<lparr>order_index := (order_index ob)(oid := None)\<rparr>)
      in if sd = BUY \<and> p = best_bid ob then refresh_best_bid ob1
         else if sd = SELL \<and> p = best_ask ob then refresh_best_ask ob1 else ob1)"

lemma cancelled_book_frame:
  "bids (cancelled_book oid sd p ob) =
     bids (put_level sd p (filter (\<lambda>b. bo_order_id b \<noteq> oid) (level ob sd p)) ob)"
  "asks (cancelled_book oid sd p ob) =
     asks (put_level sd p (filter (\<lambda>b. bo_order_id b \<noteq> oid) (level ob sd p)) ob)"
  "order_index (cancelled_book oid sd p ob) = (order_index ob)(oid := None)"
  "ob_market_id (cancelled_book oid sd p ob) = ob_market_id ob"
  by (simp_all add: cancelled_book_def put_level_def Let_def)

lemma book_cancel_result:
  assumes inv: "ob_inv ob" and idx: "order_index ob oid = Some (sd, p)"
  shows "book_cancel oid ob = (Inr (), cancelled_book oid sd p ob)"
proof -
  note len = ob_inv_lengths [OF inv]
  have sd: "sd \<in> {BUY, SELL}" and p: "0 < p" "p < 100"
    using inv idx by (auto simp: ob_inv_def index_ok_def direction_cases)
  note rem = remove_first_key [OF level_ok(1) [OF inv p, of sd], of oid]
  show ?thesis
    using sd p len idx rem
    by (auto simp: book_cancel_def cancelled_book_def put_level_def level_def side_of_def Let_def)
qed

lemma book_cancel_unknown: "order_index ob oid = None \<Longrightarrow> book_cancel oid ob = (Inr (), ob)"
  by (simp add: book_cancel_def)

lemma cancelled_book_resting:
  assumes inv: "ob_inv ob" and idx: "order_index ob oid = Some (sd, p)"
  shows "resting (cancelled_book oid sd p ob) = {e \<in> resting ob. entry_id e \<noteq> oid}"
proof -
  note len = ob_inv_lengths [OF inv]
  have ok: "index_ok ob" and sd: "sd \<in> {BUY, SELL}" and p: "0 < p" "p < 100"
    using inv idx by (auto simp: ob_inv_def index_ok_def direction_cases)
  have "resting (cancelled_book oid sd p ob) =
        resting (put_level sd p (filter (\<lambda>b. bo_order_id b \<noteq> oid) (level ob sd p)) ob)"
    by (rule resting_cong) (simp_all add: cancelled_book_frame)
  also have "\<dots> = {e \<in> resting ob. (fst e, fst (snd e)) \<noteq> (sd, p)} \<union>
      (\<lambda>bo. (sd, p, bo)) ` {b \<in> set (level ob sd p). bo_order_id b \<noteq> oid}"
    using resting_put_level [of ob p sd] len p sd by auto
  also have "\<dots> = {e \<in> resting ob. entry_id e \<noteq> oid}"
  proof -
    have "(sd', p') = (sd, p)" if "(sd', p', bo) \<in> resting ob" "bo_order_id bo = oid" for sd' p' bo
      using index_ok_Some [OF ok, of oid sd' p'] that idx by auto
    then show ?thesis
      using p sd by (auto simp: entry_id_def resting_def)
  qed
  finally show ?thesis .
qed

lemma cancelled_book_inv:
  assumes inv: "ob_inv ob" and idx: "order_index ob oid = Some (sd, p)"
  shows "ob_inv (cancelled_book oid sd p ob)"
proof -
  note len = ob_inv_lengths [OF inv]
  let ?q = "filter (\<lambda>b. bo_order_id b \<noteq> oid) (level ob sd p)"
  have ok: "index_ok ob" and sd: "sd = BUY \<or> sd = SELL" and p: "0 < p" "p < 100"
    and ne: "level ob sd p \<noteq> []"
    using inv idx by (auto simp: ob_inv_def index_ok_def direction_cases)
  have idx': "index_ok (cancelled_book oid sd p ob)"
  proof (rule index_okI)
    fix oid' sd' p'
    show "order_index (cancelled_book oid sd p ob) oid' = Some (sd', p') \<longleftrightarrow>
        (\<exists>bo. (sd', p', bo) \<in> resting (cancelled_book oid sd p ob) \<and> bo_order_id bo = oid')"
      using index_ok_Some [OF ok, of oid' sd' p']
      by (auto simp: cancelled_book_resting [OF inv idx] cancelled_book_frame entry_id_def)
  qed
  have q: "distinct (map bo_order_id ?q)" "\<forall>b \<in> set ?q. 0 < bo_quantity b"
    using level_ok [OF inv p] by (auto simp: distinct_map_filter)
  from sd show ?thesis
  proof
    assume sd: "sd = BUY"
    then have "bids ob ! nat p \<noteq> []" using ne by (simp add: level_def side_of_def)
    then have "is_best_bid ((bids ob)[nat p := ?q]) (best_bid ob)" if "p \<noteq> best_bid ob"
      using that inv p len by (intro is_best_bid_keep) (auto simp: ob_inv_def)
    then have "is_best_bid (bids (cancelled_book oid sd p ob)) (best_bid (cancelled_book oid sd p ob))"
      using sd refresh_best_bid_is_best [of "ob\<lparr>order_index := (order_index ob)(oid := None), bids := (bids ob)[nat p := ?q]\<rparr>"]
      by (cases "p = best_bid ob") (simp_all add: cancelled_book_def put_level_def Let_def)
    then show ?thesis
      using inv idx' queues_ok_update [of "bids ob" "nat p" ?q] q p sd
      by (simp add: ob_inv_def cancelled_book_frame put_level_def) (simp add: cancelled_book_def Let_def put_level_def)
  next
    assume sd: "sd = SELL"
    then have "asks ob ! nat p \<noteq> []" using ne by (simp add: level_def side_of_def)
    then have "is_best_ask ((asks ob)[nat p := ?q]) (best_ask ob)" if "p \<noteq> best_ask ob"
      using that inv p len by (intro is_best_ask_keep) (auto simp: ob_inv_def)
    then have "is_best_ask (asks (cancelled_book oid sd p ob)) (best_ask (cancelled_book oid sd p ob))"
      using sd refresh_best_ask_is_best [of "ob\<lparr>order_index := (order_index ob)(oid := None), asks := (asks ob)[nat p := ?q]\<rparr>"]
      by (cases "p = best_ask ob") (simp_all add: cancelled_book_def put_level_def Let_def)
    then show ?thesis
      using inv idx' queues_ok_update [of "asks ob" "nat p" ?q] q p sd
      by (simp add: ob_inv_def cancelled_book_frame put_level_def) (simp add: cancelled_book_def Let_def put_level_def)
  qed
qed

lemma book_cancel_ok:
  assumes "ob_inv ob"
  obtains ob' where "book_cancel oid ob = (Inr (), ob')" and "ob_inv ob'"
    and "resting ob' = {e \<in> resting ob. entry_id e \<noteq> oid}" and "ob_market_id ob' = ob_market_id ob"
proof (cases "order_index ob oid")
  case None
  moreover have "oid \<notin> entry_id ` resting ob"
    using None index_ok_None assms by (auto simp: ob_inv_def)
  then have "{e \<in> resting ob. entry_id e \<noteq> oid} = resting ob" by auto
  ultimately show thesis using that [of ob] assms by (simp add: book_cancel_unknown)
next
  case (Some a)
  obtain sd p where a: "a = (sd, p)" by (cases a)
  with Some have idx: "order_index ob oid = Some (sd, p)" by simp
  show thesis
    using that [of "cancelled_book oid sd p ob"] book_cancel_result [OF assms idx]
      cancelled_book_inv [OF assms idx] cancelled_book_resting [OF assms idx] cancelled_book_frame(4)
    by simp
qed

text \<open>
  The interface the engine relies on. A client that adds the rows of a query one by one
  (\<open>rebuild_orderbook\<close>) or cancels a list of ids (\<open>batch_cancel\<close>) needs these laws and
  nothing about queues, best prices or the index.
\<close>

locale book_contract =
  fixes empty_book :: 'b
    and entries :: "'b \<Rightarrow> (direction \<times> int \<times> book_order) set"
    and inv :: "'b \<Rightarrow> bool"
    and add :: "book_order \<Rightarrow> int \<Rightarrow> direction \<Rightarrow> ('b, unit) act"
    and cancel :: "string \<Rightarrow> ('b, unit) act"
  assumes empty_law: "inv empty_book" "entries empty_book = {}"
    and add_law: "inv b \<Longrightarrow> 0 < p \<Longrightarrow> p < 100 \<Longrightarrow> sd \<in> {BUY, SELL} \<Longrightarrow> 0 < bo_quantity bo \<Longrightarrow>
      bo_order_id bo \<notin> entry_id ` entries b \<Longrightarrow>
      \<exists>b'. add bo p sd b = (Inr (), b') \<and> inv b' \<and> entries b' = insert (sd, p, bo) (entries b)"
    and cancel_law: "inv b \<Longrightarrow>
      \<exists>b'. cancel oid b = (Inr (), b') \<and> inv b' \<and> entries b' = {e \<in> entries b. entry_id e \<noteq> oid}"
begin

lemma add_all_from:
  assumes "inv b" and "distinct (map (\<lambda>r. bo_order_id (entry r)) rows)"
    and "\<And>r. r \<in> set rows \<Longrightarrow> 0 < price r \<and> price r < 100 \<and> dir r \<in> {BUY, SELL} \<and>
           0 < bo_quantity (entry r) \<and> bo_order_id (entry r) \<notin> entry_id ` entries b"
  shows "\<exists>b'. fold_act (\<lambda>r _. add (entry r) (price r) (dir r)) rows () b = (Inr (), b') \<and> inv b' \<and>
    entries b' = entries b \<union> (\<lambda>r. (dir r, price r, entry r)) ` set rows"
  using assms
proof (induction rows arbitrary: b)
  case Nil
  then show ?case by simp
next
  case (Cons r rows)
  from Cons.prems(3) [of r] Cons.prems(1) obtain b1 where
    b1: "add (entry r) (price r) (dir r) b = (Inr (), b1)" "inv b1"
      "entries b1 = insert (dir r, price r, entry r) (entries b)"
    using add_law [of b "price r" "dir r" "entry r"] by auto
  have "\<exists>b'. fold_act (\<lambda>r _. add (entry r) (price r) (dir r)) rows () b1 = (Inr (), b') \<and> inv b' \<and>
      entries b' = entries b1 \<union> (\<lambda>r. (dir r, price r, entry r)) ` set rows"
  proof (rule Cons.IH [OF b1(2)])
    show "distinct (map (\<lambda>r. bo_order_id (entry r)) rows)" using Cons.prems(2) by simp
    fix r' assume r': "r' \<in> set rows"
    then have "bo_order_id (entry r') \<noteq> bo_order_id (entry r)"
      using Cons.prems(2) by (auto simp: image_iff)
    then show "0 < price r' \<and> price r' < 100 \<and> dir r' \<in> {BUY, SELL} \<and>
        0 < bo_quantity (entry r') \<and> bo_order_id (entry r') \<notin> entry_id ` entries b1"
      using Cons.prems(3) [of r'] r' by (simp add: b1 entry_id_def)
  qed
  then show ?case by (auto simp: bind_act_def b1)
qed

lemma add_all:
  assumes "distinct (map (\<lambda>r. bo_order_id (entry r)) rows)"
    and "\<And>r. r \<in> set rows \<Longrightarrow> 0 < price r \<and> price r < 100 \<and> dir r \<in> {BUY, SELL} \<and> 0 < bo_quantity (entry r)"
  shows "\<exists>b'. fold_act (\<lambda>r _. add (entry r) (price r) (dir r)) rows () empty_book = (Inr (), b') \<and>
    inv b' \<and> entries b' = (\<lambda>r. (dir r, price r, entry r)) ` set rows"
  using add_all_from [OF empty_law(1) assms(1), of price dir] assms(2) by (simp add: empty_law)

lemma cancel_all:
  "inv b \<Longrightarrow> \<exists>b'. fold_act (\<lambda>oid _. cancel oid) ids () b = (Inr (), b') \<and> inv b' \<and>
     entries b' = {e \<in> entries b. entry_id e \<notin> set ids}"
proof (induction ids arbitrary: b)
  case Nil
  then show ?case by simp
next
  case (Cons oid ids)
  obtain b1 where b1: "cancel oid b = (Inr (), b1)" "inv b1"
      "entries b1 = {e \<in> entries b. entry_id e \<noteq> oid}"
    using cancel_law [OF Cons.prems] by blast
  from Cons.IH [OF b1(2)] show ?case by (auto simp: bind_act_def b1)
qed

lemma add_then_cancel:
  assumes "inv b" and "0 < p" and "p < 100" and "sd \<in> {BUY, SELL}" and "0 < bo_quantity bo"
    and "bo_order_id bo \<notin> entry_id ` entries b"
  shows "\<exists>b'. bind_act (add bo p sd) (\<lambda>_. cancel (bo_order_id bo)) b = (Inr (), b') \<and> inv b' \<and>
    entries b' = entries b"
proof -
  obtain b1 where b1: "add bo p sd b = (Inr (), b1)" "inv b1" "entries b1 = insert (sd, p, bo) (entries b)"
    using add_law assms by blast
  obtain b2 where b2: "cancel (bo_order_id bo) b1 = (Inr (), b2)" "inv b2"
      "entries b2 = {e \<in> entries b1. entry_id e \<noteq> bo_order_id bo}"
    using cancel_law [OF b1(2)] by blast
  have "entries b2 = entries b" using assms(6) by (auto simp: b1 b2 entry_id_def image_iff)
  then show ?thesis by (simp add: b1 b2 bind_act_def)
qed

end

lemma resting_OrderBook [simp]: "resting (OrderBook m) = {}"
  by (auto simp: resting_def OrderBook_def level_def side_of_def)

interpretation ob: book_contract "OrderBook m" resting ob_inv add_order book_cancel for m
proof (unfold_locales, goal_cases)
  case 1
  show ?case by (rule OrderBook_inv)
next
  case 2
  show ?case by simp
next
  case (3 b p sd bo)
  then show ?case by (rule add_order_ok) blast+
next
  case (4 b oid)
  then show ?case by (rule book_cancel_ok) blast
qed

end
