(* ===== verification/Schema.thy ===== *)
theory Schema
  imports Domain
begin

text \<open>
  The database of the migrations under \<open>alembic/versions\<close>: one record per table's row,
  the database as the record of its tables, and every table's \<open>CHECK\<close> constraints, column
  ranges and unique keys. The audit columns \<open>updated_at\<close> (and \<open>created_at\<close> where no
  statement reads it) are left out; \<open>version\<close> is kept. \<open>ledger_seq\<close> is the \<open>BIGSERIAL\<close> of
  \<open>ledger_entries\<close>, \<open>clock\<close> what \<open>NOW()\<close> and \<open>utc_now()\<close> return, \<open>gid\<close> the successive
  results of \<open>generate_id()\<close> with \<open>gid_next\<close> the number already used.
\<close>

section \<open>Rows\<close>

record account =
  acc_user_id :: string
  available_balance :: int
  frozen_balance :: int
  acc_version :: int
  auto_netting_enabled :: bool

record position =
  pos_user_id :: string
  pos_market_id :: string
  yes_volume :: int
  yes_cost_sum :: int
  yes_pending_sell :: int
  no_volume :: int
  no_cost_sum :: int
  no_pending_sell :: int

record market =
  mkt_id :: string
  title :: string
  description :: "string option"
  category :: "string option"
  mkt_status :: market_status
  min_price_cents :: int
  max_price_cents :: int
  max_order_quantity :: int
  max_position_per_user :: int
  max_order_amount_cents :: int
  maker_fee_bps :: int
  taker_fee_bps :: int
  reserve_balance :: int
  pnl_pool :: int
  total_yes_shares :: int
  total_no_shares :: int
  trading_start_at :: "int option"
  trading_end_at :: "int option"
  resolution_date :: "int option"
  resolved_at :: "int option"
  settled_at :: "int option"
  resolution_result :: "resolution_result option"
  mkt_created_at :: int

record trade_row =
  trade_id :: string
  trow_market_id :: string
  trow_scenario :: trade_scenario
  trow_buy_order_id :: string
  trow_sell_order_id :: string
  trow_buy_user_id :: string
  trow_sell_user_id :: string
  trow_buy_book_type :: book_type
  trow_sell_book_type :: book_type
  trow_price :: int
  trow_quantity :: int
  trow_maker_order_id :: string
  trow_taker_order_id :: string
  maker_fee :: int
  taker_fee :: int
  buy_realized_pnl :: "int option"
  sell_realized_pnl :: "int option"
  executed_at :: int

record ledger_entry =
  le_id :: int
  le_user_id :: string
  entry_type :: ledger_entry_type
  le_amount :: int
  balance_after :: int
  reference_type :: "string option"
  reference_id :: "string option"
  le_description :: "string option"
  le_created_at :: int

datatype json = JStr string | JInt int

record wal_event =
  wal_market_id :: string
  event_type :: wal_event_type
  payload :: "(string \<times> json) list"

record user =
  usr_id :: string
  username :: string
  email :: string
  password_hash :: string
  usr_is_active :: bool

record db =
  accounts :: "account list"
  positions :: "position list"
  markets :: "market list"
  orders :: "order list"
  trades :: "trade_row list"
  ledger_entries :: "ledger_entry list"
  wal_events :: "wal_event list"
  users :: "user list"
  ledger_seq :: int
  clock :: int
  gid :: "nat \<Rightarrow> string"
  gid_next :: nat

section \<open>Constraints\<close>

definition in_int2 :: "int \<Rightarrow> bool" where
  "in_int2 x \<longleftrightarrow> - (2 ^ 15) \<le> x \<and> x < 2 ^ 15"

definition in_int4 :: "int \<Rightarrow> bool" where
  "in_int4 x \<longleftrightarrow> - (2 ^ 31) \<le> x \<and> x < 2 ^ 31"

definition in_int8 :: "int \<Rightarrow> bool" where
  "in_int8 x \<longleftrightarrow> - (2 ^ 63) \<le> x \<and> x < 2 ^ 63"

definition varchar :: "nat \<Rightarrow> string \<Rightarrow> bool" where
  "varchar n s \<longleftrightarrow> length s \<le> n"

definition varchar_opt :: "nat \<Rightarrow> string option \<Rightarrow> bool" where
  "varchar_opt n s = (case s of None \<Rightarrow> True | Some t \<Rightarrow> varchar n t)"

definition ck_account :: "account \<Rightarrow> bool" where
  "ck_account a \<longleftrightarrow>
     varchar 64 (acc_user_id a) \<and>
     in_int8 (available_balance a) \<and> in_int8 (frozen_balance a) \<and> in_int8 (acc_version a) \<and>
     0 \<le> available_balance a \<and> 0 \<le> frozen_balance a"

definition ck_position :: "position \<Rightarrow> bool" where
  "ck_position p \<longleftrightarrow>
     varchar 64 (pos_user_id p) \<and> varchar 64 (pos_market_id p) \<and>
     in_int4 (yes_volume p) \<and> in_int8 (yes_cost_sum p) \<and> in_int4 (yes_pending_sell p) \<and>
     in_int4 (no_volume p) \<and> in_int8 (no_cost_sum p) \<and> in_int4 (no_pending_sell p) \<and>
     0 \<le> yes_volume p \<and> 0 \<le> yes_cost_sum p \<and>
     0 \<le> yes_pending_sell p \<and> yes_pending_sell p \<le> yes_volume p \<and>
     0 \<le> no_volume p \<and> 0 \<le> no_cost_sum p \<and>
     0 \<le> no_pending_sell p \<and> no_pending_sell p \<le> no_volume p"

definition ck_market :: "market \<Rightarrow> bool" where
  "ck_market m \<longleftrightarrow>
     varchar 64 (mkt_id m) \<and> varchar 500 (title m) \<and> varchar_opt 64 (category m) \<and>
     in_int4 (max_order_quantity m) \<and> in_int4 (max_position_per_user m) \<and>
     in_int8 (max_order_amount_cents m) \<and>
     in_int8 (reserve_balance m) \<and> in_int8 (pnl_pool m) \<and>
     in_int8 (total_yes_shares m) \<and> in_int8 (total_no_shares m) \<and>
     0 \<le> reserve_balance m \<and> 0 \<le> total_yes_shares m \<and> 0 \<le> total_no_shares m \<and>
     total_yes_shares m = total_no_shares m \<and>
     reserve_balance m = total_yes_shares m * 100 \<and>
     1 \<le> min_price_cents m \<and> max_price_cents m \<le> 99 \<and>
     min_price_cents m < max_price_cents m \<and>
     0 \<le> maker_fee_bps m \<and> maker_fee_bps m \<le> 1000 \<and>
     0 \<le> taker_fee_bps m \<and> taker_fee_bps m \<le> 1000"

definition ck_order :: "order \<Rightarrow> bool" where
  "ck_order o1 \<longleftrightarrow>
     varchar 64 (ord_id o1) \<and> varchar 64 (client_order_id o1) \<and>
     varchar 64 (ord_market_id o1) \<and> varchar 64 (ord_user_id o1) \<and>
     original_direction o1 \<noteq> UNSET_DIRECTION \<and>
     1 \<le> original_price o1 \<and> original_price o1 \<le> 99 \<and>
     book_type o1 \<noteq> UNSET_BOOK_TYPE \<and> book_direction o1 \<noteq> UNSET_DIRECTION \<and>
     1 \<le> book_price o1 \<and> book_price o1 \<le> 99 \<and>
     in_int4 (quantity o1) \<and> 0 < quantity o1 \<and>
     0 \<le> filled_quantity o1 \<and> filled_quantity o1 \<le> quantity o1 \<and>
     0 \<le> remaining_quantity o1 \<and> remaining_quantity o1 \<le> quantity o1 \<and>
     filled_quantity o1 + remaining_quantity o1 = quantity o1 \<and>
     in_int8 (frozen_amount o1) \<and> 0 \<le> frozen_amount o1 \<and>
     frozen_asset_type o1 \<noteq> UNSET_ASSET \<and> varchar_opt 100 (cancel_reason o1) \<and>
     (book_type o1 \<in> {NATIVE_BUY, SYNTHETIC_BUY} \<and> book_direction o1 = BUY \<or>
      book_type o1 \<in> {NATIVE_SELL, SYNTHETIC_SELL} \<and> book_direction o1 = SELL)"

definition ck_trade :: "trade_row \<Rightarrow> bool" where
  "ck_trade t \<longleftrightarrow>
     varchar 64 (trade_id t) \<and> varchar 64 (trow_market_id t) \<and>
     varchar 64 (trow_buy_order_id t) \<and> varchar 64 (trow_sell_order_id t) \<and>
     varchar 64 (trow_buy_user_id t) \<and> varchar 64 (trow_sell_user_id t) \<and>
     varchar 64 (trow_maker_order_id t) \<and> varchar 64 (trow_taker_order_id t) \<and>
     trow_buy_book_type t \<in> {NATIVE_BUY, SYNTHETIC_BUY} \<and>
     trow_sell_book_type t \<in> {NATIVE_SELL, SYNTHETIC_SELL} \<and>
     1 \<le> trow_price t \<and> trow_price t \<le> 99 \<and>
     in_int4 (trow_quantity t) \<and> 0 < trow_quantity t \<and>
     in_int8 (maker_fee t) \<and> in_int8 (taker_fee t) \<and> 0 \<le> maker_fee t \<and> 0 \<le> taker_fee t \<and>
     (case buy_realized_pnl t of None \<Rightarrow> True | Some v \<Rightarrow> in_int8 v) \<and>
     (case sell_realized_pnl t of None \<Rightarrow> True | Some v \<Rightarrow> in_int8 v) \<and>
     trow_buy_user_id t \<noteq> trow_sell_user_id t"

definition ck_ledger :: "ledger_entry \<Rightarrow> bool" where
  "ck_ledger e \<longleftrightarrow>
     in_int8 (le_id e) \<and> varchar 64 (le_user_id e) \<and>
     in_int8 (le_amount e) \<and> in_int8 (balance_after e) \<and>
     varchar_opt 30 (reference_type e) \<and> varchar_opt 64 (reference_id e) \<and>
     varchar_opt 500 (le_description e) \<and> 0 \<le> balance_after e"

definition ck_wal :: "wal_event \<Rightarrow> bool" where
  "ck_wal w \<longleftrightarrow> varchar 64 (wal_market_id w)"

definition ck_user :: "user \<Rightarrow> bool" where
  "ck_user u \<longleftrightarrow>
     varchar 64 (username u) \<and> varchar 255 (email u) \<and> varchar 255 (password_hash u) \<and>
     3 \<le> length (username u)"

definition pos_key :: "position \<Rightarrow> string \<times> string" where
  "pos_key p = (pos_user_id p, pos_market_id p)"

definition ord_client_key :: "order \<Rightarrow> string \<times> string" where
  "ord_client_key o1 = (client_order_id o1, ord_user_id o1)"

definition order_clash :: "order \<Rightarrow> order \<Rightarrow> bool" where
  "order_clash o1 o2 \<longleftrightarrow> ord_id o1 = ord_id o2 \<or> ord_client_key o1 = ord_client_key o2"

definition trade_clash :: "trade_row \<Rightarrow> trade_row \<Rightarrow> bool" where
  "trade_clash t t' \<longleftrightarrow> trade_id t = trade_id t'"

definition ledger_clash :: "ledger_entry \<Rightarrow> ledger_entry \<Rightarrow> bool" where
  "ledger_clash e e' \<longleftrightarrow> le_id e = le_id e'"

definition account_clash :: "account \<Rightarrow> account \<Rightarrow> bool" where
  "account_clash a a' \<longleftrightarrow> acc_user_id a = acc_user_id a'"

definition user_clash :: "user \<Rightarrow> user \<Rightarrow> bool" where
  "user_clash u u' \<longleftrightarrow> usr_id u = usr_id u' \<or> username u = username u' \<or> email u = email u'"

text \<open>What the schema guarantees of every stored database.\<close>

definition wf_db :: "db \<Rightarrow> bool" where
  "wf_db d \<longleftrightarrow>
     list_all ck_account (accounts d) \<and> distinct (map acc_user_id (accounts d)) \<and>
     list_all ck_position (positions d) \<and> distinct (map pos_key (positions d)) \<and>
     list_all ck_market (markets d) \<and> distinct (map mkt_id (markets d)) \<and>
     list_all ck_order (orders d) \<and> distinct (map ord_id (orders d)) \<and>
     distinct (map ord_client_key (orders d)) \<and>
     list_all ck_trade (trades d) \<and> distinct (map trade_id (trades d)) \<and>
     list_all ck_ledger (ledger_entries d) \<and> distinct (map le_id (ledger_entries d)) \<and>
     list_all ck_wal (wal_events d) \<and>
     list_all ck_user (users d) \<and> distinct (map usr_id (users d)) \<and>
     distinct (map username (users d)) \<and> distinct (map email (users d))"

section \<open>Statements on each table\<close>

abbreviation update_accounts ::
  "(account \<Rightarrow> bool) \<Rightarrow> (account \<Rightarrow> account) \<Rightarrow> (db, account list) act" where
  "update_accounts \<equiv> sql_update ''accounts'' ck_account accounts accounts_update"

abbreviation update_positions ::
  "(position \<Rightarrow> bool) \<Rightarrow> (position \<Rightarrow> position) \<Rightarrow> (db, position list) act" where
  "update_positions \<equiv> sql_update ''positions'' ck_position positions positions_update"

abbreviation upsert_position ::
  "(position \<Rightarrow> bool) \<Rightarrow> position \<Rightarrow> (position \<Rightarrow> position) \<Rightarrow> (db, unit) act" where
  "upsert_position \<equiv> sql_upsert ''positions'' ck_position positions positions_update"

abbreviation update_markets ::
  "(market \<Rightarrow> bool) \<Rightarrow> (market \<Rightarrow> market) \<Rightarrow> (db, market list) act" where
  "update_markets \<equiv> sql_update ''markets'' ck_market markets markets_update"

abbreviation update_orders ::
  "(order \<Rightarrow> bool) \<Rightarrow> (order \<Rightarrow> order) \<Rightarrow> (db, order list) act" where
  "update_orders \<equiv> sql_update ''orders'' ck_order orders orders_update"

abbreviation insert_order :: "order \<Rightarrow> (db, unit) act" where
  "insert_order \<equiv> sql_insert ''orders'' ck_order order_clash orders orders_update"

abbreviation insert_trade :: "trade_row \<Rightarrow> (db, unit) act" where
  "insert_trade \<equiv> sql_insert ''trades'' ck_trade trade_clash trades trades_update"

abbreviation insert_ledger :: "ledger_entry \<Rightarrow> (db, unit) act" where
  "insert_ledger \<equiv> sql_insert ''ledger_entries'' ck_ledger ledger_clash ledger_entries ledger_entries_update"

abbreviation insert_wal :: "wal_event \<Rightarrow> (db, unit) act" where
  "insert_wal \<equiv> sql_insert ''wal_events'' ck_wal (\<lambda>_ _. False) wal_events wal_events_update"

abbreviation insert_account :: "account \<Rightarrow> (db, unit) act" where
  "insert_account \<equiv> sql_insert ''accounts'' ck_account account_clash accounts accounts_update"

abbreviation insert_user :: "user \<Rightarrow> (db, unit) act" where
  "insert_user \<equiv> sql_insert ''users'' ck_user user_clash users users_update"

text \<open>The next value of \<open>ledger_entries\<close>' sequence, and the next result of \<open>generate_id()\<close>.\<close>

definition next_ledger_id :: "(db, int) act" where
  "next_ledger_id = (\<lambda>d. (Inr (ledger_seq d + 1), d\<lparr>ledger_seq := ledger_seq d + 1\<rparr>))"

definition generate_id :: "(db, string) act" where
  "generate_id = (\<lambda>d. (Inr (gid d (gid_next d)), d\<lparr>gid_next := Suc (gid_next d)\<rparr>))"

text \<open>
  Rolling back to a savepoint or to the start of the transaction restores the tables; a
  sequence and the id generator are not transactional and keep their position, and time
  does not go back.
\<close>

definition rollback_to :: "db \<Rightarrow> db \<Rightarrow> db" where
  "rollback_to d0 d = d0\<lparr>ledger_seq := ledger_seq d, clock := clock d, gid_next := gid_next d\<rparr>"

definition begin_nested :: "(db, 'a) act \<Rightarrow> (db, 'a) act" where
  "begin_nested m = (\<lambda>d. on_error m (\<lambda>_. rollback_to d) d)"

definition same_tables :: "db \<Rightarrow> db \<Rightarrow> bool" where
  "same_tables d d' \<longleftrightarrow>
     accounts d' = accounts d \<and> positions d' = positions d \<and> markets d' = markets d \<and>
     orders d' = orders d \<and> trades d' = trades d \<and> ledger_entries d' = ledger_entries d \<and>
     wal_events d' = wal_events d \<and> users d' = users d"

lemma same_tables_rollback [simp]: "same_tables d0 (rollback_to d0 d)"
  by (simp add: same_tables_def rollback_to_def)

lemma begin_nested_error:
  "begin_nested m d = (Inl e, d') \<Longrightarrow> same_tables d d'"
  by (auto simp: begin_nested_def on_error_def split: prod.splits sum.splits)

lemma begin_nested_ok_iff: "begin_nested m d = (Inr x, d') \<longleftrightarrow> m d = (Inr x, d')"
  by (simp add: begin_nested_def on_error_ok_iff)

section \<open>Every statement keeps the schema's guarantees\<close>

lemma wf_accounts_update:
  "wf_db d \<Longrightarrow> list_all ck_account rows \<Longrightarrow> distinct (map acc_user_id rows) \<Longrightarrow>
   wf_db (d\<lparr>accounts := rows\<rparr>)"
  by (simp add: wf_db_def)

lemma wf_positions_update:
  "wf_db d \<Longrightarrow> list_all ck_position rows \<Longrightarrow> distinct (map pos_key rows) \<Longrightarrow>
   wf_db (d\<lparr>positions := rows\<rparr>)"
  by (simp add: wf_db_def)

lemma keeps_wf_update_accounts [pres_intros]:
  assumes "\<And>a. acc_user_id (f a) = acc_user_id a"
  shows "keeps wf_db (update_accounts P f)"
  by (rule keeps_sql_update)
     (auto simp: wf_db_def map_update_where assms intro: list_all_update_where)

lemma keeps_wf_update_positions [pres_intros]:
  assumes "\<And>p. pos_key (f p) = pos_key p"
  shows "keeps wf_db (update_positions P f)"
  by (rule keeps_sql_update)
     (auto simp: wf_db_def map_update_where assms intro: list_all_update_where)

lemma keeps_wf_update_markets [pres_intros]:
  assumes "\<And>m. mkt_id (f m) = mkt_id m"
  shows "keeps wf_db (update_markets P f)"
  by (rule keeps_sql_update)
     (auto simp: wf_db_def map_update_where assms intro: list_all_update_where)

lemma keeps_wf_update_orders [pres_intros]:
  assumes "\<And>r. ord_id (f r) = ord_id r" and "\<And>r. ord_client_key (f r) = ord_client_key r"
  shows "keeps wf_db (update_orders P f)"
  by (rule keeps_sql_update)
     (auto simp: wf_db_def map_update_where assms intro: list_all_update_where)

lemma keeps_wf_upsert_position [pres_intros]:
  assumes "\<And>p. pos_key (f p) = pos_key p" and "\<And>p. K p \<longleftrightarrow> pos_key p = pos_key row"
  shows "keeps wf_db (upsert_position K row f)"
  by (rule keeps_sql_upsert)
     (auto simp: wf_db_def map_update_where assms intro: list_all_update_where)

lemma keeps_wf_insert_order [pres_intros]: "keeps wf_db (insert_order r)"
  by (rule keeps_sql_insert) (auto simp: wf_db_def order_clash_def)

lemma keeps_wf_insert_trade [pres_intros]: "keeps wf_db (insert_trade r)"
  by (rule keeps_sql_insert) (auto simp: wf_db_def trade_clash_def)

lemma keeps_wf_insert_ledger [pres_intros]: "keeps wf_db (insert_ledger r)"
  by (rule keeps_sql_insert) (auto simp: wf_db_def ledger_clash_def)

lemma keeps_wf_insert_wal [pres_intros]: "keeps wf_db (insert_wal r)"
  by (rule keeps_sql_insert) (auto simp: wf_db_def)

lemma keeps_wf_insert_account [pres_intros]: "keeps wf_db (insert_account r)"
  by (rule keeps_sql_insert) (auto simp: wf_db_def account_clash_def)

lemma keeps_wf_insert_user [pres_intros]: "keeps wf_db (insert_user r)"
  by (rule keeps_sql_insert) (auto simp: wf_db_def user_clash_def)

lemma keeps_wf_next_ledger_id [pres_intros]: "keeps wf_db next_ledger_id"
  by (auto simp: keeps_def next_ledger_id_def wf_db_def)

lemma keeps_wf_generate_id [pres_intros]: "keeps wf_db generate_id"
  by (auto simp: keeps_def generate_id_def wf_db_def)

lemma wf_rollback_to [simp]: "wf_db (rollback_to d0 d) = wf_db d0"
  by (simp add: wf_db_def rollback_to_def)

lemma keeps_wf_begin_nested [pres_intros]:
  assumes "keeps wf_db m"
  shows "keeps wf_db (begin_nested m)"
proof (rule keepsI)
  fix d r d'
  assume wf: "wf_db d" and run: "begin_nested m d = (r, d')"
  obtain q t where m: "m d = (q, t)" by fastforce
  have "wf_db t" using keepsD [OF assms wf m] .
  with run m wf show "wf_db d'"
    by (cases q) (auto simp: begin_nested_def on_error_def)
qed

end
