(* ===== verification/Ledger.thy ===== *)
theory Ledger
  imports Schema
begin

text \<open>
  Views of the database that the conservation laws are about (money held by the accounts,
  shares and cost basis held by the positions of a market), and the two append-only logs,
  \<open>write_ledger\<close> and \<open>write_wal_event\<close> of \<open>pm_clearing/infrastructure/ledger.py\<close>, which
  change none of them.
\<close>

section \<open>Views\<close>

definition acct :: "db \<Rightarrow> string \<Rightarrow> account option" where
  "acct d u = lookup_row (\<lambda>a. acc_user_id a = u) (accounts d)"

definition posn :: "db \<Rightarrow> string \<Rightarrow> string \<Rightarrow> position option" where
  "posn d u m = lookup_row (\<lambda>p. pos_key p = (u, m)) (positions d)"

definition mkt :: "db \<Rightarrow> string \<Rightarrow> market option" where
  "mkt d m = lookup_row (\<lambda>r. mkt_id r = m) (markets d)"

definition account_ids :: "db \<Rightarrow> string set" where
  "account_ids d = acc_user_id ` set (accounts d)"

definition acc_funds :: "account \<Rightarrow> int" where
  "acc_funds a = available_balance a + frozen_balance a"

definition funds :: "db \<Rightarrow> int" where
  "funds d = col_sum acc_funds (accounts d)"

definition in_market :: "string \<Rightarrow> (position \<Rightarrow> int) \<Rightarrow> position \<Rightarrow> int" where
  "in_market m g p = (if pos_market_id p = m then g p else 0)"

definition yes_held :: "string \<Rightarrow> db \<Rightarrow> int" where
  "yes_held m d = col_sum (in_market m yes_volume) (positions d)"

definition no_held :: "string \<Rightarrow> db \<Rightarrow> int" where
  "no_held m d = col_sum (in_market m no_volume) (positions d)"

definition cost_held :: "string \<Rightarrow> db \<Rightarrow> int" where
  "cost_held m d = col_sum (in_market m (\<lambda>p. yes_cost_sum p + no_cost_sum p)) (positions d)"

lemmas view_defs = funds_def yes_held_def no_held_def cost_held_def account_ids_def

lemma acct_in_ids: "acct d u = Some a \<Longrightarrow> u \<in> account_ids d"
  by (auto simp: acct_def account_ids_def dest!: lookup_row_SomeD)

lemma acct_None_iff: "acct d u = None \<longleftrightarrow> u \<notin> account_ids d"
  by (auto simp: acct_def account_ids_def lookup_row_None_iff)

lemma posn_in_keys: "posn d u m = Some p \<Longrightarrow> (u, m) \<in> pos_key ` set (positions d) \<and> pos_key p = (u, m)"
  by (force simp: posn_def dest!: lookup_row_SomeD)

lemma wf_ck_acct: "wf_db d \<Longrightarrow> acct d u = Some a \<Longrightarrow> ck_account a"
  by (auto simp: wf_db_def acct_def list_all_iff dest!: lookup_row_SomeD)

lemma wf_ck_posn: "wf_db d \<Longrightarrow> posn d u m = Some p \<Longrightarrow> ck_position p"
  by (auto simp: wf_db_def posn_def list_all_iff dest!: lookup_row_SomeD)

lemma wf_distinct_accounts: "wf_db d \<Longrightarrow> distinct (map acc_user_id (accounts d))"
  by (simp add: wf_db_def)

lemma wf_distinct_positions: "wf_db d \<Longrightarrow> distinct (map pos_key (positions d))"
  by (simp add: wf_db_def)

section \<open>One account, one position: what an update does to the views\<close>

abbreviation update_account :: "string \<Rightarrow> (account \<Rightarrow> account) \<Rightarrow> (db, account list) act" where
  "update_account u f \<equiv> update_accounts (\<lambda>a. acc_user_id a = u) f"

abbreviation update_position :: "string \<Rightarrow> string \<Rightarrow> (position \<Rightarrow> position) \<Rightarrow> (db, position list) act" where
  "update_position u m f \<equiv> update_positions (\<lambda>p. pos_key p = (u, m)) f"

lemma update_account_frame:
  assumes "update_account u f d = (Inr rs, d')" and "\<And>a. acc_user_id (f a) = acc_user_id a"
  shows "positions d' = positions d" "markets d' = markets d" "orders d' = orders d"
    "account_ids d' = account_ids d"
    "trades d' = trades d" "ledger_entries d' = ledger_entries d"
    "yes_held m d' = yes_held m d" "no_held m d' = no_held m d" "cost_held m d' = cost_held m d"
  using assms by (auto simp: sql_update_ok_iff view_defs image_update_where)

lemma update_account_funds:
  assumes "update_account u f d = (Inr rs, d')" and "wf_db d" and "u \<in> account_ids d"
    and "\<And>a. acc_funds (f a) = acc_funds a + c"
  shows "funds d' = funds d + c"
proof -
  have "accounts d' = update_where (\<lambda>a. acc_user_id a = u) f (accounts d)"
    using assms(1) by (simp add: sql_update_ok_iff)
  moreover have "u \<in> acc_user_id ` set (accounts d)"
    using assms(3) by (simp add: account_ids_def)
  ultimately show ?thesis
    using col_sum_update_key [OF wf_distinct_accounts [OF assms(2)], of u acc_funds f c] assms(4)
    by (simp add: funds_def)
qed

lemma update_account_missing:
  assumes "u \<notin> account_ids d"
  shows "update_account u f d = (Inr [], d)"
proof -
  have none: "\<forall>a \<in> set (accounts d). acc_user_id a \<noteq> u"
    using assms by (auto simp: account_ids_def)
  then have "filter (\<lambda>a. acc_user_id a = u) (accounts d) = []" by (simp add: filter_empty_conv)
  moreover have "update_where (\<lambda>a. acc_user_id a = u) f (accounts d) = accounts d"
    using none by simp
  ultimately show ?thesis by (simp add: sql_update_def)
qed

lemma acct_update_account:
  assumes "update_account u f d = (Inr rs, d')" and "\<And>a. acc_user_id (f a) = acc_user_id a"
  shows "acct d' v = (if v = u then map_option f (acct d v) else acct d v)"
  using assms by (auto simp: sql_update_ok_iff acct_def lookup_row_update_key)

lemma update_position_frame:
  assumes "update_positions P f d = (Inr rs, d')"
  shows "accounts d' = accounts d" "markets d' = markets d" "orders d' = orders d"
    "account_ids d' = account_ids d" "funds d' = funds d"
    "trades d' = trades d" "ledger_entries d' = ledger_entries d"
  using assms by (auto simp: sql_update_ok_iff view_defs)

lemma posn_update_position:
  assumes "update_position u m f d = (Inr rs, d')" and "\<And>p. pos_key (f p) = pos_key p"
  shows "posn d' v n = (if (v, n) = (u, m) then map_option f (posn d v n) else posn d v n)"
  using assms by (auto simp: sql_update_ok_iff posn_def lookup_row_update_key)

lemma update_position_sum:
  assumes "update_position u m f d = (Inr rs, d')" and "wf_db d"
    and "(u, m) \<in> pos_key ` set (positions d)"
    and "\<And>p. g (f p) = g p + c" and "\<And>p. pos_key (f p) = pos_key p"
  shows "col_sum (in_market m' g) (positions d') =
         col_sum (in_market m' g) (positions d) + (if m' = m then c else 0)"
proof -
  have rows: "positions d' = update_where (\<lambda>p. pos_key p = (u, m)) f (positions d)"
    using assms(1) by (simp add: sql_update_ok_iff)
  have market: "pos_market_id (f p) = pos_market_id p" for p
    using assms(5) [of p] by (simp add: pos_key_def)
  have "in_market m' g (f p) = in_market m' g p + (if m' = m then c else 0)"
    if "pos_key p = (u, m)" for p
    using that assms(4) [of p] market [of p] by (auto simp: in_market_def pos_key_def)
  then show ?thesis
    using col_sum_update_key [OF wf_distinct_positions [OF assms(2)] assms(3)] rows by metis
qed

text \<open>The upsert of a position row: a row with the same key is updated, otherwise one is added.\<close>

lemma upsert_position_frame:
  assumes "upsert_position K row f d = (Inr u, d')"
  shows "accounts d' = accounts d" "markets d' = markets d" "orders d' = orders d"
    "account_ids d' = account_ids d" "funds d' = funds d"
    "trades d' = trades d" "ledger_entries d' = ledger_entries d"
  using assms by (auto simp: sql_upsert_ok_iff view_defs split: if_splits)

lemma upsert_position_keys:
  assumes "upsert_position (\<lambda>p. pos_key p = k) row f d = (Inr u, d')"
    and "pos_key row = k" and "\<And>p. pos_key (f p) = pos_key p"
  shows "pos_key ` set (positions d') = insert k (pos_key ` set (positions d))"
  using assms by (auto simp: sql_upsert_ok_iff image_update_where insert_absorb rev_image_eqI split: if_splits)

lemma upsert_position_sum:
  assumes "upsert_position (\<lambda>p. pos_key p = (u, m)) row f d = (Inr z, d')" and "wf_db d"
    and "pos_key row = (u, m)" and "g row = c"
    and "\<And>p. g (f p) = g p + c" and "\<And>p. pos_key (f p) = pos_key p"
  shows "col_sum (in_market m' g) (positions d') =
         col_sum (in_market m' g) (positions d) + (if m' = m then c else 0)"
proof (cases "\<exists>p \<in> set (positions d). pos_key p = (u, m)")
  case True
  then have "update_position u m f d = (Inr (map f (filter (\<lambda>p. pos_key p = (u, m)) (positions d))), d')"
    using assms(1) by (auto simp: sql_upsert_ok_iff sql_update_ok_iff)
  moreover have "(u, m) \<in> pos_key ` set (positions d)" using True by force
  ultimately show ?thesis
    using update_position_sum assms(2,5,6) by blast
next
  case False
  then have "positions d' = positions d @ [row]"
    using assms(1) by (auto simp: sql_upsert_ok_iff)
  then show ?thesis
    using assms(3,4) by (auto simp: in_market_def pos_key_def)
qed

section \<open>The append-only logs\<close>

definition write_ledger ::
  "string \<Rightarrow> ledger_entry_type \<Rightarrow> int \<Rightarrow> int \<Rightarrow> string \<Rightarrow> string \<Rightarrow> (db, unit) act" where
  "write_ledger u ty amount bal ref_type ref_id =
     bind_act next_ledger_id (\<lambda>i.
     bind_act (reads clock) (\<lambda>t.
     insert_ledger \<lparr>le_id = i, le_user_id = u, entry_type = ty, le_amount = amount,
       balance_after = bal, reference_type = Some ref_type, reference_id = Some ref_id,
       le_description = None, le_created_at = t\<rparr>))"

definition write_wal_event ::
  "wal_event_type \<Rightarrow> string \<Rightarrow> string \<Rightarrow> string \<Rightarrow> (string \<times> json) list \<Rightarrow> (db, unit) act" where
  "write_wal_event ty oid m u extra =
     insert_wal \<lparr>wal_market_id = m, event_type = ty,
       payload = [(''order_id'', JStr oid), (''user_id'', JStr u)] @ extra\<rparr>"

lemma keeps_wf_write_ledger [pres_intros]: "keeps wf_db (write_ledger u ty a b rt ri)"
  unfolding write_ledger_def by (intro pres_intros)

lemma keeps_wf_write_wal [pres_intros]: "keeps wf_db (write_wal_event ty oid m u x)"
  unfolding write_wal_event_def by (intro pres_intros)

text \<open>The core tables: everything but the logs, the trades, the users and the counters.\<close>

definition same_core :: "db \<Rightarrow> db \<Rightarrow> bool" where
  "same_core d d' \<longleftrightarrow>
     accounts d' = accounts d \<and> positions d' = positions d \<and> markets d' = markets d \<and>
     orders d' = orders d"

lemma same_core_refl [simp]: "same_core d d"
  by (simp add: same_core_def)

lemma same_core_views:
  assumes "same_core d d'"
  shows "funds d' = funds d" "yes_held m d' = yes_held m d" "no_held m d' = no_held m d"
    "cost_held m d' = cost_held m d" "account_ids d' = account_ids d"
    "acct d' u = acct d u" "posn d' u m = posn d u m" "mkt d' m = mkt d m"
  using assms by (auto simp: same_core_def view_defs acct_def posn_def mkt_def)

lemma write_ledger_core: "write_ledger u ty a b rt ri d = (r, d') \<Longrightarrow> same_core d d'"
  by (auto simp: write_ledger_def bind_act_def next_ledger_id_def sql_insert_def same_core_def
      split: if_splits)

lemma write_wal_core: "write_wal_event ty oid m u x d = (r, d') \<Longrightarrow> same_core d d'"
  by (auto simp: write_wal_event_def sql_insert_def same_core_def split: if_splits)

text \<open>Statements on other tables leave the orders alone.\<close>

definition orders_are :: "order list \<Rightarrow> db \<Rightarrow> bool" where
  "orders_are X d \<longleftrightarrow> orders d = X"

lemma keeps_orders_statements [pres_intros]:
  "keeps (orders_are X) (update_accounts P f)" "keeps (orders_are X) (update_positions Q g)"
  "keeps (orders_are X) (upsert_position K row h)" "keeps (orders_are X) (insert_trade t)"
  "keeps (orders_are X) (update_markets R k)" "keeps (orders_are X) generate_id"
  by (auto simp: keeps_def orders_are_def sql_update_def sql_upsert_def sql_insert_def
      generate_id_def Let_def split: if_splits)

lemma keeps_orders_write_ledger [pres_intros]: "keeps (orders_are X) (write_ledger u ty a b rt ri)"
  by (auto simp: keeps_def orders_are_def same_core_def dest!: write_ledger_core)

lemma keeps_orders_write_wal [pres_intros]: "keeps (orders_are X) (write_wal_event ty oid m u x)"
  by (auto simp: keeps_def orders_are_def same_core_def dest!: write_wal_core)

end
