(* ===== verification/Fees.thy ===== *)
theory Fees
  imports Domain
begin

text \<open>
  Integer arithmetic of prices and fees: \<open>pm_clearing/domain/fee.py\<close>, the fee function and
  the display format of \<open>pm_common/cents.py\<close>, and the fee buffer of
  \<open>pm_risk/rules/balance_check.py\<close>. Python's \<open>//\<close> and \<open>%\<close> round towards minus
  infinity, as \<open>div\<close> and \<open>mod\<close> on \<open>int\<close> do.
\<close>

section \<open>Fee arithmetic\<close>

definition get_fee_trade_value :: "book_type \<Rightarrow> int \<Rightarrow> int \<Rightarrow> int \<Rightarrow> int" where
  "get_fee_trade_value bt trade_price qty buy_orig_price =
     (if bt \<in> {NATIVE_BUY, NATIVE_SELL} then trade_price * qty
      else if bt = SYNTHETIC_SELL then buy_orig_price * qty
      else (100 - trade_price) * qty)"

definition calc_fee :: "int \<Rightarrow> int \<Rightarrow> int" where
  "calc_fee trade_value fee_bps = (trade_value * fee_bps + 9999) div 10000"

definition calc_released_cost :: "int \<Rightarrow> int \<Rightarrow> int \<Rightarrow> int" where
  "calc_released_cost cost_sum volume qty =
     (if volume \<le> qty then cost_sum else cost_sum * qty div volume)"

definition calculate_fee :: "int \<Rightarrow> int \<Rightarrow> int" where
  "calculate_fee trade_value fee_rate_bps =
     (if trade_value = 0 \<or> fee_rate_bps = 0 then 0
      else (trade_value * fee_rate_bps + 9999) div 10000)"

definition TAKER_FEE_BPS :: int where
  "TAKER_FEE_BPS = 20"

definition calc_max_fee :: "int \<Rightarrow> int" where
  "calc_max_fee trade_value = (trade_value * TAKER_FEE_BPS + 9999) div 10000"

definition validate_price :: "int \<Rightarrow> exc + unit" where
  "validate_price price =
     (if 1 \<le> price \<and> price \<le> 99 then Inr ()
      else Inl (ValueError (''Price must be between 1 and 99 cents, got '' @ show_int price)))"

lemma calc_max_fee_eq: "calc_max_fee v = calc_fee v TAKER_FEE_BPS"
  by (simp add: calc_max_fee_def calc_fee_def)

lemma calc_max_fee_nonneg: "0 \<le> v \<Longrightarrow> 0 \<le> calc_max_fee v"
  by (simp add: calc_max_fee_def TAKER_FEE_BPS_def)

lemma calc_max_fee_0 [simp]: "calc_max_fee 0 = 0"
  by (simp add: calc_max_fee_def TAKER_FEE_BPS_def)

lemma calc_max_fee_mono: "v \<le> w \<Longrightarrow> calc_max_fee v \<le> calc_max_fee w"
  by (simp add: calc_max_fee_def TAKER_FEE_BPS_def zdiv_mono1)

lemma calc_fee_mono: "0 \<le> bps \<Longrightarrow> v \<le> w \<Longrightarrow> calc_fee v bps \<le> calc_fee w bps"
  by (simp add: calc_fee_def zdiv_mono1 mult_right_mono)

lemma calc_fee_bounds:
  "10000 * (calc_fee v bps - 1) < v * bps" "v * bps \<le> 10000 * calc_fee v bps"
  by (simp_all add: calc_fee_def)

lemma calc_fee_nonneg: "0 \<le> v \<Longrightarrow> 0 \<le> bps \<Longrightarrow> 0 \<le> calc_fee v bps"
  using mult_nonneg_nonneg [of v bps] by (simp add: calc_fee_def pos_imp_zdiv_nonneg_iff)

lemma calc_fee_le_max: "0 \<le> v \<Longrightarrow> bps \<le> TAKER_FEE_BPS \<Longrightarrow> calc_fee v bps \<le> calc_max_fee v"
  by (simp add: calc_fee_def calc_max_fee_def zdiv_mono1 mult_left_mono)

text \<open>Released cost: the share of the cost basis that leaves with \<open>qty\<close> of \<open>volume\<close> shares.\<close>

lemma calc_released_cost_all: "volume \<le> qty \<Longrightarrow> calc_released_cost cost volume qty = cost"
  by (simp add: calc_released_cost_def)

lemma calc_released_cost_nonneg:
  "0 \<le> cost \<Longrightarrow> 0 \<le> qty \<Longrightarrow> 0 \<le> calc_released_cost cost volume qty"
  by (auto simp: calc_released_cost_def pos_imp_zdiv_nonneg_iff)

lemma calc_released_cost_le:
  assumes "0 \<le> cost" and "0 \<le> qty"
  shows "calc_released_cost cost volume qty \<le> cost"
proof (cases "volume \<le> qty")
  case True
  then show ?thesis by (simp add: calc_released_cost_def)
next
  case False
  then have "cost * qty div volume \<le> cost * volume div volume"
    using assms by (intro zdiv_mono1 mult_left_mono) auto
  with False assms show ?thesis by (simp add: calc_released_cost_def)
qed

section \<open>Display format\<close>

text \<open>\<open>{n:,}\<close> puts a comma before every third digit from the right; \<open>{n:02d}\<close> pads to two digits.\<close>

fun group3 :: "string \<Rightarrow> string" where
  "group3 (a # b # c # d # s) = a # b # c # CHR '','' # group3 (d # s)"
| "group3 s = s"

definition thousands :: "nat \<Rightarrow> string" where
  "thousands n = rev (group3 (rev (show_nat n)))"

definition pad2 :: "nat \<Rightarrow> string" where
  "pad2 n = (if n < 10 then CHR ''0'' # show_nat n else show_nat n)"

definition cents_to_display :: "int \<Rightarrow> string" where
  "cents_to_display cents =
     (if cents < 0 then
        (let abs_cents = - cents in
         ''-$'' @ thousands (nat (abs_cents div 100)) @ ''.'' @ pad2 (nat (abs_cents mod 100)))
      else ''$'' @ thousands (nat (cents div 100)) @ ''.'' @ pad2 (nat (cents mod 100)))"

text \<open>Reading an amount back: the digits in order, and the sign in front.\<close>

definition display_to_cents :: "string \<Rightarrow> int" where
  "display_to_cents s =
     (let v = int (dec_val (filter is_digit s))
      in case s of [] \<Rightarrow> v | c # _ \<Rightarrow> if c = CHR ''-'' then - v else v)"

lemma group3_digits: "filter is_digit (group3 s) = filter is_digit s"
  by (induction s rule: group3.induct) (auto simp: is_digit_def)

lemma thousands_digits: "filter is_digit (thousands n) = show_nat n"
proof -
  have "filter is_digit (thousands n) = rev (filter is_digit (rev (show_nat n)))"
    by (simp add: thousands_def rev_filter [symmetric] group3_digits)
  also have "\<dots> = show_nat n"
    using show_nat_digits [of _ n] by (simp add: rev_filter filter_id_conv)
  finally show ?thesis .
qed

lemma pad2_digits: "n < 100 \<Longrightarrow> filter is_digit (pad2 n) = pad2 n"
  using show_nat_digits [of _ n] by (auto simp: pad2_def is_digit_def)

lemma dec_val_pad2:
  assumes "n < 100"
  shows "dec_val (s @ pad2 n) = 100 * dec_val s + n"
proof (cases "n < 10")
  case True
  then have "pad2 n = [CHR ''0'', digit n]"
    by (simp add: pad2_def show_nat.simps [of n])
  moreover have "digit_val (CHR ''0'') = 0" by (simp add: digit_val_def)
  ultimately show ?thesis
    using True dec_val_snoc [of "s @ [CHR ''0'']" "digit n"] by simp
next
  case False
  then have "n div 10 < 10" using assms by simp
  with False have "pad2 n = [digit (n div 10), digit (n mod 10)]"
    by (simp add: pad2_def show_nat.simps [of n] show_nat.simps [of "n div 10"])
  then show ?thesis
    using \<open>n div 10 < 10\<close> dec_val_snoc [of "s @ [digit (n div 10)]" "digit (n mod 10)"] by simp
qed

lemma display_value:
  "dec_val (filter is_digit (thousands (n div 100) @ ''.'' @ pad2 (n mod 100))) = n"
  by (simp add: thousands_digits pad2_digits dec_val_pad2) (simp add: is_digit_def)

lemma display_digits_of:
  assumes "0 \<le> c"
  shows "int (dec_val (filter is_digit
           (thousands (nat (c div 100)) @ ''.'' @ pad2 (nat (c mod 100))))) = c"
  using display_value [of "nat c"] assms by (simp add: nat_div_distrib nat_mod_distrib)

end
