(* ===== verification/Risk.thy ===== *)
theory Risk
  imports Ledger Fees
begin

text \<open>
  Order entry: \<open>transform_order\<close> of \<open>pm_order/domain/transformer.py\<close> (a user's YES/NO
  intent as an order on the single YES book) and the rules of \<open>pm_risk/rules\<close> (market
  status, price range, order size, self-trade, and the freeze of funds or shares).
\<close>

section \<open>Transformation to the YES book\<close>

definition transform_order :: "side \<Rightarrow> direction \<Rightarrow> int \<Rightarrow> book_type \<times> direction \<times> int" where
  "transform_order sd dir price =
     (if sd = YES then
        (if dir = BUY then (NATIVE_BUY, BUY, price) else (NATIVE_SELL, SELL, price))
      else if dir = BUY then (SYNTHETIC_SELL, SELL, 100 - price)
      else (SYNTHETIC_BUY, BUY, 100 - price))"

text \<open>The user intent a book entry stands for.\<close>

definition original_intent :: "book_type \<times> direction \<times> int \<Rightarrow> side \<times> direction \<times> int" where
  "original_intent b =
     (case b of (bt, dir, price) \<Rightarrow>
        if bt = NATIVE_BUY then (YES, BUY, price)
        else if bt = NATIVE_SELL then (YES, SELL, price)
        else if bt = SYNTHETIC_SELL then (NO, BUY, 100 - price)
        else (NO, SELL, 100 - price))"

text \<open>The book type determines direction and asset: what \<open>ck_orders_book_type_dir_match\<close> asks for.\<close>

definition type_dir_match :: "book_type \<Rightarrow> direction \<Rightarrow> bool" where
  "type_dir_match bt dir \<longleftrightarrow>
     bt \<in> {NATIVE_BUY, SYNTHETIC_BUY} \<and> dir = BUY \<or> bt \<in> {NATIVE_SELL, SYNTHETIC_SELL} \<and> dir = SELL"

lemma transform_order_match:
  "transform_order sd dir price = (bt, bd, bp) \<Longrightarrow> type_dir_match bt bd"
  by (auto simp: transform_order_def type_dir_match_def split: if_splits)

lemma transform_order_price:
  "transform_order sd dir price = (bt, bd, bp) \<Longrightarrow> 1 \<le> price \<Longrightarrow> price \<le> 99 \<Longrightarrow> 1 \<le> bp \<and> bp \<le> 99"
  by (auto simp: transform_order_def split: if_splits)

section \<open>Checks\<close>

definition check_price_range :: "int \<Rightarrow> ('s, unit) act" where
  "check_price_range price = raise_if (\<not> (1 \<le> price \<and> price \<le> 99)) (PriceOutOfRangeError price)"

definition MAX_ORDER_QUANTITY :: int where
  "MAX_ORDER_QUANTITY = 10000"

definition check_order_limit :: "int \<Rightarrow> ('s, unit) act" where
  "check_order_limit qty =
     raise_if (\<not> (1 \<le> qty \<and> qty \<le> MAX_ORDER_QUANTITY))
       (OrderLimitExceededError (''quantity='' @ show_int qty @ '' must be in [1, '' @
          show_int MAX_ORDER_QUANTITY @ '']''))"

definition check_market_active :: "string \<Rightarrow> (db, unit) act" where
  "check_market_active market_id =
     bind_act (reads (\<lambda>d. mkt d market_id)) (\<lambda>row.
     case row of
       None \<Rightarrow> raise (MarketNotFoundError market_id)
     | Some m \<Rightarrow> raise_if (mkt_status m \<noteq> ACTIVE) (MarketNotActiveError market_id))"

definition AMM_USER_ID :: string where
  "AMM_USER_ID = ''00000000-0000-4000-a000-000000000001''"

definition lower_char :: "char \<Rightarrow> char" where
  "lower_char c =
     (if 65 \<le> (of_char c :: nat) \<and> (of_char c :: nat) \<le> 90 then char_of ((of_char c :: nat) + 32) else c)"

definition lower :: "string \<Rightarrow> string" where
  "lower s = map lower_char s"

definition is_self_trade :: "string \<Rightarrow> string \<Rightarrow> bool" where
  "is_self_trade incoming_user_id resting_user_id =
     (let uid_in = lower incoming_user_id; uid_rest = lower resting_user_id in
      if uid_in = lower AMM_USER_ID \<or> uid_rest = lower AMM_USER_ID then False
      else uid_in = uid_rest)"

lemma is_self_trade_sym: "is_self_trade u v = is_self_trade v u"
  by (auto simp: is_self_trade_def Let_def)

lemma is_self_trade_refl: "is_self_trade u u \<longleftrightarrow> lower u \<noteq> lower AMM_USER_ID"
  by (auto simp: is_self_trade_def Let_def)

lemma check_price_range_ok: "check_price_range p s = (Inr u, s') \<longleftrightarrow> 1 \<le> p \<and> p \<le> 99 \<and> s' = s"
  by (auto simp: check_price_range_def raise_if_ok_iff)

lemma check_order_limit_ok:
  "check_order_limit q s = (Inr u, s') \<longleftrightarrow> 1 \<le> q \<and> q \<le> MAX_ORDER_QUANTITY \<and> s' = s"
  by (auto simp: check_order_limit_def raise_if_ok_iff)

lemma check_market_active_ok:
  "check_market_active m d = (Inr u, d') \<longleftrightarrow>
     d' = d \<and> (\<exists>row. mkt d m = Some row \<and> mkt_status row = ACTIVE)"
  by (auto simp: check_market_active_def act_simps split: option.splits if_splits)

lemma check_market_active_state: "check_market_active m d = (r, d') \<Longrightarrow> d' = d"
  by (auto simp: check_market_active_def act_simps split: option.splits if_splits)

section \<open>Freezing funds or shares\<close>

text \<open>The three statements: the \<open>WHERE\<close> clause holds the balance condition.\<close>

definition freeze_funds_sql :: "string \<Rightarrow> int \<Rightarrow> (db, account list) act" where
  "freeze_funds_sql u amount =
     update_accounts (\<lambda>a. acc_user_id a = u \<and> amount \<le> available_balance a)
       (\<lambda>a. a\<lparr>available_balance := available_balance a - amount,
              frozen_balance := frozen_balance a + amount,
              acc_version := acc_version a + 1\<rparr>)"

definition freeze_yes_sql :: "string \<Rightarrow> string \<Rightarrow> int \<Rightarrow> (db, position list) act" where
  "freeze_yes_sql u m qty =
     update_positions (\<lambda>p. pos_key p = (u, m) \<and> qty \<le> yes_volume p - yes_pending_sell p)
       (\<lambda>p. p\<lparr>yes_pending_sell := yes_pending_sell p + qty\<rparr>)"

definition freeze_no_sql :: "string \<Rightarrow> string \<Rightarrow> int \<Rightarrow> (db, position list) act" where
  "freeze_no_sql u m qty =
     update_positions (\<lambda>p. pos_key p = (u, m) \<and> qty \<le> no_volume p - no_pending_sell p)
       (\<lambda>p. p\<lparr>no_pending_sell := no_pending_sell p + qty\<rparr>)"

definition check_and_freeze :: "order \<Rightarrow> (db, order) act" where
  "check_and_freeze ord =
     (if book_type ord \<in> {NATIVE_BUY, SYNTHETIC_SELL} then
        (let trade_value = original_price ord * quantity ord;
             freeze_amount = trade_value + calc_max_fee trade_value in
         bind_act (freeze_funds_sql (ord_user_id ord) freeze_amount) (\<lambda>rows.
         if rows = [] then raise (InsufficientBalanceError freeze_amount 0)
         else bind_act (write_ledger (ord_user_id ord) ORDER_FREEZE (- freeze_amount) 0
                          ''ORDER'' (ord_id ord)) (\<lambda>_.
              ret (ord\<lparr>frozen_amount := freeze_amount, frozen_asset_type := FUNDS\<rparr>))))
      else if book_type ord = NATIVE_SELL then
        bind_act (freeze_yes_sql (ord_user_id ord) (ord_market_id ord) (quantity ord)) (\<lambda>rows.
        if rows = [] then
          raise (InsufficientPositionError (''Insufficient YES shares: need '' @ show_int (quantity ord)))
        else ret (ord\<lparr>frozen_amount := quantity ord, frozen_asset_type := YES_SHARES\<rparr>))
      else
        bind_act (freeze_no_sql (ord_user_id ord) (ord_market_id ord) (quantity ord)) (\<lambda>rows.
        if rows = [] then
          raise (InsufficientPositionError (''Insufficient NO shares: need '' @ show_int (quantity ord)))
        else ret (ord\<lparr>frozen_amount := quantity ord, frozen_asset_type := NO_SHARES\<rparr>)))"

lemma keeps_wf_freeze_funds [pres_intros]: "keeps wf_db (freeze_funds_sql u n)"
  unfolding freeze_funds_sql_def by (rule pres_intros) simp

lemma keeps_wf_freeze_yes [pres_intros]: "keeps wf_db (freeze_yes_sql u m n)"
  unfolding freeze_yes_sql_def by (rule pres_intros) (simp add: pos_key_def)

lemma keeps_wf_freeze_no [pres_intros]: "keeps wf_db (freeze_no_sql u m n)"
  unfolding freeze_no_sql_def by (rule pres_intros) (simp add: pos_key_def)

lemma keeps_wf_check_market_active [pres_intros]: "keeps wf_db (check_market_active m)"
  by (auto simp: keeps_def dest: check_market_active_state)

lemma keeps_wf_check_and_freeze [pres_intros]: "keeps wf_db (check_and_freeze ord)"
  unfolding check_and_freeze_def Let_def by (intro pres_intros)

lemma keeps_check_price_range [pres_intros]: "keeps I (check_price_range p)"
  unfolding check_price_range_def by (rule pres_intros)

lemma keeps_check_order_limit [pres_intros]: "keeps I (check_order_limit q)"
  unfolding check_order_limit_def by (rule pres_intros)

text \<open>A successful freeze moves money between two columns of one row and nothing else.\<close>

lemma freeze_funds_views:
  assumes "freeze_funds_sql u n d = (Inr rows, d')"
  shows "funds d' = funds d" "positions d' = positions d" "markets d' = markets d"
    "orders d' = orders d" "account_ids d' = account_ids d"
proof -
  from assms have d': "accounts d' = update_where
      (\<lambda>a. acc_user_id a = u \<and> n \<le> available_balance a)
      (\<lambda>a. a\<lparr>available_balance := available_balance a - n, frozen_balance := frozen_balance a + n,
             acc_version := acc_version a + 1\<rparr>) (accounts d)"
    and rest: "positions d' = positions d" "markets d' = markets d" "orders d' = orders d"
    by (auto simp: freeze_funds_sql_def sql_update_ok_iff)
  show "funds d' = funds d"
    unfolding funds_def d' by (rule col_sum_update_same) (simp add: acc_funds_def)
  show "account_ids d' = account_ids d"
    unfolding account_ids_def d' by (rule image_update_where) simp
  show "positions d' = positions d" "markets d' = markets d" "orders d' = orders d"
    by (rule rest)+
qed

lemma freeze_shares_views:
  assumes "freeze_yes_sql u m n d = (Inr rows, d') \<or> freeze_no_sql u m n d = (Inr rows, d')"
  shows "accounts d' = accounts d" "markets d' = markets d" "orders d' = orders d"
    "yes_held k d' = yes_held k d" "no_held k d' = no_held k d" "cost_held k d' = cost_held k d"
    "pos_key ` set (positions d') = pos_key ` set (positions d)"
proof -
  from assms obtain P f where d': "positions d' = update_where P f (positions d)"
    and f: "\<And>p. pos_key (f p) = pos_key p"
    and g: "\<And>p. in_market k yes_volume (f p) = in_market k yes_volume p"
      "\<And>p. in_market k no_volume (f p) = in_market k no_volume p"
      "\<And>p. in_market k (\<lambda>p. yes_cost_sum p + no_cost_sum p) (f p) =
            in_market k (\<lambda>p. yes_cost_sum p + no_cost_sum p) p"
    by (fastforce simp: freeze_yes_sql_def freeze_no_sql_def sql_update_ok_iff pos_key_def in_market_def)
  show "yes_held k d' = yes_held k d" "no_held k d' = no_held k d" "cost_held k d' = cost_held k d"
    unfolding yes_held_def no_held_def cost_held_def d' by (simp_all add: col_sum_update_same g)
  show "pos_key ` set (positions d') = pos_key ` set (positions d)"
    unfolding d' by (rule image_update_where) (rule f)
  show "accounts d' = accounts d" "markets d' = markets d" "orders d' = orders d"
    using assms by (auto simp: freeze_yes_sql_def freeze_no_sql_def sql_update_ok_iff)
qed

text \<open>What the freeze sets on the order.\<close>

definition freeze_amount_of :: "order \<Rightarrow> int" where
  "freeze_amount_of ord =
     (if book_type ord \<in> {NATIVE_BUY, SYNTHETIC_SELL}
      then original_price ord * quantity ord + calc_max_fee (original_price ord * quantity ord)
      else quantity ord)"

definition freeze_asset_of :: "order \<Rightarrow> frozen_asset" where
  "freeze_asset_of ord =
     (if book_type ord \<in> {NATIVE_BUY, SYNTHETIC_SELL} then FUNDS
      else if book_type ord = NATIVE_SELL then YES_SHARES else NO_SHARES)"

lemma check_and_freeze_order:
  "check_and_freeze ord d = (Inr ord', d') \<Longrightarrow>
   ord' = ord\<lparr>frozen_amount := freeze_amount_of ord, frozen_asset_type := freeze_asset_of ord\<rparr>"
  by (auto simp: check_and_freeze_def ok_simps freeze_amount_of_def freeze_asset_of_def Let_def
      split: if_splits)

lemma check_and_freeze_views:
  assumes "check_and_freeze ord d = (Inr ord', d')"
  shows "funds d' = funds d" "markets d' = markets d" "orders d' = orders d"
    "account_ids d' = account_ids d"
    "yes_held k d' = yes_held k d" "no_held k d' = no_held k d" "cost_held k d' = cost_held k d"
    "pos_key ` set (positions d') = pos_key ` set (positions d)"
proof -
  let ?conc = "funds d' = funds d \<and> markets d' = markets d \<and> orders d' = orders d \<and>
    account_ids d' = account_ids d \<and>
    yes_held k d' = yes_held k d \<and> no_held k d' = no_held k d \<and> cost_held k d' = cost_held k d \<and>
    pos_key ` set (positions d') = pos_key ` set (positions d)"
  have ?conc
  proof (cases "book_type ord \<in> {NATIVE_BUY, SYNTHETIC_SELL}")
    case True
    with assms obtain n rows d1 u where s: "freeze_funds_sql (ord_user_id ord) n d = (Inr rows, d1)"
      and l: "write_ledger (ord_user_id ord) ORDER_FREEZE (- n) 0 ''ORDER'' (ord_id ord) d1 = (Inr u, d')"
      by (auto simp: check_and_freeze_def ok_simps Let_def split: if_splits)
    show ?thesis
      using freeze_funds_views [OF s] write_ledger_core [OF l]
      by (simp add: same_core_def view_defs)
  next
    case False
    with assms obtain rows where
      "freeze_yes_sql (ord_user_id ord) (ord_market_id ord) (quantity ord) d = (Inr rows, d') \<or>
       freeze_no_sql (ord_user_id ord) (ord_market_id ord) (quantity ord) d = (Inr rows, d')"
      by (auto simp: check_and_freeze_def ok_simps split: if_splits)
    from freeze_shares_views [OF this] show ?thesis by (simp add: view_defs)
  qed
  then show "funds d' = funds d" "markets d' = markets d" "orders d' = orders d"
    "account_ids d' = account_ids d"
    "yes_held k d' = yes_held k d" "no_held k d' = no_held k d" "cost_held k d' = cost_held k d"
    "pos_key ` set (positions d') = pos_key ` set (positions d)" by auto
qed

end
