(* ===== verification/Samples.thy ===== *)
theory Samples
  imports Order_Book Schema
begin

text \<open>
  Concrete orders, books and a database on which the properties are applied: three users, a
  market \<open>M\<close> with ten pairs of shares outstanding and one open order, a book with asks at
  40 and 45 cents.
\<close>

definition sample_order ::
  "string \<Rightarrow> string \<Rightarrow> side \<Rightarrow> direction \<Rightarrow> int \<Rightarrow> int \<Rightarrow> order" where
  "sample_order oid u sd dir price qty =
     \<lparr>ord_id = oid, client_order_id = oid, ord_market_id = ''M'', ord_user_id = u,
      original_side = sd, original_direction = dir, original_price = price,
      book_type = UNSET_BOOK_TYPE, book_direction = UNSET_DIRECTION, book_price = 0,
      quantity = qty, frozen_amount = 0, frozen_asset_type = UNSET_ASSET, time_in_force = GTC,
      ord_status = OPEN, cancel_reason = None, filled_quantity = 0, remaining_quantity = qty,
      ord_created_at = Some 0, ord_updated_at = Some 0\<rparr>"

text \<open>The order as it enters the book.\<close>

definition sample_buy :: order where
  "sample_buy = (sample_order ''o9'' ''alice'' YES BUY 50 8)
     \<lparr>book_type := NATIVE_BUY, book_direction := BUY, book_price := 50\<rparr>"

definition sample_entry :: "string \<Rightarrow> string \<Rightarrow> int \<Rightarrow> book_order" where
  "sample_entry oid u qty =
     \<lparr>bo_order_id = oid, bo_user_id = u, bo_book_type = NATIVE_SELL, bo_quantity = qty,
      bo_created_at = 0\<rparr>"

definition book_of :: "(book_order \<times> int \<times> direction) list \<Rightarrow> order_book" where
  "book_of rows = snd (fold_act (\<lambda>r _. add_order (fst r) (fst (snd r)) (snd (snd r))) rows () (OrderBook ''M''))"

lemma book_of_ok:
  fixes rows :: "(book_order \<times> int \<times> direction) list"
  assumes "distinct (map (\<lambda>r. bo_order_id (fst r)) rows)"
    and "\<forall>(bo, p, sd) \<in> set rows. 0 < p \<and> p < 100 \<and> sd \<in> {BUY, SELL} \<and> 0 < bo_quantity bo"
  shows "ob_inv (book_of rows)" "resting (book_of rows) = (\<lambda>(bo, p, sd). (sd, p, bo)) ` set rows"
proof -
  have "\<exists>b'. fold_act (\<lambda>r _. add_order (fst r) (fst (snd r)) (snd (snd r))) rows () (OrderBook ''M'') = (Inr (), b') \<and>
      ob_inv b' \<and> resting b' = (\<lambda>r. (snd (snd r), fst (snd r), fst r)) ` set rows"
    using assms(2) by (intro ob.add_all assms(1)) auto
  then obtain b' where "book_of rows = b'" "ob_inv b'"
      "resting b' = (\<lambda>r. (snd (snd r), fst (snd r), fst r)) ` set rows"
    by (auto simp: book_of_def)
  moreover have "(\<lambda>r. (snd (snd r), fst (snd r), fst r)) = (\<lambda>(bo :: book_order, p :: int, sd :: direction). (sd, p, bo))"
    by (simp add: fun_eq_iff)
  ultimately show "ob_inv (book_of rows)"
    "resting (book_of rows) = (\<lambda>(bo, p, sd). (sd, p, bo)) ` set rows" by metis+
qed

definition sample_book :: order_book where
  "sample_book = book_of
     [(sample_entry ''o1'' ''bob'' 5, 40, SELL), (sample_entry ''o2'' ''carol'' 5, 45, SELL)]"

lemma sample_book_inv: "ob_inv sample_book"
  unfolding sample_book_def by (rule book_of_ok) (auto simp: sample_entry_def)

lemma sample_book_resting:
  "resting sample_book =
     {(SELL, 40, sample_entry ''o1'' ''bob'' 5), (SELL, 45, sample_entry ''o2'' ''carol'' 5)}"
  unfolding sample_book_def by (subst book_of_ok) (auto simp: sample_entry_def)

definition sample_account :: "string \<Rightarrow> int \<Rightarrow> int \<Rightarrow> account" where
  "sample_account u avail frozen =
     \<lparr>acc_user_id = u, available_balance = avail, frozen_balance = frozen, acc_version = 0,
      auto_netting_enabled = True\<rparr>"

definition sample_market :: market where
  "sample_market = \<lparr>mkt_id = ''M'', title = ''Will it rain?'', description = None, category = None,
     mkt_status = ACTIVE, min_price_cents = 1, max_price_cents = 99, max_order_quantity = 10000,
     max_position_per_user = 25000, max_order_amount_cents = 1000000, maker_fee_bps = 10,
     taker_fee_bps = 20, reserve_balance = 1000, pnl_pool = 0, total_yes_shares = 10,
     total_no_shares = 10, trading_start_at = None, trading_end_at = None, resolution_date = None,
     resolved_at = None, settled_at = None, resolution_result = None, mkt_created_at = 0\<rparr>"

definition sample_open :: order where
  "sample_open = (sample_order ''r1'' ''carol'' YES BUY 50 2)
     \<lparr>book_type := NATIVE_BUY, book_direction := BUY, book_price := 50,
      frozen_amount := 101, frozen_asset_type := FUNDS\<rparr>"

definition sample_db :: db where
  "sample_db = \<lparr>
     accounts = [sample_account ''alice'' 10000 0, sample_account ''bob'' 10000 0,
                 sample_account ''carol'' 9899 101, sample_account ''PLATFORM_FEE'' 0 0],
     positions =
       [\<lparr>pos_user_id = ''alice'', pos_market_id = ''M'', yes_volume = 10, yes_cost_sum = 400,
         yes_pending_sell = 0, no_volume = 0, no_cost_sum = 0, no_pending_sell = 0\<rparr>,
        \<lparr>pos_user_id = ''bob'', pos_market_id = ''M'', yes_volume = 0, yes_cost_sum = 0,
         yes_pending_sell = 0, no_volume = 10, no_cost_sum = 600, no_pending_sell = 0\<rparr>],
     markets = [sample_market], orders = [sample_open], trades = [], ledger_entries = [],
     wal_events = [], users = [], ledger_seq = 0, clock = 7,
     gid = (\<lambda>n. replicate (Suc n) (CHR ''g'')), gid_next = 0\<rparr>"

lemma sample_db_wf: "wf_db sample_db"
  by code_simp

text \<open>The same market with funds and shares frozen, and two trades to clear in it.\<close>

definition frozen_db :: db where
  "frozen_db = sample_db\<lparr>
     accounts := [sample_account ''alice'' 9000 1000, sample_account ''bob'' 9000 1000,
                  sample_account ''carol'' 9899 101, sample_account ''PLATFORM_FEE'' 0 0],
     positions :=
       [\<lparr>pos_user_id = ''alice'', pos_market_id = ''M'', yes_volume = 10, yes_cost_sum = 400,
         yes_pending_sell = 5, no_volume = 0, no_cost_sum = 0, no_pending_sell = 0\<rparr>,
        \<lparr>pos_user_id = ''bob'', pos_market_id = ''M'', yes_volume = 0, yes_cost_sum = 0,
         yes_pending_sell = 0, no_volume = 10, no_cost_sum = 600, no_pending_sell = 0\<rparr>]\<rparr>"

definition sample_trade :: "book_type \<Rightarrow> book_type \<Rightarrow> string \<Rightarrow> string \<Rightarrow> int \<Rightarrow> int \<Rightarrow> trade_result" where
  "sample_trade bbt sbt buyer seller price qty =
     \<lparr>buy_order_id = ''o1'', sell_order_id = ''o2'', buy_user_id = buyer, sell_user_id = seller,
      tr_market_id = ''M'', tr_price = price, tr_quantity = qty, buy_book_type = bbt,
      sell_book_type = sbt, buy_original_price = price, maker_order_id = ''o2'',
      taker_order_id = ''o1''\<rparr>"

definition mint_trade :: trade_result where
  "mint_trade = sample_trade NATIVE_BUY SYNTHETIC_SELL ''alice'' ''bob'' 40 5"

definition transfer_trade :: trade_result where
  "transfer_trade = sample_trade NATIVE_BUY NATIVE_SELL ''bob'' ''alice'' 50 5"

lemma frozen_db_wf: "wf_db frozen_db"
  by code_simp

text \<open>A text for pairs of strings and its reader: the length of the first, then both.\<close>

definition pair_text :: "string \<times> string \<Rightarrow> string" where
  "pair_text p = replicate (length (fst p)) (CHR ''1'') @ CHR ''0'' # fst p @ snd p"

definition read_pair :: "string \<Rightarrow> (string \<times> string) option" where
  "read_pair s = (let n = length (takeWhile ((=) (CHR ''1'')) s); r = drop (Suc n) s in Some (take n r, drop n r))"

lemma read_pair_text [simp]: "read_pair (pair_text p) = Some p"
proof -
  have "takeWhile ((=) (CHR ''1'')) (replicate n (CHR ''1'') @ CHR ''0'' # r) = replicate n (CHR ''1'')" for n r
    by (induction n) auto
  then show ?thesis by (cases p) (simp add: read_pair_def pair_text_def Let_def)
qed

end
