(* ===== verification/Matching.thy ===== *)
theory Matching
  imports Order_Book Risk Samples
begin

text \<open>
  Price-time matching on the single YES book, \<open>pm_matching/engine/matching_algo.py\<close>, and
  the trade scenarios of \<open>pm_matching/engine/scenario.py\<close>. First the code's loops (the
  inner one rotates the deque past the taker's own orders and counts how many it has
  looked at), then the reference they are proved equal to: one pass over each queue, level
  by level. What matching does to the order, to the trades and to the book is read off the
  reference.
\<close>

section \<open>Trade scenarios\<close>

definition determine_scenario :: "book_type \<Rightarrow> book_type \<Rightarrow> trade_scenario" where
  "determine_scenario buy_bt sell_bt =
     (let buy_native = (buy_bt = NATIVE_BUY); sell_native = (sell_bt = NATIVE_SELL) in
      if buy_native \<and> \<not> sell_native then MINT
      else if buy_native \<and> sell_native then TRANSFER_YES
      else if \<not> buy_native \<and> \<not> sell_native then TRANSFER_NO
      else BURN)"

section \<open>One fill\<close>

definition make_trade_buy_incoming :: "order \<Rightarrow> book_order \<Rightarrow> int \<Rightarrow> int \<Rightarrow> trade_result" where
  "make_trade_buy_incoming buy_incoming sell_resting price qty =
     \<lparr>buy_order_id = ord_id buy_incoming, sell_order_id = bo_order_id sell_resting,
      buy_user_id = ord_user_id buy_incoming, sell_user_id = bo_user_id sell_resting,
      tr_market_id = ord_market_id buy_incoming, tr_price = price, tr_quantity = qty,
      buy_book_type = book_type buy_incoming, sell_book_type = bo_book_type sell_resting,
      buy_original_price = original_price buy_incoming,
      maker_order_id = bo_order_id sell_resting, taker_order_id = ord_id buy_incoming\<rparr>"

definition make_trade_sell_incoming :: "order \<Rightarrow> book_order \<Rightarrow> int \<Rightarrow> int \<Rightarrow> trade_result" where
  "make_trade_sell_incoming sell_incoming buy_resting price qty =
     \<lparr>buy_order_id = bo_order_id buy_resting, sell_order_id = ord_id sell_incoming,
      buy_user_id = bo_user_id buy_resting, sell_user_id = ord_user_id sell_incoming,
      tr_market_id = ord_market_id sell_incoming, tr_price = price, tr_quantity = qty,
      buy_book_type = bo_book_type buy_resting, sell_book_type = book_type sell_incoming,
      buy_original_price = 0,
      maker_order_id = bo_order_id buy_resting, taker_order_id = ord_id sell_incoming\<rparr>"

definition apply_fill :: "order \<Rightarrow> book_order \<Rightarrow> int \<Rightarrow> order \<times> book_order" where
  "apply_fill incoming rest_bo qty =
     (let inc1 = incoming\<lparr>filled_quantity := filled_quantity incoming + qty,
                          remaining_quantity := remaining_quantity incoming - qty\<rparr>
      in (inc1\<lparr>ord_status := if remaining_quantity inc1 = 0 then FILLED else PARTIALLY_FILLED\<rparr>,
          rest_bo\<lparr>bo_quantity := bo_quantity rest_bo - qty\<rparr>))"

section \<open>The loops of the code\<close>

text \<open>
  The inner \<open>while\<close> of \<open>_match_buy\<close> and \<open>_match_sell\<close> on the queue of one price: \<open>mk\<close>
  builds the trade, \<open>checked\<close> and \<open>tot\<close> (\<open>total\<close>) are the code's counters. A resting order of the
  taker's own user goes to the back (\<open>rotate(-1)\<close>); a resting order that is used up leaves
  the queue and the index.
\<close>

function fill_level ::
  "(order \<Rightarrow> book_order \<Rightarrow> int \<Rightarrow> trade_result) \<Rightarrow> int \<Rightarrow> int \<Rightarrow> order \<Rightarrow> book_order list \<Rightarrow>
   (string \<Rightarrow> (direction \<times> int) option) \<Rightarrow> trade_result list \<Rightarrow>
   order \<times> book_order list \<times> (string \<Rightarrow> (direction \<times> int) option) \<times> trade_result list" where
  "fill_level mk checked tot incoming queue idx trs =
     (if queue \<noteq> [] \<and> 0 < remaining_quantity incoming \<and> checked < tot then
        (let resting_bo = hd queue in
         if is_self_trade (ord_user_id incoming) (bo_user_id resting_bo) then
           fill_level mk (checked + 1) tot incoming (tl queue @ [resting_bo]) idx trs
         else
           (let fill_qty = min (remaining_quantity incoming) (bo_quantity resting_bo);
                trs' = trs @ [mk incoming resting_bo fill_qty];
                (incoming', resting') = apply_fill incoming resting_bo fill_qty
            in if bo_quantity resting' = 0 then
                 fill_level mk checked (tot - 1) incoming' (tl queue)
                   (idx(bo_order_id resting_bo := None)) trs'
               else (incoming', resting' # tl queue, idx, trs')))
      else (incoming, queue, idx, trs))"
  by pat_completeness auto

termination fill_level
  by (relation "measure (\<lambda>(mk, checked, tot, incoming, queue, idx, trs). nat (tot - checked))") auto

declare fill_level.simps [simp del]

text \<open>
  The outer loops. With a price of 0 or less the loop of \<open>_match_sell\<close> would not end on an
  empty book, so both are partial functions: \<open>None\<close> is a loop that runs forever.
\<close>

partial_function (option) match_buy ::
  "order \<Rightarrow> trade_result list \<Rightarrow> order_book \<Rightarrow>
   ((exc + order \<times> trade_result list) \<times> order_book) option" where
  "match_buy incoming trs ob =
     (if 0 < remaining_quantity incoming \<and> best_ask ob \<le> book_price incoming then
        (let price = best_ask ob in
         case py_index (asks ob) price of
           None \<Rightarrow> Some (Inl IndexError, ob)
         | Some k \<Rightarrow>
             let queue = asks ob ! k;
                 (incoming', queue', idx', trs') =
                   fill_level (\<lambda>i r q. make_trade_buy_incoming i r price q) 0 (int (length queue))
                     incoming queue (order_index ob) trs;
                 ob1 = ob\<lparr>asks := (asks ob)[k := queue'], order_index := idx'\<rparr>
             in if queue' = [] then
                  (let ob2 = refresh_best_ask ob1 in
                   if book_price incoming' < best_ask ob2 then Some (Inr (incoming', trs'), ob2)
                   else match_buy incoming' trs' ob2)
                else Some (Inr (incoming', trs'), ob1))
      else Some (Inr (incoming, trs), ob))"

partial_function (option) match_sell ::
  "order \<Rightarrow> trade_result list \<Rightarrow> order_book \<Rightarrow>
   ((exc + order \<times> trade_result list) \<times> order_book) option" where
  "match_sell incoming trs ob =
     (if 0 < remaining_quantity incoming \<and> book_price incoming \<le> best_bid ob then
        (let price = best_bid ob in
         case py_index (bids ob) price of
           None \<Rightarrow> Some (Inl IndexError, ob)
         | Some k \<Rightarrow>
             let queue = bids ob ! k;
                 (incoming', queue', idx', trs') =
                   fill_level (\<lambda>i r q. make_trade_sell_incoming i r price q) 0 (int (length queue))
                     incoming queue (order_index ob) trs;
                 ob1 = ob\<lparr>bids := (bids ob)[k := queue'], order_index := idx'\<rparr>
             in if queue' = [] then
                  (let ob2 = refresh_best_bid ob1 in
                   if best_bid ob2 < book_price incoming' then Some (Inr (incoming', trs'), ob2)
                   else match_sell incoming' trs' ob2)
                else Some (Inr (incoming', trs'), ob1))
      else Some (Inr (incoming, trs), ob))"

declare match_buy.simps [code] match_sell.simps [code]

definition match_order :: "order \<Rightarrow> (order_book, order \<times> trade_result list) act" where
  "match_order incoming = (\<lambda>ob.
     case (if book_direction incoming = BUY then match_buy incoming [] ob else match_sell incoming [] ob) of
       None \<Rightarrow> (Inl DoesNotReturn, ob)
     | Some r \<Rightarrow> r)"

section \<open>The reference: one pass over each level\<close>

text \<open>
  What one level does for a taker \<open>u\<close> with \<open>r\<close> shares to go: the fills, what is left of
  \<open>r\<close>, and the queue afterwards. \<open>own\<close> holds the own orders passed over.
\<close>

fun level_pass ::
  "string \<Rightarrow> int \<Rightarrow> book_order list \<Rightarrow> book_order list \<Rightarrow>
   (book_order \<times> int) list \<times> int \<times> book_order list" where
  "level_pass u r [] own = ([], r, own)"
| "level_pass u r (bo # bs) own =
     (if r \<le> 0 then ([], r, (bo # bs) @ own)
      else if is_self_trade u (bo_user_id bo) then level_pass u r bs (own @ [bo])
      else if bo_quantity bo \<le> r then
        (case level_pass u (r - bo_quantity bo) bs own of
           (fs, r', q) \<Rightarrow> ((bo, bo_quantity bo) # fs, r', q))
      else ([(bo, r)], 0, (bo\<lparr>bo_quantity := bo_quantity bo - r\<rparr> # bs) @ own))"

text \<open>The order after some fills, and the index after the orders used up have left.\<close>

definition fill_total :: "(book_order \<times> int) list \<Rightarrow> int" where
  "fill_total fs = sum_list (map snd fs)"

definition filled_by :: "int \<Rightarrow> order \<Rightarrow> order" where
  "filled_by x inc =
     (if x = 0 then inc
      else inc\<lparr>filled_quantity := filled_quantity inc + x,
               remaining_quantity := remaining_quantity inc - x,
               ord_status := if remaining_quantity inc - x = 0 then FILLED else PARTIALLY_FILLED\<rparr>)"

definition used_up :: "(book_order \<times> int) list \<Rightarrow> string set" where
  "used_up fs = {bo_order_id bo |bo. (bo, bo_quantity bo) \<in> set fs}"

lemma fill_total_simps [simp]:
  "fill_total [] = 0" "fill_total (f # fs) = snd f + fill_total fs"
  "fill_total (fs @ fs') = fill_total fs + fill_total fs'"
  by (simp_all add: fill_total_def)

lemma used_up_simps [simp]:
  "used_up [] = {}"
  "used_up ((bo, q) # fs) = (if q = bo_quantity bo then {bo_order_id bo} else {}) \<union> used_up fs"
  by (auto simp: used_up_def)

lemma fill_total_pos:
  "\<forall>f \<in> set fs. 0 < snd f \<Longrightarrow> 0 \<le> fill_total fs \<and> (fs \<noteq> [] \<longrightarrow> 0 < fill_total fs)"
  by (induction fs) auto

lemma level_pass_total:
  "level_pass u r front own = (fs, r', q) \<Longrightarrow> fill_total fs = r - r'"
  by (induction u r front own arbitrary: fs r' q rule: level_pass.induct)
     (auto split: if_splits prod.splits)

lemma level_pass_fills:
  "level_pass u r front own = (fs, r', q) \<Longrightarrow> \<forall>bo \<in> set front. 0 < bo_quantity bo \<Longrightarrow>
   \<forall>f \<in> set fs. fst f \<in> set front \<and> \<not> is_self_trade u (bo_user_id (fst f)) \<and>
     0 < snd f \<and> snd f \<le> bo_quantity (fst f)"
proof (induction u r front own arbitrary: fs r' q rule: level_pass.induct)
  case (1 u r own)
  then show ?case by simp
next
  case (2 u r bo bs own)
  consider (stop) "r \<le> 0" | (self) "\<not> r \<le> 0" "is_self_trade u (bo_user_id bo)"
    | (all) "\<not> r \<le> 0" "\<not> is_self_trade u (bo_user_id bo)" "bo_quantity bo \<le> r"
    | (part) "\<not> r \<le> 0" "\<not> is_self_trade u (bo_user_id bo)" "\<not> bo_quantity bo \<le> r" by blast
  then show ?case
  proof cases
    case self
    with 2 show ?thesis by simp
  next
    case all
    then obtain fs1 where "level_pass u (r - bo_quantity bo) bs own = (fs1, r', q)"
      and fs: "fs = (bo, bo_quantity bo) # fs1"
      using 2(3) by (auto split: prod.splits)
    with 2(2) all 2(4) show ?thesis by auto
  qed (use 2(3) in auto)
qed

lemma level_pass_total_nonneg:
  assumes "level_pass u r front own = (fs, r', q)" and "\<forall>bo \<in> set front. 0 < bo_quantity bo"
  shows "0 \<le> fill_total fs"
proof -
  have "\<forall>f \<in> set fs. 0 < snd f" using level_pass_fills [OF assms] by blast
  then show ?thesis by (induction fs) auto
qed

lemma filled_by_0 [simp]: "filled_by 0 inc = inc"
  by (simp add: filled_by_def)

lemma filled_by_add:
  "0 < x \<Longrightarrow> 0 \<le> y \<Longrightarrow> filled_by y (filled_by x inc) = filled_by (x + y) inc"
  by (auto simp: filled_by_def)

lemma filled_by_frame [simp]:
  "ord_id (filled_by x i) = ord_id i" "ord_user_id (filled_by x i) = ord_user_id i"
  "ord_market_id (filled_by x i) = ord_market_id i" "book_type (filled_by x i) = book_type i"
  "book_direction (filled_by x i) = book_direction i" "book_price (filled_by x i) = book_price i"
  "original_price (filled_by x i) = original_price i" "quantity (filled_by x i) = quantity i"
  "frozen_asset_type (filled_by x i) = frozen_asset_type i"
  "frozen_amount (filled_by x i) = frozen_amount i"
  "time_in_force (filled_by x i) = time_in_force i"
  "client_order_id (filled_by x i) = client_order_id i"
  "original_side (filled_by x i) = original_side i"
  "original_direction (filled_by x i) = original_direction i"
  "remaining_quantity (filled_by x i) = remaining_quantity i - x"
  "filled_quantity (filled_by x i) = filled_quantity i + x"
  by (auto simp: filled_by_def)

text \<open>The rotating loop is one pass over the queue.\<close>

lemma fill_level_pass:
  assumes "\<And>x i. mk (filled_by x i) = mk i" and "\<forall>bo \<in> set front. 0 < bo_quantity bo"
    and "level_pass (ord_user_id inc) (remaining_quantity inc) front own = (fs, r', q)"
    and "tot = checked + int (length front)"
  shows "fill_level mk checked tot inc (front @ own) idx trs =
    (filled_by (fill_total fs) inc, q, (\<lambda>oid. if oid \<in> used_up fs then None else idx oid),
     trs @ map (\<lambda>(bo, n). mk inc bo n) fs)"
  using assms(2-4)
proof (induction front arbitrary: own checked tot inc idx trs fs)
  case Nil
  then show ?case by (subst fill_level.simps) auto
next
  case (Cons bo bs)
  let ?r = "remaining_quantity inc"
  consider (stop) "?r \<le> 0"
    | (self) "0 < ?r" "is_self_trade (ord_user_id inc) (bo_user_id bo)"
    | (all) "0 < ?r" "\<not> is_self_trade (ord_user_id inc) (bo_user_id bo)" "bo_quantity bo \<le> ?r"
    | (part) "0 < ?r" "\<not> is_self_trade (ord_user_id inc) (bo_user_id bo)" "?r < bo_quantity bo"
    by linarith
  then show ?case
  proof cases
    case stop
    with Cons.prems show ?thesis by (subst fill_level.simps) auto
  next
    case self
    then have pass: "level_pass (ord_user_id inc) ?r bs (own @ [bo]) = (fs, r', q)"
      using Cons.prems(2) by simp
    have "fill_level mk checked tot inc ((bo # bs) @ own) idx trs =
          fill_level mk (checked + 1) tot inc (bs @ (own @ [bo])) idx trs"
      using self Cons.prems(3) by (subst fill_level.simps) (simp add: Let_def)
    then show ?thesis
      using Cons.IH [OF _ pass, of tot "checked + 1"] Cons.prems(1,3) by simp
  next
    case all
    define fs1 where "fs1 = tl fs"
    have pass: "level_pass (ord_user_id inc) (?r - bo_quantity bo) bs own = (fs1, r', q)"
      and fs: "fs = (bo, bo_quantity bo) # fs1"
      using all Cons.prems(2) by (auto simp: fs1_def split: prod.splits)
    let ?inc = "filled_by (bo_quantity bo) inc"
    have pos: "0 < bo_quantity bo" using Cons.prems(1) by simp
    have "fill_level mk checked tot inc ((bo # bs) @ own) idx trs =
          fill_level mk checked (tot - 1) ?inc (bs @ own) (idx(bo_order_id bo := None))
            (trs @ [mk inc bo (bo_quantity bo)])"
      using all pos Cons.prems(3)
      by (subst fill_level.simps) (simp add: Let_def apply_fill_def filled_by_def min_def)
    also have "\<dots> = (filled_by (fill_total fs1) ?inc, q,
        (\<lambda>oid. if oid \<in> used_up fs1 then None else (idx(bo_order_id bo := None)) oid),
        (trs @ [mk inc bo (bo_quantity bo)]) @ map (\<lambda>(bo, n). mk ?inc bo n) fs1)"
      using Cons.prems(1,3) pass by (intro Cons.IH) auto
    finally show ?thesis
      using pos level_pass_total_nonneg [OF pass] Cons.prems(1) assms(1)
      by (auto simp: fs filled_by_add)
  next
    case part
    then show ?thesis
      using Cons.prems
      by (subst fill_level.simps) (auto simp: Let_def apply_fill_def filled_by_def min_def)
  qed
qed

text \<open>What one pass leaves in the queue: every order less what it has given up.\<close>

definition filled_of :: "(book_order \<times> int) list \<Rightarrow> string \<Rightarrow> int" where
  "filled_of fs oid = sum_list (map snd (filter (\<lambda>f. bo_order_id (fst f) = oid) fs))"

lemma filled_of_member:
  "\<forall>f \<in> set fs. 0 < snd f \<Longrightarrow> f \<in> set fs \<Longrightarrow> snd f \<le> filled_of fs (bo_order_id (fst f))"
proof (induction fs)
  case Nil
  then show ?case by simp
next
  case (Cons g fs)
  have "0 \<le> filled_of fs oid" for oid
    using Cons.prems(1) by (induction fs) (auto simp: filled_of_def)
  with Cons show ?case by (auto simp: filled_of_def add_nonneg_nonneg intro: add_increasing)
qed

definition less_qty :: "int \<Rightarrow> book_order \<Rightarrow> book_order" where
  "less_qty x bo = bo\<lparr>bo_quantity := bo_quantity bo - x\<rparr>"

lemma filled_of_simps [simp]:
  "filled_of [] oid = 0"
  "filled_of (f # fs) oid = (if bo_order_id (fst f) = oid then snd f else 0) + filled_of fs oid"
  "filled_of (fs @ fs') oid = filled_of fs oid + filled_of fs' oid"
  by (simp_all add: filled_of_def)

lemma less_qty_simps [simp]:
  "less_qty 0 bo = bo" "bo_order_id (less_qty x bo) = bo_order_id bo"
  "bo_user_id (less_qty x bo) = bo_user_id bo" "bo_book_type (less_qty x bo) = bo_book_type bo"
  "bo_quantity (less_qty x bo) = bo_quantity bo - x"
  by (simp_all add: less_qty_def)

lemma filled_of_none: "\<forall>f \<in> set fs. bo_order_id (fst f) \<noteq> oid \<Longrightarrow> filled_of fs oid = 0"
  by (induction fs) auto

definition after_fills :: "(book_order \<times> int) list \<Rightarrow> book_order set \<Rightarrow> book_order set" where
  "after_fills fs B =
     {less_qty (filled_of fs (bo_order_id bo)) bo |bo. bo \<in> B \<and> filled_of fs (bo_order_id bo) < bo_quantity bo}"

lemma after_fills_Nil: "\<forall>bo \<in> B. 0 < bo_quantity bo \<Longrightarrow> after_fills [] B = B"
  by (auto simp: after_fills_def)

lemma after_fills_Un: "after_fills fs (A \<union> B) = after_fills fs A \<union> after_fills fs B"
  by (auto simp: after_fills_def)

lemma after_fills_cong:
  assumes "\<And>bo. bo \<in> B \<Longrightarrow> filled_of fs (bo_order_id bo) = filled_of fs' (bo_order_id bo)"
  shows "after_fills fs B = after_fills fs' B"
  using assms by (force simp: after_fills_def)

lemma after_fills_insert:
  "after_fills fs (insert bo B) =
     (if filled_of fs (bo_order_id bo) < bo_quantity bo
      then {less_qty (filled_of fs (bo_order_id bo)) bo} else {}) \<union> after_fills fs B"
  by (auto simp: after_fills_def)

lemma level_pass_queue:
  assumes "level_pass u r front own = (fs, r', q)"
    and "distinct (map bo_order_id (front @ own))"
    and "\<forall>bo \<in> set (front @ own). 0 < bo_quantity bo"
  shows "distinct (map bo_order_id q) \<and> set q = after_fills fs (set (front @ own))"
  using assms
proof (induction u r front own arbitrary: fs r' q rule: level_pass.induct)
  case (1 u r own)
  then show ?case by (simp add: after_fills_Nil)
next
  case (2 u r bo bs own)
  consider (stop) "r \<le> 0" | (self) "\<not> r \<le> 0" "is_self_trade u (bo_user_id bo)"
    | (all) "\<not> r \<le> 0" "\<not> is_self_trade u (bo_user_id bo)" "bo_quantity bo \<le> r"
    | (part) "\<not> r \<le> 0" "\<not> is_self_trade u (bo_user_id bo)" "\<not> bo_quantity bo \<le> r" by blast
  then show ?case
  proof cases
    case stop
    with 2(3-) show ?thesis by (auto simp: after_fills_Nil)
  next
    case self
    then have pass: "level_pass u r bs (own @ [bo]) = (fs, r', q)" using 2(3) by simp
    have "set (bs @ own @ [bo]) = set ((bo # bs) @ own)" by auto
    with 2(1) [OF self pass] 2(4,5) show ?thesis by auto
  next
    case all
    then obtain fs1 where pass: "level_pass u (r - bo_quantity bo) bs own = (fs1, r', q)"
      and fs: "fs = (bo, bo_quantity bo) # fs1"
      using 2(3) by (auto split: prod.splits)
    have IH: "distinct (map bo_order_id q) \<and> set q = after_fills fs1 (set (bs @ own))"
      using 2(2) [OF all pass] 2(4,5) by simp
    have ids: "bo_order_id b \<noteq> bo_order_id bo" if "b \<in> set (bs @ own)" for b
      using that 2(4) by auto (metis image_eqI)+
    have "\<forall>f \<in> set fs1. bo_order_id (fst f) \<noteq> bo_order_id bo"
      using level_pass_fills [OF pass] 2(5) ids by auto
    then have "filled_of fs1 (bo_order_id bo) = 0" by (rule filled_of_none)
    then have "after_fills fs (set ((bo # bs) @ own)) = after_fills fs (set (bs @ own))"
      by (simp add: after_fills_insert fs)
    also have "\<dots> = after_fills fs1 (set (bs @ own))"
      by (rule after_fills_cong) (drule ids, auto simp: fs)
    finally show ?thesis using IH by simp
  next
    case part
    then have fs: "fs = [(bo, r)]" and q: "q = (less_qty r bo # bs) @ own"
      using 2(3) by (auto simp: less_qty_def)
    have ids: "bo_order_id b \<noteq> bo_order_id bo" if "b \<in> set (bs @ own)" for b
      using that 2(4) by auto (metis image_eqI)+
    have "after_fills fs (set (bs @ own)) = after_fills [] (set (bs @ own))"
      by (rule after_fills_cong) (drule ids, auto simp: fs)
    then have "after_fills fs (set (bs @ own)) = set (bs @ own)"
      using 2(5) by (subst (asm) after_fills_Nil) auto
    then have "after_fills fs (set ((bo # bs) @ own)) = insert (less_qty r bo) (set (bs @ own))"
      using part by (simp add: after_fills_insert) (simp add: fs)
    then show ?thesis using 2(4) by (simp add: q)
  qed
qed

lemma level_pass_used_up:
  assumes "level_pass u r front own = (fs, r', q)"
    and "distinct (map bo_order_id (front @ own))"
    and "\<forall>bo \<in> set (front @ own). 0 < bo_quantity bo"
  shows "used_up fs = bo_order_id ` set (front @ own) - bo_order_id ` set q"
  using assms
proof (induction u r front own arbitrary: fs r' q rule: level_pass.induct)
  case (1 u r own)
  then show ?case by simp
next
  case (2 u r bo bs own)
  consider (stop) "r \<le> 0" | (self) "\<not> r \<le> 0" "is_self_trade u (bo_user_id bo)"
    | (all) "\<not> r \<le> 0" "\<not> is_self_trade u (bo_user_id bo)" "bo_quantity bo \<le> r"
    | (part) "\<not> r \<le> 0" "\<not> is_self_trade u (bo_user_id bo)" "\<not> bo_quantity bo \<le> r" by blast
  then show ?case
  proof cases
    case self
    then have pass: "level_pass u r bs (own @ [bo]) = (fs, r', q)" using 2(3) by simp
    from 2(1) [OF self pass] 2(4,5) show ?thesis by auto
  next
    case all
    then obtain fs1 where pass: "level_pass u (r - bo_quantity bo) bs own = (fs1, r', q)"
      and fs: "fs = (bo, bo_quantity bo) # fs1"
      using 2(3) by (auto split: prod.splits)
    have dist: "distinct (map bo_order_id (bs @ own))" "\<forall>bo \<in> set (bs @ own). 0 < bo_quantity bo"
      using 2(4,5) by auto
    have "bo_order_id ` set q \<subseteq> bo_order_id ` set (bs @ own)"
      using level_pass_queue [OF pass dist] by (auto simp: after_fills_def)
    then have "bo_order_id bo \<notin> bo_order_id ` set q" using 2(4) by auto
    then show ?thesis using 2(2) [OF all pass dist] by (auto simp: fs)
  qed (use 2(3-) in auto)
qed

text \<open>The taker's rest: with shares to go, only its own orders are left at the level.\<close>

lemma level_pass_rest:
  "level_pass u r front own = (fs, r', q) \<Longrightarrow> 0 < r' \<Longrightarrow>
   q = own @ filter (\<lambda>bo. is_self_trade u (bo_user_id bo)) front"
  by (induction u r front own arbitrary: fs r' q rule: level_pass.induct)
     (auto split: if_splits prod.splits)

lemma level_pass_rest_nonneg:
  "level_pass u r front own = (fs, r', q) \<Longrightarrow> 0 \<le> r \<Longrightarrow> 0 \<le> r'"
  by (induction u r front own arbitrary: fs r' q rule: level_pass.induct)
     (auto split: if_splits prod.splits)

section \<open>One round of the outer loop, for either side\<close>

definition maker_dir :: "direction \<Rightarrow> direction" where
  "maker_dir sd = (if sd = BUY then SELL else BUY)"

definition best_for :: "direction \<Rightarrow> order_book \<Rightarrow> int" where
  "best_for sd ob = (if sd = BUY then best_ask ob else best_bid ob)"

definition crosses :: "direction \<Rightarrow> int \<Rightarrow> int \<Rightarrow> bool" where
  "crosses sd limit p \<longleftrightarrow> (if sd = BUY then p \<le> limit else limit \<le> p)"

definition make_trade :: "direction \<Rightarrow> int \<Rightarrow> order \<Rightarrow> book_order \<Rightarrow> int \<Rightarrow> trade_result" where
  "make_trade sd price i bo n =
     (if sd = BUY then make_trade_buy_incoming i bo price n else make_trade_sell_incoming i bo price n)"

definition refresh_for :: "direction \<Rightarrow> order_book \<Rightarrow> order_book" where
  "refresh_for sd ob = (if sd = BUY then refresh_best_ask ob else refresh_best_bid ob)"

datatype round =
    Stop "exc + order \<times> trade_result list" order_book
  | Go order "trade_result list" order_book

definition match_round :: "direction \<Rightarrow> order \<Rightarrow> trade_result list \<Rightarrow> order_book \<Rightarrow> round" where
  "match_round sd inc trs ob =
     (if 0 < remaining_quantity inc \<and> crosses sd (book_price inc) (best_for sd ob) then
        (let price = best_for sd ob in
         case py_index (side_of ob (maker_dir sd)) price of
           None \<Rightarrow> Stop (Inl IndexError) ob
         | Some k \<Rightarrow>
             let queue = side_of ob (maker_dir sd) ! k;
                 (inc', queue', idx', trs') =
                   fill_level (\<lambda>i r q. make_trade sd price i r q) 0 (int (length queue))
                     inc queue (order_index ob) trs;
                 ob1 = (put_level (maker_dir sd) (int k) queue' ob)\<lparr>order_index := idx'\<rparr>
             in if queue' = [] then
                  (let ob2 = refresh_for sd ob1 in
                   if crosses sd (book_price inc') (best_for sd ob2) then Go inc' trs' ob2
                   else Stop (Inr (inc', trs')) ob2)
                else Stop (Inr (inc', trs')) ob1)
      else Stop (Inr (inc, trs)) ob)"

lemma make_trade_dir:
  "make_trade BUY p = (\<lambda>i r q. make_trade_buy_incoming i r p q)"
  "make_trade SELL p = (\<lambda>i r q. make_trade_sell_incoming i r p q)"
  by (intro ext; simp add: make_trade_def)+

lemma match_buy_round:
  "match_buy inc trs ob =
     (case match_round BUY inc trs ob of
        Stop r ob' \<Rightarrow> Some (r, ob') | Go inc' trs' ob' \<Rightarrow> match_buy inc' trs' ob')"
  by (subst match_buy.simps)
     (auto simp: match_round_def crosses_def best_for_def maker_dir_def side_of_def make_trade_dir
       put_level_def refresh_for_def Let_def split: option.splits prod.splits)

lemma match_sell_round:
  "match_sell inc trs ob =
     (case match_round SELL inc trs ob of
        Stop r ob' \<Rightarrow> Some (r, ob') | Go inc' trs' ob' \<Rightarrow> match_sell inc' trs' ob')"
  by (subst match_sell.simps)
     (auto simp: match_round_def crosses_def best_for_def maker_dir_def side_of_def make_trade_dir
       put_level_def refresh_for_def Let_def split: option.splits prod.splits)

lemma make_trade_filled [simp]: "make_trade sd p (filled_by x i) = make_trade sd p i"
  by (rule ext)+ (simp add: make_trade_def make_trade_buy_incoming_def make_trade_sell_incoming_def)

text \<open>Replacing one level's queue by a part of it, with the index to match.\<close>

definition shrink_level ::
  "direction \<Rightarrow> int \<Rightarrow> book_order list \<Rightarrow> order_book \<Rightarrow> order_book" where
  "shrink_level m p q ob = (put_level m p q ob)
     \<lparr>order_index := (\<lambda>oid. if oid \<in> bo_order_id ` set (level ob m p) - bo_order_id ` set q
                        then None else order_index ob oid)\<rparr>"

lemma shrink_level_frame:
  "bids (shrink_level m p q ob) = bids (put_level m p q ob)"
  "asks (shrink_level m p q ob) = asks (put_level m p q ob)"
  "best_bid (shrink_level m p q ob) = best_bid ob" "best_ask (shrink_level m p q ob) = best_ask ob"
  "ob_market_id (shrink_level m p q ob) = ob_market_id ob"
  by (simp_all add: shrink_level_def put_level_def)

lemma shrink_level_resting:
  assumes "ob_inv ob" and "0 < p" and "p < 100" and "m \<in> {BUY, SELL}"
  shows "resting (shrink_level m p q ob) =
    {e \<in> resting ob. (fst e, fst (snd e)) \<noteq> (m, p)} \<union> (\<lambda>bo. (m, p, bo)) ` set q"
proof -
  have "resting (shrink_level m p q ob) = resting (put_level m p q ob)"
    by (rule resting_cong) (simp_all add: shrink_level_frame)
  then show ?thesis
    using resting_put_level [of ob p m q] ob_inv_lengths [OF assms(1)] assms by simp
qed

lemma shrink_level_index:
  assumes inv: "ob_inv ob" and p: "0 < p" "p < 100" and m: "m \<in> {BUY, SELL}"
    and sub: "bo_order_id ` set q \<subseteq> bo_order_id ` set (level ob m p)"
  shows "index_ok (shrink_level m p q ob)"
proof (rule index_okI)
  fix oid sd' p'
  let ?ob = "shrink_level m p q ob"
  have ok: "index_ok ob" using inv by (simp add: ob_inv_def)
  have at: "order_index ob oid = Some (m, p) \<longleftrightarrow> oid \<in> bo_order_id ` set (level ob m p)"
    using ok p m by (auto simp: index_ok_def)
  show "order_index ?ob oid = Some (sd', p') \<longleftrightarrow>
      (\<exists>bo. (sd', p', bo) \<in> resting ?ob \<and> bo_order_id bo = oid)"
  proof (cases "oid \<in> bo_order_id ` set (level ob m p)")
    case True
    then have "order_index ob oid = Some (m, p)" using at by simp
    then have "(\<exists>bo. (sd', p', bo) \<in> resting ob \<and> bo_order_id bo = oid) \<longleftrightarrow> (sd', p') = (m, p)"
      using index_ok_Some [OF ok, of oid sd' p'] by auto
    then have "(\<exists>bo. (sd', p', bo) \<in> resting ?ob \<and> bo_order_id bo = oid) \<longleftrightarrow>
        (sd', p') = (m, p) \<and> oid \<in> bo_order_id ` set q"
      by (auto simp: shrink_level_resting [OF inv p m] image_iff) (metis sym)
    moreover have "order_index ?ob oid = (if oid \<in> bo_order_id ` set q then Some (m, p) else None)"
      using True \<open>order_index ob oid = Some (m, p)\<close> by (simp add: shrink_level_def)
    ultimately show ?thesis by auto
  next
    case False
    then have "oid \<notin> bo_order_id ` set q" and same: "order_index ?ob oid = order_index ob oid"
      using sub by (auto simp: shrink_level_def)
    moreover have "(sd', p') \<noteq> (m, p)" if "(sd', p', bo) \<in> resting ob" "bo_order_id bo = oid" for bo
      using that False by (auto simp: resting_def)
    ultimately show ?thesis
      using index_ok_Some [OF ok, of oid sd' p']
      by (auto simp: shrink_level_resting [OF inv p m])
  qed
qed

text \<open>The resting orders after some fills.\<close>

definition resting_after ::
  "(book_order \<times> int) list \<Rightarrow> (direction \<times> int \<times> book_order) set \<Rightarrow>
   (direction \<times> int \<times> book_order) set" where
  "resting_after fs R =
     {(sd, p, less_qty (filled_of fs (bo_order_id bo)) bo) |sd p bo.
        (sd, p, bo) \<in> R \<and> filled_of fs (bo_order_id bo) < bo_quantity bo}"

lemma filled_of_nonneg: "\<forall>f \<in> set fs. 0 < snd f \<Longrightarrow> 0 \<le> filled_of fs oid"
  by (induction fs) auto

lemma less_qty_less_qty [simp]: "less_qty y (less_qty x bo) = less_qty (x + y) bo"
  by (simp add: less_qty_def)

lemma resting_after_append:
  assumes "\<forall>f \<in> set gs. 0 < snd f"
  shows "resting_after gs (resting_after fs R) = resting_after (fs @ gs) R"
proof -
  have nonneg: "0 \<le> filled_of gs oid" for oid by (rule filled_of_nonneg [OF assms])
  show ?thesis
  proof (intro set_eqI iffI)
    fix e assume "e \<in> resting_after gs (resting_after fs R)"
    then obtain sd p bo where "(sd, p, bo) \<in> R" "filled_of fs (bo_order_id bo) < bo_quantity bo"
      "filled_of gs (bo_order_id bo) < bo_quantity bo - filled_of fs (bo_order_id bo)"
      "e = (sd, p, less_qty (filled_of fs (bo_order_id bo) + filled_of gs (bo_order_id bo)) bo)"
      by (auto simp: resting_after_def)
    then show "e \<in> resting_after (fs @ gs) R"
      unfolding resting_after_def by fastforce
  next
    fix e assume "e \<in> resting_after (fs @ gs) R"
    then obtain sd p bo where R: "(sd, p, bo) \<in> R"
      and lt: "filled_of fs (bo_order_id bo) + filled_of gs (bo_order_id bo) < bo_quantity bo"
      and e: "e = (sd, p, less_qty (filled_of fs (bo_order_id bo) + filled_of gs (bo_order_id bo)) bo)"
      by (auto simp: resting_after_def)
    let ?b = "less_qty (filled_of fs (bo_order_id bo)) bo"
    have "(sd, p, ?b) \<in> resting_after fs R"
      using R lt nonneg [of "bo_order_id bo"] by (force simp: resting_after_def)
    moreover have "filled_of gs (bo_order_id ?b) < bo_quantity ?b" using lt by simp
    ultimately have "(sd, p, less_qty (filled_of gs (bo_order_id ?b)) ?b) \<in> resting_after gs (resting_after fs R)"
      unfolding resting_after_def [of gs] by blast
    then show "e \<in> resting_after gs (resting_after fs R)" using e by simp
  qed
qed

lemma resting_pos:
  assumes "ob_inv ob" and "(sd, p, bo) \<in> resting ob"
  shows "0 < bo_quantity bo"
  using assms level_ok(2) [OF assms(1), of p bo sd] by (simp add: resting_def)

lemma resting_after_Nil: "ob_inv ob \<Longrightarrow> resting_after [] (resting ob) = resting ob"
  using resting_pos by (auto simp: resting_after_def)

lemma resting_after_Un: "resting_after fs (R \<union> S) = resting_after fs R \<union> resting_after fs S"
  by (auto simp: resting_after_def)

lemma resting_after_level:
  "resting_after fs ((\<lambda>bo. (m, p, bo)) ` B) = (\<lambda>bo. (m, p, bo)) ` after_fills fs B"
  by (auto simp: resting_after_def after_fills_def)

text \<open>A level that has been passed: the rest of the book is unchanged.\<close>

lemma shrink_level_after:
  assumes inv: "ob_inv ob" and p: "0 < p" "p < 100" and m: "m \<in> {BUY, SELL}"
    and pass: "level_pass u r (level ob m p) [] = (fs, r', q)"
  shows "resting (shrink_level m p q ob) = resting_after fs (resting ob)"
proof -
  note ok = level_ok [OF inv p]
  have q: "set q = after_fills fs (set (level ob m p))"
    using level_pass_queue [OF pass] ok by auto
  have fills: "fst f \<in> set (level ob m p)" if "f \<in> set fs" for f
    using level_pass_fills [OF pass] ok that by auto
  have other: "filled_of fs (bo_order_id bo) = 0"
    if "(sd', p', bo) \<in> resting ob" "(sd', p') \<noteq> (m, p)" for sd' p' bo
  proof (rule filled_of_none, intro ballI notI)
    fix f assume "f \<in> set fs" and eq: "bo_order_id (fst f) = bo_order_id bo"
    then have "(m, p, fst f) \<in> resting ob" using fills p m by (auto simp: resting_def)
    from resting_unique [OF inv this that(1) eq] that(2) show False by simp
  qed
  have "resting ob = {e \<in> resting ob. (fst e, fst (snd e)) \<noteq> (m, p)} \<union>
      (\<lambda>bo. (m, p, bo)) ` set (level ob m p)"
    using p m by (auto simp: resting_def)
  then have "resting_after fs (resting ob) =
      resting_after fs {e \<in> resting ob. (fst e, fst (snd e)) \<noteq> (m, p)} \<union>
      (\<lambda>bo. (m, p, bo)) ` after_fills fs (set (level ob m p))"
    by (metis (no_types, lifting) resting_after_Un resting_after_level)
  also have "resting_after fs {e \<in> resting ob. (fst e, fst (snd e)) \<noteq> (m, p)} =
      {e \<in> resting ob. (fst e, fst (snd e)) \<noteq> (m, p)}" (is "?L = ?R")
  proof (intro set_eqI iffI)
    fix e assume "e \<in> ?L"
    then obtain sd' p' bo where "(sd', p', bo) \<in> resting ob" "(sd', p') \<noteq> (m, p)"
      "e = (sd', p', less_qty (filled_of fs (bo_order_id bo)) bo)"
      by (auto simp: resting_after_def)
    then show "e \<in> ?R" using other [of sd' p' bo] by simp
  next
    fix e assume e: "e \<in> ?R"
    obtain sd' p' bo where eq: "e = (sd', p', bo)" by (cases e)
    with e have "(sd', p', bo) \<in> resting ob" "(sd', p') \<noteq> (m, p)" by auto
    moreover note other [OF this] resting_pos [OF inv \<open>(sd', p', bo) \<in> resting ob\<close>]
    ultimately show "e \<in> ?L" unfolding resting_after_def eq by fastforce
  qed
  finally show ?thesis by (simp add: shrink_level_resting [OF inv p m] q)
qed

lemma maker_dir_in: "maker_dir sd \<in> {BUY, SELL}"
  by (simp add: maker_dir_def)

lemma best_level:
  assumes "ob_inv ob" and "1 \<le> limit" and "limit \<le> 99" and "crosses sd limit (best_for sd ob)"
  shows "0 < best_for sd ob" "best_for sd ob < 100" "level ob (maker_dir sd) (best_for sd ob) \<noteq> []"
  using assms
  by (auto simp: ob_inv_def is_best_ask_def is_best_bid_def crosses_def best_for_def level_def
      side_of_def maker_dir_def split: if_splits)

lemma match_round_result:
  assumes inv: "ob_inv ob" and limit: "1 \<le> book_price inc" "book_price inc \<le> 99"
    and rem: "0 < remaining_quantity inc" and cr: "crosses sd (book_price inc) (best_for sd ob)"
    and b: "b = best_for sd ob" and m: "m = maker_dir sd"
    and pass: "level_pass (ord_user_id inc) (remaining_quantity inc) (level ob m b) [] = (fs, r', q)"
    and inc': "inc' = filled_by (fill_total fs) inc"
    and trs': "trs' = trs @ map (\<lambda>(bo, n). make_trade sd b inc bo n) fs"
  shows "match_round sd inc trs ob =
    (let ob1 = shrink_level m b q ob; ob2 = refresh_for sd ob1 in
     if q \<noteq> [] then Stop (Inr (inc', trs')) ob1
     else if crosses sd (book_price inc) (best_for sd ob2) then Go inc' trs' ob2
     else Stop (Inr (inc', trs')) ob2)"
proof -
  have b': "0 < b" "b < 100" using best_level [OF inv limit cr] b by simp_all
  have len: "length (side_of ob m) = 100" using ob_inv_lengths [OF inv] by (simp add: side_of_def)
  note ok = level_ok [OF inv b', where sd = m]
  have up: "used_up fs = bo_order_id ` set (level ob m b) - bo_order_id ` set q"
    using level_pass_used_up [OF pass] ok by simp
  have "fill_level (\<lambda>i r q. make_trade sd b i r q) 0 (int (length (level ob m b))) inc (level ob m b)
      (order_index ob) trs = (inc', q, (\<lambda>oid. if oid \<in> used_up fs then None else order_index ob oid), trs')"
    using fill_level_pass [of "make_trade sd b" "level ob m b" inc "[]" fs r' q _ 0] pass ok
    by (simp add: inc' trs')
  then show ?thesis
    using rem cr b' len
    by (simp add: match_round_def Let_def shrink_level_def up level_def flip: b m)
       (simp add: inc')
qed

lemma refresh_for_frame [simp]:
  "bids (refresh_for sd ob) = bids ob" "asks (refresh_for sd ob) = asks ob"
  "order_index (refresh_for sd ob) = order_index ob"
  "ob_market_id (refresh_for sd ob) = ob_market_id ob"
  by (simp_all add: refresh_for_def)

lemma shrink_level_inv:
  assumes inv: "ob_inv ob" and b: "0 < b" "b < 100" and m: "m = maker_dir sd"
    and pass: "level_pass u r (level ob m b) [] = (fs, r', q)" and best: "b = best_for sd ob"
    and ne: "level ob m b \<noteq> []"
  shows "q \<noteq> [] \<Longrightarrow> ob_inv (shrink_level m b q ob)"
    "q = [] \<Longrightarrow> ob_inv (refresh_for sd (shrink_level m b q ob))"
proof -
  note ok = level_ok [OF inv b, where sd = m] and len = ob_inv_lengths [OF inv]
  have mdir: "m \<in> {BUY, SELL}" using m maker_dir_in by simp
  have q: "distinct (map bo_order_id q)" "set q = after_fills fs (set (level ob m b))"
    using level_pass_queue [OF pass] ok by auto
  have pos: "\<forall>bo \<in> set q. 0 < bo_quantity bo" and sub: "bo_order_id ` set q \<subseteq> bo_order_id ` set (level ob m b)"
    by (auto simp: q after_fills_def)
  have idx: "index_ok (shrink_level m b q ob)" by (rule shrink_level_index [OF inv b mdir sub])
  have idx': "index_ok (refresh_for sd (shrink_level m b q ob))"
    using idx by (simp add: index_ok_def level_def side_of_def)
  let ?ob1 = "shrink_level m b q ob"
  have queues: "queues_ok (bids ?ob1)" "queues_ok (asks ?ob1)"
    using inv queues_ok_update [of _ "nat b" q] q pos b
    by (simp_all add: shrink_level_frame put_level_def ob_inv_def)
  have sides: "sd = BUY \<Longrightarrow> bids ?ob1 = bids ob" "sd \<noteq> BUY \<Longrightarrow> asks ?ob1 = asks ob"
    using m by (simp_all add: shrink_level_frame put_level_def maker_dir_def)
  show "q \<noteq> [] \<Longrightarrow> ob_inv ?ob1"
  proof (cases "sd = BUY")
    case True
    assume "q \<noteq> []"
    then have "is_best_ask ((asks ob)[nat b := q]) (best_ask ob)"
      using inv b len ne True m by (intro is_best_ask_keep) (auto simp: ob_inv_def level_def side_of_def maker_dir_def)
    then show ?thesis
      using True sides queues idx inv m
      by (simp add: ob_inv_def shrink_level_frame put_level_def maker_dir_def)
  next
    case False
    assume "q \<noteq> []"
    then have "is_best_bid ((bids ob)[nat b := q]) (best_bid ob)"
      using inv b len ne False m by (intro is_best_bid_keep) (auto simp: ob_inv_def level_def side_of_def maker_dir_def)
    then show ?thesis
      using False sides queues idx inv m
      by (simp add: ob_inv_def shrink_level_frame put_level_def maker_dir_def)
  qed
  show "q = [] \<Longrightarrow> ob_inv (refresh_for sd ?ob1)"
    using refresh_best_ask_is_best [of ?ob1] refresh_best_bid_is_best [of ?ob1] sides queues idx' inv
    by (simp add: ob_inv_def) (auto simp: refresh_for_def shrink_level_frame)
qed

section \<open>The whole match against the ladder of levels\<close>

text \<open>
  The reference of the outer loop: the levels from the best price to the limit, each one
  passed; a level at which the taker's own orders remain ends the match, as the code does.
  A fill carries the price of its level.
\<close>

fun levels_pass ::
  "string \<Rightarrow> int \<Rightarrow> (int \<times> book_order list) list \<Rightarrow> (int \<times> book_order \<times> int) list \<times> int" where
  "levels_pass u r [] = ([], r)"
| "levels_pass u r ((p, queue) # ls) =
     (case level_pass u r queue [] of (fs, r', q) \<Rightarrow>
        if q = [] then (case levels_pass u r' ls of (gs, r'') \<Rightarrow> (map (Pair p) fs @ gs, r''))
        else (map (Pair p) fs, r'))"

definition ladder_prices :: "direction \<Rightarrow> int \<Rightarrow> int list" where
  "ladder_prices sd limit =
     (if sd = BUY then map int [1..<Suc (nat limit)] else rev (map int [nat limit..<100]))"

definition ladder :: "direction \<Rightarrow> int \<Rightarrow> order_book \<Rightarrow> (int \<times> book_order list) list" where
  "ladder sd limit ob = map (\<lambda>p. (p, level ob (maker_dir sd) p)) (ladder_prices sd limit)"

definition trades_of :: "direction \<Rightarrow> order \<Rightarrow> (int \<times> book_order \<times> int) list \<Rightarrow> trade_result list" where
  "trades_of sd inc gs = map (\<lambda>(p, bo, n). make_trade sd p inc bo n) gs"

lemma trades_of_simps [simp]:
  "trades_of sd inc [] = []" "trades_of sd inc (gs @ hs) = trades_of sd inc gs @ trades_of sd inc hs"
  "trades_of sd inc (map (Pair p) fs) = map (\<lambda>(bo, n). make_trade sd p inc bo n) fs"
  "trades_of sd (filled_by x inc) gs = trades_of sd inc gs"
  by (auto simp: trades_of_def)

lemma level_pass_done: "r \<le> 0 \<Longrightarrow> level_pass u r front [] = ([], r, front)"
  by (cases front) auto

lemma levels_pass_done: "r \<le> 0 \<Longrightarrow> levels_pass u r ls = ([], r)"
  by (induction ls) (auto simp: level_pass_done)

lemma levels_pass_empty: "\<forall>l \<in> set ls. snd l = [] \<Longrightarrow> levels_pass u r (ls @ ls') = levels_pass u r ls'"
  by (induction ls) auto

lemma levels_pass_all_empty: "\<forall>l \<in> set ls. snd l = [] \<Longrightarrow> levels_pass u r ls = ([], r)"
  using levels_pass_empty [of ls u r "[]"] by simp

text \<open>Prices before the best one in the ladder have no orders; past the limit none is left.\<close>

lemma before_best_empty:
  assumes "ob_inv ob" and "0 < p" and "p < 100"
    and "if sd = BUY then p < best_for sd ob else best_for sd ob < p"
  shows "level ob (maker_dir sd) p = []"
proof -
  have "int (nat p) = p" "0 < nat p" "nat p < 100" using assms(2,3) by auto
  then show ?thesis
    using assms by (auto simp: ob_inv_def is_best_ask_def is_best_bid_def best_for_def level_def
        side_of_def maker_dir_def split: if_splits)
qed

lemma ladder_empty:
  assumes "ob_inv ob" and "1 \<le> limit" and "limit \<le> 99" and "\<not> crosses sd limit (best_for sd ob)"
  shows "\<forall>l \<in> set (ladder sd limit ob). snd l = []"
  using assms
  by (auto simp: ladder_def ladder_prices_def crosses_def intro!: before_best_empty split: if_splits)

lemma upt_split: "i \<le> k \<Longrightarrow> k < n \<Longrightarrow> [i..<n] = [i..<k] @ k # [Suc k..<n]"
  by (induction n) (auto simp: less_Suc_eq)

lemma ladder_prices_split:
  assumes "0 < b" and "b < 100" and "1 \<le> limit" and "limit \<le> 99" and "crosses sd limit b"
  obtains ps qs where "ladder_prices sd limit = ps @ b # qs" and "b \<notin> set ps" and "b \<notin> set qs"
    and "\<forall>p \<in> set ps. 0 < p \<and> p < 100 \<and> (if sd = BUY then p < b else b < p)"
proof (cases "sd = BUY")
  case True
  have "[1..<Suc (nat limit)] = [1..<nat b] @ nat b # [Suc (nat b)..<Suc (nat limit)]"
    using assms True by (intro upt_split) (auto simp: crosses_def)
  then have "ladder_prices sd limit = map int [1..<nat b] @ b # map int [Suc (nat b)..<Suc (nat limit)]"
    using True assms(1) by (simp add: ladder_prices_def)
  then show thesis by (rule that) (use assms(1,2) True in auto)
next
  case False
  have "[nat limit..<100] = [nat limit..<nat b] @ nat b # [Suc (nat b)..<100]"
    using assms False by (intro upt_split) (auto simp: crosses_def)
  then have "ladder_prices sd limit = rev (map int [Suc (nat b)..<100]) @ b # rev (map int [nat limit..<nat b])"
    using False assms(1) by (simp add: ladder_prices_def)
  then show thesis by (rule that) (use assms(1,2) False in auto)
qed

text \<open>How far the best price still is from the end of the book.\<close>

definition best_gap :: "direction \<Rightarrow> order_book \<Rightarrow> nat" where
  "best_gap sd ob = nat (if sd = BUY then 100 - best_ask ob else best_bid ob)"

lemma ladder_at_best:
  assumes inv: "ob_inv ob" and limit: "1 \<le> limit" "limit \<le> 99"
    and cr: "crosses sd limit (best_for sd ob)" and b: "b = best_for sd ob" and m: "m = maker_dir sd"
  obtains rest where
    "\<And>u r. levels_pass u r (ladder sd limit ob) = levels_pass u r ((b, level ob m b) # rest)"
    "\<And>ob' u r. (\<And>p. 0 < p \<Longrightarrow> level ob' m p = (if p = b then [] else level ob m p)) \<Longrightarrow>
       levels_pass u r (ladder sd limit ob') = levels_pass u r rest"
proof -
  note b' = best_level [OF inv limit cr, folded b]
  obtain ps qs where prices: "ladder_prices sd limit = ps @ b # qs" "b \<notin> set ps" "b \<notin> set qs"
    and before: "\<forall>p \<in> set ps. 0 < p \<and> p < 100 \<and> (if sd = BUY then p < b else b < p)"
    using ladder_prices_split [OF b'(1,2) limit cr [folded b]] by blast
  let ?lv = "\<lambda>ob. map (\<lambda>p. (p, level ob m p))"
  have pre: "\<forall>l \<in> set (?lv ob ps). snd l = []"
    using before before_best_empty [OF inv, where sd = sd] b m by auto
  have pos: "0 < p" if "p \<in> set (ladder_prices sd limit)" for p
    using that limit by (auto simp: ladder_prices_def split: if_splits)
  show thesis
  proof (rule that [of "?lv ob qs"])
    show "levels_pass u r (ladder sd limit ob) = levels_pass u r ((b, level ob m b) # ?lv ob qs)" for u r
      using levels_pass_empty [OF pre] by (simp add: ladder_def prices(1) flip: m)
  next
    fix ob' u r
    assume lv: "\<And>p. 0 < p \<Longrightarrow> level ob' m p = (if p = b then [] else level ob m p)"
    have "?lv ob' ps = ?lv ob ps" "?lv ob' qs = ?lv ob qs" "level ob' m b = []"
      using lv pos prices b'(1) by auto
    then have "ladder sd limit ob' = ?lv ob ps @ (b, []) # ?lv ob qs"
      by (simp add: ladder_def prices(1) flip: m)
    then show "levels_pass u r (ladder sd limit ob') = levels_pass u r (?lv ob qs)"
      using levels_pass_empty [OF pre] by simp
  qed
qed

lemma emptied_level:
  assumes "ob_inv ob" and "0 < b" and "b < 100" and "m = maker_dir sd" and "0 < p"
  shows "level (refresh_for sd (shrink_level m b [] ob)) m p = (if p = b then [] else level ob m p)"
  using level_put_level [of ob b p m m "[]"] assms ob_inv_lengths [OF assms(1)] maker_dir_in [of sd]
  by (simp add: level_def side_of_def shrink_level_frame split: if_splits)

lemma emptied_gap:
  assumes inv: "ob_inv ob" and b: "0 < b" "b < 100" "b = best_for sd ob" and m: "m = maker_dir sd"
    and ob2: "ob2 = refresh_for sd (shrink_level m b [] ob)" and inv2: "ob_inv ob2"
    and limit: "1 \<le> limit" "limit \<le> 99" and cr: "crosses sd limit (best_for sd ob2)"
  shows "best_gap sd ob2 < best_gap sd ob"
proof -
  note b2 = best_level [OF inv2 limit cr, folded m]
  have "best_for sd ob2 \<noteq> b" "level ob m (best_for sd ob2) \<noteq> []"
    using b2(3) emptied_level [OF inv b(1,2) m b2(1)] by (auto simp flip: ob2 split: if_splits)
  moreover from this(2) have "\<not> (if sd = BUY then best_for sd ob2 < b else b < best_for sd ob2)"
    using before_best_empty [OF inv b2(1,2), of sd] b(3) m by metis
  ultimately show ?thesis
    using b b2(1,2) by (cases "sd = BUY") (auto simp: best_gap_def best_for_def)
qed

text \<open>The book after some fills: the invariant, and every resting order less what it gave up.\<close>

definition book_after :: "(book_order \<times> int) list \<Rightarrow> order_book \<Rightarrow> order_book \<Rightarrow> bool" where
  "book_after fs ob ob' \<longleftrightarrow>
     ob_inv ob' \<and> resting ob' = resting_after fs (resting ob) \<and> ob_market_id ob' = ob_market_id ob"

text \<open>One round either ends the match as the reference does, or goes on with the rest of it.\<close>

lemma match_round_spec:
  assumes inv: "ob_inv ob" and limit: "1 \<le> book_price inc" "book_price inc \<le> 99"
    and pass: "levels_pass (ord_user_id inc) (remaining_quantity inc) (ladder sd (book_price inc) ob) = (gs, r')"
  shows "(\<exists>ob'. match_round sd inc trs ob =
        Stop (Inr (filled_by (fill_total (map snd gs)) inc, trs @ trades_of sd inc gs)) ob' \<and>
        book_after (map snd gs) ob ob') \<or>
    (\<exists>b fs hs r1 ob'. match_round sd inc trs ob =
        Go (filled_by (fill_total fs) inc) (trs @ trades_of sd inc (map (Pair b) fs)) ob' \<and>
        book_after fs ob ob' \<and> gs = map (Pair b) fs @ hs \<and> fs \<noteq> [] \<and> (\<forall>f \<in> set fs. 0 < snd f) \<and>
        r1 = remaining_quantity inc - fill_total fs \<and>
        levels_pass (ord_user_id inc) r1 (ladder sd (book_price inc) ob') = (hs, r') \<and>
        best_gap sd ob' < best_gap sd ob)" (is "?stop \<or> ?go")
proof (cases "0 < remaining_quantity inc \<and> crosses sd (book_price inc) (best_for sd ob)")
  case False
  then have "match_round sd inc trs ob = Stop (Inr (inc, trs)) ob" by (auto simp: match_round_def)
  moreover have "gs = []"
    using False pass levels_pass_done [of "remaining_quantity inc"] levels_pass_all_empty
      ladder_empty [OF inv limit] by (metis fst_conv linorder_not_less)
  ultimately show ?thesis using inv by (simp add: resting_after_Nil book_after_def)
next
  case True
  then have rem: "0 < remaining_quantity inc" and cr: "crosses sd (book_price inc) (best_for sd ob)" by simp_all
  define b m where "b = best_for sd ob" and "m = maker_dir sd"
  note b = best_level [OF inv limit cr, folded b_def m_def]
  have mdir: "m \<in> {BUY, SELL}" using maker_dir_in m_def by simp
  obtain fs r1 q where lp: "level_pass (ord_user_id inc) (remaining_quantity inc) (level ob m b) [] = (fs, r1, q)"
    by (metis prod_cases3)
  obtain rest where lad: "\<And>u r. levels_pass u r (ladder sd (book_price inc) ob) = levels_pass u r ((b, level ob m b) # rest)"
    and lad': "\<And>ob' u r. (\<And>p. 0 < p \<Longrightarrow> level ob' m p = (if p = b then [] else level ob m p)) \<Longrightarrow>
       levels_pass u r (ladder sd (book_price inc) ob') = levels_pass u r rest"
    using ladder_at_best [OF inv limit cr b_def m_def] by blast
  note round = match_round_result [OF inv limit rem cr b_def m_def lp refl refl, of trs]
  have after: "resting (shrink_level m b q ob) = resting_after fs (resting ob)"
    by (rule shrink_level_after [OF inv b(1,2) mdir lp])
  note inv' = shrink_level_inv [OF inv b(1,2) m_def lp b_def b(3)]
  show ?thesis
  proof (cases "q = []")
    case False
    then have "gs = map (Pair b) fs" using pass by (simp add: lad lp)
    then have ?stop
      using False inv' after by (simp add: round comp_def book_after_def shrink_level_frame)
    then show ?thesis ..
  next
    case True
    define ob2 where "ob2 = refresh_for sd (shrink_level m b [] ob)"
    have after2: "book_after fs ob ob2"
      using inv'(2) after resting_cong [of ob2 "shrink_level m b [] ob"] True
      by (simp add: book_after_def ob2_def shrink_level_frame)
    then have inv2: "ob_inv ob2" by (simp add: book_after_def)
    obtain hs r2 where rest_pass: "levels_pass (ord_user_id inc) r1 rest = (hs, r2)" by fastforce
    have gs: "gs = map (Pair b) fs @ hs" "r' = r2" using pass True rest_pass by (simp_all add: lad lp)
    have pass2: "levels_pass (ord_user_id inc) r1 (ladder sd (book_price inc) ob2) = (hs, r')"
      using lad' [of ob2] emptied_level [OF inv b(1,2) m_def] rest_pass gs by (simp add: ob2_def)
    show ?thesis
    proof (cases "crosses sd (book_price inc) (best_for sd ob2)")
      case False
      then have "hs = []"
        using pass2 levels_pass_all_empty ladder_empty [OF inv2 limit False] by (metis fst_conv)
      then have ?stop
        using True False after2 gs by (simp add: round comp_def Let_def flip: ob2_def)
      then show ?thesis ..
    next
      case cr2: True
      note ok = level_ok [OF inv b(1,2), where sd = m]
      have "\<forall>f \<in> set fs. 0 < snd f" using level_pass_fills [OF lp] ok by auto
      moreover have "fs \<noteq> []"
        using level_pass_queue [OF lp] ok b(3) True after_fills_Nil [of "set (level ob m b)"] by auto
      moreover have "best_gap sd ob2 < best_gap sd ob"
        by (rule emptied_gap [OF inv b(1,2) b_def m_def ob2_def inv2 limit cr2])
      ultimately have ?go
        using True cr2 after2 gs pass2 level_pass_total [OF lp]
        by (intro exI [of _ b] exI [of _ fs] exI [of _ hs] exI [of _ r1] exI [of _ ob2])
           (simp add: round Let_def flip: ob2_def)
      then show ?thesis ..
    qed
  qed
qed

text \<open>
  The outer loop, for any \<open>f\<close> that satisfies its equation: it returns, with the trades and
  the remaining quantity of the reference, and the book less what was traded.
\<close>

lemma match_loop:
  assumes step: "\<And>inc trs ob. f inc trs ob =
      (case match_round sd inc trs ob of Stop r ob' \<Rightarrow> Some (r, ob') | Go i t ob' \<Rightarrow> f i t ob')"
    and inv: "ob_inv ob" and limit: "1 \<le> book_price inc" "book_price inc \<le> 99"
    and pass: "levels_pass (ord_user_id inc) (remaining_quantity inc) (ladder sd (book_price inc) ob) = (gs, r')"
    and pos: "\<forall>g \<in> set gs. 0 < snd (snd g)"
  shows "\<exists>ob'. f inc trs ob =
      Some (Inr (filled_by (fill_total (map snd gs)) inc, trs @ trades_of sd inc gs), ob') \<and>
      book_after (map snd gs) ob ob'"
  using inv limit pass pos
proof (induction "best_gap sd ob" arbitrary: inc trs ob gs rule: less_induct)
  case less
  from match_round_spec [OF less.prems(1-4), of trs]
  show ?case
  proof (elim disjE exE conjE, goal_cases)
    case (1 ob')
    then show ?case by (subst step) simp
  next
    case (2 b fs hs r1 ob')
    let ?inc = "filled_by (fill_total fs) inc" and ?trs = "trs @ trades_of sd inc (map (Pair b) fs)"
    have "\<exists>ob''. f ?inc ?trs ob' = Some (Inr (filled_by (fill_total (map snd hs)) ?inc,
        ?trs @ trades_of sd ?inc hs), ob'') \<and> book_after (map snd hs) ob' ob''"
      using 2 less.prems by (intro less.hyps) (auto simp: book_after_def)
    then obtain ob'' where f: "f ?inc ?trs ob' = Some (Inr (filled_by (fill_total (map snd hs)) ?inc,
        ?trs @ trades_of sd ?inc hs), ob'')" and after: "book_after (map snd hs) ob' ob''" by blast
    have hs: "\<forall>f \<in> set (map snd hs). 0 < snd f" using less.prems(5) 2 by auto
    have "0 < fill_total fs" and "0 \<le> fill_total (map snd hs)"
      using 2 fill_total_pos [of fs] fill_total_pos [OF hs] by auto
    then have "filled_by (fill_total (map snd hs)) ?inc = filled_by (fill_total (map snd gs)) inc"
      using 2 by (simp add: filled_by_add comp_def)
    moreover have "book_after (map snd gs) ob ob''"
      using after 2 resting_after_append [OF hs] by (simp add: book_after_def comp_def)
    ultimately show ?case using f 2 by (subst step) simp
  qed
qed

section \<open>What the reference says about the fills\<close>

text \<open>
  Priority: the fills are a prefix of the eligible resting orders in price-time order, and
  all but the last are complete.
\<close>

definition eligible :: "string \<Rightarrow> book_order list \<Rightarrow> book_order list" where
  "eligible u queue = filter (\<lambda>bo. \<not> is_self_trade u (bo_user_id bo)) queue"

definition eligible_ladder :: "string \<Rightarrow> (int \<times> book_order list) list \<Rightarrow> (int \<times> book_order) list" where
  "eligible_ladder u ls = concat (map (\<lambda>(p, queue). map (Pair p) (eligible u queue)) ls)"

lemma eligible_simps [simp]:
  "eligible u [] = []"
  "eligible u (bo # bs) = (if is_self_trade u (bo_user_id bo) then eligible u bs else bo # eligible u bs)"
  by (simp_all add: eligible_def)

lemma eligible_ladder_simps [simp]:
  "eligible_ladder u [] = []"
  "eligible_ladder u ((p, queue) # ls) = map (Pair p) (eligible u queue) @ eligible_ladder u ls"
  by (simp_all add: eligible_ladder_def)

lemma level_pass_priority:
  "level_pass u r front own = (fs, r', q) \<Longrightarrow>
   \<exists>rest. eligible u front = map fst fs @ rest \<and>
     (\<forall>f \<in> set (butlast fs). snd f = bo_quantity (fst f)) \<and>
     (0 < r' \<or> q = [] \<longrightarrow> rest = [] \<and> (\<forall>f \<in> set fs. snd f = bo_quantity (fst f)))"
proof (induction u r front own arbitrary: fs r' q rule: level_pass.induct)
  case (1 u r own)
  then show ?case by simp
next
  case (2 u r bo bs own)
  consider (stop) "r \<le> 0" | (self) "\<not> r \<le> 0" "is_self_trade u (bo_user_id bo)"
    | (all) "\<not> r \<le> 0" "\<not> is_self_trade u (bo_user_id bo)" "bo_quantity bo \<le> r"
    | (part) "\<not> r \<le> 0" "\<not> is_self_trade u (bo_user_id bo)" "\<not> bo_quantity bo \<le> r" by blast
  then show ?case
  proof cases
    case self
    with 2 show ?thesis by simp
  next
    case all
    then obtain fs1 where pass: "level_pass u (r - bo_quantity bo) bs own = (fs1, r', q)"
      and fs: "fs = (bo, bo_quantity bo) # fs1"
      using 2(3) by (auto split: prod.splits)
    from 2(2) [OF all pass] all show ?thesis by (auto simp: fs)
  qed (use 2(3) in \<open>auto simp: eligible_def\<close>)
qed

lemma levels_pass_priority:
  "levels_pass u r ls = (gs, r') \<Longrightarrow>
   \<exists>rest. eligible_ladder u ls = map (\<lambda>(p, bo, n). (p, bo)) gs @ rest \<and>
     (\<forall>g \<in> set (butlast gs). snd (snd g) = bo_quantity (fst (snd g)))"
proof (induction u r ls arbitrary: gs r' rule: levels_pass.induct)
  case (1 u r)
  then show ?case by simp
next
  case (2 u r p queue ls)
  obtain fs r1 q where lp: "level_pass u r queue [] = (fs, r1, q)" by (metis prod_cases3)
  obtain rest where rest: "eligible u queue = map fst fs @ rest"
    "\<forall>f \<in> set (butlast fs). snd f = bo_quantity (fst f)"
    "0 < r1 \<or> q = [] \<longrightarrow> rest = [] \<and> (\<forall>f \<in> set fs. snd f = bo_quantity (fst f))"
    using level_pass_priority [OF lp] by blast
  have tag: "map (\<lambda>(p, bo, n). (p, bo)) (map (Pair p) fs) = map (Pair p) (map fst fs)" by auto
  show ?case
  proof (cases "q = []")
    case True
    obtain hs where hs: "levels_pass u r1 ls = (hs, r')" and gs: "gs = map (Pair p) fs @ hs"
      using 2(2) True by (auto simp: lp split: prod.splits)
    from 2(1) [OF lp [symmetric] refl _ hs] True obtain rest' where
      "eligible_ladder u ls = map (\<lambda>(p, bo, n). (p, bo)) hs @ rest'"
      "\<forall>g \<in> set (butlast hs). snd (snd g) = bo_quantity (fst (snd g))" by auto
    moreover have "\<forall>g \<in> set (map (Pair p) fs). snd (snd g) = bo_quantity (fst (snd g))"
      using rest(3) True by auto
    ultimately have "\<forall>g \<in> set (butlast gs). snd (snd g) = bo_quantity (fst (snd g))"
      by (simp add: gs butlast_append ball_Un del: set_map) (blast dest: in_set_butlastD)
    moreover have "eligible_ladder u ((p, queue) # ls) = map (\<lambda>(p, bo, n). (p, bo)) gs @ rest'"
      using rest True \<open>eligible_ladder u ls = map (\<lambda>(p, bo, n). (p, bo)) hs @ rest'\<close> by (simp add: gs tag del: map_map)
    ultimately show ?thesis by blast
  next
    case False
    then have "gs = map (Pair p) fs" using 2(2) by (simp add: lp)
    then show ?thesis
      using rest by (intro exI [of _ "map (Pair p) rest @ eligible_ladder u ls"])
        (auto simp: tag simp flip: map_butlast)
  qed
qed

lemma levels_pass_total: "levels_pass u r ls = (gs, r') \<Longrightarrow> fill_total (map snd gs) = r - r'"
proof (induction u r ls arbitrary: gs r' rule: levels_pass.induct)
  case (1 u r)
  then show ?case by simp
next
  case (2 u r p queue ls)
  obtain fs r1 q where lp: "level_pass u r queue [] = (fs, r1, q)" by (metis prod_cases3)
  have tag: "map snd (map (Pair p) fs) = fs" by (simp add: comp_def)
  show ?case
    using 2(1) [OF lp [symmetric] refl] 2(2) level_pass_total [OF lp]
    by (auto simp: lp tag simp del: map_map split: if_splits prod.splits)
qed

lemma levels_pass_rest_nonneg: "levels_pass u r ls = (gs, r') \<Longrightarrow> 0 \<le> r \<Longrightarrow> 0 \<le> r'"
proof (induction u r ls arbitrary: gs r' rule: levels_pass.induct)
  case (1 u r)
  then show ?case by simp
next
  case (2 u r p queue ls)
  obtain fs r1 q where lp: "level_pass u r queue [] = (fs, r1, q)" by (metis prod_cases3)
  then have "0 \<le> r1" using level_pass_rest_nonneg 2(3) by blast
  with 2(1) [OF lp [symmetric] refl] 2(2) show ?case
    by (auto simp: lp split: if_splits prod.splits)
qed

definition ladder_pos :: "(int \<times> book_order list) list \<Rightarrow> bool" where
  "ladder_pos ls \<longleftrightarrow> (\<forall>(p, queue) \<in> set ls. \<forall>bo \<in> set queue. 0 < bo_quantity bo)"

lemma levels_pass_fills:
  "levels_pass u r ls = (gs, r') \<Longrightarrow> ladder_pos ls \<Longrightarrow>
   \<forall>(p, bo, n) \<in> set gs. (\<exists>queue. (p, queue) \<in> set ls \<and> bo \<in> set queue) \<and>
     \<not> is_self_trade u (bo_user_id bo) \<and> 0 < n \<and> n \<le> bo_quantity bo"
proof (induction u r ls arbitrary: gs r' rule: levels_pass.induct)
  case (1 u r)
  then show ?case by simp
next
  case (2 u r p queue ls)
  obtain fs r1 q where lp: "level_pass u r queue [] = (fs, r1, q)" by (metis prod_cases3)
  have pos: "ladder_pos ls" "\<forall>bo \<in> set queue. 0 < bo_quantity bo"
    using 2(3) by (auto simp: ladder_pos_def)
  note here = level_pass_fills [OF lp pos(2)]
  show ?case
  proof (cases "q = []")
    case True
    obtain hs where hs: "levels_pass u r1 ls = (hs, r')" and gs: "gs = map (Pair p) fs @ hs"
      using 2(2) True by (auto simp: lp split: prod.splits)
    show ?thesis
      using here 2(1) [OF lp [symmetric] refl _ hs pos(1)] True by (fastforce simp: gs)
  next
    case False
    then have "gs = map (Pair p) fs" using 2(2) by (simp add: lp)
    then show ?thesis using here by fastforce
  qed
qed

text \<open>Enough liquidity: without own orders in the way, the taker fills or the ladder is used up.\<close>

definition available :: "(int \<times> book_order list) list \<Rightarrow> int" where
  "available ls = sum_list (map (\<lambda>(p, queue). sum_list (map bo_quantity queue)) ls)"

lemma available_simps [simp]:
  "available [] = 0" "available ((p, queue) # ls) = sum_list (map bo_quantity queue) + available ls"
  by (simp_all add: available_def)

lemma available_nonneg: "ladder_pos ls \<Longrightarrow> 0 \<le> available ls"
  by (induction ls) (fastforce simp: ladder_pos_def intro!: add_nonneg_nonneg sum_list_nonneg)+

lemma level_pass_amount:
  "level_pass u r front [] = (fs, r', q) \<Longrightarrow> \<forall>bo \<in> set front. 0 < bo_quantity bo \<Longrightarrow>
   \<forall>bo \<in> set front. \<not> is_self_trade u (bo_user_id bo) \<Longrightarrow> 0 \<le> r \<Longrightarrow>
   r' = (if r \<le> sum_list (map bo_quantity front) then 0 else r - sum_list (map bo_quantity front)) \<and>
   (q = [] \<longleftrightarrow> sum_list (map bo_quantity front) \<le> r)"
proof (induction front arbitrary: r fs r' q)
  case Nil
  then show ?case by auto
next
  case (Cons bo bs)
  have nonneg: "0 \<le> sum_list (map bo_quantity bs)"
    using Cons.prems(2) by (intro sum_list_nonneg) (auto intro: less_imp_le)
  show ?case
  proof (cases "bo_quantity bo \<le> r")
    case True
    moreover have "0 < r" using True Cons.prems(2) by auto
    ultimately obtain fs1 where "level_pass u (r - bo_quantity bo) bs [] = (fs1, r', q)"
      using Cons.prems(1,3) by (auto split: prod.splits)
    from Cons.IH [OF this] Cons.prems True show ?thesis by auto
  next
    case False
    then show ?thesis
      using Cons.prems nonneg by (cases "r = 0") auto
  qed
qed

lemma levels_pass_amount:
  "levels_pass u r ls = (gs, r') \<Longrightarrow> ladder_pos ls \<Longrightarrow>
   (\<forall>(p, queue) \<in> set ls. \<forall>bo \<in> set queue. \<not> is_self_trade u (bo_user_id bo)) \<Longrightarrow> 0 \<le> r \<Longrightarrow>
   r - r' = min r (available ls)"
proof (induction u r ls arbitrary: gs r' rule: levels_pass.induct)
  case (1 u r)
  then show ?case by simp
next
  case (2 u r p queue ls)
  obtain fs r1 q where lp: "level_pass u r queue [] = (fs, r1, q)" by (metis prod_cases3)
  have pos: "ladder_pos ls" "\<forall>bo \<in> set queue. 0 < bo_quantity bo"
    using 2(3) by (auto simp: ladder_pos_def)
  have amount: "r1 = (if r \<le> sum_list (map bo_quantity queue) then 0 else r - sum_list (map bo_quantity queue)) \<and>
      (q = [] \<longleftrightarrow> sum_list (map bo_quantity queue) \<le> r)"
    using level_pass_amount [OF lp pos(2)] 2(4,5) by auto
  note avail = available_nonneg [OF pos(1)]
  show ?case
  proof (cases "q = []")
    case True
    obtain hs where hs: "levels_pass u r1 ls = (hs, r')"
      using 2(2) True by (auto simp: lp split: prod.splits)
    have "r1 - r' = min r1 (available ls)"
      using 2(1) [OF lp [symmetric] refl True hs pos(1)] 2(4) amount by auto
    then show ?thesis using amount True avail by (auto split: if_splits)
  next
    case False
    then have "r' = r1" using 2(2) by (simp add: lp)
    then show ?thesis using amount False avail by auto
  qed
qed

lemma ladder_price_iff:
  assumes "1 \<le> limit" and "limit \<le> 99"
  shows "p \<in> set (ladder_prices sd limit) \<longleftrightarrow> 0 < p \<and> p < 100 \<and> crosses sd limit p"
proof
  assume "p \<in> set (ladder_prices sd limit)"
  then show "0 < p \<and> p < 100 \<and> crosses sd limit p"
    using assms by (auto simp: ladder_prices_def crosses_def split: if_splits)
next
  assume p: "0 < p \<and> p < 100 \<and> crosses sd limit p"
  then have "p = int (nat p)" by simp
  moreover have "nat p \<in> (if sd = BUY then {1..<Suc (nat limit)} else {nat limit..<100})"
    using p assms by (auto simp: crosses_def split: if_splits)
  ultimately show "p \<in> set (ladder_prices sd limit)"
    unfolding ladder_prices_def by (cases "sd = BUY") (auto intro!: image_eqI [of p int "nat p"])
qed

lemma ladder_pos_ladder:
  assumes "ob_inv ob" and "1 \<le> limit" and "limit \<le> 99"
  shows "ladder_pos (ladder sd limit ob)"
  using level_ok(2) [OF assms(1)] ladder_price_iff [OF assms(2,3)]
  by (auto simp: ladder_pos_def ladder_def)

lemma ladder_resting:
  assumes "1 \<le> limit" and "limit \<le> 99"
  shows "(\<exists>queue. (p, queue) \<in> set (ladder sd limit ob) \<and> bo \<in> set queue) \<longleftrightarrow>
    (maker_dir sd, p, bo) \<in> resting ob \<and> crosses sd limit p"
  using maker_dir_in [of sd] ladder_price_iff [OF assms]
  by (auto simp: ladder_def resting_def)

text \<open>\<open>match_order\<close> against its reference.\<close>

lemma match_order_spec:
  assumes inv: "ob_inv ob" and limit: "1 \<le> book_price inc" "book_price inc \<le> 99"
    and dir: "book_direction inc \<in> {BUY, SELL}"
    and pass: "levels_pass (ord_user_id inc) (remaining_quantity inc)
        (ladder (book_direction inc) (book_price inc) ob) = (gs, r')"
  obtains ob' where "match_order inc ob =
      (Inr (filled_by (remaining_quantity inc - r') inc, trades_of (book_direction inc) inc gs), ob')"
    and "book_after (map snd gs) ob ob'"
proof -
  have pos: "\<forall>g \<in> set gs. 0 < snd (snd g)"
    using levels_pass_fills [OF pass ladder_pos_ladder [OF inv limit]] by auto
  note total = levels_pass_total [OF pass]
  from dir show thesis
  proof
    assume d: "book_direction inc = BUY"
    from match_loop [of match_buy BUY, OF match_buy_round inv limit pass [unfolded d] pos, of "[]"]
    show thesis using that d total by (auto simp: match_order_def)
  next
    assume "book_direction inc \<in> {SELL}"
    then have d: "book_direction inc = SELL" by simp
    from match_loop [of match_sell SELL, OF match_sell_round inv limit pass [unfolded d] pos, of "[]"]
    show thesis using that d total by (auto simp: match_order_def)
  qed
qed

text \<open>No order is filled twice in one match, so none gives up more than it has.\<close>

lemma filled_of_distinct:
  "distinct (map (\<lambda>f. bo_order_id (fst f)) fs) \<Longrightarrow> f \<in> set fs \<Longrightarrow>
   filled_of fs (bo_order_id (fst f)) = snd f"
proof (induction fs)
  case Nil
  then show ?case by simp
next
  case (Cons g fs)
  show ?case
  proof (cases "f = g")
    case True
    have "\<forall>h \<in> set fs. bo_order_id (fst h) \<noteq> bo_order_id (fst g)"
      using Cons.prems(1) by (auto simp: image_iff)
    then show ?thesis using True filled_of_none [of fs] by simp
  next
    case False
    then have "f \<in> set fs" using Cons.prems(2) by simp
    moreover have "bo_order_id (fst g) \<noteq> bo_order_id (fst f)"
      using Cons.prems(1) \<open>f \<in> set fs\<close> by (auto simp: image_iff)
    ultimately show ?thesis using Cons by simp
  qed
qed

lemma eligible_ladder_distinct:
  assumes inv: "ob_inv ob" and ps: "distinct ps" "\<forall>p \<in> set ps. 0 < p \<and> p < 100" and m: "m \<in> {BUY, SELL}"
  shows "distinct (map (\<lambda>e. bo_order_id (snd e)) (eligible_ladder u (map (\<lambda>p. (p, level ob m p)) ps)))"
  using ps
proof (induction ps)
  case Nil
  then show ?case by simp
next
  case (Cons p ps)
  have own: "distinct (map bo_order_id (level ob m p))" using level_ok(1) [OF inv] Cons.prems by simp
  have other: "bo_order_id bo \<noteq> bo_order_id bo'"
    if "bo \<in> set (level ob m p)" "p' \<in> set ps" "bo' \<in> set (level ob m p')" for bo p' bo'
  proof
    assume eq: "bo_order_id bo = bo_order_id bo'"
    have "(m, p, bo) \<in> resting ob" "(m, p', bo') \<in> resting ob"
      using that Cons.prems m by (auto simp: resting_def)
    from resting_unique [OF inv this eq] that(2) Cons.prems(1) show False by auto
  qed
  show ?case
    using Cons own other
    by (auto simp: eligible_def comp_def distinct_map_filter image_iff eligible_ladder_def)
qed

lemma match_fills_distinct:
  assumes inv: "ob_inv ob" and limit: "1 \<le> limit" "limit \<le> 99"
    and pass: "levels_pass u r (ladder sd limit ob) = (gs, r')"
  shows "distinct (map (\<lambda>f. bo_order_id (fst f)) (map snd gs))"
proof -
  obtain rest where "eligible_ladder u (ladder sd limit ob) = map (\<lambda>(p, bo, n). (p, bo)) gs @ rest"
    using levels_pass_priority [OF pass] by blast
  moreover have "distinct (ladder_prices sd limit)"
    by (simp add: ladder_prices_def distinct_map)
  then have "distinct (map (\<lambda>e. bo_order_id (snd e)) (eligible_ladder u (ladder sd limit ob)))"
    unfolding ladder_def using ladder_price_iff [OF limit, of _ sd]
    by (intro eligible_ladder_distinct [OF inv _ _ maker_dir_in]) auto
  ultimately have "distinct (map (\<lambda>e. bo_order_id (snd e)) (map (\<lambda>(p, bo, n). (p, bo)) gs))" by simp
  then show ?thesis by (simp add: comp_def case_prod_beta)
qed

lemma match_maker_bound:
  assumes inv: "ob_inv ob" and limit: "1 \<le> limit" "limit \<le> 99"
    and pass: "levels_pass u r (ladder sd limit ob) = (gs, r')" and rest: "(sd', p, bo) \<in> resting ob"
  shows "filled_of (map snd gs) (bo_order_id bo) \<le> bo_quantity bo"
proof (cases "\<exists>f \<in> set (map snd gs). bo_order_id (fst f) = bo_order_id bo")
  case True
  then obtain q b n where g: "(q, b, n) \<in> set gs" and id: "bo_order_id b = bo_order_id bo" by auto
  have "(maker_dir sd, q, b) \<in> resting ob" "n \<le> bo_quantity b"
    using levels_pass_fills [OF pass ladder_pos_ladder [OF inv limit]] g
    by (auto simp: ladder_resting [OF limit])
  moreover have "b = bo" using resting_unique [OF inv rest \<open>(maker_dir sd, q, b) \<in> resting ob\<close>] id by simp
  moreover have "(b, n) \<in> set (map snd gs)" using g by force
  then have "filled_of (map snd gs) (bo_order_id b) = n"
    using filled_of_distinct [OF match_fills_distinct [OF inv limit pass], of "(b, n)"] by simp
  ultimately show ?thesis by simp
next
  case False
  then show ?thesis using filled_of_none [of "map snd gs"] resting_pos [OF inv rest] by auto
qed

section \<open>What rests in a book\<close>

text \<open>All that is on offer in a book, and what a match takes from it.\<close>

lemma resting_finite [simp]: "finite (resting ob)"
proof -
  have "resting ob \<subseteq> (\<Union>sd \<in> {BUY, SELL}. \<Union>p \<in> {0..100}. (\<lambda>bo. (sd, p, bo)) ` set (level ob sd p))"
  proof
    fix e assume "e \<in> resting ob"
    then obtain sd p bo where e: "e = (sd, p, bo)" "sd \<noteq> UNSET_DIRECTION" "0 < p" "p < 100" "bo \<in> set (level ob sd p)"
      by (auto simp: resting_def)
    have "sd \<in> {BUY, SELL}" using e(2) by (cases sd) auto
    moreover have "p \<in> {0..100}" using e(3,4) by simp
    ultimately show "e \<in> (\<Union>sd \<in> {BUY, SELL}. \<Union>p \<in> {0..100}. (\<lambda>bo. (sd, p, bo)) ` set (level ob sd p))"
      using e by blast
  qed
  then show ?thesis by (rule finite_subset) simp
qed

definition book_quantity :: "order_book \<Rightarrow> int" where
  "book_quantity ob = (\<Sum>e \<in> resting ob. bo_quantity (snd (snd e)))"

lemma fills_of_entries:
  assumes "finite R" and "inj_on k R" and "\<forall>f \<in> set fs. \<exists>e \<in> R. k e = bo_order_id (fst f)"
  shows "(\<Sum>e \<in> R. filled_of fs (k e)) = fill_total fs"
  using assms(3)
proof (induction fs)
  case Nil
  then show ?case by simp
next
  case (Cons f fs)
  then obtain e0 where e0: "e0 \<in> R" "k e0 = bo_order_id (fst f)" by auto
  have "(\<Sum>e \<in> R. if bo_order_id (fst f) = k e then snd f else 0) = (\<Sum>e \<in> R. if e = e0 then snd f else 0)"
    using assms(2) e0 by (intro sum.cong) (auto dest: inj_onD)
  also have "\<dots> = snd f" using assms(1) e0(1) by simp
  finally show ?case using Cons by (simp add: sum.distrib)
qed

lemma resting_after_quantity:
  fixes R :: "(direction \<times> int \<times> book_order) set"
  assumes fin: "finite R" and inj: "inj_on entry_id R"
    and makers: "\<forall>f \<in> set fs. \<exists>e \<in> R. entry_id e = bo_order_id (fst f)"
    and bound: "\<forall>e \<in> R. filled_of fs (entry_id e) \<le> bo_quantity (snd (snd e))"
  shows "(\<Sum>e \<in> resting_after fs R. bo_quantity (snd (snd e))) = (\<Sum>e \<in> R. bo_quantity (snd (snd e))) - fill_total fs"
proof -
  let ?x = "\<lambda>e. filled_of fs (entry_id e)" and ?q = "\<lambda>e. bo_quantity (snd (snd e))"
  let ?g = "\<lambda>e. (fst e, fst (snd e), less_qty (?x e) (snd (snd e)))"
  let ?S = "{e \<in> R. ?x e < ?q e}"
  have after: "resting_after fs R = ?g ` ?S"
    by (simp add: resting_after_def entry_id_def set_eq_iff image_iff) blast
  have "inj_on ?g ?S"
  proof (rule inj_onI)
    fix e e' assume e: "e \<in> ?S" "e' \<in> ?S" and g: "?g e = ?g e'"
    then have "bo_order_id (less_qty (?x e) (snd (snd e))) = bo_order_id (less_qty (?x e') (snd (snd e')))" by simp
    then show "e = e'" using e inj by (auto simp flip: entry_id_def dest: inj_onD)
  qed
  then have "sum ?q (resting_after fs R) = (\<Sum>e \<in> ?S. ?q e - ?x e)" unfolding after by (simp add: sum.reindex)
  also have "\<dots> = (\<Sum>e \<in> R. ?q e - ?x e)"
    using bound fin by (intro sum.mono_neutral_left) force+
  also have "\<dots> = sum ?q R - fill_total fs"
    using fills_of_entries [OF fin inj makers] by (simp add: sum_subtractf)
  finally show ?thesis .
qed

section \<open>Properties\<close>

definition sample_trades :: "trade_result list" where
  "sample_trades =
     [make_trade BUY 40 sample_buy (sample_entry ''o1'' ''bob'' 5) 5,
      make_trade BUY 45 sample_buy (sample_entry ''o2'' ''carol'' 5) 3]"

lemma sample_match_fst:
  "fst (match_order sample_buy sample_book) = Inr (filled_by 8 sample_buy, sample_trades)"
  by code_simp

lemma sample_match:
  "match_order sample_buy sample_book =
     (Inr (filled_by 8 sample_buy, sample_trades), snd (match_order sample_buy sample_book))"
  using sample_match_fst by (metis prod.collapse)

lemma sample_buy_fields [simp]:
  "book_direction sample_buy = BUY" "book_price sample_buy = 50" "remaining_quantity sample_buy = 8"
  "ord_user_id sample_buy = ''alice''" "filled_quantity sample_buy = 0" "ord_status sample_buy = OPEN"
  "ord_id sample_buy = ''o9''"
  by (simp_all add: sample_buy_def sample_order_def)

lemma match_order_cases:
  assumes "ob_inv ob" and "1 \<le> book_price inc" and "book_price inc \<le> 99"
    and "book_direction inc \<in> {BUY, SELL}" and "match_order inc ob = (r, ob')"
  obtains gs r' where "levels_pass (ord_user_id inc) (remaining_quantity inc)
      (ladder (book_direction inc) (book_price inc) ob) = (gs, r')"
    and "r = Inr (filled_by (remaining_quantity inc - r') inc, trades_of (book_direction inc) inc gs)"
    and "book_after (map snd gs) ob ob'"
proof -
  obtain gs r' where pass: "levels_pass (ord_user_id inc) (remaining_quantity inc)
      (ladder (book_direction inc) (book_price inc) ob) = (gs, r')" by fastforce
  from match_order_spec [OF assms(1-4) pass] obtain ob'' where
    run: "match_order inc ob = (Inr (filled_by (remaining_quantity inc - r') inc,
      trades_of (book_direction inc) inc gs), ob'')" and after: "book_after (map snd gs) ob ob''" .
  show thesis by (rule that [OF pass]) (use run after assms(5) in simp_all)
qed

lemma make_trade_fields [simp]:
  "tr_price (make_trade sd p inc bo n) = p" "tr_quantity (make_trade sd p inc bo n) = n"
  "maker_order_id (make_trade sd p inc bo n) = bo_order_id bo"
  "taker_order_id (make_trade sd p inc bo n) = ord_id inc"
  "tr_market_id (make_trade sd p inc bo n) = ord_market_id inc"
  by (simp_all add: make_trade_def make_trade_buy_incoming_def make_trade_sell_incoming_def)

text \<open>What was traded against one resting order.\<close>

definition traded :: "trade_result list \<Rightarrow> string \<Rightarrow> int" where
  "traded trs oid = sum_list (map tr_quantity (filter (\<lambda>t. maker_order_id t = oid) trs))"

lemma traded_simps [simp]:
  "traded [] oid = 0"
  "traded (t # ts) oid = (if maker_order_id t = oid then tr_quantity t else 0) + traded ts oid"
  by (simp_all add: traded_def)

lemma traded_nonneg: "\<forall>t \<in> set ts. 0 < tr_quantity t \<Longrightarrow> 0 \<le> traded ts oid"
  by (induction ts) auto

lemma traded_trades_of:
  "traded (trades_of sd inc gs) oid = filled_of (map snd gs) oid"
  by (induction gs) (auto simp: trades_of_def)

lemma match_makers:
  assumes "ob_inv ob" and "1 \<le> limit" and "limit \<le> 99" and "levels_pass u r (ladder sd limit ob) = (gs, r')"
    and "f \<in> set (map snd gs)"
  shows "\<exists>p. (maker_dir sd, p, fst f) \<in> resting ob"
  using levels_pass_fills [OF assms(4) ladder_pos_ladder [OF assms(1-3)]] assms(5)
  by (force simp: ladder_resting [OF assms(2,3)])

text \<open>Claim C4. The matching loops always return, and compute the reference: the levels from
  the best price to the limit, each passed once in queue order; afterwards every resting order
  has lost exactly what was traded against it, and the book is consistent again.\<close>

theorem match_order_reference:
  assumes "ob_inv ob" and "1 \<le> book_price inc" and "book_price inc \<le> 99"
    and "book_direction inc \<in> {BUY, SELL}"
  shows "\<exists>gs r' ob'. levels_pass (ord_user_id inc) (remaining_quantity inc)
        (ladder (book_direction inc) (book_price inc) ob) = (gs, r') \<and>
      match_order inc ob =
        (Inr (filled_by (remaining_quantity inc - r') inc, trades_of (book_direction inc) inc gs), ob') \<and>
      ob_inv ob' \<and> resting ob' = resting_after (map snd gs) (resting ob)"
proof -
  obtain r ob' where "match_order inc ob = (r, ob')" by fastforce
  from match_order_cases [OF assms this] obtain gs r' where
    "levels_pass (ord_user_id inc) (remaining_quantity inc)
       (ladder (book_direction inc) (book_price inc) ob) = (gs, r')"
    "r = Inr (filled_by (remaining_quantity inc - r') inc, trades_of (book_direction inc) inc gs)"
    "book_after (map snd gs) ob ob'" .
  with \<open>match_order inc ob = (r, ob')\<close> show ?thesis
    by (intro exI [of _ gs] exI [of _ r'] exI [of _ ob']) (simp add: book_after_def)
qed

theorem match_order_reference_witness:
  "\<exists>gs r' ob'. levels_pass ''alice'' 8 (ladder BUY 50 sample_book) = (gs, r') \<and>
     match_order sample_buy sample_book = (Inr (filled_by (8 - r') sample_buy, trades_of BUY sample_buy gs), ob') \<and>
     ob_inv ob' \<and> resting ob' = resting_after (map snd gs) (resting sample_book)"
  using match_order_reference [of sample_book sample_buy] sample_book_inv by simp

lemma two_users: "\<not> is_self_trade u v \<Longrightarrow> u \<noteq> v \<or> lower u = lower AMM_USER_ID"
  by (auto simp: is_self_trade_def Let_def split: if_splits)

text \<open>Claim C20. Every trade is against an order that rests on the other side, at that order's
  price, within the taker's limit, for at least one share and at most its quantity; buyer and
  seller are the taker and the owner of that order, and they are two users: one user trades with
  itself only if it is the market maker, whom the code exempts.\<close>

theorem match_order_trades_sound:
  assumes "ob_inv ob" and "1 \<le> book_price inc" and "book_price inc \<le> 99"
    and "book_direction inc \<in> {BUY, SELL}"
    and "match_order inc ob = (Inr (inc', trs), ob')" and "tr \<in> set trs"
  shows "\<exists>bo. (maker_dir (book_direction inc), tr_price tr, bo) \<in> resting ob \<and>
      tr = make_trade (book_direction inc) (tr_price tr) inc bo (tr_quantity tr) \<and>
      crosses (book_direction inc) (book_price inc) (tr_price tr) \<and>
      0 < tr_quantity tr \<and> tr_quantity tr \<le> bo_quantity bo \<and>
      \<not> is_self_trade (ord_user_id inc) (bo_user_id bo) \<and>
      (buy_user_id tr, sell_user_id tr) =
        (if book_direction inc = BUY then (ord_user_id inc, bo_user_id bo) else (bo_user_id bo, ord_user_id inc)) \<and>
      (buy_user_id tr = sell_user_id tr \<longrightarrow> lower (buy_user_id tr) = lower AMM_USER_ID)"
  using match_order_cases [OF assms(1-5)]
proof cases
  case (1 gs r')
  then obtain p bo n where g: "(p, bo, n) \<in> set gs" and tr: "tr = make_trade (book_direction inc) p inc bo n"
    using assms(6) by (auto simp: trades_of_def)
  have fill: "(\<exists>queue. (p, queue) \<in> set (ladder (book_direction inc) (book_price inc) ob) \<and> bo \<in> set queue) \<and>
      \<not> is_self_trade (ord_user_id inc) (bo_user_id bo) \<and> 0 < n \<and> n \<le> bo_quantity bo"
    using levels_pass_fills [OF 1(1) ladder_pos_ladder [OF assms(1-3)]] g by blast
  moreover have "(buy_user_id tr, sell_user_id tr) =
      (if book_direction inc = BUY then (ord_user_id inc, bo_user_id bo) else (bo_user_id bo, ord_user_id inc))"
    by (simp add: tr make_trade_def make_trade_buy_incoming_def make_trade_sell_incoming_def)
  moreover from this have "buy_user_id tr = sell_user_id tr \<longrightarrow> lower (buy_user_id tr) = lower AMM_USER_ID"
    using two_users [of "ord_user_id inc" "bo_user_id bo"] fill by (auto split: if_splits)
  ultimately show ?thesis
    unfolding ladder_resting [OF assms(2,3)] by (intro exI [of _ bo]) (simp add: tr)
qed

theorem match_order_trades_sound_witness:
  "\<exists>bo. (SELL, 45, bo) \<in> resting sample_book \<and>
     sample_trades ! 1 = make_trade BUY 45 sample_buy bo 3 \<and> 3 \<le> bo_quantity bo \<and>
     \<not> is_self_trade ''alice'' (bo_user_id bo)"
proof -
  have "sample_trades ! 1 \<in> set sample_trades" "tr_price (sample_trades ! 1) = 45" "tr_quantity (sample_trades ! 1) = 3"
    by (simp_all add: sample_trades_def)
  with match_order_trades_sound [OF sample_book_inv _ _ _ sample_match, of "sample_trades ! 1"]
  show ?thesis by (auto simp: maker_dir_def)
qed

text \<open>Claim C19. Quantity is conserved: what the trades carry is what the taker's order has gained
  in filled and lost in remaining quantity, and what the book as a whole has lost; every resting
  order has lost exactly what was traded against it, is gone when nothing is left of it, and no
  other entry has changed or appeared. The taker is filled exactly when nothing remains.\<close>

theorem match_order_conserves_quantity:
  assumes inv: "ob_inv ob" and limit: "1 \<le> book_price inc" "book_price inc \<le> 99"
    and dir: "book_direction inc \<in> {BUY, SELL}" and rem: "0 < remaining_quantity inc"
    and run: "match_order inc ob = (Inr (inc', trs), ob')"
  shows "sum_list (map tr_quantity trs) = filled_quantity inc' - filled_quantity inc \<and>
    filled_quantity inc' + remaining_quantity inc' = filled_quantity inc + remaining_quantity inc \<and>
    0 \<le> remaining_quantity inc' \<and>
    ord_status inc' = (if trs = [] then ord_status inc
                       else if remaining_quantity inc' = 0 then FILLED else PARTIALLY_FILLED) \<and>
    book_quantity ob' = book_quantity ob - sum_list (map tr_quantity trs) \<and>
    resting ob' = {(sd, p, bo\<lparr>bo_quantity := bo_quantity bo - traded trs (bo_order_id bo)\<rparr>) |sd p bo.
      (sd, p, bo) \<in> resting ob \<and> traded trs (bo_order_id bo) < bo_quantity bo}"
  using match_order_cases [OF inv limit dir run]
proof cases
  case (1 gs r')
  let ?fs = "map snd gs"
  have "map tr_quantity (trades_of (book_direction inc) inc gs) = map snd ?fs"
    by (auto simp: trades_of_def)
  then have sum: "sum_list (map tr_quantity trs) = fill_total ?fs"
    using 1(2) by (simp add: fill_total_def)
  have total: "fill_total ?fs = remaining_quantity inc - r'"
    by (rule levels_pass_total [OF 1(1)])
  have "\<forall>f \<in> set ?fs. 0 < snd f"
    using levels_pass_fills [OF 1(1) ladder_pos_ladder [OF inv limit]] by auto
  note pos = fill_total_pos [OF this]
  have rest: "0 \<le> r'" using levels_pass_rest_nonneg [OF 1(1)] rem by simp
  have "traded trs oid = filled_of ?fs oid" for oid
    using 1(2) by (simp add: traded_trades_of)
  then have after: "resting ob' = {(sd, p, bo\<lparr>bo_quantity := bo_quantity bo - traded trs (bo_order_id bo)\<rparr>) |sd p bo.
      (sd, p, bo) \<in> resting ob \<and> traded trs (bo_order_id bo) < bo_quantity bo}"
    using 1(3) by (simp add: book_after_def resting_after_def less_qty_def)
  have inj: "inj_on entry_id (resting ob)"
    by (rule inj_onI) (use resting_unique [OF inv] in \<open>fastforce simp: entry_id_def\<close>)
  have "book_quantity ob' = book_quantity ob - fill_total ?fs"
    unfolding book_quantity_def 1(3) [unfolded book_after_def, THEN conjunct2, THEN conjunct1]
  proof (rule resting_after_quantity [OF resting_finite inj])
    show "\<forall>f \<in> set ?fs. \<exists>e \<in> resting ob. entry_id e = bo_order_id (fst f)"
    proof
      fix f assume "f \<in> set ?fs"
      from match_makers [OF inv limit 1(1) this] obtain p where "(maker_dir (book_direction inc), p, fst f) \<in> resting ob" ..
      then show "\<exists>e \<in> resting ob. entry_id e = bo_order_id (fst f)"
        by (rule bexI [rotated]) (simp add: entry_id_def)
    qed
    show "\<forall>e \<in> resting ob. filled_of ?fs (entry_id e) \<le> bo_quantity (snd (snd e))"
      using match_maker_bound [OF inv limit 1(1)] by (auto simp: entry_id_def)
  qed
  then show ?thesis
    unfolding sum using 1(2) rest total pos after by (cases "gs = []") (auto simp: filled_by_def trades_of_def)
qed

theorem match_order_conserves_quantity_witness:
  "sum_list (map tr_quantity sample_trades) = 8 \<and> ord_status (filled_by 8 sample_buy) = FILLED \<and>
   book_quantity (snd (match_order sample_buy sample_book)) = book_quantity sample_book - 8"
  using match_order_conserves_quantity [OF sample_book_inv _ _ _ _ sample_match]
  by (simp add: sample_trades_def)

text \<open>Claim C16. Price-time priority: the makers of the trades, in order, are a prefix of the
  eligible orders sorted by level and place in the queue, and every trade but the last uses
  its maker up.\<close>

theorem match_order_priority:
  assumes "ob_inv ob" and "1 \<le> book_price inc" and "book_price inc \<le> 99"
    and "book_direction inc \<in> {BUY, SELL}"
    and "match_order inc ob = (Inr (inc', trs), ob')"
  shows "\<exists>rest. map (\<lambda>(p, bo). (p, bo_order_id bo))
        (eligible_ladder (ord_user_id inc) (ladder (book_direction inc) (book_price inc) ob)) =
      map (\<lambda>tr. (tr_price tr, maker_order_id tr)) trs @ rest \<and>
    (\<forall>tr \<in> set (butlast trs). maker_order_id tr \<notin> entry_id ` resting ob')"
  using match_order_cases [OF assms(1-5)]
proof cases
  case (1 gs r')
  let ?d = "book_direction inc"
  obtain rest where rest: "eligible_ladder (ord_user_id inc) (ladder ?d (book_price inc) ob) =
      map (\<lambda>(p, bo, n). (p, bo)) gs @ rest"
    and full: "\<forall>g \<in> set (butlast gs). snd (snd g) = bo_quantity (fst (snd g))"
    using levels_pass_priority [OF 1(1)] by blast
  have trs: "trs = trades_of ?d inc gs" using 1(2) by simp
  have makers: "map (\<lambda>tr. (tr_price tr, maker_order_id tr)) trs = map (\<lambda>(p, bo). (p, bo_order_id bo)) (map (\<lambda>(p, bo, n). (p, bo)) gs)"
    by (auto simp: trs trades_of_def)
  have "maker_order_id tr \<notin> entry_id ` resting ob'" if "tr \<in> set (butlast trs)" for tr
  proof -
    have "butlast trs = map (\<lambda>(p, bo, n). make_trade ?d p inc bo n) (butlast gs)"
      by (simp add: trs trades_of_def map_butlast)
    with that obtain g where g: "g \<in> set (butlast gs)" and id: "maker_order_id tr = bo_order_id (fst (snd g))"
      by (auto split: prod.splits)
    have mem: "g \<in> set gs" using g by (rule in_set_butlastD)
    have pos: "\<forall>f \<in> set (map snd gs). 0 < snd f"
      using levels_pass_fills [OF 1(1) ladder_pos_ladder [OF assms(1-3)]] by auto
    obtain p bo n where geq: "g = (p, bo, n)" by (cases g)
    have res: "(maker_dir ?d, p, bo) \<in> resting ob"
      using levels_pass_fills [OF 1(1) ladder_pos_ladder [OF assms(1-3)]] mem
      by (auto simp: geq ladder_resting [OF assms(2,3)])
    have "(bo, n) \<in> set (map snd gs)" using mem by (force simp: geq)
    then have le: "bo_quantity bo \<le> filled_of (map snd gs) (bo_order_id bo)"
      using filled_of_member [OF pos, of "(bo, n)"] full g by (auto simp: geq)
    show ?thesis
    proof
      assume "maker_order_id tr \<in> entry_id ` resting ob'"
      then obtain sd' p' bo' where "(sd', p', bo') \<in> resting ob" "bo_order_id bo' = bo_order_id bo"
        "filled_of (map snd gs) (bo_order_id bo') < bo_quantity bo'"
        using 1(3) id by (auto simp: book_after_def resting_after_def entry_id_def geq)
      with resting_unique [OF assms(1) res this(1)] le show False by simp
    qed
  qed
  then show ?thesis unfolding makers rest by (intro exI [of _ "map (\<lambda>(p, bo). (p, bo_order_id bo)) rest"]) simp
qed

theorem match_order_priority_witness:
  "\<exists>rest. map (\<lambda>(p, bo). (p, bo_order_id bo))
        (eligible_ladder ''alice'' (ladder BUY 50 sample_book)) = [(40, ''o1''), (45, ''o2'')] @ rest \<and>
     ''o1'' \<notin> entry_id ` resting (snd (match_order sample_buy sample_book))"
  using match_order_priority [OF sample_book_inv _ _ _ sample_match]
  by (auto simp: sample_trades_def sample_entry_def)

text \<open>Claim C17. On a consistent book every match ends and returns; and a taker with no order of its
  own on the other side within its limit then trades as much as the book offers: the smaller of
  its quantity and the total resting within the limit. (With own orders there it may trade less:
  \<open>own_order_blocks_deeper_levels\<close>.)\<close>

theorem match_order_fills_available:
  assumes "ob_inv ob" and "1 \<le> book_price inc" and "book_price inc \<le> 99"
    and "book_direction inc \<in> {BUY, SELL}" and "0 \<le> remaining_quantity inc"
  shows "\<exists>inc' trs ob'. match_order inc ob = (Inr (inc', trs), ob') \<and>
    ((\<forall>p bo. (maker_dir (book_direction inc), p, bo) \<in> resting ob \<longrightarrow> crosses (book_direction inc) (book_price inc) p \<longrightarrow>
       \<not> is_self_trade (ord_user_id inc) (bo_user_id bo)) \<longrightarrow>
     filled_quantity inc' - filled_quantity inc =
       min (remaining_quantity inc) (available (ladder (book_direction inc) (book_price inc) ob)))"
proof -
  let ?l = "ladder (book_direction inc) (book_price inc) ob"
  obtain gs r' where pass: "levels_pass (ord_user_id inc) (remaining_quantity inc) ?l = (gs, r')" by fastforce
  obtain ob' where run: "match_order inc ob =
      (Inr (filled_by (remaining_quantity inc - r') inc, trades_of (book_direction inc) inc gs), ob')"
    by (rule match_order_spec [OF assms(1-4) pass])
  have "remaining_quantity inc - r' = min (remaining_quantity inc) (available ?l)"
    if "\<forall>p bo. (maker_dir (book_direction inc), p, bo) \<in> resting ob \<longrightarrow> crosses (book_direction inc) (book_price inc) p \<longrightarrow>
       \<not> is_self_trade (ord_user_id inc) (bo_user_id bo)"
  proof -
    have "\<forall>(p, queue) \<in> set ?l. \<forall>bo \<in> set queue. \<not> is_self_trade (ord_user_id inc) (bo_user_id bo)"
      using that ladder_resting [OF assms(2,3), of _ "book_direction inc" ob] by blast
    from levels_pass_amount [OF pass ladder_pos_ladder [OF assms(1-3)] this assms(5)] show ?thesis by simp
  qed
  then show ?thesis using run by simp
qed

theorem match_order_fills_available_witness:
  "\<exists>inc' trs ob'. match_order sample_buy sample_book = (Inr (inc', trs), ob') \<and>
     filled_quantity inc' = min 8 (available (ladder BUY 50 sample_book))"
proof -
  have "\<not> is_self_trade ''alice'' (bo_user_id bo)" if "(SELL, p, bo) \<in> resting sample_book" for p bo
    using that by (auto simp: sample_book_resting sample_entry_def is_self_trade_def lower_def
        lower_char_def AMM_USER_ID_def)
  then show ?thesis
    using match_order_fills_available [OF sample_book_inv, of sample_buy] by (auto simp: maker_dir_def)
qed

definition blocked_book :: order_book where
  "blocked_book = book_of
     [(sample_entry ''o1'' ''alice'' 1, 40, SELL), (sample_entry ''o2'' ''bob'' 5, 45, SELL)]"

text \<open>The taker's own order at the best price blocks the levels behind it: the buyer
  below takes nothing, although a stranger's order rests within the limit, and the buy order
  that then enters the book crosses that order.\<close>

theorem own_order_blocks_deeper_levels:
  "fst (match_order sample_buy blocked_book) = Inr (sample_buy, []) \<and>
   (case add_order (sample_entry ''o9'' ''alice'' 8) 50 BUY (snd (match_order sample_buy blocked_book)) of
      (_, ob) \<Rightarrow> best_ask ob \<le> best_bid ob \<and> (SELL, 45, sample_entry ''o2'' ''bob'' 5) \<in>
        {(sd, p, bo). bo \<in> set (level ob sd p)})"
  by code_simp

definition rotated_book :: order_book where
  "rotated_book = book_of
     [(sample_entry ''o1'' ''alice'' 5, 50, SELL), (sample_entry ''o2'' ''bob'' 8, 50, SELL),
      (sample_entry ''o3'' ''carol'' 2, 50, SELL)]"

text \<open>Passing over the taker's own order costs it its place: after the match it rests
  behind an order that had arrived later at the same price.\<close>

theorem rotation_loses_time_priority:
  "map bo_order_id (level rotated_book SELL 50) = [''o1'', ''o2'', ''o3''] \<and>
   map bo_order_id (level (snd (match_order sample_buy rotated_book)) SELL 50) = [''o3'', ''o1'']"
  by code_simp

end

