(* ===== verification/Clearing.thy ===== *)
theory Clearing
  imports Matching
begin

text \<open>
  Clearing of one trade: the market object that the engine passes along and flushes at the
  end (\<open>MarketState\<close> of \<open>engine.py\<close>), the four scenarios of
  \<open>pm_clearing/domain/scenarios\<close>, their dispatcher, and automatic netting. Then the
  contract \<open>clearing_contract\<close>: a step moves money between the accounts and the reserve,
  and shares and cost basis in step with the market's totals. The scenarios and netting
  satisfy it, and every sequence of steps keeps the books.
\<close>

section \<open>State and statements\<close>

record market_state =
  ms_id :: string
  ms_status :: market_status
  ms_reserve :: int
  ms_pnl :: int
  ms_yes :: int
  ms_no :: int
  ms_fee_bps :: int

definition MarketState :: "market \<Rightarrow> market_state" where
  "MarketState row = \<lparr>ms_id = mkt_id row, ms_status = mkt_status row,
     ms_reserve = reserve_balance row, ms_pnl = pnl_pool row, ms_yes = total_yes_shares row,
     ms_no = total_no_shares row, ms_fee_bps = taker_fee_bps row\<rparr>"

definition unfreeze_debit_sql :: "string \<Rightarrow> int \<Rightarrow> int \<Rightarrow> (db, account list) act" where
  "unfreeze_debit_sql u unfreeze refund =
     update_account u (\<lambda>a. a\<lparr>frozen_balance := frozen_balance a - unfreeze,
       available_balance := available_balance a + refund, acc_version := acc_version a + 1\<rparr>)"

definition add_balance_sql :: "string \<Rightarrow> int \<Rightarrow> (db, account list) act" where
  "add_balance_sql u amount =
     update_account u (\<lambda>a. a\<lparr>available_balance := available_balance a + amount,
       acc_version := acc_version a + 1\<rparr>)"

definition empty_position :: "string \<Rightarrow> string \<Rightarrow> position" where
  "empty_position u m = \<lparr>pos_user_id = u, pos_market_id = m, yes_volume = 0, yes_cost_sum = 0,
     yes_pending_sell = 0, no_volume = 0, no_cost_sum = 0, no_pending_sell = 0\<rparr>"

definition add_yes_volume_sql :: "string \<Rightarrow> string \<Rightarrow> int \<Rightarrow> int \<Rightarrow> (db, unit) act" where
  "add_yes_volume_sql u m qty cost =
     upsert_position (\<lambda>p. pos_key p = (u, m))
       ((empty_position u m)\<lparr>yes_volume := qty, yes_cost_sum := cost\<rparr>)
       (\<lambda>p. p\<lparr>yes_volume := yes_volume p + qty, yes_cost_sum := yes_cost_sum p + cost\<rparr>)"

definition add_no_volume_sql :: "string \<Rightarrow> string \<Rightarrow> int \<Rightarrow> int \<Rightarrow> (db, unit) act" where
  "add_no_volume_sql u m qty cost =
     upsert_position (\<lambda>p. pos_key p = (u, m))
       ((empty_position u m)\<lparr>no_volume := qty, no_cost_sum := cost\<rparr>)
       (\<lambda>p. p\<lparr>no_volume := no_volume p + qty, no_cost_sum := no_cost_sum p + cost\<rparr>)"

definition reduce_yes_volume_sql :: "string \<Rightarrow> string \<Rightarrow> int \<Rightarrow> int \<Rightarrow> (db, position list) act" where
  "reduce_yes_volume_sql u m qty cost =
     update_position u m (\<lambda>p. p\<lparr>yes_volume := yes_volume p - qty,
       yes_cost_sum := yes_cost_sum p - cost, yes_pending_sell := yes_pending_sell p - qty\<rparr>)"

definition reduce_no_volume_sql :: "string \<Rightarrow> string \<Rightarrow> int \<Rightarrow> int \<Rightarrow> (db, position list) act" where
  "reduce_no_volume_sql u m qty cost =
     update_position u m (\<lambda>p. p\<lparr>no_volume := no_volume p - qty,
       no_cost_sum := no_cost_sum p - cost, no_pending_sell := no_pending_sell p - qty\<rparr>)"

definition net_position_sql :: "string \<Rightarrow> string \<Rightarrow> int \<Rightarrow> int \<Rightarrow> int \<Rightarrow> (db, position list) act" where
  "net_position_sql u m qty yes_cost no_cost =
     update_position u m (\<lambda>p. p\<lparr>yes_volume := yes_volume p - qty,
       yes_cost_sum := yes_cost_sum p - yes_cost,
       no_volume := no_volume p - qty, no_cost_sum := no_cost_sum p - no_cost\<rparr>)"

text \<open>Releasing what an open order froze: the statements of the engine and of the administration.\<close>

definition unfreeze_funds_sql :: "string \<Rightarrow> int \<Rightarrow> (db, account list) act" where
  "unfreeze_funds_sql u amount =
     update_account u (\<lambda>a. a\<lparr>available_balance := available_balance a + amount,
       frozen_balance := frozen_balance a - amount, acc_version := acc_version a + 1\<rparr>)"

definition unfreeze_yes_sql :: "string \<Rightarrow> string \<Rightarrow> int \<Rightarrow> (db, position list) act" where
  "unfreeze_yes_sql u m qty =
     update_position u m (\<lambda>p. p\<lparr>yes_pending_sell := yes_pending_sell p - qty\<rparr>)"

definition unfreeze_no_sql :: "string \<Rightarrow> string \<Rightarrow> int \<Rightarrow> (db, position list) act" where
  "unfreeze_no_sql u m qty =
     update_position u m (\<lambda>p. p\<lparr>no_pending_sell := no_pending_sell p - qty\<rparr>)"

text \<open>
  What a statement does to the views of a market: funds, YES held, NO held and cost held
  change by the given amounts, other markets not at all.
\<close>

definition effect :: "string \<Rightarrow> db \<Rightarrow> db \<Rightarrow> int \<Rightarrow> int \<Rightarrow> int \<Rightarrow> int \<Rightarrow> bool" where
  "effect m d d' f y n c \<longleftrightarrow>
     wf_db d' \<and> account_ids d' = account_ids d \<and>
     markets d' = markets d \<and> orders d' = orders d \<and>
     funds d' = funds d + f \<and>
     yes_held m d' = yes_held m d + y \<and> no_held m d' = no_held m d + n \<and>
     cost_held m d' = cost_held m d + c \<and>
     (\<forall>k. k \<noteq> m \<longrightarrow> yes_held k d' = yes_held k d \<and> no_held k d' = no_held k d \<and>
       cost_held k d' = cost_held k d)"

lemma effect_refl: "wf_db d \<Longrightarrow> effect m d d 0 0 0 0"
  by (simp add: effect_def)

lemma effect_trans:
  "effect m d d1 f y n c \<Longrightarrow> effect m d1 d2 f' y' n' c' \<Longrightarrow>
   effect m d d2 (f + f') (y + y') (n + n') (c + c')"
  by (simp add: effect_def)

lemma effect_wf: "effect m d d' f y n c \<Longrightarrow> wf_db d' \<and> account_ids d' = account_ids d"
  by (simp add: effect_def)

lemma update_account_effect:
  assumes "update_account u g d = (Inr rows, d')" and "wf_db d" and "u \<in> account_ids d"
    and "\<And>a. acc_user_id (g a) = acc_user_id a" and "\<And>a. acc_funds (g a) = acc_funds a + f"
  shows "effect m d d' f 0 0 0"
  unfolding effect_def
  using update_account_frame [OF assms(1,4)] update_account_funds [OF assms(1,2,3,5)]
    keepsD [OF keeps_wf_update_accounts [OF assms(4)] assms(2,1)] by simp

lemma update_position_effect:
  assumes "update_position u m g d = (Inr rows, d')" and "wf_db d"
    and "(u, m) \<in> pos_key ` set (positions d)" and "\<And>p. pos_key (g p) = pos_key p"
    and "\<And>p. yes_volume (g p) = yes_volume p + y" and "\<And>p. no_volume (g p) = no_volume p + n"
    and "\<And>p. yes_cost_sum (g p) + no_cost_sum (g p) = yes_cost_sum p + no_cost_sum p + c"
  shows "effect m d d' 0 y n c"
  unfolding effect_def yes_held_def no_held_def cost_held_def
  using update_position_frame [OF assms(1)] keepsD [OF keeps_wf_update_positions [OF assms(4)] assms(2,1)]
    update_position_sum [where g = yes_volume, OF assms(1,2,3,5,4)]
    update_position_sum [where g = no_volume, OF assms(1,2,3,6,4)]
    update_position_sum [where g = "\<lambda>p. yes_cost_sum p + no_cost_sum p", OF assms(1,2,3,7,4)]
  by simp

lemma upsert_position_effect:
  assumes "upsert_position (\<lambda>p. pos_key p = (u, m)) row g d = (Inr z, d')" and "wf_db d"
    and "pos_key row = (u, m)" and "\<And>p. pos_key (g p) = pos_key p"
    and "yes_volume row = y" "\<And>p. yes_volume (g p) = yes_volume p + y"
    and "no_volume row = n" "\<And>p. no_volume (g p) = no_volume p + n"
    and "yes_cost_sum row + no_cost_sum row = c"
      "\<And>p. yes_cost_sum (g p) + no_cost_sum (g p) = yes_cost_sum p + no_cost_sum p + c"
  shows "effect m d d' 0 y n c"
  unfolding effect_def yes_held_def no_held_def cost_held_def
  using upsert_position_frame [OF assms(1)]
    keepsD [OF keeps_wf_upsert_position [OF assms(4), of "\<lambda>p. pos_key p = (u, m)" row] assms(2,1)]
    upsert_position_sum [where g = yes_volume, OF assms(1,2,3,5,6,4)]
    upsert_position_sum [where g = no_volume, OF assms(1,2,3,7,8,4)]
    upsert_position_sum [where g = "\<lambda>p. yes_cost_sum p + no_cost_sum p", OF assms(1,2,3,9,10,4)]
    assms(3)
  by simp

lemma update_account_effect0:
  assumes "update_account u g d = (Inr rows, d')" and "wf_db d"
    and "\<And>a. acc_user_id (g a) = acc_user_id a" and "\<And>a. acc_funds (g a) = acc_funds a"
  shows "effect m d d' 0 0 0 0"
proof -
  have "funds d' = funds d"
    using assms(1,4) by (auto simp: sql_update_ok_iff funds_def col_sum_update_same)
  then show ?thesis
    unfolding effect_def
    using update_account_frame [OF assms(1,3)]
      keepsD [OF keeps_wf_update_accounts [OF assms(3)] assms(2,1)] by simp
qed

lemma update_position_effect0:
  assumes "update_position u m g d = (Inr rows, d')" and "wf_db d"
    and "\<And>p. pos_key (g p) = pos_key p" and "\<And>p. yes_volume (g p) = yes_volume p"
    and "\<And>p. no_volume (g p) = no_volume p" and "\<And>p. yes_cost_sum (g p) = yes_cost_sum p"
    and "\<And>p. no_cost_sum (g p) = no_cost_sum p"
  shows "effect k d d' 0 0 0 0"
proof -
  have "pos_market_id (g p) = pos_market_id p" for p using assms(3) [of p] by (simp add: pos_key_def)
  then have "yes_held n d' = yes_held n d" "no_held n d' = no_held n d" "cost_held n d' = cost_held n d" for n
    using assms by (simp_all add: sql_update_ok_iff yes_held_def no_held_def cost_held_def
        in_market_def col_sum_update_same)
  then show ?thesis
    unfolding effect_def
    using update_position_frame [OF assms(1)]
      keepsD [OF keeps_wf_update_positions [OF assms(3)] assms(2,1)] by simp
qed

lemma unfreeze_effect:
  "unfreeze_funds_sql u n d = (Inr rs, d') \<Longrightarrow> wf_db d \<Longrightarrow> effect k d d' 0 0 0 0"
  "unfreeze_yes_sql u m n d = (Inr ps, d') \<Longrightarrow> wf_db d \<Longrightarrow> effect k d d' 0 0 0 0"
  "unfreeze_no_sql u m n d = (Inr ps, d') \<Longrightarrow> wf_db d \<Longrightarrow> effect k d d' 0 0 0 0"
  unfolding unfreeze_funds_sql_def unfreeze_yes_sql_def unfreeze_no_sql_def
  by (erule update_account_effect0 update_position_effect0; simp add: acc_funds_def pos_key_def)+

lemma keeps_wf_unfreeze [pres_intros]:
  "keeps wf_db (unfreeze_funds_sql u n)" "keeps wf_db (unfreeze_yes_sql u m n)"
  "keeps wf_db (unfreeze_no_sql u m n)"
  unfolding unfreeze_funds_sql_def unfreeze_yes_sql_def unfreeze_no_sql_def
  by (rule pres_intros; simp add: pos_key_def)+

lemma unfreeze_debit_effect:
  "unfreeze_debit_sql u unfreeze refund d = (Inr rows, d') \<Longrightarrow> wf_db d \<Longrightarrow> u \<in> account_ids d \<Longrightarrow>
   effect m d d' (refund - unfreeze) 0 0 0"
  unfolding unfreeze_debit_sql_def by (erule update_account_effect) (simp_all add: acc_funds_def)

lemma add_balance_effect:
  "add_balance_sql u amount d = (Inr rows, d') \<Longrightarrow> wf_db d \<Longrightarrow> u \<in> account_ids d \<Longrightarrow>
   effect m d d' amount 0 0 0"
  unfolding add_balance_sql_def by (erule update_account_effect) (simp_all add: acc_funds_def)

lemma add_yes_volume_effect:
  "add_yes_volume_sql u m qty cost d = (Inr z, d') \<Longrightarrow> wf_db d \<Longrightarrow> effect m d d' 0 qty 0 cost"
  unfolding add_yes_volume_sql_def
  by (erule upsert_position_effect) (simp_all add: pos_key_def empty_position_def)

lemma add_no_volume_effect:
  "add_no_volume_sql u m qty cost d = (Inr z, d') \<Longrightarrow> wf_db d \<Longrightarrow> effect m d d' 0 0 qty cost"
  unfolding add_no_volume_sql_def
  by (erule upsert_position_effect) (simp_all add: pos_key_def empty_position_def)

lemma reduce_yes_volume_effect:
  "reduce_yes_volume_sql u m qty cost d = (Inr rows, d') \<Longrightarrow> wf_db d \<Longrightarrow> posn d u m = Some p \<Longrightarrow>
   effect m d d' 0 (- qty) 0 (- cost)"
  unfolding reduce_yes_volume_sql_def
  by (erule update_position_effect) (simp_all add: pos_key_def posn_in_keys [unfolded pos_key_def])

lemma reduce_no_volume_effect:
  "reduce_no_volume_sql u m qty cost d = (Inr rows, d') \<Longrightarrow> wf_db d \<Longrightarrow> posn d u m = Some p \<Longrightarrow>
   effect m d d' 0 0 (- qty) (- cost)"
  unfolding reduce_no_volume_sql_def
  by (erule update_position_effect) (simp_all add: pos_key_def posn_in_keys [unfolded pos_key_def])

lemma net_position_effect:
  "net_position_sql u m qty yc nc d = (Inr rows, d') \<Longrightarrow> wf_db d \<Longrightarrow> posn d u m = Some p \<Longrightarrow>
   effect m d d' 0 (- qty) (- qty) (- (yc + nc))"
  unfolding net_position_sql_def
  by (erule update_position_effect) (simp_all add: pos_key_def posn_in_keys [unfolded pos_key_def])

section \<open>The four scenarios\<close>

type_synonym pnl_pair = "int option \<times> int option"

definition clear_mint :: "trade_result \<Rightarrow> market_state \<Rightarrow> (db, pnl_pair \<times> market_state) act" where
  "clear_mint trade market =
     (let buyer_cost = tr_price trade * tr_quantity trade;
          seller_cost = (100 - tr_price trade) * tr_quantity trade in
      bind_act (unfreeze_debit_sql (buy_user_id trade) buyer_cost 0) (\<lambda>_.
      bind_act (add_yes_volume_sql (buy_user_id trade) (tr_market_id trade) (tr_quantity trade) buyer_cost) (\<lambda>_.
      bind_act (unfreeze_debit_sql (sell_user_id trade) seller_cost 0) (\<lambda>_.
      bind_act (add_no_volume_sql (sell_user_id trade) (tr_market_id trade) (tr_quantity trade) seller_cost) (\<lambda>_.
      ret ((None, None),
        market\<lparr>ms_reserve := ms_reserve market + tr_quantity trade * 100,
               ms_yes := ms_yes market + tr_quantity trade,
               ms_no := ms_no market + tr_quantity trade\<rparr>))))))"

definition clear_transfer_yes :: "trade_result \<Rightarrow> market_state \<Rightarrow> (db, pnl_pair \<times> market_state) act" where
  "clear_transfer_yes trade market =
     (let buyer_cost = tr_price trade * tr_quantity trade in
      bind_act (unfreeze_debit_sql (buy_user_id trade) buyer_cost 0) (\<lambda>_.
      bind_act (add_yes_volume_sql (buy_user_id trade) (tr_market_id trade) (tr_quantity trade) buyer_cost) (\<lambda>_.
      bind_act (reads (\<lambda>d. posn d (sell_user_id trade) (tr_market_id trade))) (\<lambda>row.
      case row of
        None \<Rightarrow> raise (RuntimeError (''Seller position not found: '' @ sell_user_id trade))
      | Some p \<Rightarrow>
          (let cost_released = calc_released_cost (yes_cost_sum p) (yes_volume p) (tr_quantity trade);
               proceeds = tr_price trade * tr_quantity trade in
           bind_act (reduce_yes_volume_sql (sell_user_id trade) (tr_market_id trade)
                       (tr_quantity trade) cost_released) (\<lambda>_.
           bind_act (add_balance_sql (sell_user_id trade) proceeds) (\<lambda>_.
           ret ((None, Some (proceeds - cost_released)),
             market\<lparr>ms_pnl := ms_pnl market - (proceeds - cost_released)\<rparr>))))))))"

definition clear_transfer_no :: "trade_result \<Rightarrow> market_state \<Rightarrow> (db, pnl_pair \<times> market_state) act" where
  "clear_transfer_no trade market =
     (let no_trade_price = 100 - tr_price trade;
          seller_cost = no_trade_price * tr_quantity trade in
      bind_act (unfreeze_debit_sql (sell_user_id trade) seller_cost 0) (\<lambda>_.
      bind_act (add_no_volume_sql (sell_user_id trade) (tr_market_id trade) (tr_quantity trade) seller_cost) (\<lambda>_.
      bind_act (reads (\<lambda>d. posn d (buy_user_id trade) (tr_market_id trade))) (\<lambda>row.
      case row of
        None \<Rightarrow> raise (RuntimeError (''Buyer NO position not found: '' @ buy_user_id trade))
      | Some p \<Rightarrow>
          (let cost_released = calc_released_cost (no_cost_sum p) (no_volume p) (tr_quantity trade);
               proceeds = no_trade_price * tr_quantity trade in
           bind_act (reduce_no_volume_sql (buy_user_id trade) (tr_market_id trade)
                       (tr_quantity trade) cost_released) (\<lambda>_.
           bind_act (add_balance_sql (buy_user_id trade) proceeds) (\<lambda>_.
           ret ((Some (proceeds - cost_released), None),
             market\<lparr>ms_pnl := ms_pnl market - (proceeds - cost_released)\<rparr>))))))))"

definition clear_burn :: "trade_result \<Rightarrow> market_state \<Rightarrow> (db, pnl_pair \<times> market_state) act" where
  "clear_burn trade market =
     bind_act (reads (\<lambda>d. posn d (sell_user_id trade) (tr_market_id trade))) (\<lambda>yes_row.
     case yes_row of
       None \<Rightarrow> raise (RuntimeError (''Sell YES position not found: '' @ sell_user_id trade))
     | Some yp \<Rightarrow>
     (let yes_cost_rel = calc_released_cost (yes_cost_sum yp) (yes_volume yp) (tr_quantity trade);
          yes_proceeds = tr_price trade * tr_quantity trade in
     bind_act (reads (\<lambda>d. posn d (buy_user_id trade) (tr_market_id trade))) (\<lambda>no_row.
     case no_row of
       None \<Rightarrow> raise (RuntimeError (''Sell NO position not found: '' @ buy_user_id trade))
     | Some np \<Rightarrow>
     (let no_cost_rel = calc_released_cost (no_cost_sum np) (no_volume np) (tr_quantity trade);
          no_proceeds = (100 - tr_price trade) * tr_quantity trade in
     bind_act (reduce_yes_volume_sql (sell_user_id trade) (tr_market_id trade)
                 (tr_quantity trade) yes_cost_rel) (\<lambda>_.
     bind_act (add_balance_sql (sell_user_id trade) yes_proceeds) (\<lambda>yes_result.
     bind_act (raise_if (yes_result = [])
                 (RuntimeError (''Account not found for YES seller: '' @ sell_user_id trade))) (\<lambda>_.
     bind_act (reduce_no_volume_sql (buy_user_id trade) (tr_market_id trade)
                 (tr_quantity trade) no_cost_rel) (\<lambda>_.
     bind_act (add_balance_sql (buy_user_id trade) no_proceeds) (\<lambda>no_result.
     bind_act (raise_if (no_result = [])
                 (RuntimeError (''Account not found for NO seller: '' @ buy_user_id trade))) (\<lambda>_.
     ret ((Some (no_proceeds - no_cost_rel), Some (yes_proceeds - yes_cost_rel)),
       market\<lparr>ms_reserve := ms_reserve market - 100 * tr_quantity trade,
              ms_yes := ms_yes market - tr_quantity trade,
              ms_no := ms_no market - tr_quantity trade,
              ms_pnl := ms_pnl market - (yes_proceeds - yes_cost_rel) - (no_proceeds - no_cost_rel)\<rparr>)))))))))))"

definition settle_trade :: "trade_result \<Rightarrow> market_state \<Rightarrow> (db, pnl_pair \<times> market_state) act" where
  "settle_trade trade market =
     (case determine_scenario (buy_book_type trade) (sell_book_type trade) of
        MINT \<Rightarrow> clear_mint trade market
      | TRANSFER_YES \<Rightarrow> clear_transfer_yes trade market
      | TRANSFER_NO \<Rightarrow> clear_transfer_no trade market
      | BURN \<Rightarrow> clear_burn trade market)"

section \<open>Netting\<close>

definition do_netting :: "string \<Rightarrow> string \<Rightarrow> market_state \<Rightarrow> (db, int \<times> market_state) act" where
  "do_netting user_id market_id market =
     (if user_id = AMM_USER_ID then ret (0, market)
      else
        bind_act (reads (\<lambda>d. posn d user_id market_id)) (\<lambda>row.
        case row of
          None \<Rightarrow> ret (0, market)
        | Some p \<Rightarrow>
            (let available_yes = yes_volume p - yes_pending_sell p;
                 available_no = no_volume p - no_pending_sell p;
                 nettable = min available_yes available_no in
             if nettable \<le> 0 then ret (0, market)
             else
               (let yes_cost_rel = calc_released_cost (yes_cost_sum p) (yes_volume p) nettable;
                    no_cost_rel = calc_released_cost (no_cost_sum p) (no_volume p) nettable;
                    refund = nettable * 100 in
                bind_act (net_position_sql user_id market_id nettable yes_cost_rel no_cost_rel) (\<lambda>_.
                bind_act (add_balance_sql user_id refund) (\<lambda>_.
                ret (nettable,
                  market\<lparr>ms_reserve := ms_reserve market - refund,
                         ms_yes := ms_yes market - nettable,
                         ms_no := ms_no market - nettable,
                         ms_pnl := ms_pnl market - (refund - (yes_cost_rel + no_cost_rel))\<rparr>)))))))"

text \<open>No account row reads as \<open>None\<close>, which is not \<open>False\<close>: netting goes ahead.\<close>

definition execute_netting_if_needed :: "string \<Rightarrow> string \<Rightarrow> market_state \<Rightarrow> (db, int \<times> market_state) act" where
  "execute_netting_if_needed user_id market_id market =
     bind_act (reads (\<lambda>d. map_option auto_netting_enabled (acct d user_id))) (\<lambda>auto_netting.
     if auto_netting = Some False then ret (0, market)
     else do_netting user_id market_id market)"

section \<open>The books and the contract of a clearing step\<close>

text \<open>
  The books of a market seen from a database and its market object. The first line is the
  money (accounts and reserve), the second the shares issued but not held, the third what
  the reserve lacks to a hundred cents per share and the two totals' difference, the last
  the accounting identity of the profit-and-loss pool, with the sign the code updates it.
\<close>

definition books :: "string \<Rightarrow> market_state \<Rightarrow> db \<Rightarrow> int list" where
  "books m ms d =
     [funds d + ms_reserve ms,
      yes_held m d - ms_yes ms, no_held m d - ms_no ms,
      ms_reserve ms - 100 * ms_yes ms, ms_yes ms - ms_no ms,
      ms_reserve ms - ms_pnl ms - cost_held m d]"

definition keeps_books :: "string \<Rightarrow> market_state \<Rightarrow> db \<Rightarrow> market_state \<Rightarrow> db \<Rightarrow> bool" where
  "keeps_books m ms d ms' d' \<longleftrightarrow>
     wf_db d' \<and> account_ids d' = account_ids d \<and> markets d' = markets d \<and> orders d' = orders d \<and>
     books m ms' d' = books m ms d \<and>
     ms_id ms' = ms_id ms \<and> ms_fee_bps ms' = ms_fee_bps ms \<and> ms_status ms' = ms_status ms"

lemma keeps_books_trans:
  "keeps_books m ms d ms1 d1 \<Longrightarrow> keeps_books m ms1 d1 ms2 d2 \<Longrightarrow> keeps_books m ms d ms2 d2"
  by (simp add: keeps_books_def)

lemma keeps_books_refl: "wf_db d \<Longrightarrow> keeps_books m ms d ms d"
  by (simp add: keeps_books_def)

lemma effect_keeps_books:
  assumes "effect m d d' f y n c"
    and "ms_reserve ms' = ms_reserve ms - f" "ms_yes ms' = ms_yes ms + y" "ms_no ms' = ms_no ms + n"
    and "- f = 100 * y" "y = n" "ms_pnl ms' = ms_pnl ms - f - c"
    and "ms_id ms' = ms_id ms" "ms_fee_bps ms' = ms_fee_bps ms" "ms_status ms' = ms_status ms"
  shows "keeps_books m ms d ms' d'"
  using assms by (simp add: effect_def keeps_books_def books_def)

lemmas effect_chain = effect_trans [OF effect_trans [OF effect_trans]]

lemma clear_mint_books:
  assumes run: "clear_mint t ms d = (Inr (x, ms'), d')" and wf: "wf_db d"
    and users: "buy_user_id t \<in> account_ids d" "sell_user_id t \<in> account_ids d"
  shows "keeps_books (tr_market_id t) ms d ms' d'"
proof -
  let ?q = "tr_quantity t" and ?b = "tr_price t * tr_quantity t" and ?s = "(100 - tr_price t) * tr_quantity t"
  let ?m = "tr_market_id t"
  from run obtain r1 d1 z2 d2 r3 d3 z4 where
    s1: "unfreeze_debit_sql (buy_user_id t) ?b 0 d = (Inr r1, d1)" and
    s2: "add_yes_volume_sql (buy_user_id t) ?m ?q ?b d1 = (Inr z2, d2)" and
    s3: "unfreeze_debit_sql (sell_user_id t) ?s 0 d2 = (Inr r3, d3)" and
    s4: "add_no_volume_sql (sell_user_id t) ?m ?q ?s d3 = (Inr z4, d')" and
    ms': "ms' = ms\<lparr>ms_reserve := ms_reserve ms + ?q * 100, ms_yes := ms_yes ms + ?q, ms_no := ms_no ms + ?q\<rparr>"
    by (auto simp: clear_mint_def ok_simps Let_def)
  note e1 = unfreeze_debit_effect [OF s1 wf users(1), of ?m]
  note e2 = add_yes_volume_effect [OF s2 effect_wf [OF e1, THEN conjunct1]]
  have u3: "sell_user_id t \<in> account_ids d2" using users(2) effect_wf [OF e1] effect_wf [OF e2] by simp
  note e3 = unfreeze_debit_effect [OF s3 effect_wf [OF e2, THEN conjunct1] u3, of ?m]
  note e4 = add_no_volume_effect [OF s4 effect_wf [OF e3, THEN conjunct1]]
  show ?thesis
    by (rule effect_keeps_books [OF effect_chain [OF e1 e2 e3 e4]]) (simp_all add: ms' algebra_simps)
qed

lemma clear_transfer_yes_books:
  assumes run: "clear_transfer_yes t ms d = (Inr (x, ms'), d')" and wf: "wf_db d"
    and users: "buy_user_id t \<in> account_ids d" "sell_user_id t \<in> account_ids d"
  shows "keeps_books (tr_market_id t) ms d ms' d'"
proof -
  let ?q = "tr_quantity t" and ?b = "tr_price t * tr_quantity t" and ?m = "tr_market_id t"
  from run obtain r1 d1 z2 d2 p r3 d3 r4 where
    s1: "unfreeze_debit_sql (buy_user_id t) ?b 0 d = (Inr r1, d1)" and
    s2: "add_yes_volume_sql (buy_user_id t) ?m ?q ?b d1 = (Inr z2, d2)" and
    row: "posn d2 (sell_user_id t) ?m = Some p" and
    s3: "reduce_yes_volume_sql (sell_user_id t) ?m ?q
           (calc_released_cost (yes_cost_sum p) (yes_volume p) ?q) d2 = (Inr r3, d3)" and
    s4: "add_balance_sql (sell_user_id t) ?b d3 = (Inr r4, d')" and
    ms': "ms' = ms\<lparr>ms_pnl := ms_pnl ms - (?b - calc_released_cost (yes_cost_sum p) (yes_volume p) ?q)\<rparr>"
    by (auto simp: clear_transfer_yes_def ok_simps Let_def split: option.splits)
  note e1 = unfreeze_debit_effect [OF s1 wf users(1), of ?m]
  note e2 = add_yes_volume_effect [OF s2 effect_wf [OF e1, THEN conjunct1]]
  note e3 = reduce_yes_volume_effect [OF s3 effect_wf [OF e2, THEN conjunct1] row]
  have u4: "sell_user_id t \<in> account_ids d3"
    using users(2) effect_wf [OF e1] effect_wf [OF e2] effect_wf [OF e3] by simp
  note e4 = add_balance_effect [OF s4 effect_wf [OF e3, THEN conjunct1] u4, of ?m]
  show ?thesis
    by (rule effect_keeps_books [OF effect_chain [OF e1 e2 e3 e4]]) (simp_all add: ms')
qed

lemma clear_transfer_no_books:
  assumes run: "clear_transfer_no t ms d = (Inr (x, ms'), d')" and wf: "wf_db d"
    and users: "buy_user_id t \<in> account_ids d" "sell_user_id t \<in> account_ids d"
  shows "keeps_books (tr_market_id t) ms d ms' d'"
proof -
  let ?q = "tr_quantity t" and ?s = "(100 - tr_price t) * tr_quantity t" and ?m = "tr_market_id t"
  from run obtain r1 d1 z2 d2 p r3 d3 r4 where
    s1: "unfreeze_debit_sql (sell_user_id t) ?s 0 d = (Inr r1, d1)" and
    s2: "add_no_volume_sql (sell_user_id t) ?m ?q ?s d1 = (Inr z2, d2)" and
    row: "posn d2 (buy_user_id t) ?m = Some p" and
    s3: "reduce_no_volume_sql (buy_user_id t) ?m ?q
           (calc_released_cost (no_cost_sum p) (no_volume p) ?q) d2 = (Inr r3, d3)" and
    s4: "add_balance_sql (buy_user_id t) ?s d3 = (Inr r4, d')" and
    ms': "ms' = ms\<lparr>ms_pnl := ms_pnl ms - (?s - calc_released_cost (no_cost_sum p) (no_volume p) ?q)\<rparr>"
    by (auto simp: clear_transfer_no_def ok_simps Let_def split: option.splits)
  note e1 = unfreeze_debit_effect [OF s1 wf users(2), of ?m]
  note e2 = add_no_volume_effect [OF s2 effect_wf [OF e1, THEN conjunct1]]
  note e3 = reduce_no_volume_effect [OF s3 effect_wf [OF e2, THEN conjunct1] row]
  have u4: "buy_user_id t \<in> account_ids d3"
    using users(1) effect_wf [OF e1] effect_wf [OF e2] effect_wf [OF e3] by simp
  note e4 = add_balance_effect [OF s4 effect_wf [OF e3, THEN conjunct1] u4, of ?m]
  show ?thesis
    by (rule effect_keeps_books [OF effect_chain [OF e1 e2 e3 e4]]) (simp_all add: ms')
qed

lemma posn_unchanged: "positions d' = positions d \<Longrightarrow> posn d' u m = posn d u m"
  by (simp add: posn_def)

text \<open>The second position of a burn was read before the first was reduced; its row is still there.\<close>

lemma posn_still_there:
  assumes "update_position u m f d = (Inr rs, d')" and "\<And>p. pos_key (f p) = pos_key p"
    and "posn d v n = Some p"
  shows "\<exists>p'. posn d' v n = Some p'"
  using posn_update_position [OF assms(1,2), of v n] assms(3) by auto

lemma clear_burn_books:
  assumes run: "clear_burn t ms d = (Inr (x, ms'), d')" and wf: "wf_db d"
    and users: "buy_user_id t \<in> account_ids d" "sell_user_id t \<in> account_ids d"
  shows "keeps_books (tr_market_id t) ms d ms' d'"
proof -
  let ?q = "tr_quantity t" and ?m = "tr_market_id t"
  let ?y = "tr_price t * tr_quantity t" and ?n = "(100 - tr_price t) * tr_quantity t"
  from run obtain yp np r1 d1 r2 d2 r3 d3 r4 yr nr where
    rows: "posn d (sell_user_id t) ?m = Some yp" "posn d (buy_user_id t) ?m = Some np" and
    rel: "yr = calc_released_cost (yes_cost_sum yp) (yes_volume yp) ?q"
      "nr = calc_released_cost (no_cost_sum np) (no_volume np) ?q" and
    s1: "reduce_yes_volume_sql (sell_user_id t) ?m ?q yr d = (Inr r1, d1)" and
    s2: "add_balance_sql (sell_user_id t) ?y d1 = (Inr r2, d2)" and
    s3: "reduce_no_volume_sql (buy_user_id t) ?m ?q nr d2 = (Inr r3, d3)" and
    s4: "add_balance_sql (buy_user_id t) ?n d3 = (Inr r4, d')" and
    ms': "ms' = ms\<lparr>ms_reserve := ms_reserve ms - 100 * ?q, ms_yes := ms_yes ms - ?q,
            ms_no := ms_no ms - ?q, ms_pnl := ms_pnl ms - (?y - yr) - (?n - nr)\<rparr>"
    by (auto simp: clear_burn_def ok_simps Let_def split: option.splits)
  note e1 = reduce_yes_volume_effect [OF s1 wf rows(1)]
  have u2: "sell_user_id t \<in> account_ids d1" using users effect_wf [OF e1] by simp
  note e2 = add_balance_effect [OF s2 effect_wf [OF e1, THEN conjunct1] u2, of ?m]
  obtain p' where "posn d1 (buy_user_id t) ?m = Some p'"
    using posn_still_there [OF s1 [unfolded reduce_yes_volume_sql_def] _ rows(2)]
    by (auto simp: pos_key_def)
  moreover have "positions d2 = positions d1"
    using s2 unfolding add_balance_sql_def by (rule update_account_frame) simp
  ultimately have "posn d2 (buy_user_id t) ?m = Some p'" by (simp add: posn_def)
  note e3 = reduce_no_volume_effect [OF s3 effect_wf [OF e2, THEN conjunct1] this]
  have u4: "buy_user_id t \<in> account_ids d3"
    using users effect_wf [OF e1] effect_wf [OF e2] effect_wf [OF e3] by simp
  note e4 = add_balance_effect [OF s4 effect_wf [OF e3, THEN conjunct1] u4, of ?m]
  show ?thesis
    by (rule effect_keeps_books [OF effect_chain [OF e1 e2 e3 e4]]) (simp_all add: ms' algebra_simps)
qed

lemma settle_trade_books:
  assumes "settle_trade t ms d = (Inr (x, ms'), d')" and "wf_db d"
    and "buy_user_id t \<in> account_ids d" and "sell_user_id t \<in> account_ids d"
  shows "keeps_books (tr_market_id t) ms d ms' d'"
  using assms
  by (cases "determine_scenario (buy_book_type t) (sell_book_type t)")
     (auto simp: settle_trade_def intro: clear_mint_books clear_transfer_yes_books
       clear_transfer_no_books clear_burn_books)

lemma do_netting_runs:
  assumes "do_netting u m ms d = (Inr (n, ms'), d')"
  shows "n = 0 \<and> ms' = ms \<and> d' = d \<or>
    (\<exists>p r1 d1 r2 yr nr. u \<noteq> AMM_USER_ID \<and> posn d u m = Some p \<and>
       n = min (yes_volume p - yes_pending_sell p) (no_volume p - no_pending_sell p) \<and> 0 < n \<and>
       net_position_sql u m n yr nr d = (Inr r1, d1) \<and>
       add_balance_sql u (n * 100) d1 = (Inr r2, d') \<and>
       ms' = ms\<lparr>ms_reserve := ms_reserve ms - n * 100, ms_yes := ms_yes ms - n,
         ms_no := ms_no ms - n, ms_pnl := ms_pnl ms - (n * 100 - (yr + nr))\<rparr>)"
proof (cases "u = AMM_USER_ID \<or> posn d u m = None")
  case True
  then show ?thesis using assms by (cases "u = AMM_USER_ID") (auto simp: do_netting_def bind_act_def)
next
  case False
  then obtain p where p: "u \<noteq> AMM_USER_ID" "posn d u m = Some p" by auto
  define N where "N = min (yes_volume p - yes_pending_sell p) (no_volume p - no_pending_sell p)"
  show ?thesis
  proof (cases "N \<le> 0")
    case True
    then show ?thesis using assms p by (simp add: do_netting_def bind_act_def flip: N_def)
  next
    case False
    define yr nr where "yr = calc_released_cost (yes_cost_sum p) (yes_volume p) N"
      and "nr = calc_released_cost (no_cost_sum p) (no_volume p) N"
    from assms p False obtain r1 d1 r2 where
      "net_position_sql u m N yr nr d = (Inr r1, d1)" "add_balance_sql u (N * 100) d1 = (Inr r2, d')"
      "n = N" "ms' = ms\<lparr>ms_reserve := ms_reserve ms - N * 100, ms_yes := ms_yes ms - N,
         ms_no := ms_no ms - N, ms_pnl := ms_pnl ms - (N * 100 - (yr + nr))\<rparr>"
      by (auto simp: do_netting_def ok_simps Let_def simp flip: N_def yr_def nr_def)
    with p False show ?thesis unfolding N_def by (intro disjI2) (metis linorder_not_le)
  qed
qed

lemma do_netting_books:
  assumes run: "do_netting u m ms d = (Inr (n, ms'), d')" and wf: "wf_db d" and u: "u \<in> account_ids d"
  shows "keeps_books m ms d ms' d'"
proof (cases "n = 0 \<and> ms' = ms \<and> d' = d")
  case True
  then show ?thesis using wf by (simp add: keeps_books_refl)
next
  case False
  with do_netting_runs [OF run] obtain p r1 d1 r2 yr nr where
    row: "posn d u m = Some p" and
    s1: "net_position_sql u m n yr nr d = (Inr r1, d1)" and
    s2: "add_balance_sql u (n * 100) d1 = (Inr r2, d')" and
    ms': "ms' = ms\<lparr>ms_reserve := ms_reserve ms - n * 100, ms_yes := ms_yes ms - n,
            ms_no := ms_no ms - n, ms_pnl := ms_pnl ms - (n * 100 - (yr + nr))\<rparr>" by blast
  note e1 = net_position_effect [OF s1 wf row]
  have u2: "u \<in> account_ids d1" using u effect_wf [OF e1] by simp
  note e2 = add_balance_effect [OF s2 effect_wf [OF e1, THEN conjunct1] u2, of m]
  show ?thesis
    by (rule effect_keeps_books [OF effect_trans [OF e1 e2]]) (simp_all add: ms')
qed

lemma execute_netting_books:
  assumes "execute_netting_if_needed u m ms d = (Inr (n, ms'), d')" and "wf_db d" and "u \<in> account_ids d"
  shows "keeps_books m ms d ms' d'"
  using assms do_netting_books
  by (auto simp: execute_netting_if_needed_def ok_simps keeps_books_refl split: if_splits)

text \<open>
  The interface of a clearing step: what it acts on, the users whose accounts it needs, and
  the market whose books it keeps. A client may run any number of steps.
\<close>

locale clearing_contract =
  fixes step :: "'x \<Rightarrow> market_state \<Rightarrow> (db, 'r \<times> market_state) act"
    and users_of :: "'x \<Rightarrow> string set" and market_of :: "'x \<Rightarrow> string"
  assumes step_law: "step x ms d = (Inr (r, ms'), d') \<Longrightarrow> wf_db d \<Longrightarrow> users_of x \<subseteq> account_ids d \<Longrightarrow>
    keeps_books (market_of x) ms d ms' d'"
begin

lemma steps_keep_books:
  assumes "fold_act (\<lambda>x ms. bind_act (step x ms) (\<lambda>r. ret (snd r))) xs ms d = (Inr ms', d')"
    and "wf_db d" and "\<And>x. x \<in> set xs \<Longrightarrow> users_of x \<subseteq> account_ids d \<and> market_of x = m"
  shows "keeps_books m ms d ms' d'"
  using assms
proof (induction xs arbitrary: ms d)
  case Nil
  then show ?case by (simp add: keeps_books_refl)
next
  case (Cons x xs)
  then obtain r ms1 d1 where s1: "step x ms d = (Inr (r, ms1), d1)"
    and rest: "fold_act (\<lambda>x ms. bind_act (step x ms) (\<lambda>r. ret (snd r))) xs ms1 d1 = (Inr ms', d')"
    by (auto simp: ok_simps simp del: ret_run)
  have k1: "keeps_books m ms d ms1 d1"
    using step_law [OF s1 Cons.prems(2)] Cons.prems(3) [of x] by simp
  have "keeps_books m ms1 d1 ms' d'"
    using Cons.IH [OF rest] Cons.prems(3) k1 by (simp add: keeps_books_def)
  with k1 show ?case by (rule keeps_books_trans)
qed

end

text \<open>A market is solvent when its totals are the shares held and a hundred cents back each pair.\<close>

definition solvent :: "string \<Rightarrow> market_state \<Rightarrow> db \<Rightarrow> bool" where
  "solvent m ms d \<longleftrightarrow> yes_held m d = ms_yes ms \<and> no_held m d = ms_no ms \<and>
     ms_yes ms = ms_no ms \<and> ms_reserve ms = 100 * ms_yes ms"

lemma keeps_books_solvent: "keeps_books m ms d ms' d' \<Longrightarrow> solvent m ms d \<Longrightarrow> solvent m ms' d'"
  by (simp add: keeps_books_def books_def solvent_def)

lemma keeps_books_money: "keeps_books m ms d ms' d' \<Longrightarrow> funds d' + ms_reserve ms' = funds d + ms_reserve ms"
  by (simp add: keeps_books_def books_def)

interpretation settle: clearing_contract settle_trade "\<lambda>t. {buy_user_id t, sell_user_id t}" tr_market_id
  by unfold_locales (auto intro: settle_trade_books)

interpretation net: clearing_contract "\<lambda>(u, m). execute_netting_if_needed u m" "\<lambda>(u, m). {u}" snd
  by unfold_locales (auto intro: execute_netting_books)

section \<open>Fees and the trade record\<close>

definition PLATFORM_FEE_USER_ID :: string where
  "PLATFORM_FEE_USER_ID = ''PLATFORM_FEE''"

definition collect_fee_from_frozen :: "string \<Rightarrow> int \<Rightarrow> int \<Rightarrow> (db, unit) act" where
  "collect_fee_from_frozen taker actual_fee max_fee =
     (let refund = max_fee - actual_fee in
      bind_act (update_account taker (\<lambda>a. a\<lparr>frozen_balance := frozen_balance a - actual_fee,
        available_balance := available_balance a + refund, acc_version := acc_version a + 1\<rparr>)) (\<lambda>_.
      bind_act (add_balance_sql PLATFORM_FEE_USER_ID actual_fee) (\<lambda>_. ret ())))"

definition collect_fee_from_proceeds :: "string \<Rightarrow> int \<Rightarrow> (db, unit) act" where
  "collect_fee_from_proceeds taker actual_fee =
     bind_act (update_account taker (\<lambda>a. a\<lparr>available_balance := available_balance a - actual_fee,
       acc_version := acc_version a + 1\<rparr>)) (\<lambda>_.
     bind_act (add_balance_sql PLATFORM_FEE_USER_ID actual_fee) (\<lambda>_. ret ()))"

definition write_trade ::
  "trade_result \<Rightarrow> trade_scenario \<Rightarrow> int \<Rightarrow> int \<Rightarrow> int option \<Rightarrow> int option \<Rightarrow> (db, unit) act" where
  "write_trade trade scenario mfee tfee buy_pnl sell_pnl =
     bind_act generate_id (\<lambda>tid.
     bind_act (reads clock) (\<lambda>now.
     insert_trade \<lparr>trade_id = tid, trow_market_id = tr_market_id trade, trow_scenario = scenario,
       trow_buy_order_id = buy_order_id trade, trow_sell_order_id = sell_order_id trade,
       trow_buy_user_id = buy_user_id trade, trow_sell_user_id = sell_user_id trade,
       trow_buy_book_type = buy_book_type trade, trow_sell_book_type = sell_book_type trade,
       trow_price = tr_price trade, trow_quantity = tr_quantity trade,
       trow_maker_order_id = maker_order_id trade, trow_taker_order_id = taker_order_id trade,
       maker_fee = mfee, taker_fee = tfee,
       buy_realized_pnl = buy_pnl, sell_realized_pnl = sell_pnl, executed_at = now\<rparr>))"

lemma collect_fee_from_frozen_effect:
  assumes "collect_fee_from_frozen u fee mx d = (Inr x, d')" and "wf_db d"
    and "u \<in> account_ids d" and "PLATFORM_FEE_USER_ID \<in> account_ids d"
  shows "effect m d d' (mx - fee) 0 0 0"
proof -
  from assms(1) obtain r1 d1 r2 where
    s1: "update_account u (\<lambda>a. a\<lparr>frozen_balance := frozen_balance a - fee,
        available_balance := available_balance a + (mx - fee), acc_version := acc_version a + 1\<rparr>) d = (Inr r1, d1)"
    and s2: "add_balance_sql PLATFORM_FEE_USER_ID fee d1 = (Inr r2, d')"
    by (auto simp: collect_fee_from_frozen_def ok_simps Let_def)
  have e1: "effect m d d1 (mx - fee - fee) 0 0 0"
    by (rule update_account_effect [OF s1 assms(2,3)]) (simp_all add: acc_funds_def)
  have "PLATFORM_FEE_USER_ID \<in> account_ids d1" using assms(4) effect_wf [OF e1] by simp
  from effect_trans [OF e1 add_balance_effect [OF s2 effect_wf [OF e1, THEN conjunct1] this]]
  show ?thesis by simp
qed

lemma collect_fee_from_proceeds_effect:
  assumes "collect_fee_from_proceeds u fee d = (Inr x, d')" and "wf_db d"
    and "u \<in> account_ids d" and "PLATFORM_FEE_USER_ID \<in> account_ids d"
  shows "effect m d d' 0 0 0 0"
proof -
  from assms(1) obtain r1 d1 r2 where
    s1: "update_account u (\<lambda>a. a\<lparr>available_balance := available_balance a - fee,
        acc_version := acc_version a + 1\<rparr>) d = (Inr r1, d1)"
    and s2: "add_balance_sql PLATFORM_FEE_USER_ID fee d1 = (Inr r2, d')"
    by (auto simp: collect_fee_from_proceeds_def ok_simps)
  have e1: "effect m d d1 (- fee) 0 0 0"
    by (rule update_account_effect [OF s1 assms(2,3)]) (simp_all add: acc_funds_def)
  have "PLATFORM_FEE_USER_ID \<in> account_ids d1" using assms(4) effect_wf [OF e1] by simp
  from effect_trans [OF e1 add_balance_effect [OF s2 effect_wf [OF e1, THEN conjunct1] this]]
  show ?thesis by simp
qed

lemma write_trade_effect:
  assumes "write_trade t sc mf tf bp sp d = (r, d')" and "wf_db d"
  shows "effect m d d' 0 0 0 0"
proof -
  have "keeps wf_db (write_trade t sc mf tf bp sp)"
    unfolding write_trade_def by (intro pres_intros)
  then have "wf_db d'" using assms(2,1) by (rule keepsD)
  then show ?thesis
    using assms(1)
    by (auto simp: write_trade_def bind_act_def generate_id_def sql_insert_def effect_def view_defs
        split: if_splits)
qed

text \<open>Clearing keeps the schema's constraints and leaves the orders alone, whatever it returns.\<close>

lemmas clearing_defs = settle_trade_def clear_mint_def clear_transfer_yes_def clear_transfer_no_def
  clear_burn_def unfreeze_debit_sql_def add_balance_sql_def add_yes_volume_sql_def
  add_no_volume_sql_def reduce_yes_volume_sql_def reduce_no_volume_sql_def Let_def

lemma keeps_case_option: "keeps I a \<Longrightarrow> (\<And>x. keeps I (f x)) \<Longrightarrow> keeps I (case p of None \<Rightarrow> a | Some x \<Rightarrow> f x)"
  by (cases p) simp_all

lemma keeps_wf_settle_trade [pres_intros]: "keeps wf_db (settle_trade t ms)"
  unfolding clearing_defs
  by (cases "determine_scenario (buy_book_type t) (sell_book_type t)")
     (simp_all, (intro pres_intros keeps_case_option; simp add: pos_key_def empty_position_def)+)

lemma keeps_orders_settle_trade [pres_intros]: "keeps (orders_are X) (settle_trade t ms)"
  unfolding clearing_defs
  by (cases "determine_scenario (buy_book_type t) (sell_book_type t)")
     (simp_all, (intro pres_intros keeps_case_option)+)

lemma keeps_wf_netting [pres_intros]: "keeps wf_db (execute_netting_if_needed u m ms)"
  unfolding execute_netting_if_needed_def do_netting_def net_position_sql_def add_balance_sql_def Let_def
  by (intro pres_intros keeps_case_option) (simp_all add: pos_key_def)

lemma keeps_orders_netting [pres_intros]: "keeps (orders_are X) (execute_netting_if_needed u m ms)"
  unfolding execute_netting_if_needed_def do_netting_def net_position_sql_def add_balance_sql_def Let_def
  by (intro pres_intros keeps_case_option)

lemma keeps_wf_fee [pres_intros]:
  "keeps wf_db (collect_fee_from_frozen u a b)" "keeps wf_db (collect_fee_from_proceeds u a)"
  unfolding collect_fee_from_frozen_def collect_fee_from_proceeds_def add_balance_sql_def Let_def
  by (intro pres_intros; simp)+

lemma keeps_orders_fee [pres_intros]:
  "keeps (orders_are X) (collect_fee_from_frozen u a b)" "keeps (orders_are X) (collect_fee_from_proceeds u a)"
  unfolding collect_fee_from_frozen_def collect_fee_from_proceeds_def add_balance_sql_def Let_def
  by (intro pres_intros)+

lemma keeps_wf_write_trade [pres_intros]: "keeps wf_db (write_trade t sc mf tf bp sp)"
  unfolding write_trade_def by (intro pres_intros)

lemma keeps_orders_write_trade [pres_intros]: "keeps (orders_are X) (write_trade t sc mf tf bp sp)"
  unfolding write_trade_def by (intro pres_intros)

lemma keeps_orders_unfreeze [pres_intros]:
  "keeps (orders_are X) (unfreeze_funds_sql u n)" "keeps (orders_are X) (unfreeze_yes_sql u m n)"
  "keeps (orders_are X) (unfreeze_no_sql u m n)"
  unfolding unfreeze_funds_sql_def unfreeze_yes_sql_def unfreeze_no_sql_def by (rule pres_intros)+

section \<open>The check after a trade\<close>

definition verify_invariants_after_trade :: "market_state \<Rightarrow> (db, unit) act" where
  "verify_invariants_after_trade market =
     (let yes = ms_yes market; no = ms_no market; reserve = ms_reserve market; pnl = ms_pnl market in
      bind_act (raise_if (yes \<noteq> no)
        (AssertionError (''INV-1 violated: yes_shares='' @ show_int yes @ '' != no_shares='' @ show_int no))) (\<lambda>_.
      bind_act (raise_if (reserve \<noteq> yes * 100)
        (AssertionError (''INV-2 violated: reserve='' @ show_int reserve @ '' != yes_shares * 100 = '' @
           show_int (yes * 100)))) (\<lambda>_.
      bind_act (reads (cost_held (ms_id market))) (\<lambda>total_cost.
      raise_if (reserve + pnl \<noteq> total_cost)
        (AssertionError (''INV-3 violated: reserve('' @ show_int reserve @ '') + pnl('' @ show_int pnl @
           '') = '' @ show_int (reserve + pnl) @ '' != total_cost_sum='' @ show_int total_cost))))))"

lemma verify_invariants_ok:
  "verify_invariants_after_trade ms d = (Inr u, d') \<longleftrightarrow>
     d' = d \<and> ms_yes ms = ms_no ms \<and> ms_reserve ms = 100 * ms_yes ms \<and>
     ms_reserve ms + ms_pnl ms = cost_held (ms_id ms) d"
  by (auto simp: verify_invariants_after_trade_def ok_simps Let_def)

lemma verify_invariants_state: "verify_invariants_after_trade ms d = (r, d') \<Longrightarrow> d' = d"
  by (auto simp: verify_invariants_after_trade_def act_simps Let_def split: if_splits)

section \<open>Properties\<close>

definition sample_ms :: market_state where
  "sample_ms = MarketState sample_market"

lemma sample_users:
  "{buy_user_id t, sell_user_id t} \<subseteq> account_ids frozen_db" if "t = mint_trade \<or> t = transfer_trade"
  using that by (auto simp: mint_trade_def transfer_trade_def sample_trade_def frozen_db_def
      account_ids_def sample_account_def)

lemma sample_users_each:
  "buy_user_id transfer_trade \<in> account_ids frozen_db" "sell_user_id transfer_trade \<in> account_ids frozen_db"
  using sample_users by auto

definition transfer_ms :: market_state where
  "transfer_ms = sample_ms\<lparr>ms_pnl := - 50\<rparr>"

lemma sample_transfer:
  "settle_trade transfer_trade sample_ms frozen_db =
     (Inr ((None, Some 50), transfer_ms), snd (settle_trade transfer_trade sample_ms frozen_db))"
  by (rule run_of_fst) code_simp

lemma realized_pnl:
  assumes "settle_trade t ms d = (Inr ((bp, sp), ms'), d')"
  shows "ms_pnl ms' = ms_pnl ms - (case bp of None \<Rightarrow> 0 | Some v \<Rightarrow> v) - (case sp of None \<Rightarrow> 0 | Some v \<Rightarrow> v)"
  using assms
  by (auto simp: settle_trade_def clear_mint_def clear_transfer_yes_def clear_transfer_no_def
      clear_burn_def ok_simps Let_def split: trade_scenario.splits option.splits)

lemma books_eq_iff:
  "books m ms' d' = books m ms d \<longleftrightarrow>
     funds d' + ms_reserve ms' = funds d + ms_reserve ms \<and>
     yes_held m d' - ms_yes ms' = yes_held m d - ms_yes ms \<and>
     no_held m d' - ms_no ms' = no_held m d - ms_no ms \<and>
     ms_reserve ms' - 100 * ms_yes ms' = ms_reserve ms - 100 * ms_yes ms \<and>
     ms_yes ms' - ms_no ms' = ms_yes ms - ms_no ms \<and>
     ms_reserve ms' - ms_pnl ms' - cost_held m d' = ms_reserve ms - ms_pnl ms - cost_held m d"
  by (simp add: books_def)

text \<open>Claim C5. Clearing a trade in any of the four scenarios makes and loses no money (accounts and
  reserve together), moves the market's totals exactly with the shares held, keeps a hundred
  cents in the reserve per new pair, and keeps the schema's constraints.\<close>

theorem settle_trade_keeps_the_books:
  assumes "settle_trade t ms d = (Inr (x, ms'), d')" and "wf_db d"
    and "buy_user_id t \<in> account_ids d" and "sell_user_id t \<in> account_ids d"
  shows "funds d' + ms_reserve ms' = funds d + ms_reserve ms \<and>
    yes_held (tr_market_id t) d' - yes_held (tr_market_id t) d = ms_yes ms' - ms_yes ms \<and>
    no_held (tr_market_id t) d' - no_held (tr_market_id t) d = ms_no ms' - ms_no ms \<and>
    ms_reserve ms' - ms_reserve ms = 100 * (ms_yes ms' - ms_yes ms) \<and>
    ms_yes ms' - ms_yes ms = ms_no ms' - ms_no ms \<and> wf_db d'"
  using settle_trade_books [OF assms] by (auto simp: keeps_books_def books_eq_iff)

theorem settle_trade_keeps_the_books_witness:
  "funds (snd (settle_trade transfer_trade sample_ms frozen_db)) = funds frozen_db"
  using settle_trade_keeps_the_books [OF sample_transfer frozen_db_wf sample_users_each]
  by (simp add: transfer_ms_def)

text \<open>Any sequence of trades of a market keeps it solvent: the totals are the shares held
  and the reserve backs every pair.\<close>

theorem settle_trades_solvent:
  assumes "fold_act (\<lambda>t ms. bind_act (settle_trade t ms) (\<lambda>r. ret (snd r))) ts ms d = (Inr ms', d')"
    and "wf_db d" and "solvent m ms d"
    and "\<And>t. t \<in> set ts \<Longrightarrow> {buy_user_id t, sell_user_id t} \<subseteq> account_ids d \<and> tr_market_id t = m"
  shows "solvent m ms' d' \<and> funds d' + ms_reserve ms' = funds d + ms_reserve ms"
  using settle.steps_keep_books [OF assms(1,2,4)] keeps_books_solvent [OF _ assms(3)] keeps_books_money
  by blast

definition sample_trades_ms :: market_state where
  "sample_trades_ms = sample_ms\<lparr>ms_reserve := 1500, ms_yes := 15, ms_no := 15, ms_pnl := - 50\<rparr>"

theorem settle_trades_solvent_witness:
  "solvent ''M'' sample_trades_ms
     (snd (fold_act (\<lambda>t ms. bind_act (settle_trade t ms) (\<lambda>r. ret (snd r)))
       [transfer_trade, mint_trade] sample_ms frozen_db))"
proof -
  let ?run = "fold_act (\<lambda>t ms. bind_act (settle_trade t ms) (\<lambda>r. ret (snd r)))
       [transfer_trade, mint_trade] sample_ms"
  have run: "?run frozen_db = (Inr sample_trades_ms, snd (?run frozen_db))"
    by (rule run_of_fst) code_simp
  have "solvent ''M'' sample_ms frozen_db" by code_simp
  moreover have "tr_market_id transfer_trade = ''M''" "tr_market_id mint_trade = ''M''" by code_simp+
  ultimately show ?thesis
    using settle_trades_solvent [OF run frozen_db_wf] sample_users by auto
qed

text \<open>Claim C29. The check after a trade and the way the scenarios book profit disagree in sign: when the
  check passed before a trade, it passes after it exactly if the trade realised no profit or
  loss at all.\<close>

theorem verify_after_trade_iff_no_pnl:
  assumes "settle_trade t ms d = (Inr ((bp, sp), ms'), d')" and "wf_db d"
    and "buy_user_id t \<in> account_ids d" and "sell_user_id t \<in> account_ids d"
    and "tr_market_id t = ms_id ms" and "verify_invariants_after_trade ms d = (Inr (), d)"
  shows "verify_invariants_after_trade ms' d' = (Inr (), d') \<longleftrightarrow>
    (case bp of None \<Rightarrow> 0 | Some v \<Rightarrow> v) + (case sp of None \<Rightarrow> 0 | Some v \<Rightarrow> v) = 0"
  using settle_trade_books [OF assms(1-4)] realized_pnl [OF assms(1)] assms(5,6)
  by (auto simp: verify_invariants_ok keeps_books_def books_eq_iff)

theorem verify_after_trade_iff_no_pnl_witness:
  "verify_invariants_after_trade sample_ms frozen_db = (Inr (), frozen_db) \<and>
   verify_invariants_after_trade transfer_ms (snd (settle_trade transfer_trade sample_ms frozen_db)) \<noteq>
     (Inr (), snd (settle_trade transfer_trade sample_ms frozen_db))"
proof -
  have before: "verify_invariants_after_trade sample_ms frozen_db = (Inr (), frozen_db)"
  proof -
    have "ms_yes sample_ms = ms_no sample_ms \<and> ms_reserve sample_ms = 100 * ms_yes sample_ms \<and>
        ms_reserve sample_ms + ms_pnl sample_ms = cost_held (ms_id sample_ms) frozen_db" by code_simp
    then show ?thesis by (simp add: verify_invariants_ok)
  qed
  have "tr_market_id transfer_trade = ms_id sample_ms" by code_simp
  from verify_after_trade_iff_no_pnl [OF sample_transfer frozen_db_wf sample_users_each this before] before
  show ?thesis by simp
qed

text \<open>Netting leaves nothing to net: a second run at once nets nothing and changes nothing.\<close>

theorem netting_idempotent:
  assumes "do_netting u m ms d = (Inr (n, ms'), d')"
  shows "0 \<le> n \<and> do_netting u m ms' d' = (Inr (0, ms'), d')"
proof (cases "n = 0 \<and> ms' = ms \<and> d' = d")
  case True
  then show ?thesis using assms by simp
next
  case False
  with do_netting_runs [OF assms] obtain p r1 d1 r2 yr nr where
    u: "u \<noteq> AMM_USER_ID" and row: "posn d u m = Some p" and
    n: "n = min (yes_volume p - yes_pending_sell p) (no_volume p - no_pending_sell p)" "0 < n" and
    s1: "net_position_sql u m n yr nr d = (Inr r1, d1)" and
    s2: "add_balance_sql u (n * 100) d1 = (Inr r2, d')" by blast
  let ?net = "\<lambda>p. p\<lparr>yes_volume := yes_volume p - n, yes_cost_sum := yes_cost_sum p - yr,
       no_volume := no_volume p - n, no_cost_sum := no_cost_sum p - nr\<rparr>"
  have "posn d1 u m = Some (?net p)"
    using posn_update_position [OF s1 [unfolded net_position_sql_def], of u m] row
    by (simp add: pos_key_def)
  moreover have "positions d' = positions d1"
    using s2 unfolding add_balance_sql_def by (rule update_account_frame) simp
  ultimately have "posn d' u m = Some (?net p)" by (simp add: posn_def)
  then show ?thesis using u n by (simp add: do_netting_def bind_act_def min_def split: if_splits)
qed

definition both_sides_db :: db where
  "both_sides_db = sample_db\<lparr>positions :=
     [\<lparr>pos_user_id = ''alice'', pos_market_id = ''M'', yes_volume = 10, yes_cost_sum = 400,
       yes_pending_sell = 3, no_volume = 10, no_cost_sum = 600, no_pending_sell = 1\<rparr>]\<rparr>"

theorem netting_idempotent_witness:
  "\<exists>ms' d'. do_netting ''alice'' ''M'' sample_ms both_sides_db = (Inr (7, ms'), d') \<and>
     do_netting ''alice'' ''M'' ms' d' = (Inr (0, ms'), d')"
proof -
  have "fst (do_netting ''alice'' ''M'' sample_ms both_sides_db) =
      Inr (7, sample_ms\<lparr>ms_reserve := 300, ms_yes := 3, ms_no := 3\<rparr>)"
    by code_simp
  then have run: "do_netting ''alice'' ''M'' sample_ms both_sides_db =
      (Inr (7, sample_ms\<lparr>ms_reserve := 300, ms_yes := 3, ms_no := 3\<rparr>),
       snd (do_netting ''alice'' ''M'' sample_ms both_sides_db))" by (rule run_of_fst)
  then show ?thesis using netting_idempotent [OF run] by metis
qed

text \<open>Collecting the taker's fee from frozen funds changes the total of all accounts by the
  buffer less the fee: the refund is credited but never debited, so money is conserved only
  when the fee is the whole buffer.\<close>

theorem fee_from_frozen_changes_total:
  assumes "collect_fee_from_frozen u fee mx d = (Inr x, d')" and "wf_db d"
    and "u \<in> account_ids d" and "PLATFORM_FEE_USER_ID \<in> account_ids d"
  shows "funds d' = funds d + (mx - fee)"
  using collect_fee_from_frozen_effect [OF assms] by (simp add: effect_def)

theorem fee_from_frozen_changes_total_witness:
  "funds (snd (collect_fee_from_frozen ''alice'' 3 5 frozen_db)) = funds frozen_db + 2"
proof -
  have "fst (collect_fee_from_frozen ''alice'' 3 5 frozen_db) = Inr ()" by code_simp
  then have run: "collect_fee_from_frozen ''alice'' 3 5 frozen_db =
      (Inr (), snd (collect_fee_from_frozen ''alice'' 3 5 frozen_db))" by (rule run_of_fst)
  have "''alice'' \<in> account_ids frozen_db" "PLATFORM_FEE_USER_ID \<in> account_ids frozen_db"
    by (auto simp: frozen_db_def account_ids_def sample_account_def PLATFORM_FEE_USER_ID_def)
  from fee_from_frozen_changes_total [OF run frozen_db_wf this] show ?thesis by simp
qed

end
