(* ===== verification/Settlement.thy ===== *)
theory Settlement
  imports Clearing
begin

text \<open>
  The end of a market: \<open>pm_clearing/domain/settlement.py\<close>, the global check of
  \<open>pm_clearing/domain/global_invariants.py\<close> and the administration service of
  \<open>pm_admin/application/service.py\<close>, which cancels the open orders, pays the winners and
  closes the market in one transaction.
\<close>

section \<open>Settlement\<close>

definition zeroed :: "position \<Rightarrow> position" where
  "zeroed p = p\<lparr>yes_volume := 0, yes_cost_sum := 0, yes_pending_sell := 0,
                 no_volume := 0, no_cost_sum := 0, no_pending_sell := 0\<rparr>"

definition clear_position_sql :: "string \<Rightarrow> string \<Rightarrow> (db, position list) act" where
  "clear_position_sql u m = update_position u m zeroed"

definition settle_market_sql :: "string \<Rightarrow> side \<Rightarrow> int \<Rightarrow> (db, market list) act" where
  "settle_market_sql m outcome now =
     update_markets (\<lambda>r. mkt_id r = m)
       (\<lambda>r. r\<lparr>mkt_status := SETTLED, reserve_balance := 0, pnl_pool := 0, total_yes_shares := 0,
              total_no_shares := 0,
              resolution_result := Some (if outcome = YES then RES_YES else RES_NO),
              settled_at := Some now\<rparr>)"

definition winning_shares :: "side \<Rightarrow> position \<Rightarrow> int" where
  "winning_shares outcome p = (if outcome = YES then yes_volume p else no_volume p)"

definition pay_position :: "string \<Rightarrow> side \<Rightarrow> position \<Rightarrow> (db, unit) act" where
  "pay_position market_id outcome p =
     bind_act (when_act (0 < winning_shares outcome p)
         (bind_act (add_balance_sql (pos_user_id p) (winning_shares outcome p * 100)) (\<lambda>_. ret ()))) (\<lambda>_.
     bind_act (clear_position_sql (pos_user_id p) market_id) (\<lambda>_. ret ()))"

definition settle_market :: "string \<Rightarrow> side \<Rightarrow> (db, unit) act" where
  "settle_market market_id outcome =
     bind_act (reads (\<lambda>d. filter (\<lambda>p. pos_market_id p = market_id) (positions d))) (\<lambda>rows.
     bind_act (fold_act (\<lambda>p _. pay_position market_id outcome p) rows ()) (\<lambda>_.
     bind_act (reads clock) (\<lambda>now.
     bind_act (settle_market_sql market_id outcome now) (\<lambda>_. ret ()))))"

text \<open>Paying one position.\<close>

lemma keeps_wf_pay_position [pres_intros]: "keeps wf_db (pay_position m oc p)"
  unfolding pay_position_def add_balance_sql_def clear_position_sql_def
  by (intro pres_intros) (simp_all add: zeroed_def pos_key_def)

lemma pay_position_effect:
  assumes run: "pay_position m oc p d = (Inr u, d')" and wf: "wf_db d"
    and acc: "pos_user_id p \<in> account_ids d" and pos: "0 \<le> winning_shares oc p"
  shows "wf_db d'" "account_ids d' = account_ids d" "markets d' = markets d" "orders d' = orders d"
    "funds d' = funds d + 100 * winning_shares oc p"
    "positions d' = update_where (\<lambda>q. pos_key q = (pos_user_id p, m)) zeroed (positions d)"
proof -
  obtain d1 r where s1: "(if 0 < winning_shares oc p
      then add_balance_sql (pos_user_id p) (winning_shares oc p * 100) d = (Inr r, d1) else d1 = d)"
    and s2: "\<exists>r2. clear_position_sql (pos_user_id p) m d1 = (Inr r2, d')"
    using run by (cases "0 < winning_shares oc p") (auto simp: pay_position_def ok_simps when_act_run)
  have e1: "effect m d d1 (100 * winning_shares oc p) 0 0 0" and p1: "positions d1 = positions d"
    using s1 add_balance_effect [of "pos_user_id p" "winning_shares oc p * 100" d r d1 m] wf acc pos
      update_account_frame(1) [of "pos_user_id p" _ d r d1]
    by (auto simp: effect_refl add_balance_sql_def mult.commute split: if_splits)
  from s2 obtain r2 where "clear_position_sql (pos_user_id p) m d1 = (Inr r2, d')" by blast
  note f2 = update_position_frame [OF this [unfolded clear_position_sql_def]] and
    s2' = this [unfolded clear_position_sql_def sql_update_ok_iff]
  show "wf_db d'" using keepsD [OF keeps_wf_pay_position wf run] .
  show "account_ids d' = account_ids d" "markets d' = markets d" "orders d' = orders d"
    "funds d' = funds d + 100 * winning_shares oc p"
    using e1 f2 by (simp_all add: effect_def)
  show "positions d' = update_where (\<lambda>q. pos_key q = (pos_user_id p, m)) zeroed (positions d)"
    using s2' p1 by simp
qed

definition zero_users :: "string \<Rightarrow> string set \<Rightarrow> position \<Rightarrow> position" where
  "zero_users m us q = (if pos_market_id q = m \<and> pos_user_id q \<in> us then zeroed q else q)"

lemma zero_users_step:
  "zero_users m us (if pos_key q = (u, m) then zeroed q else q) = zero_users m (insert u us) q"
  by (auto simp: zero_users_def pos_key_def zeroed_def)

text \<open>Paying a list of positions: the sum of their winning shares is paid, their rows are empty.\<close>

lemma pay_positions:
  assumes "fold_act (\<lambda>p _. pay_position m oc p) rows () d = (Inr u, d')" and "wf_db d"
    and "\<And>p. p \<in> set rows \<Longrightarrow> pos_user_id p \<in> account_ids d \<and> 0 \<le> winning_shares oc p"
  shows "wf_db d' \<and> account_ids d' = account_ids d \<and> markets d' = markets d \<and> orders d' = orders d \<and>
    funds d' = funds d + 100 * col_sum (winning_shares oc) rows \<and>
    positions d' = map (zero_users m (pos_user_id ` set rows)) (positions d)"
  using assms
proof (induction rows arbitrary: d)
  case Nil
  then show ?case by (simp add: zero_users_def)
next
  case (Cons p rows)
  then obtain d1 where s1: "pay_position m oc p d = (Inr (), d1)"
    and rest: "fold_act (\<lambda>p _. pay_position m oc p) rows () d1 = (Inr u, d')"
    by (auto simp: ok_simps)
  note one = pay_position_effect [OF s1 Cons.prems(2)]
  have p: "pos_user_id p \<in> account_ids d" "0 \<le> winning_shares oc p" using Cons.prems(3) by simp_all
  have "wf_db d' \<and> account_ids d' = account_ids d1 \<and> markets d' = markets d1 \<and> orders d' = orders d1 \<and>
      funds d' = funds d1 + 100 * col_sum (winning_shares oc) rows \<and>
      positions d' = map (zero_users m (pos_user_id ` set rows)) (positions d1)"
    using Cons.prems(3) by (intro Cons.IH rest one(1) [OF p]) (simp add: one(2) [OF p])
  then show ?case
    using one [OF p] by (simp add: update_where_def comp_def zero_users_step algebra_simps)
qed

text \<open>The positions of one market, as the query of \<open>settle_market\<close> returns them.\<close>

definition market_rows :: "string \<Rightarrow> db \<Rightarrow> position list" where
  "market_rows m d = filter (\<lambda>p. pos_market_id p = m) (positions d)"

lemma col_sum_filter_market:
  "col_sum g (filter (\<lambda>p. pos_market_id p = m) rows) = col_sum (in_market m g) rows"
  by (induction rows) (auto simp: in_market_def)

lemma col_sum_market_rows: "col_sum g (market_rows m d) = col_sum (in_market m g) (positions d)"
  unfolding market_rows_def by (rule col_sum_filter_market)

lemma zero_all_users:
  "map (zero_users m (pos_user_id ` set (market_rows m d))) (positions d) =
   update_where (\<lambda>p. pos_market_id p = m) zeroed (positions d)"
  by (auto simp: update_where_def zero_users_def market_rows_def)

lemma col_sum_zeroed:
  "(\<And>p. g (zeroed p) = 0) \<Longrightarrow>
   col_sum (in_market m g) (update_where (\<lambda>p. pos_market_id p = m) zeroed rows) = 0"
  by (induction rows) (auto simp: in_market_def)

lemma held_zeroed:
  assumes "positions d' = update_where (\<lambda>p. pos_market_id p = m) zeroed (positions d)"
  shows "yes_held m d' = 0 \<and> no_held m d' = 0 \<and> cost_held m d' = 0"
  unfolding yes_held_def no_held_def cost_held_def assms
  by (simp add: col_sum_zeroed zeroed_def)

lemma settle_market_effect:
  assumes run: "settle_market m oc d = (Inr u, d')" and wf: "wf_db d"
    and acc: "\<And>p. p \<in> set (market_rows m d) \<Longrightarrow> pos_user_id p \<in> account_ids d"
  shows "funds d' = funds d + 100 * (if oc = YES then yes_held m d else no_held m d) \<and>
    yes_held m d' = 0 \<and> no_held m d' = 0 \<and> cost_held m d' = 0 \<and>
    account_ids d' = account_ids d \<and> orders d' = orders d \<and>
    markets d' = update_where (\<lambda>r. mkt_id r = m)
      (\<lambda>r. r\<lparr>mkt_status := SETTLED, reserve_balance := 0, pnl_pool := 0, total_yes_shares := 0,
        total_no_shares := 0, resolution_result := Some (if oc = YES then RES_YES else RES_NO),
        settled_at := Some (clock d')\<rparr>) (markets d)"
proof -
  from run obtain d1 r where pay: "fold_act (\<lambda>p _. pay_position m oc p) (market_rows m d) () d = (Inr (), d1)"
    and close: "settle_market_sql m oc (clock d1) d1 = (Inr r, d')"
    by (auto simp: settle_market_def market_rows_def ok_simps)
  have "list_all ck_position (positions d)" using wf by (simp add: wf_db_def)
  then have nonneg: "0 \<le> winning_shares oc p" if "p \<in> set (market_rows m d)" for p
    using that by (auto simp: market_rows_def list_all_iff ck_position_def winning_shares_def)
  have all: "wf_db d1 \<and> account_ids d1 = account_ids d \<and> markets d1 = markets d \<and> orders d1 = orders d \<and>
    funds d1 = funds d + 100 * col_sum (winning_shares oc) (market_rows m d) \<and>
    positions d1 = update_where (\<lambda>p. pos_market_id p = m) zeroed (positions d)"
    using pay_positions [OF pay wf] acc nonneg by (simp add: zero_all_users)
  have sum: "col_sum (winning_shares oc) (market_rows m d) = (if oc = YES then yes_held m d else no_held m d)"
    unfolding col_sum_market_rows yes_held_def no_held_def
    by (auto simp: in_market_def winning_shares_def intro!: col_sum_cong)
  show ?thesis
    using close all sum held_zeroed [of d1 m d]
    by (auto simp: settle_market_sql_def sql_update_ok_iff view_defs)
qed

section \<open>Administration\<close>

fun status_name :: "market_status \<Rightarrow> string" where
  "status_name DRAFT = ''DRAFT''"
| "status_name ACTIVE = ''ACTIVE''"
| "status_name SUSPENDED = ''SUSPENDED''"
| "status_name HALTED = ''HALTED''"
| "status_name RESOLVED = ''RESOLVED''"
| "status_name SETTLED = ''SETTLED''"
| "status_name VOIDED = ''VOIDED''"

definition cancel_resolved_sql :: "string \<Rightarrow> (db, order list) act" where
  "cancel_resolved_sql oid = update_orders (\<lambda>r. ord_id r = oid)
     (\<lambda>r. r\<lparr>ord_status := CANCELLED, cancel_reason := Some ''MARKET_RESOLVED''\<rparr>)"

definition release_order :: "string \<Rightarrow> order \<Rightarrow> (db, unit) act" where
  "release_order market_id o1 =
     bind_act (cancel_resolved_sql (ord_id o1)) (\<lambda>_.
     if frozen_asset_type o1 = FUNDS then
       bind_act (unfreeze_funds_sql (ord_user_id o1) (frozen_amount o1)) (\<lambda>_. ret ())
     else if frozen_asset_type o1 = YES_SHARES then
       bind_act (unfreeze_yes_sql (ord_user_id o1) market_id (remaining_quantity o1)) (\<lambda>_. ret ())
     else
       bind_act (unfreeze_no_sql (ord_user_id o1) market_id (remaining_quantity o1)) (\<lambda>_. ret ()))"

definition open_orders :: "string \<Rightarrow> db \<Rightarrow> order list" where
  "open_orders market_id d = filter (\<lambda>r. ord_market_id r = market_id \<and> is_active r) (orders d)"

text \<open>\<open>commit\<close> on return, \<open>rollback\<close> on every exception.\<close>

definition commit_or_rollback :: "(db, 'a) act \<Rightarrow> (db, 'a) act" where
  "commit_or_rollback m = (\<lambda>d. on_error m (\<lambda>_. rollback_to d) d)"

definition resolve_market :: "string \<Rightarrow> side \<Rightarrow> (db, string \<times> side \<times> int) act" where
  "resolve_market market_id outcome =
     bind_act (reads (\<lambda>d. mkt d market_id)) (\<lambda>row.
     case row of
       None \<Rightarrow> raise (AppError 3001 ''Market not found'' 404)
     | Some m \<Rightarrow>
         if mkt_status m \<notin> {ACTIVE, SUSPENDED} then
           raise (AppError 3002 (''Market cannot be resolved (status='' @ status_name (mkt_status m) @ '')'') 422)
         else commit_or_rollback
           (bind_act (reads (open_orders market_id)) (\<lambda>rows.
            bind_act (fold_act (\<lambda>o1 _. release_order market_id o1) rows ()) (\<lambda>_.
            bind_act (settle_market market_id outcome) (\<lambda>_.
            ret (market_id, outcome, int (length rows)))))))"

record market_stats =
  st_status :: market_status
  st_total_trades :: int
  st_total_volume :: int
  st_total_fees :: int
  st_unique_traders :: int

definition get_market_stats :: "string \<Rightarrow> (db, market_stats) act" where
  "get_market_stats market_id =
     bind_act (reads (\<lambda>d. mkt d market_id)) (\<lambda>row.
     case row of
       None \<Rightarrow> raise (AppError 3001 ''Market not found'' 404)
     | Some m \<Rightarrow>
         bind_act (reads (\<lambda>d. filter (\<lambda>t. trow_market_id t = market_id) (trades d))) (\<lambda>ts.
         ret \<lparr>st_status = mkt_status m, st_total_trades = int (length ts),
              st_total_volume = col_sum trow_quantity ts,
              st_total_fees = col_sum (\<lambda>t. taker_fee t + maker_fee t) ts,
              st_unique_traders = int (card (trow_buy_user_id ` set ts)) +
                int (card (trow_sell_user_id ` set ts))\<rparr>))"

text \<open>The global check: what users and markets hold and the fees against the net deposits.\<close>

definition user_balances :: "db \<Rightarrow> int" where
  "user_balances d =
     col_sum acc_funds (filter (\<lambda>a. acc_user_id a \<notin> {''SYSTEM_RESERVE'', ''PLATFORM_FEE''}) (accounts d))"

definition net_deposits :: "db \<Rightarrow> int" where
  "net_deposits d = col_sum le_amount (filter (\<lambda>e. entry_type e \<in> {DEPOSIT, WITHDRAW}) (ledger_entries d))"

definition verify_global_invariants :: "(db, string list) act" where
  "verify_global_invariants =
     bind_act (reads user_balances) (\<lambda>user_bal.
     bind_act (reads (\<lambda>d. col_sum reserve_balance (markets d))) (\<lambda>market_reserve.
     bind_act (reads (\<lambda>d. acct d ''PLATFORM_FEE'')) (\<lambda>fee_row.
     case fee_row of
       None \<Rightarrow> raise NoResultFound
     | Some a \<Rightarrow>
     (let platform_fee = available_balance a in
     bind_act (reads net_deposits) (\<lambda>net.
     (let total = user_bal + market_reserve + platform_fee in
      ret (if total \<noteq> net then
             [''INV-G violated: user_balances('' @ show_int user_bal @ '') + market_reserves('' @
              show_int market_reserve @ '') + platform_fee('' @ show_int platform_fee @ '') = '' @
              show_int total @ '' != net_deposits='' @ show_int net]
           else [])))))))"

definition market_violation :: "market \<Rightarrow> (db, string list) act" where
  "market_violation row = (\<lambda>d.
     case verify_invariants_after_trade (MarketState row) d of
       (Inl (AssertionError msg), d') \<Rightarrow> (Inr [msg], d')
     | (Inl e, d') \<Rightarrow> (Inl e, d')
     | (Inr _, d') \<Rightarrow> (Inr [], d'))"

definition verify_all_invariants :: "(db, bool \<times> string list) act" where
  "verify_all_invariants =
     bind_act (reads (\<lambda>d. filter (\<lambda>m. mkt_status m = ACTIVE) (markets d))) (\<lambda>rows.
     bind_act (fold_act (\<lambda>row vs. bind_act (market_violation row) (\<lambda>v. ret (vs @ v))) rows []) (\<lambda>vs.
     bind_act verify_global_invariants (\<lambda>gs.
     ret (vs @ gs = [], vs @ gs))))"

section \<open>What administration guarantees\<close>

definition pos_keys :: "db \<Rightarrow> (string \<times> string) set" where
  "pos_keys d = pos_key ` set (positions d)"

lemma unfreeze_keys:
  "unfreeze_funds_sql u n d = (Inr rs, d') \<Longrightarrow> pos_keys d' = pos_keys d"
  "unfreeze_yes_sql u m n d = (Inr ps, d') \<Longrightarrow> pos_keys d' = pos_keys d"
  "unfreeze_no_sql u m n d = (Inr ps, d') \<Longrightarrow> pos_keys d' = pos_keys d"
  by (auto simp: unfreeze_funds_sql_def unfreeze_yes_sql_def unfreeze_no_sql_def sql_update_ok_iff
      pos_keys_def pos_key_def image_update_where)

definition mark_resolved :: "order \<Rightarrow> order" where
  "mark_resolved r = r\<lparr>ord_status := CANCELLED, cancel_reason := Some ''MARKET_RESOLVED''\<rparr>"

lemma release_order_effect:
  assumes run: "release_order m o1 d = (Inr u, d')" and wf: "wf_db d"
  shows "wf_db d'" "account_ids d' = account_ids d" "markets d' = markets d" "funds d' = funds d"
    "yes_held k d' = yes_held k d" "no_held k d' = no_held k d" "pos_keys d' = pos_keys d"
    "orders d' = update_where (\<lambda>r. ord_id r = ord_id o1) mark_resolved (orders d)"
proof -
  from run obtain r1 d1 where s1: "cancel_resolved_sql (ord_id o1) d = (Inr r1, d1)"
    and s2: "(\<exists>rs. unfreeze_funds_sql (ord_user_id o1) (frozen_amount o1) d1 = (Inr rs, d')) \<or>
      (\<exists>ps. unfreeze_yes_sql (ord_user_id o1) m (remaining_quantity o1) d1 = (Inr ps, d')) \<or>
      (\<exists>ps. unfreeze_no_sql (ord_user_id o1) m (remaining_quantity o1) d1 = (Inr ps, d'))"
    by (auto simp: release_order_def ok_simps split: if_splits)
  have "keeps wf_db (cancel_resolved_sql (ord_id o1))"
    unfolding cancel_resolved_sql_def by (rule pres_intros) (simp_all add: ord_client_key_def)
  then have wf1: "wf_db d1" using wf s1 by (rule keepsD)
  have c1: "accounts d1 = accounts d" "positions d1 = positions d" "markets d1 = markets d"
    "orders d1 = update_where (\<lambda>r. ord_id r = ord_id o1) mark_resolved (orders d)"
    using s1 by (auto simp: cancel_resolved_sql_def sql_update_ok_iff mark_resolved_def [abs_def])
  have e2: "effect k d1 d' 0 0 0 0"
    using s2 by (elim disjE exE) (rule unfreeze_effect [OF _ wf1], assumption)+
  have k2: "pos_keys d' = pos_keys d1"
    using s2 by (elim disjE exE) (rule unfreeze_keys, assumption)+
  show "wf_db d'" "account_ids d' = account_ids d" "markets d' = markets d" "funds d' = funds d"
    "yes_held k d' = yes_held k d" "no_held k d' = no_held k d" "pos_keys d' = pos_keys d"
    "orders d' = update_where (\<lambda>r. ord_id r = ord_id o1) mark_resolved (orders d)"
    using e2 k2 c1 by (simp_all add: effect_def view_defs pos_keys_def)
qed

lemma update_where_two:
  assumes "\<And>r. k (f r) = k r" and "\<And>r. f (f r) = f r"
  shows "update_where (\<lambda>r. k r \<in> X) f (update_where (\<lambda>r. k r = x) f rows) =
         update_where (\<lambda>r. k r \<in> insert x X) f rows"
  using assms by (induction rows) auto

lemma release_orders_effect:
  assumes "fold_act (\<lambda>o1 _. release_order m o1) rows () d = (Inr u, d')" and "wf_db d"
  shows "wf_db d' \<and> account_ids d' = account_ids d \<and> markets d' = markets d \<and> funds d' = funds d \<and>
    (\<forall>k. yes_held k d' = yes_held k d \<and> no_held k d' = no_held k d) \<and> pos_keys d' = pos_keys d \<and>
    orders d' = update_where (\<lambda>r. ord_id r \<in> ord_id ` set rows) mark_resolved (orders d)"
  using assms
proof (induction rows arbitrary: d)
  case Nil
  then show ?case by simp
next
  case (Cons o1 rows)
  then obtain d1 where s1: "release_order m o1 d = (Inr (), d1)"
    and rest: "fold_act (\<lambda>o1 _. release_order m o1) rows () d1 = (Inr u, d')"
    by (auto simp: ok_simps)
  note one = release_order_effect [OF s1 Cons.prems(2)]
  have two: "update_where (\<lambda>r. ord_id r \<in> ord_id ` set rows) mark_resolved
      (update_where (\<lambda>r. ord_id r = ord_id o1) mark_resolved (orders d)) =
      update_where (\<lambda>r. ord_id r \<in> insert (ord_id o1) (ord_id ` set rows)) mark_resolved (orders d)"
    by (rule update_where_two) (simp_all add: mark_resolved_def)
  show ?case using Cons.IH [OF rest one(1)] one(2-) two by simp
qed

lemma market_rows_keys: "pos_user_id ` set (market_rows m d) = {u. (u, m) \<in> pos_keys d}"
  by (force simp: market_rows_def pos_keys_def pos_key_def)

text \<open>Open orders of the market before, all of them cancelled after.\<close>

lemma open_orders_resolved:
  assumes "orders d' = update_where (\<lambda>r. ord_id r \<in> ord_id ` set (open_orders m d)) mark_resolved (orders d)"
  shows "open_orders m d' = []"
  using assms
  by (force simp: open_orders_def filter_empty_conv set_update_where is_active_def mark_resolved_def)

lemma commit_or_rollback_ok: "commit_or_rollback m d = (Inr x, d') \<longleftrightarrow> m d = (Inr x, d')"
  by (simp add: commit_or_rollback_def on_error_ok_iff)

lemma commit_or_rollback_error: "commit_or_rollback m d = (Inl e, d') \<Longrightarrow> same_tables d d'"
  by (auto simp: commit_or_rollback_def on_error_def split: prod.splits sum.splits)

lemma resolve_market_runs:
  assumes "resolve_market m oc d = (Inr x, d')"
  obtains row d1 where "mkt d m = Some row" and "mkt_status row \<in> {ACTIVE, SUSPENDED}"
    and "fold_act (\<lambda>o1 _. release_order m o1) (open_orders m d) () d = (Inr (), d1)"
    and "settle_market m oc d1 = (Inr (), d')" and "x = (m, oc, int (length (open_orders m d)))"
  using assms
  by (auto simp: resolve_market_def ok_simps commit_or_rollback_ok split: option.splits if_splits)

section \<open>Properties\<close>

text \<open>Claim C13. Settling a solvent market neither makes nor loses money: the winners receive exactly
  the reserve, a hundred cents a share, whichever side wins, and nothing is left outstanding.\<close>

theorem settle_market_pays_the_reserve:
  assumes "settle_market m oc d = (Inr u, d')" and "wf_db d"
    and "\<And>p. p \<in> set (positions d) \<Longrightarrow> pos_market_id p = m \<Longrightarrow> pos_user_id p \<in> account_ids d"
    and "mkt d m = Some row" and "solvent m (MarketState row) d"
  shows "funds d' = funds d + reserve_balance row \<and>
    yes_held m d' = 0 \<and> no_held m d' = 0 \<and> cost_held m d' = 0 \<and>
    (\<exists>row'. mkt d' m = Some row' \<and> mkt_status row' = SETTLED \<and> reserve_balance row' = 0 \<and>
       total_yes_shares row' = 0 \<and> total_no_shares row' = 0)"
proof -
  have acc: "pos_user_id p \<in> account_ids d" if "p \<in> set (market_rows m d)" for p
    using assms(3) that by (simp add: market_rows_def)
  note all = settle_market_effect [OF assms(1,2) acc]
  have "mkt d' m = map_option (\<lambda>r. r\<lparr>mkt_status := SETTLED, reserve_balance := 0, pnl_pool := 0,
      total_yes_shares := 0, total_no_shares := 0,
      resolution_result := Some (if oc = YES then RES_YES else RES_NO), settled_at := Some (clock d')\<rparr>) (mkt d m)"
    unfolding mkt_def using all by (simp add: lookup_row_update_key)
  then show ?thesis
    using all assms(4,5) by (auto simp: solvent_def MarketState_def)
qed

lemma sample_settle: "settle_market ''M'' YES sample_db = (Inr (), snd (settle_market ''M'' YES sample_db))"
  by (rule run_of_fst) code_simp

lemma sample_position_users:
  "p \<in> set (positions sample_db) \<Longrightarrow> pos_user_id p \<in> account_ids sample_db"
  by (auto simp: sample_db_def account_ids_def sample_account_def)

theorem settle_market_pays_the_reserve_witness:
  "funds (snd (settle_market ''M'' YES sample_db)) = funds sample_db + 1000"
proof -
  have "mkt sample_db ''M'' = Some sample_market" "solvent ''M'' (MarketState sample_market) sample_db"
    by code_simp+
  with settle_market_pays_the_reserve [OF sample_settle sample_db_wf sample_position_users]
  show ?thesis by (simp add: sample_market_def)
qed

text \<open>Claim C24. Resolving a market that succeeds cancels every open order of it, pays every winning
  share a hundred cents and closes the market; it is refused unless the market is active or
  suspended.\<close>

theorem resolve_market_closes:
  assumes "resolve_market m oc d = (Inr x, d')" and "wf_db d"
    and "\<And>u. (u, m) \<in> pos_keys d \<Longrightarrow> u \<in> account_ids d"
  shows "open_orders m d' = [] \<and> x = (m, oc, int (length (open_orders m d))) \<and>
    funds d' = funds d + 100 * (if oc = YES then yes_held m d else no_held m d) \<and>
    yes_held m d' = 0 \<and> no_held m d' = 0 \<and>
    (\<exists>row row'. mkt d m = Some row \<and> mkt_status row \<in> {ACTIVE, SUSPENDED} \<and>
       mkt d' m = Some row' \<and> mkt_status row' = SETTLED \<and> reserve_balance row' = 0)"
proof -
  obtain row d1 where row: "mkt d m = Some row" "mkt_status row \<in> {ACTIVE, SUSPENDED}"
    and rel: "fold_act (\<lambda>o1 _. release_order m o1) (open_orders m d) () d = (Inr (), d1)"
    and settle: "settle_market m oc d1 = (Inr (), d')" and x: "x = (m, oc, int (length (open_orders m d)))"
    using resolve_market_runs [OF assms(1)] by blast
  note one = release_orders_effect [OF rel assms(2)]
  have acc: "pos_user_id p \<in> account_ids d1" if "p \<in> set (market_rows m d1)" for p
    using that one assms(3) market_rows_keys [of m d1] by (metis (mono_tags) image_eqI mem_Collect_eq)
  note two = settle_market_effect [OF settle _ acc]
  have "mkt d' m = map_option (\<lambda>r. r\<lparr>mkt_status := SETTLED, reserve_balance := 0, pnl_pool := 0,
      total_yes_shares := 0, total_no_shares := 0,
      resolution_result := Some (if oc = YES then RES_YES else RES_NO), settled_at := Some (clock d')\<rparr>) (mkt d m)"
    unfolding mkt_def using one two by (simp add: lookup_row_update_key)
  moreover have "open_orders m d' = []"
    using one two by (intro open_orders_resolved) simp
  ultimately show ?thesis
    using one two row x by auto
qed

lemma sample_resolve:
  "resolve_market ''M'' YES sample_db = (Inr (''M'', YES, 1), snd (resolve_market ''M'' YES sample_db))"
  by (rule run_of_fst) code_simp

theorem resolve_market_closes_witness:
  "open_orders ''M'' (snd (resolve_market ''M'' YES sample_db)) = [] \<and>
   funds (snd (resolve_market ''M'' YES sample_db)) = funds sample_db + 1000"
proof -
  have "u \<in> account_ids sample_db" if "(u, ''M'') \<in> pos_keys sample_db" for u
    using that sample_position_users by (auto simp: pos_keys_def pos_key_def)
  moreover have "yes_held ''M'' sample_db = 10" by code_simp
  ultimately show ?thesis
    using resolve_market_closes [OF sample_resolve sample_db_wf] by simp
qed

text \<open>Resolving a market that fails at any point leaves every table as it was.\<close>

theorem resolve_market_atomic:
  assumes "resolve_market m oc d = (Inl e, d')"
  shows "same_tables d d'"
proof (cases "mkt d m")
  case None
  then show ?thesis using assms by (simp add: resolve_market_def bind_act_def same_tables_def)
next
  case (Some row)
  then show ?thesis
    using assms commit_or_rollback_error
    by (auto simp: resolve_market_def bind_act_def same_tables_def split: if_splits)
qed

definition overfrozen_db :: db where
  "overfrozen_db = sample_db\<lparr>orders := [sample_open\<lparr>frozen_amount := 102\<rparr>]\<rparr>"

theorem resolve_market_atomic_witness:
  "same_tables overfrozen_db (snd (resolve_market ''M'' YES overfrozen_db))"
proof -
  have "resolve_market ''M'' YES overfrozen_db =
      (Inl (DBError ''accounts''), snd (resolve_market ''M'' YES overfrozen_db))"
    by (rule run_of_fst) code_simp
  then show ?thesis by (rule resolve_market_atomic)
qed

end
