(* ===== verification/Order_Repo.thy ===== *)
theory Order_Repo
  imports Samples "HOL-Library.List_Lexorder" "HOL-Library.Char_ord"
begin

text \<open>
  Persistence of orders: \<open>OrderRepositoryProtocol\<close> of \<open>pm_order/domain/repository.py\<close> as the
  locale \<open>order_repository\<close>, and its SQL implementation of
  \<open>pm_order/infrastructure/persistence.py\<close>, which is shown to satisfy it. Ids are compared
  character by character, as PostgreSQL compares strings of digits.
\<close>

fun order_status_name :: "order_status \<Rightarrow> string" where
  "order_status_name NEW = ''NEW''"
| "order_status_name OPEN = ''OPEN''"
| "order_status_name PARTIALLY_FILLED = ''PARTIALLY_FILLED''"
| "order_status_name FILLED = ''FILLED''"
| "order_status_name CANCELLED = ''CANCELLED''"
| "order_status_name REJECTED = ''REJECTED''"

fun side_name :: "side \<Rightarrow> string" where
  "side_name YES = ''YES''"
| "side_name NO = ''NO''"

fun direction_name :: "direction \<Rightarrow> string" where
  "direction_name BUY = ''BUY''"
| "direction_name SELL = ''SELL''"
| "direction_name UNSET_DIRECTION = ''''"

section \<open>The SQL repository\<close>

text \<open>\<open>_row_to_order\<close>: every column but \<open>remaining_quantity\<close>, which \<open>__post_init__\<close> computes.\<close>

definition row_to_order :: "order \<Rightarrow> order" where
  "row_to_order row = order_post_init row"

definition new_order_row :: "int \<Rightarrow> order \<Rightarrow> order" where
  "new_order_row now o1 = o1\<lparr>filled_quantity := 0, remaining_quantity := quantity o1,
     cancel_reason := None, ord_created_at := Some now, ord_updated_at := Some now\<rparr>"

definition order_save :: "order \<Rightarrow> (db, unit) act" where
  "order_save o1 = bind_act (reads clock) (\<lambda>now. insert_order (new_order_row now o1))"

definition order_get_by_id :: "string \<Rightarrow> (db, order option) act" where
  "order_get_by_id oid =
     reads (\<lambda>d. map_option row_to_order (lookup_row (\<lambda>r. ord_id r = oid) (orders d)))"

definition order_get_by_client_order_id :: "string \<Rightarrow> string \<Rightarrow> (db, order option) act" where
  "order_get_by_client_order_id coid user_id =
     reads (\<lambda>d. map_option row_to_order
       (lookup_row (\<lambda>r. ord_client_key r = (coid, user_id)) (orders d)))"

definition status_columns :: "order \<Rightarrow> order \<Rightarrow> order" where
  "status_columns o1 r = r\<lparr>ord_status := ord_status o1, filled_quantity := filled_quantity o1,
     remaining_quantity := remaining_quantity o1, frozen_amount := frozen_amount o1\<rparr>"

definition order_update_status :: "order \<Rightarrow> (db, unit) act" where
  "order_update_status o1 =
     bind_act (update_orders (\<lambda>r. ord_id r = ord_id o1) (status_columns o1)) (\<lambda>_. ret ())"

text \<open>\<open>string_to_array(csv, ',')\<close>.\<close>

fun split_comma :: "string \<Rightarrow> string list" where
  "split_comma [] = [[]]"
| "split_comma (c # s) =
     (if c = CHR '','' then [] # split_comma s
      else case split_comma s of [] \<Rightarrow> [[c]] | w # ws \<Rightarrow> (c # w) # ws)"

fun join_comma :: "string list \<Rightarrow> string" where
  "join_comma [] = []"
| "join_comma [s] = s"
| "join_comma (s # ss) = s @ CHR '','' # join_comma ss"

definition order_list_by_user ::
  "string \<Rightarrow> string option \<Rightarrow> string list option \<Rightarrow> string option \<Rightarrow> string option \<Rightarrow> int \<Rightarrow>
   string option \<Rightarrow> (db, order list) act" where
  "order_list_by_user user_id market_id statuses sd dir limit cursor_id =
     (let statuses_csv = (case statuses of None \<Rightarrow> None | Some [] \<Rightarrow> None | Some ss \<Rightarrow> Some (join_comma ss)) in
      reads (\<lambda>d. map row_to_order (take (nat limit) (rev (sort_key ord_id
        (filter (\<lambda>r. ord_user_id r = user_id \<and> opt_eq market_id (ord_market_id r) \<and>
             (case cursor_id of None \<Rightarrow> True | Some c \<Rightarrow> ord_id r < c) \<and>
             (case statuses_csv of None \<Rightarrow> True
              | Some csv \<Rightarrow> order_status_name (ord_status r) \<in> set (split_comma csv)) \<and>
             opt_eq sd (side_name (original_side r)) \<and>
             opt_eq dir (direction_name (original_direction r)))
           (orders d)))))))"

section \<open>The contract\<close>

definition order_view :: "db \<Rightarrow> string \<Rightarrow> order option" where
  "order_view d oid = lookup_row (\<lambda>r. ord_id r = oid) (orders d)"

locale order_repository =
  fixes view :: "'s \<Rightarrow> string \<Rightarrow> order option"
    and inv :: "'s \<Rightarrow> bool"
    and stamp :: "'s \<Rightarrow> order \<Rightarrow> order"
    and save :: "order \<Rightarrow> ('s, unit) act"
    and get :: "string \<Rightarrow> ('s, order option) act"
    and update :: "order \<Rightarrow> ('s, unit) act"
  assumes get_law: "inv s \<Longrightarrow> get oid s = (Inr (view s oid), s)"
    and save_law: "inv s \<Longrightarrow> save o1 s = (Inr u, s') \<Longrightarrow>
      inv s' \<and> view s (ord_id o1) = None \<and> view s' = (view s)(ord_id o1 \<mapsto> stamp s o1)"
    and save_error: "inv s \<Longrightarrow> save o1 s = (Inl e, s') \<Longrightarrow> s' = s"
    and update_law: "inv s \<Longrightarrow> update o1 s = (Inr u, s') \<Longrightarrow>
      inv s' \<and> view s' = (view s)(ord_id o1 := map_option (status_columns o1) (view s (ord_id o1)))"
    and update_error: "inv s \<Longrightarrow> update o1 s = (Inl e, s') \<Longrightarrow> s' = s"
    and view_sound: "inv s \<Longrightarrow> view s oid = Some r \<Longrightarrow>
      ord_id r = oid \<and> filled_quantity r + remaining_quantity r = quantity r \<and> 0 \<le> remaining_quantity r"
begin

lemma save_then_get:
  "inv s \<Longrightarrow> save o1 s = (Inr u, s') \<Longrightarrow> get (ord_id o1) s' = (Inr (Some (stamp s o1)), s')"
  using save_law [of s o1 u s'] get_law [of s' "ord_id o1"] by simp

lemma save_keeps_others:
  "inv s \<Longrightarrow> save o1 s = (Inr u, s') \<Longrightarrow> oid \<noteq> ord_id o1 \<Longrightarrow>
   get oid s' = (Inr (view s oid), s')"
  using save_law [of s o1 u s'] get_law [of s' oid] by simp

text \<open>A save with an id already there fails and changes nothing.\<close>

lemma save_duplicate:
  assumes "inv s" and "view s (ord_id o1) = Some r"
  obtains e where "save o1 s = (Inl e, s)"
proof -
  obtain q s' where run: "save o1 s = (q, s')" by fastforce
  show thesis
  proof (cases q)
    case (Inl e)
    with run save_error [OF assms(1), of o1 e s'] that show thesis by simp
  next
    case (Inr u)
    with run save_law [OF assms(1), of o1 u s'] assms(2) show thesis by simp
  qed
qed

text \<open>Read, change and write back, the pattern of the maker's update.\<close>

lemma get_update_get:
  assumes "inv s" and "view s oid = Some r" and "ord_id (f r) = oid"
    and "bind_act (get oid) (\<lambda>x. case x of None \<Rightarrow> ret () | Some r \<Rightarrow> update (f r)) s = (Inr u, s')"
  shows "inv s' \<and> view s' = (view s)(oid \<mapsto> status_columns (f r) r)"
  using assms update_law [of s "f r" u s'] get_law [of s oid] by (simp add: bind_act_def)

lemma update_twice:
  assumes "inv s" and "update o1 s = (Inr u, s1)" and "update o2 s1 = (Inr u', s2)"
    and "ord_id o2 = ord_id o1"
  shows "view s2 = (view s)(ord_id o1 := map_option (status_columns o2) (view s (ord_id o1)))"
proof -
  have "status_columns o2 (status_columns o1 r) = status_columns o2 r" for r
    by (simp add: status_columns_def)
  then show ?thesis
    using update_law [OF assms(1,2)] update_law [of s1 o2 u' s2] assms(3,4)
    by (cases "view s (ord_id o1)") (auto simp: fun_eq_iff)
qed

end

lemma order_view_ck: "wf_db d \<Longrightarrow> order_view d oid = Some r \<Longrightarrow> ck_order r \<and> ord_id r = oid"
  by (auto simp: order_view_def wf_db_def list_all_iff dest!: lookup_row_SomeD)

lemma row_to_order_ck: "ck_order r \<Longrightarrow> row_to_order r = r"
  by (simp add: row_to_order_def order_post_init_def ck_order_def)

lemma keeps_wf_order_save [pres_intros]: "keeps wf_db (order_save r)"
  unfolding order_save_def by (intro pres_intros)

lemma keeps_wf_order_update [pres_intros]: "keeps wf_db (order_update_status r)"
  unfolding order_update_status_def
  by (intro pres_intros) (simp_all add: status_columns_def ord_client_key_def)

lemma order_save_state:
  "order_save o1 d = (Inr u, d') \<Longrightarrow> d' = d\<lparr>orders := orders d @ [new_order_row (clock d) o1]\<rparr>"
  by (auto simp: order_save_def ok_simps sql_insert_ok_iff)

lemma order_update_state:
  "order_update_status o1 d = (Inr u, d') \<Longrightarrow>
   d' = d\<lparr>orders := update_where (\<lambda>r. ord_id r = ord_id o1) (status_columns o1) (orders d)\<rparr>"
  by (auto simp: order_update_status_def ok_simps sql_update_ok_iff)

interpretation repo: order_repository order_view wf_db "\<lambda>d. new_order_row (clock d)"
  order_save order_get_by_id order_update_status
proof (unfold_locales, goal_cases)
  case (1 d oid)
  then show ?case
    using order_view_ck [of d oid] row_to_order_ck
    by (cases "order_view d oid") (auto simp: order_get_by_id_def order_view_def [symmetric])
next
  case (2 d o1 u d')
  have "wf_db d'" using keepsD [OF keeps_wf_order_save 2] .
  moreover have "\<forall>r \<in> set (orders d). ord_id r \<noteq> ord_id o1"
    using 2(2) by (auto simp: order_save_def ok_simps sql_insert_ok_iff order_clash_def new_order_row_def)
  then have "order_view d (ord_id o1) = None" by (simp add: order_view_def lookup_row_None_iff)
  ultimately show ?case
    using order_save_state [OF 2(2)]
    by (auto simp: order_view_def lookup_row_append new_order_row_def fun_eq_iff split: option.splits)
next
  case (3 d o1 e d')
  then show ?case by (auto simp: order_save_def bind_act_def sql_insert_def split: if_splits)
next
  case (4 d o1 u d')
  have "wf_db d'" using keepsD [OF keeps_wf_order_update 4] .
  then show ?case
    using order_update_state [OF 4(2)]
    by (auto simp: order_view_def fun_eq_iff lookup_row_update_key status_columns_def)
next
  case (5 d o1 e d')
  then show ?case
    by (auto simp: order_update_status_def bind_act_def sql_update_def Let_def split: if_splits)
next
  case (6 d oid r)
  from order_view_ck [OF this] show ?case by (simp add: ck_order_def)
qed

end
