(* ===== verification/Engine.thy ===== *)
theory Engine
  imports Settlement Order_Repo
begin

text \<open>
  The matching engine, \<open>pm_matching/engine/engine.py\<close>: its state is the database and the
  in-memory book of each market (\<open>None\<close>: not created yet, or evicted). The handlers follow
  the code statement by statement. \<open>begin_nested\<close> undoes the tables of a failed handler but
  not the book, which is why a failure evicts it; the market lock serialises handlers, so a
  handler is one step.
\<close>

record engine_state =
  eng_db :: db
  orderbooks :: "string \<Rightarrow> order_book option"

definition in_db :: "(db, 'a) act \<Rightarrow> (engine_state, 'a) act" where
  "in_db m = (\<lambda>s. case m (eng_db s) of (r, d) \<Rightarrow> (r, s\<lparr>eng_db := d\<rparr>))"

text \<open>\<open>_get_or_create_orderbook\<close>, then an operation on that book.\<close>

definition get_or_create_orderbook :: "string \<Rightarrow> (engine_state, order_book) act" where
  "get_or_create_orderbook market_id = (\<lambda>s.
     case orderbooks s market_id of
       Some ob \<Rightarrow> (Inr ob, s)
     | None \<Rightarrow> (Inr (OrderBook market_id),
                s\<lparr>orderbooks := (orderbooks s)(market_id \<mapsto> OrderBook market_id)\<rparr>))"

definition in_book :: "string \<Rightarrow> (order_book, 'a) act \<Rightarrow> (engine_state, 'a) act" where
  "in_book market_id m =
     bind_act (get_or_create_orderbook market_id) (\<lambda>ob. \<lambda>s.
       case m ob of (r, ob') \<Rightarrow> (r, s\<lparr>orderbooks := (orderbooks s)(market_id \<mapsto> ob')\<rparr>))"

definition nested :: "(engine_state, 'a) act \<Rightarrow> (engine_state, 'a) act" where
  "nested m = (\<lambda>s. on_error m (\<lambda>_ s'. s'\<lparr>eng_db := rollback_to (eng_db s) (eng_db s')\<rparr>) s)"

definition evict :: "string \<Rightarrow> engine_state \<Rightarrow> engine_state" where
  "evict market_id s = s\<lparr>orderbooks := (orderbooks s)(market_id := None)\<rparr>"

section \<open>Bookkeeping of orders\<close>

definition sync_frozen_amount :: "order \<Rightarrow> int \<Rightarrow> order" where
  "sync_frozen_amount ord remaining_qty =
     (if frozen_asset_type ord = FUNDS then
        (let remaining_value =
               (if book_type ord = NATIVE_BUY then book_price ord * remaining_qty
                else original_price ord * remaining_qty)
         in ord\<lparr>frozen_amount := remaining_value + calc_max_fee remaining_value\<rparr>)
      else ord\<lparr>frozen_amount := remaining_qty\<rparr>)"

definition maker_after :: "trade_result \<Rightarrow> order \<Rightarrow> order" where
  "maker_after tr maker =
     (let m1 = maker\<lparr>filled_quantity := filled_quantity maker + tr_quantity tr,
                     remaining_quantity := remaining_quantity maker - tr_quantity tr\<rparr>;
          m2 = (if remaining_quantity m1 \<le> 0 then m1\<lparr>remaining_quantity := 0, ord_status := FILLED\<rparr>
                else m1\<lparr>ord_status := PARTIALLY_FILLED\<rparr>)
      in sync_frozen_amount m2 (remaining_quantity m2))"

definition update_maker_status :: "trade_result \<Rightarrow> (db, unit) act" where
  "update_maker_status tr =
     bind_act (order_get_by_id (maker_order_id tr)) (\<lambda>maker.
     case maker of
       None \<Rightarrow> ret ()
     | Some mk \<Rightarrow> order_update_status (maker_after tr mk))"

definition unfreeze_remainder :: "order \<Rightarrow> (db, unit) act" where
  "unfreeze_remainder ord =
     (if frozen_asset_type ord = FUNDS then
        bind_act (unfreeze_funds_sql (ord_user_id ord) (frozen_amount ord)) (\<lambda>_.
        write_ledger (ord_user_id ord) ORDER_UNFREEZE (frozen_amount ord) 0 ''ORDER'' (ord_id ord))
      else if frozen_asset_type ord = YES_SHARES then
        bind_act (unfreeze_yes_sql (ord_user_id ord) (ord_market_id ord) (remaining_quantity ord)) (\<lambda>_. ret ())
      else
        bind_act (unfreeze_no_sql (ord_user_id ord) (ord_market_id ord) (remaining_quantity ord)) (\<lambda>_. ret ()))"

definition flush_market :: "market_state \<Rightarrow> (db, unit) act" where
  "flush_market market =
     bind_act (update_markets (\<lambda>r. mkt_id r = ms_id market)
       (\<lambda>r. r\<lparr>reserve_balance := ms_reserve market, pnl_pool := ms_pnl market,
              total_yes_shares := ms_yes market, total_no_shares := ms_no market\<rparr>)) (\<lambda>_. ret ())"

section \<open>Placing an order\<close>

text \<open>The body of the loop over the fills: settle, update both orders, take the fee, record, net.\<close>

definition collect_fee :: "trade_result \<Rightarrow> int \<Rightarrow> (db, int) act" where
  "collect_fee tr fee_bps =
     (let taker_is_buyer = (taker_order_id tr = buy_order_id tr);
          taker_book_type = (if taker_is_buyer then buy_book_type tr else sell_book_type tr);
          taker_user_id = (if taker_is_buyer then buy_user_id tr else sell_user_id tr);
          fee_base = get_fee_trade_value taker_book_type (tr_price tr) (tr_quantity tr) (buy_original_price tr);
          actual_fee = calc_fee fee_base fee_bps;
          max_fee = calc_max_fee fee_base in
      bind_act (if taker_book_type \<in> {NATIVE_BUY, SYNTHETIC_SELL}
                then collect_fee_from_frozen taker_user_id actual_fee max_fee
                else collect_fee_from_proceeds taker_user_id actual_fee) (\<lambda>_. ret actual_fee))"

definition clear_fill ::
  "trade_result \<Rightarrow> market_state \<times> order \<times> int \<Rightarrow> (db, market_state \<times> order \<times> int) act" where
  "clear_fill tr acc =
     (case acc of (market, ord, netting_qty) \<Rightarrow>
      bind_act (settle_trade tr market) (\<lambda>((buy_pnl, sell_pnl), market1).
      (let ord1 = sync_frozen_amount ord (remaining_quantity ord) in
      bind_act (order_update_status ord1) (\<lambda>_.
      bind_act (update_maker_status tr) (\<lambda>_.
      bind_act (collect_fee tr (ms_fee_bps market1)) (\<lambda>actual_fee.
      bind_act (write_trade tr (determine_scenario (buy_book_type tr) (sell_book_type tr)) 0 actual_fee
                  buy_pnl sell_pnl) (\<lambda>_.
      bind_act (execute_netting_if_needed (buy_user_id tr) (ord_market_id ord1) market1) (\<lambda>(nq, market2).
      bind_act (write_wal_event ORDER_MATCHED (ord_id ord1) (ord_market_id ord1) (ord_user_id ord1)
                  [(''trade_qty'', JInt (tr_quantity tr))]) (\<lambda>_.
      ret (market2, ord1, netting_qty + nq))))))))))"

text \<open>The book that \<open>_finalize_order\<close> is given is the one of \<open>market_id\<close>.\<close>

definition finalize_order :: "string \<Rightarrow> order \<Rightarrow> int \<Rightarrow> (engine_state, order) act" where
  "finalize_order market_id ord self_trade_skipped =
     (if 0 < remaining_quantity ord then
        (if time_in_force ord = GTC then
           bind_act (in_db (reads clock)) (\<lambda>now.
           (let bo = \<lparr>bo_order_id = ord_id ord, bo_user_id = ord_user_id ord,
                      bo_book_type = book_type ord, bo_quantity = remaining_quantity ord,
                      bo_created_at = (case ord_created_at ord of Some t \<Rightarrow> t | None \<Rightarrow> now)\<rparr> in
            bind_act (in_book market_id (add_order bo (book_price ord) (book_direction ord))) (\<lambda>_.
            bind_act (when_act (0 < filled_quantity ord)
              (in_db (write_wal_event ORDER_PARTIALLY_FILLED (ord_id ord) (ord_market_id ord) (ord_user_id ord) []))) (\<lambda>_.
            ret ord))))
         else
           bind_act (raise_if (filled_quantity ord = 0 \<and> 0 < self_trade_skipped)
             (AppError 4003 ''Self-trade prevented all fills for IOC order'' 400)) (\<lambda>_.
           bind_act (in_db (unfreeze_remainder ord)) (\<lambda>_.
           (let ord1 = ord\<lparr>ord_status := CANCELLED\<rparr> in
            bind_act (in_db (order_update_status ord1)) (\<lambda>_.
            bind_act (in_db (write_wal_event ORDER_EXPIRED (ord_id ord1) (ord_market_id ord1) (ord_user_id ord1) [])) (\<lambda>_.
            ret ord1))))))
      else ret ord)"

definition prepare_order :: "order \<Rightarrow> (db, order) act" where
  "prepare_order ord =
     bind_act (check_market_active (ord_market_id ord)) (\<lambda>_.
     bind_act (check_price_range (original_price ord)) (\<lambda>_.
     bind_act (check_order_limit (quantity ord)) (\<lambda>_.
     (case transform_order (original_side ord) (original_direction ord) (original_price ord) of
        (bt, bd, bp) \<Rightarrow>
          bind_act (check_and_freeze (ord\<lparr>book_type := bt, book_direction := bd, book_price := bp\<rparr>)) (\<lambda>ord1.
          bind_act (order_save ord1) (\<lambda>_.
          bind_act (write_wal_event ORDER_ACCEPTED (ord_id ord1) (ord_market_id ord1) (ord_user_id ord1) []) (\<lambda>_.
          ret ord1)))))))"

definition load_market :: "string \<Rightarrow> (db, market_state) act" where
  "load_market market_id =
     bind_act (reads (\<lambda>d. mkt d market_id)) (\<lambda>row.
     case row of None \<Rightarrow> raise AttributeError | Some r \<Rightarrow> ret (MarketState r))"

definition place_order_inner :: "order \<Rightarrow> (engine_state, order \<times> trade_result list \<times> int) act" where
  "place_order_inner ord =
     bind_act (in_db (prepare_order ord)) (\<lambda>ord1.
     bind_act (in_db (load_market (ord_market_id ord1))) (\<lambda>market.
     bind_act (in_book (ord_market_id ord1) (match_order ord1)) (\<lambda>(ord2, trade_results).
     bind_act (in_db (fold_act clear_fill trade_results (market, ord2, 0))) (\<lambda>(market1, ord3, netting_qty).
     bind_act (finalize_order (ord_market_id ord1) ord3 0) (\<lambda>ord4.
     bind_act (when_act (trade_results \<noteq> []) (in_db (verify_invariants_after_trade market1))) (\<lambda>_.
     bind_act (in_db (flush_market market1)) (\<lambda>_.
     ret (ord4, trade_results, netting_qty))))))))"

definition place_order :: "order \<Rightarrow> (engine_state, order \<times> trade_result list \<times> int) act" where
  "place_order ord =
     on_error (nested (place_order_inner ord)) (\<lambda>_. evict (ord_market_id ord))"

section \<open>Cancelling and replacing\<close>

definition is_app_error :: "exc \<Rightarrow> bool" where
  "is_app_error e = (case e of AppError _ _ _ \<Rightarrow> True | _ \<Rightarrow> False)"

text \<open>\<open>except AppError: raise / except Exception: evict, raise\<close>.\<close>

definition evict_unless_app_error :: "string \<Rightarrow> exc \<Rightarrow> engine_state \<Rightarrow> engine_state" where
  "evict_unless_app_error market_id e s = (if is_app_error e then s else evict market_id s)"

definition cancel_order_by_row :: "order \<Rightarrow> (engine_state, unit) act" where
  "cancel_order_by_row row =
     bind_act (in_book (ord_market_id row) (book_cancel (ord_id row))) (\<lambda>_.
     bind_act (in_db
       (if frozen_asset_type row = FUNDS then
          bind_act (unfreeze_funds_sql (ord_user_id row) (frozen_amount row)) (\<lambda>_.
          write_ledger (ord_user_id row) ORDER_UNFREEZE (frozen_amount row) 0 ''ORDER'' (ord_id row))
        else if frozen_asset_type row = YES_SHARES then
          bind_act (unfreeze_yes_sql (ord_user_id row) (ord_market_id row) (frozen_amount row)) (\<lambda>_. ret ())
        else
          bind_act (unfreeze_no_sql (ord_user_id row) (ord_market_id row) (frozen_amount row)) (\<lambda>_. ret ()))) (\<lambda>_.
     bind_act (in_db (update_orders (\<lambda>r. ord_id r = ord_id row) (\<lambda>r. r\<lparr>ord_status := CANCELLED\<rparr>))) (\<lambda>_. ret ())))"

text \<open>The steps both \<open>cancel_order\<close> and \<open>replace_order\<close> take on the old order, under the lock.\<close>

definition cancel_inline :: "order \<Rightarrow> string \<Rightarrow> (string \<times> json) list \<Rightarrow> (engine_state, order) act" where
  "cancel_inline ord wal_user extra =
     bind_act (in_book (ord_market_id ord) (book_cancel (ord_id ord))) (\<lambda>_.
     bind_act (in_db (unfreeze_remainder ord)) (\<lambda>_.
     (let ord1 = ord\<lparr>ord_status := CANCELLED\<rparr> in
      bind_act (in_db (order_update_status ord1)) (\<lambda>_.
      bind_act (in_db (write_wal_event ORDER_CANCELLED (ord_id ord1) (ord_market_id ord1) wal_user extra)) (\<lambda>_.
      ret ord1)))))"

text \<open>
  The order is read and checked before the market's lock is taken (\<open>cancel_lookup\<close>); what is
  done under the lock (\<open>cancel_locked\<close>) works on the object read then.
\<close>

definition cancel_lookup :: "string \<Rightarrow> string \<Rightarrow> (engine_state, order) act" where
  "cancel_lookup oid user_id =
     bind_act (in_db (order_get_by_id oid)) (\<lambda>row.
     case row of
       None \<Rightarrow> raise (AppError 4004 ''Order not found'' 404)
     | Some ord \<Rightarrow>
         bind_act (raise_if (ord_user_id ord \<noteq> user_id) (AppError 403 ''Forbidden'' 403)) (\<lambda>_.
         bind_act (raise_if (\<not> is_cancellable ord) (AppError 4006 ''Order cannot be cancelled'' 422)) (\<lambda>_.
         ret ord)))"

definition cancel_locked :: "order \<Rightarrow> (engine_state, order) act" where
  "cancel_locked ord =
     on_error (nested (cancel_inline ord (ord_user_id ord) [])) (evict_unless_app_error (ord_market_id ord))"

definition cancel_order :: "string \<Rightarrow> string \<Rightarrow> (engine_state, order) act" where
  "cancel_order oid user_id = bind_act (cancel_lookup oid user_id) cancel_locked"

record new_order_params =
  nop_client_order_id :: string
  nop_market_id :: string
  nop_side :: side
  nop_direction :: direction
  nop_price_cents :: int
  nop_quantity :: int
  nop_time_in_force :: time_in_force

text \<open>The \<open>Order\<close> both callers build, with the fields of the book still empty.\<close>

definition fresh_order :: "string \<Rightarrow> new_order_params \<Rightarrow> string \<Rightarrow> int \<Rightarrow> order" where
  "fresh_order oid ps user_id now = order_post_init
     \<lparr>ord_id = oid, client_order_id = nop_client_order_id ps, ord_market_id = nop_market_id ps,
      ord_user_id = user_id, original_side = nop_side ps, original_direction = nop_direction ps,
      original_price = nop_price_cents ps, book_type = UNSET_BOOK_TYPE,
      book_direction = UNSET_DIRECTION, book_price = 0, quantity = nop_quantity ps,
      frozen_amount = 0, frozen_asset_type = UNSET_ASSET, time_in_force = nop_time_in_force ps,
      ord_status = OPEN, cancel_reason = None, filled_quantity = 0, remaining_quantity = 0,
      ord_created_at = Some now, ord_updated_at = Some now\<rparr>"

record replace_result =
  rr_old_order_id :: string
  rr_old_filled_quantity :: int
  rr_old_original_quantity :: int
  rr_new_order :: order
  rr_trades :: "trade_result list"

definition replace_lookup :: "string \<Rightarrow> new_order_params \<Rightarrow> string \<Rightarrow> (engine_state, order) act" where
  "replace_lookup old_order_id ps user_id =
     bind_act (in_db (order_get_by_id old_order_id)) (\<lambda>row.
     case row of
       None \<Rightarrow> raise (AppError 6002 ''Old order not found'' 404)
     | Some old \<Rightarrow>
         bind_act (raise_if (ord_user_id old \<noteq> user_id)
           (AppError 6004 ''Old order not owned by requesting user'' 403)) (\<lambda>_.
         bind_act (raise_if (ord_status old = FILLED)
           (AppError 6003 ''Old order already fully filled'' 422)) (\<lambda>_.
         bind_act (raise_if (0 < filled_quantity old)
           (AppError 6001 ''Old order partially filled; replacement rejected. Cancel the old order first.'' 422)) (\<lambda>_.
         bind_act (raise_if (ord_market_id old \<noteq> nop_market_id ps)
           (AppError 6005 ''New order market_id must match old order market_id'' 422)) (\<lambda>_.
         ret old)))))"

definition replace_locked :: "new_order_params \<Rightarrow> string \<Rightarrow> order \<Rightarrow> (engine_state, replace_result) act" where
  "replace_locked ps user_id old =
     on_error (nested
       (bind_act (cancel_inline old user_id [(''replace_reason'', JStr ''atomic_replace'')]) (\<lambda>old1.
        bind_act (in_db generate_id) (\<lambda>nid.
        bind_act (in_db (reads clock)) (\<lambda>now.
        bind_act (place_order_inner (fresh_order nid ps user_id now)) (\<lambda>(new_order, trs, netting_qty).
        ret \<lparr>rr_old_order_id = ord_id old, rr_old_filled_quantity = filled_quantity old1,
             rr_old_original_quantity = quantity old1, rr_new_order = new_order,
             rr_trades = trs\<rparr>))))))
       (evict_unless_app_error (ord_market_id old))"

definition replace_order :: "string \<Rightarrow> new_order_params \<Rightarrow> string \<Rightarrow> (engine_state, replace_result) act" where
  "replace_order old_order_id ps user_id =
     bind_act (replace_lookup old_order_id ps user_id) (replace_locked ps user_id)"

datatype cancel_scope = SCOPE_ALL | BUY_ONLY | SELL_ONLY

record batch_result =
  br_market_id :: string
  br_cancelled_count :: int
  br_funds_cents :: int
  br_yes_shares :: int
  br_no_shares :: int

definition batch_rows :: "string \<Rightarrow> string \<Rightarrow> cancel_scope \<Rightarrow> db \<Rightarrow> order list" where
  "batch_rows market_id user_id scope d =
     filter (\<lambda>r. ord_user_id r = user_id \<and> ord_market_id r = market_id \<and> is_active r \<and>
       (case scope of BUY_ONLY \<Rightarrow> original_direction r = BUY
        | SELL_ONLY \<Rightarrow> original_direction r = SELL | SCOPE_ALL \<Rightarrow> True)) (orders d)"

definition frozen_sum :: "frozen_asset \<Rightarrow> order list \<Rightarrow> int" where
  "frozen_sum asset rows = col_sum frozen_amount (filter (\<lambda>r. frozen_asset_type r = asset) rows)"

definition cancel_in_existing_book :: "string \<Rightarrow> string list \<Rightarrow> (engine_state, unit) act" where
  "cancel_in_existing_book market_id ids = (\<lambda>s.
     case orderbooks s market_id of
       None \<Rightarrow> (Inr (), s)
     | Some ob \<Rightarrow>
         (case fold_act (\<lambda>oid _. book_cancel oid) ids () ob of
            (r, ob') \<Rightarrow> (r, s\<lparr>orderbooks := (orderbooks s)(market_id \<mapsto> ob')\<rparr>)))"

definition batch_cancel :: "string \<Rightarrow> string \<Rightarrow> cancel_scope \<Rightarrow> (engine_state, batch_result) act" where
  "batch_cancel market_id user_id scope =
     bind_act (in_db (reads (batch_rows market_id user_id scope))) (\<lambda>rows.
     (let total_funds = frozen_sum FUNDS rows; total_yes = frozen_sum YES_SHARES rows;
          total_no = frozen_sum NO_SHARES rows;
          result = \<lparr>br_market_id = market_id, br_cancelled_count = int (length rows),
                    br_funds_cents = total_funds, br_yes_shares = total_yes, br_no_shares = total_no\<rparr> in
      if rows = [] then ret result
      else
        bind_act (cancel_in_existing_book market_id (map ord_id rows)) (\<lambda>_.
        bind_act (in_db (update_orders (\<lambda>r. ord_id r \<in> set (map ord_id rows))
          (\<lambda>r. r\<lparr>ord_status := CANCELLED\<rparr>))) (\<lambda>_.
        bind_act (when_act (0 < total_funds)
          (in_db (bind_act (unfreeze_funds_sql user_id total_funds) (\<lambda>_. ret ())))) (\<lambda>_.
        bind_act (when_act (0 < total_yes)
          (in_db (bind_act (unfreeze_yes_sql user_id market_id total_yes) (\<lambda>_. ret ())))) (\<lambda>_.
        bind_act (when_act (0 < total_no)
          (in_db (bind_act (unfreeze_no_sql user_id market_id total_no) (\<lambda>_. ret ())))) (\<lambda>_.
        ret result)))))))"

definition book_entry :: "order \<Rightarrow> book_order" where
  "book_entry r = \<lparr>bo_order_id = ord_id r, bo_user_id = ord_user_id r, bo_book_type = book_type r,
     bo_quantity = remaining_quantity r,
     bo_created_at = (case ord_created_at r of Some t \<Rightarrow> t | None \<Rightarrow> 0)\<rparr>"

definition rebuild_orderbook :: "string \<Rightarrow> (engine_state, unit) act" where
  "rebuild_orderbook market_id = (\<lambda>s.
     let rows = sort_key (\<lambda>r. bo_created_at (book_entry r)) (open_orders market_id (eng_db s)) in
     case fold_act (\<lambda>r _. add_order (book_entry r) (book_price r) (book_direction r)) rows ()
            (OrderBook market_id) of
       (Inl e, _) \<Rightarrow> (Inl e, s)
     | (Inr _, ob) \<Rightarrow> (Inr (), s\<lparr>orderbooks := (orderbooks s)(market_id \<mapsto> ob)\<rparr>))"

section \<open>The book and the rows\<close>

text \<open>What a resting entry and an open row have in common: everything but the time stamp.\<close>

definition entry_key :: "direction \<times> int \<times> book_order \<Rightarrow> direction \<times> int \<times> string \<times> string \<times> book_type \<times> int" where
  "entry_key e = (case e of (sd, p, bo) \<Rightarrow> (sd, p, bo_order_id bo, bo_user_id bo, bo_book_type bo, bo_quantity bo))"

definition row_key :: "order \<Rightarrow> direction \<times> int \<times> string \<times> string \<times> book_type \<times> int" where
  "row_key r = (book_direction r, book_price r, ord_id r, ord_user_id r, book_type r, remaining_quantity r)"

definition open_positive :: "string \<Rightarrow> db \<Rightarrow> bool" where
  "open_positive m d \<longleftrightarrow> (\<forall>r \<in> set (open_orders m d). 0 < remaining_quantity r)"

text \<open>The book of a market shows exactly the open orders of the database.\<close>

definition synced :: "string \<Rightarrow> db \<Rightarrow> order_book \<Rightarrow> bool" where
  "synced m d ob \<longleftrightarrow> ob_inv ob \<and> entry_key ` resting ob = row_key ` set (open_orders m d)"

lemma entry_key_book_entry [simp]:
  "entry_key (book_direction r, book_price r, book_entry r) = row_key r"
  by (simp add: entry_key_def row_key_def book_entry_def)

lemma open_order_ck:
  assumes "wf_db d" and "r \<in> set (open_orders m d)"
  shows "ck_order r" "ord_market_id r = m" "is_active r" "r \<in> set (orders d)"
  using assms by (auto simp: wf_db_def open_orders_def list_all_iff)

text \<open>Rebuilding the book of a market from the database succeeds and yields a consistent
  book that shows exactly the market's open orders.\<close>

theorem rebuild_orderbook_synced:
  assumes "wf_db (eng_db s)" and "open_positive m (eng_db s)"
  shows "\<exists>ob. rebuild_orderbook m s = (Inr (), s\<lparr>orderbooks := (orderbooks s)(m \<mapsto> ob)\<rparr>) \<and>
    synced m (eng_db s) ob"
proof -
  let ?open = "open_orders m (eng_db s)"
  let ?rows = "sort_key (\<lambda>r. bo_created_at (book_entry r)) ?open"
  have "distinct (map ord_id (orders (eng_db s)))" using assms(1) by (simp add: wf_db_def)
  then have "distinct (map ord_id ?open)"
    unfolding open_orders_def by (rule distinct_map_filter)
  then have "distinct (map ord_id ?rows)" by (simp add: distinct_map)
  then have dist: "distinct (map (\<lambda>r. bo_order_id (book_entry r)) ?rows)"
    by (simp add: book_entry_def)
  have "0 < book_price r \<and> book_price r < 100 \<and> book_direction r \<in> {BUY, SELL} \<and>
      0 < bo_quantity (book_entry r)" if "r \<in> set ?rows" for r
    using open_order_ck [OF assms(1), of r m] assms(2) that
    by (auto simp: ck_order_def open_positive_def book_entry_def direction_cases)
  from ob.add_all [OF dist this, of m] obtain ob where
    run: "fold_act (\<lambda>r _. add_order (book_entry r) (book_price r) (book_direction r)) ?rows () (OrderBook m) = (Inr (), ob)"
    and inv: "ob_inv ob"
    and rest: "resting ob = (\<lambda>r. (book_direction r, book_price r, book_entry r)) ` set ?rows" by blast
  have "entry_key ` resting ob = row_key ` set ?open"
    unfolding rest image_image entry_key_book_entry by simp
  then show ?thesis
    using run inv by (intro exI [of _ ob]) (simp add: rebuild_orderbook_def synced_def Let_def)
qed

text \<open>Frames: a handler of one market touches no other market's book.\<close>

definition other_books :: "string \<Rightarrow> (string \<Rightarrow> order_book option) \<Rightarrow> engine_state \<Rightarrow> bool" where
  "other_books m f s \<longleftrightarrow> (\<forall>k. k \<noteq> m \<longrightarrow> orderbooks s k = f k)"

lemma keeps_other_in_db [pres_intros]: "keeps (other_books m f) (in_db a)"
  by (auto simp: keeps_def in_db_def other_books_def split: prod.splits)

lemma keeps_other_in_book [pres_intros]: "keeps (other_books m f) (in_book m a)"
  by (auto simp: keeps_def in_book_def bind_act_def get_or_create_orderbook_def other_books_def
      split: prod.splits option.splits)

lemma in_db_ok: "in_db m s = (Inr x, s') \<longleftrightarrow> (\<exists>d. m (eng_db s) = (Inr x, d) \<and> s' = s\<lparr>eng_db := d\<rparr>)"
  by (auto simp: in_db_def split: prod.splits)

lemma prepare_order_market:
  "prepare_order ord d = (Inr ord1, d') \<Longrightarrow> ord_market_id ord1 = ord_market_id ord"
  by (auto simp: prepare_order_def ok_simps dest!: check_and_freeze_order split: prod.splits)

lemma keeps_other_finalize [pres_intros]: "keeps (other_books m f) (finalize_order m ord k)"
  unfolding finalize_order_def Let_def
  by (intro keeps_bind keeps_if keeps_when keeps_ret keeps_raise_if keeps_other_in_db keeps_other_in_book)

lemma keeps_other_inner: "keeps (other_books (ord_market_id ord) f) (place_order_inner ord)"
proof (rule keepsI)
  fix s r s'
  assume I: "other_books (ord_market_id ord) f s" and run: "place_order_inner ord s = (r, s')"
  obtain q s1 where prep: "in_db (prepare_order ord) s = (q, s1)" by fastforce
  have I1: "other_books (ord_market_id ord) f s1" using keepsD [OF keeps_other_in_db I prep] .
  show "other_books (ord_market_id ord) f s'"
  proof (cases q)
    case (Inl e)
    then show ?thesis using run prep I1 by (simp add: place_order_inner_def)
  next
    case (Inr ord1)
    then have m: "ord_market_id ord1 = ord_market_id ord"
      using prep prepare_order_market by (auto simp: in_db_ok)
    let ?rest = "bind_act (in_db (load_market (ord_market_id ord1))) (\<lambda>market.
      bind_act (in_book (ord_market_id ord1) (match_order ord1)) (\<lambda>(ord2, trade_results).
      bind_act (in_db (fold_act clear_fill trade_results (market, ord2, 0))) (\<lambda>(market1, ord3, netting_qty).
      bind_act (finalize_order (ord_market_id ord1) ord3 0) (\<lambda>ord4.
      bind_act (when_act (trade_results \<noteq> []) (in_db (verify_invariants_after_trade market1))) (\<lambda>_.
      bind_act (in_db (flush_market market1)) (\<lambda>_.
      ret (ord4, trade_results, netting_qty)))))))"
    have keeps: "keeps (other_books (ord_market_id ord) f) ?rest"
      unfolding m
      by (intro keeps_bind keeps_case_prod keeps_when keeps_ret keeps_other_in_db
          keeps_other_in_book keeps_other_finalize)
    have "?rest s1 = (r, s')" using run prep Inr by (simp add: place_order_inner_def)
    then show ?thesis by (rule keepsD [OF keeps I1])
  qed
qed

text \<open>Claim C21. An order that fails, at whatever step, leaves every table as it was and evicts the
  market's book; no other market's book is touched.\<close>

theorem place_order_failure:
  assumes "place_order ord s = (Inl e, s')"
  shows "same_tables (eng_db s) (eng_db s') \<and>
    orderbooks s' = (orderbooks s)(ord_market_id ord := None)"
proof -
  obtain s1 where inner: "place_order_inner ord s = (Inl e, s1)"
    and s': "s' = evict (ord_market_id ord) (s1\<lparr>eng_db := rollback_to (eng_db s) (eng_db s1)\<rparr>)"
    using assms by (auto simp: place_order_def nested_def on_error_def split: prod.splits sum.splits)
  have "other_books (ord_market_id ord) (orderbooks s) s1"
    using keepsD [OF keeps_other_inner _ inner] by (simp add: other_books_def)
  then have "orderbooks s' = (orderbooks s)(ord_market_id ord := None)"
    by (auto simp: s' evict_def other_books_def fun_eq_iff)
  then show ?thesis by (simp add: s' evict_def)
qed

section \<open>What a fill does to the rows\<close>

lemma orders_are_view: "orders_are (orders d) d' \<Longrightarrow> order_view d' = order_view d"
  by (simp add: orders_are_def order_view_def fun_eq_iff)

lemma keeps_view:
  assumes "\<And>X. keeps (orders_are X) m" and "keeps wf_db m" and "m d = (r, d')" and "wf_db d"
  shows "order_view d' = order_view d \<and> orders d' = orders d \<and> wf_db d'"
proof -
  have same: "orders_are (orders d) d'"
    by (rule keepsD [OF assms(1) _ assms(3)]) (simp add: orders_are_def)
  moreover have "wf_db d'" by (rule keepsD [OF assms(2,4,3)])
  ultimately show ?thesis using orders_are_view [OF same] by (simp add: orders_are_def)
qed

lemma keeps_orders_collect_fee [pres_intros]: "keeps (orders_are X) (collect_fee tr bps)"
  unfolding collect_fee_def Let_def by (intro keeps_bind keeps_if keeps_orders_fee keeps_ret)

lemma keeps_wf_collect_fee [pres_intros]: "keeps wf_db (collect_fee tr bps)"
  unfolding collect_fee_def Let_def by (intro keeps_bind keeps_if keeps_wf_fee keeps_ret)

definition set_row :: "order \<Rightarrow> (string \<Rightarrow> order option) \<Rightarrow> string \<Rightarrow> order option" where
  "set_row o1 v = v(ord_id o1 := map_option (status_columns o1) (v (ord_id o1)))"

definition set_maker :: "trade_result \<Rightarrow> (string \<Rightarrow> order option) \<Rightarrow> string \<Rightarrow> order option" where
  "set_maker tr v = v(maker_order_id tr :=
     map_option (\<lambda>r. status_columns (maker_after tr r) r) (v (maker_order_id tr)))"

lemma sync_frozen_frame [simp]:
  "ord_id (sync_frozen_amount r n) = ord_id r" "ord_market_id (sync_frozen_amount r n) = ord_market_id r"
  "ord_user_id (sync_frozen_amount r n) = ord_user_id r"
  "book_type (sync_frozen_amount r n) = book_type r" "book_price (sync_frozen_amount r n) = book_price r"
  "book_direction (sync_frozen_amount r n) = book_direction r"
  "original_price (sync_frozen_amount r n) = original_price r"
  "frozen_asset_type (sync_frozen_amount r n) = frozen_asset_type r"
  "quantity (sync_frozen_amount r n) = quantity r"
  "filled_quantity (sync_frozen_amount r n) = filled_quantity r"
  "remaining_quantity (sync_frozen_amount r n) = remaining_quantity r"
  "ord_status (sync_frozen_amount r n) = ord_status r"
  "time_in_force (sync_frozen_amount r n) = time_in_force r"
  "ord_created_at (sync_frozen_amount r n) = ord_created_at r"
  by (simp_all add: sync_frozen_amount_def Let_def)

lemma sync_frozen_idem [simp]: "sync_frozen_amount (sync_frozen_amount r n) n = sync_frozen_amount r n"
  by (simp add: sync_frozen_amount_def Let_def)

lemma maker_after_id [simp]: "ord_id (maker_after tr r) = ord_id r"
  by (simp add: maker_after_def Let_def)

lemma update_maker_view:
  assumes "update_maker_status tr d = (Inr u, d')" and "wf_db d"
  shows "order_view d' = set_maker tr (order_view d) \<and> wf_db d'"
proof -
  note get = repo.get_law [OF assms(2), of "maker_order_id tr"]
  show ?thesis
  proof (cases "order_view d (maker_order_id tr)")
    case None
    then show ?thesis
      using assms get by (auto simp: update_maker_status_def bind_act_def set_maker_def)
  next
    case (Some r)
    then have id: "ord_id r = maker_order_id tr" using order_view_ck assms(2) by blast
    have "order_update_status (maker_after tr r) d = (Inr u, d')"
      using assms(1) get Some by (simp add: update_maker_status_def bind_act_def)
    from repo.update_law [OF assms(2) this] show ?thesis
      using id Some by (simp add: set_maker_def)
  qed
qed

text \<open>The parts of one fill, in the order the code runs them.\<close>

lemma clear_fill_runs:
  assumes "clear_fill tr (ms, ord, n) d = (Inr (ms', ord', n'), d')"
  obtains bp sp ms1 d1 d2 d3 fee d4 d5 nq d6 where
    "settle_trade tr ms d = (Inr ((bp, sp), ms1), d1)"
    "ord' = sync_frozen_amount ord (remaining_quantity ord)"
    "order_update_status ord' d1 = (Inr (), d2)" "update_maker_status tr d2 = (Inr (), d3)"
    "collect_fee tr (ms_fee_bps ms1) d3 = (Inr fee, d4)"
    "write_trade tr (determine_scenario (buy_book_type tr) (sell_book_type tr)) 0 fee bp sp d4 = (Inr (), d5)"
    "execute_netting_if_needed (buy_user_id tr) (ord_market_id ord) ms1 d5 = (Inr (nq, ms'), d6)"
    "write_wal_event ORDER_MATCHED (ord_id ord) (ord_market_id ord) (ord_user_id ord)
       [(''trade_qty'', JInt (tr_quantity tr))] d6 = (Inr (), d')" "n' = n + nq"
  using assms by (auto simp: clear_fill_def ok_simps Let_def)

lemma clear_fill_view:
  assumes run: "clear_fill tr (ms, ord, n) d = (Inr (ms', ord', n'), d')" and wf: "wf_db d"
  shows "wf_db d' \<and> ord' = sync_frozen_amount ord (remaining_quantity ord) \<and>
    order_view d' = set_maker tr (set_row ord' (order_view d))"
proof (rule clear_fill_runs [OF run], goal_cases)
  case (1 bp sp ms1 d1 d2 d3 fee d4 d5 nq d6)
  note v1 = keeps_view [OF keeps_orders_settle_trade keeps_wf_settle_trade 1(1) wf]
  note v2 = repo.update_law [OF v1 [THEN conjunct2, THEN conjunct2] 1(3)]
  note v3 = update_maker_view [OF 1(4) v2 [THEN conjunct1]]
  note v4 = keeps_view [OF keeps_orders_collect_fee keeps_wf_collect_fee 1(5) v3 [THEN conjunct2]]
  note v5 = keeps_view [OF keeps_orders_write_trade keeps_wf_write_trade 1(6) v4 [THEN conjunct2, THEN conjunct2]]
  note v6 = keeps_view [OF keeps_orders_netting keeps_wf_netting 1(7) v5 [THEN conjunct2, THEN conjunct2]]
  note v7 = keeps_view [OF keeps_orders_write_wal keeps_wf_write_wal 1(8) v6 [THEN conjunct2, THEN conjunct2]]
  show ?case using v1 v2 v3 v4 v5 v6 v7 1(2) by (simp add: set_row_def)
qed

text \<open>A row after \<open>x\<close> shares of it have been filled.\<close>

definition row_filled :: "int \<Rightarrow> order \<Rightarrow> order \<Rightarrow> bool" where
  "row_filled x r r' \<longleftrightarrow>
     ord_id r' = ord_id r \<and> ord_market_id r' = ord_market_id r \<and> ord_user_id r' = ord_user_id r \<and>
     book_type r' = book_type r \<and> book_direction r' = book_direction r \<and> book_price r' = book_price r \<and>
     remaining_quantity r' = remaining_quantity r - x \<and>
     (x = 0 \<longrightarrow> ord_status r' = ord_status r) \<and>
     (0 < x \<longrightarrow> ord_status r' = (if remaining_quantity r - x = 0 then FILLED else PARTIALLY_FILLED))"

lemma row_filled_refl: "row_filled 0 r r"
  by (simp add: row_filled_def)

lemma row_filled_trans:
  "row_filled x r r1 \<Longrightarrow> row_filled y r1 r2 \<Longrightarrow> 0 \<le> x \<Longrightarrow> 0 \<le> y \<Longrightarrow> row_filled (x + y) r r2"
  by (cases "y = 0"; cases "x = 0") (auto simp: row_filled_def)

lemma maker_row_filled:
  assumes "0 < tr_quantity tr" and "tr_quantity tr \<le> remaining_quantity r"
  shows "row_filled (tr_quantity tr) r (status_columns (maker_after tr r) r)"
  using assms by (auto simp: row_filled_def status_columns_def maker_after_def Let_def)

lemma clear_fills_view:
  assumes "fold_act clear_fill trs (ms, ord, n) d = (Inr (ms', ord', n'), d')" and "wf_db d"
    and "\<forall>t \<in> set trs. 0 < tr_quantity t \<and> maker_order_id t \<noteq> ord_id ord"
    and "\<And>oid r. oid \<noteq> ord_id ord \<Longrightarrow> order_view d oid = Some r \<Longrightarrow> traded trs oid \<le> remaining_quantity r"
  shows "wf_db d' \<and> ord' = (if trs = [] then ord else sync_frozen_amount ord (remaining_quantity ord)) \<and>
    (\<forall>oid. oid \<noteq> ord_id ord \<longrightarrow>
       rel_option (row_filled (traded trs oid)) (order_view d oid) (order_view d' oid)) \<and>
    order_view d' (ord_id ord) =
      (if trs = [] then order_view d (ord_id ord)
       else map_option (status_columns ord') (order_view d (ord_id ord)))"
  using assms
proof (induction trs arbitrary: ms ord n d)
  case Nil
  have "rel_option (row_filled 0) x x" for x by (cases x) (auto simp: row_filled_refl)
  then show ?case using Nil by simp
next
  case (Cons tr trs)
  then obtain ms1 ord1 n1 d1 where
    s1: "clear_fill tr (ms, ord, n) d = (Inr (ms1, ord1, n1), d1)" and
    rest: "fold_act clear_fill trs (ms1, ord1, n1) d1 = (Inr (ms', ord', n'), d')"
    by (auto simp: ok_simps)
  note one = clear_fill_view [OF s1 Cons.prems(2)]
  have ord1: "ord1 = sync_frozen_amount ord (remaining_quantity ord)" and wf1: "wf_db d1" using one by simp_all
  let ?m = "maker_order_id tr"
  have m: "?m \<noteq> ord_id ord" "0 < tr_quantity tr" using Cons.prems(3) by simp_all
  have pos: "\<forall>t \<in> set trs. 0 < tr_quantity t" using Cons.prems(3) by simp
  have view1: "order_view d1 oid = (if oid = ?m
      then map_option (\<lambda>r. status_columns (maker_after tr r) r) (order_view d ?m)
      else if oid = ord_id ord then map_option (status_columns ord1) (order_view d oid)
      else order_view d oid)" for oid
    using one m ord1 by (simp add: set_maker_def set_row_def)
  have rel1: "rel_option (row_filled (if oid = ?m then tr_quantity tr else 0)) (order_view d oid) (order_view d1 oid)"
    if "oid \<noteq> ord_id ord" for oid
  proof (cases "order_view d oid")
    case None
    then show ?thesis using that by (auto simp: view1)
  next
    case (Some r)
    have "traded (tr # trs) oid \<le> remaining_quantity r" using Cons.prems(4) that Some by blast
    then have "oid = ?m \<Longrightarrow> tr_quantity tr \<le> remaining_quantity r"
      using traded_nonneg [OF pos, of oid] by simp
    then show ?thesis using Some that m maker_row_filled by (auto simp: view1 row_filled_refl)
  qed
  have IH: "wf_db d' \<and> ord' = (if trs = [] then ord1 else sync_frozen_amount ord1 (remaining_quantity ord1)) \<and>
    (\<forall>oid. oid \<noteq> ord_id ord1 \<longrightarrow> rel_option (row_filled (traded trs oid)) (order_view d1 oid) (order_view d' oid)) \<and>
    order_view d' (ord_id ord1) = (if trs = [] then order_view d1 (ord_id ord1)
       else map_option (status_columns ord') (order_view d1 (ord_id ord1)))"
  proof (rule Cons.IH [OF rest wf1])
    show "\<forall>t \<in> set trs. 0 < tr_quantity t \<and> maker_order_id t \<noteq> ord_id ord1"
      using Cons.prems(3) by (simp add: ord1)
    fix oid r1 assume oid: "oid \<noteq> ord_id ord1" and r1: "order_view d1 oid = Some r1"
    then obtain r where r: "order_view d oid = Some r"
      "row_filled (if oid = ?m then tr_quantity tr else 0) r r1"
      using rel1 [of oid] by (auto simp: ord1 option_rel_Some2)
    have "traded (tr # trs) oid \<le> remaining_quantity r" using Cons.prems(4) oid r(1) by (simp add: ord1)
    then show "traded trs oid \<le> remaining_quantity r1" using r(2) by (auto simp: row_filled_def split: if_splits)
  qed
  have "rel_option (row_filled (traded (tr # trs) oid)) (order_view d oid) (order_view d' oid)"
    if neq: "oid \<noteq> ord_id ord" for oid
  proof (cases "order_view d oid")
    case None
    then show ?thesis using rel1 [OF neq] IH neq by (auto simp: ord1)
  next
    case (Some r)
    then obtain r1 where r1: "order_view d1 oid = Some r1"
      "row_filled (if oid = ?m then tr_quantity tr else 0) r r1"
      using rel1 [OF neq] by (auto simp: option_rel_Some1)
    moreover have "rel_option (row_filled (traded trs oid)) (order_view d1 oid) (order_view d' oid)"
      using IH neq by (simp add: ord1)
    ultimately obtain r2 where r2: "order_view d' oid = Some r2" "row_filled (traded trs oid) r1 r2"
      by (auto simp: option_rel_Some1)
    have "row_filled ((if oid = ?m then tr_quantity tr else 0) + traded trs oid) r r2"
      using row_filled_trans [OF r1(2) r2(2)] m traded_nonneg [OF pos, of oid] by simp
    then show ?thesis using Some r2 by (auto split: if_splits)
  qed
  moreover have "status_columns o2 (status_columns o1 r) = status_columns o2 r" for o1 o2 r
    by (simp add: status_columns_def)
  ultimately show ?case
    using IH m ord1 by (auto simp: view1 option.map_comp comp_def)
qed

text \<open>The open rows of a market, read off the view.\<close>

definition open_view :: "string \<Rightarrow> (string \<Rightarrow> order option) \<Rightarrow> order set" where
  "open_view m v = {r. v (ord_id r) = Some r \<and> ord_market_id r = m \<and> is_active r}"

lemma open_orders_view:
  assumes "wf_db d"
  shows "set (open_orders m d) = open_view m (order_view d)"
proof -
  have "distinct (map ord_id (orders d))" using assms by (simp add: wf_db_def)
  then have "order_view d (ord_id r) = Some r \<longleftrightarrow> r \<in> set (orders d)" for r
    using lookup_row_key [of ord_id "orders d" r] lookup_row_SomeD [of _ "orders d" r]
    by (auto simp: order_view_def)
  then show ?thesis by (auto simp: open_orders_def open_view_def)
qed

lemma row_filled_active:
  assumes "row_filled x r r'" and "0 \<le> x" and "x \<le> remaining_quantity r"
  shows "is_active r' \<longleftrightarrow> (if x = 0 then is_active r else x < remaining_quantity r)"
  using assms by (auto simp: row_filled_def is_active_def)

text \<open>Fills move the book and the rows together.\<close>

lemma synced_after_fills:
  assumes inv: "ob_inv ob" and sync: "entry_key ` resting ob = row_key ` open_view m v"
    and ids: "\<And>oid r. v oid = Some r \<Longrightarrow> ord_id r = oid" "\<And>oid r. v2 oid = Some r \<Longrightarrow> ord_id r = oid"
    and T: "v T = None"
    and step: "\<And>oid. oid \<noteq> T \<Longrightarrow> rel_option (row_filled (filled_of fs oid)) (v oid) (v2 oid)"
    and pos: "\<forall>f \<in> set fs. 0 < snd f" and makers: "\<And>f. f \<in> set fs \<Longrightarrow> \<exists>sd p. (sd, p, fst f) \<in> resting ob"
    and bound: "\<And>sd p bo. (sd, p, bo) \<in> resting ob \<Longrightarrow> filled_of fs (bo_order_id bo) \<le> bo_quantity bo"
  shows "entry_key ` resting_after fs (resting ob) = row_key ` (open_view m v2 - {r. ord_id r = T})"
proof -
  have row: "\<exists>r \<in> open_view m v. row_key r = entry_key e" if "e \<in> resting ob" for e
    using that sync by (metis (no_types, lifting) imageE image_eqI)
  have entry: "\<exists>sd p bo. (sd, p, bo) \<in> resting ob \<and> entry_key (sd, p, bo) = row_key r" if "r \<in> open_view m v" for r
    using that sync by (metis (no_types, lifting) imageE image_eqI prod_cases3)
  have nonneg: "0 \<le> filled_of fs oid" for oid by (rule filled_of_nonneg [OF pos])
  show ?thesis
  proof (intro set_eqI iffI)
    fix k assume "k \<in> entry_key ` resting_after fs (resting ob)"
    then obtain sd p bo where bo: "(sd, p, bo) \<in> resting ob" "filled_of fs (bo_order_id bo) < bo_quantity bo"
      and k: "k = entry_key (sd, p, less_qty (filled_of fs (bo_order_id bo)) bo)"
      by (auto simp: resting_after_def)
    let ?x = "filled_of fs (bo_order_id bo)"
    obtain r where r: "v (ord_id r) = Some r" "ord_market_id r = m" "is_active r" "row_key r = entry_key (sd, p, bo)"
      using row [OF bo(1)] by (auto simp: open_view_def)
    have id: "ord_id r = bo_order_id bo" "remaining_quantity r = bo_quantity bo"
      using r(4) by (simp_all add: row_key_def entry_key_def)
    have "ord_id r \<noteq> T" using r(1) T by auto
    with step [of "ord_id r"] r(1) id obtain r' where r': "v2 (ord_id r) = Some r'" "row_filled ?x r r'"
      by (auto simp: option_rel_Some1)
    have "is_active r'" using row_filled_active [OF r'(2)] nonneg bo(2) id r(3) by (simp split: if_splits)
    moreover have "row_key r' = k"
      using r'(2) r(4) by (auto simp: k row_filled_def row_key_def entry_key_def)
    moreover have "ord_id r' = ord_id r" "ord_market_id r' = m" using r'(2) r(2) by (simp_all add: row_filled_def)
    ultimately have "r' \<in> open_view m v2 - {r. ord_id r = T}"
      using r'(1) \<open>ord_id r \<noteq> T\<close> by (simp add: open_view_def)
    then show "k \<in> row_key ` (open_view m v2 - {r. ord_id r = T})" using \<open>row_key r' = k\<close> by blast
  next
    fix k assume "k \<in> row_key ` (open_view m v2 - {r. ord_id r = T})"
    then obtain r' where r': "v2 (ord_id r') = Some r'" "ord_market_id r' = m" "is_active r'" "ord_id r' \<noteq> T"
      and k: "k = row_key r'" by (auto simp: open_view_def)
    let ?x = "filled_of fs (ord_id r')"
    obtain r where r: "v (ord_id r') = Some r" "row_filled ?x r r'"
      using step [OF r'(4)] r'(1) by (auto simp: option_rel_Some2)
    have id: "ord_id r = ord_id r'" using ids(1) [OF r(1)] .
    have "r \<in> open_view m v"
    proof (cases "?x = 0")
      case True
      then show ?thesis using r r'(2,3) id by (auto simp: open_view_def row_filled_def is_active_def)
    next
      case False
      then obtain f where f: "f \<in> set fs" "bo_order_id (fst f) = ord_id r'"
        using filled_of_none [of fs "ord_id r'"] by blast
      then obtain sd p where "(sd, p, fst f) \<in> resting ob" using makers by blast
      from row [OF this] obtain r0 where r0: "r0 \<in> open_view m v" "row_key r0 = entry_key (sd, p, fst f)" by blast
      then have "ord_id r0 = ord_id r'" using f(2) by (simp add: row_key_def entry_key_def)
      then have "r0 = r" using r0(1) r(1) by (simp add: open_view_def)
      with r0(1) show ?thesis by simp
    qed
    from entry [OF this] obtain sd p bo where bo: "(sd, p, bo) \<in> resting ob" "entry_key (sd, p, bo) = row_key r" by blast
    then have q: "bo_order_id bo = ord_id r'" "bo_quantity bo = remaining_quantity r"
      using id by (simp_all add: row_key_def entry_key_def)
    have "?x \<le> bo_quantity bo" using bound [OF bo(1)] q by simp
    then have "?x < bo_quantity bo"
      using row_filled_active [OF r(2)] nonneg r'(3) q resting_pos [OF inv bo(1)] by (auto split: if_splits)
    then have "(sd, p, less_qty ?x bo) \<in> resting_after fs (resting ob)"
      using bo(1) q(1) unfolding resting_after_def by force
    moreover have "entry_key (sd, p, less_qty ?x bo) = k"
      using r(2) bo(2) by (auto simp: k row_filled_def row_key_def entry_key_def)
    ultimately show "k \<in> entry_key ` resting_after fs (resting ob)" by blast
  qed
qed

section \<open>Placing an order, step by step\<close>

definition book_at :: "string \<Rightarrow> engine_state \<Rightarrow> order_book" where
  "book_at m s = (case orderbooks s m of Some ob \<Rightarrow> ob | None \<Rightarrow> OrderBook m)"

lemma in_book_run:
  "in_book m a s = (case a (book_at m s) of (r, ob') \<Rightarrow> (r, s\<lparr>orderbooks := (orderbooks s)(m \<mapsto> ob')\<rparr>))"
  by (auto simp: in_book_def bind_act_def get_or_create_orderbook_def book_at_def split: option.splits prod.splits)

lemma in_book_ok:
  "in_book m a s = (Inr x, s') \<longleftrightarrow>
     (\<exists>ob'. a (book_at m s) = (Inr x, ob') \<and> s' = s\<lparr>orderbooks := (orderbooks s)(m \<mapsto> ob')\<rparr>)"
  by (auto simp: in_book_run split: prod.splits)

lemma book_at_simps [simp]:
  "book_at m (s\<lparr>eng_db := d\<rparr>) = book_at m s"
  "book_at m (s\<lparr>orderbooks := f(m \<mapsto> ob)\<rparr>) = ob"
  by (simp_all add: book_at_def)

lemma nested_ok: "nested m s = (Inr x, s') \<longleftrightarrow> m s = (Inr x, s')"
  by (simp add: nested_def on_error_ok_iff)

lemma place_order_ok: "place_order ord s = (Inr x, s') \<longleftrightarrow> place_order_inner ord s = (Inr x, s')"
  by (simp add: place_order_def on_error_ok_iff nested_ok)

lemma load_market_ok:
  "load_market m d = (Inr ms, d') \<longleftrightarrow> d' = d \<and> (\<exists>row. mkt d m = Some row \<and> ms = MarketState row)"
  by (auto simp: load_market_def ok_simps split: option.splits)

lemma place_order_runs:
  assumes "place_order ord s = (Inr (ord4, trs, nq), s')"
  obtains ord1 d1 row ord2 ob2 ms ord3 d2 s5 d7 where
    "prepare_order ord (eng_db s) = (Inr ord1, d1)"
    "mkt d1 (ord_market_id ord) = Some row"
    "match_order ord1 (book_at (ord_market_id ord) s) = (Inr (ord2, trs), ob2)"
    "fold_act clear_fill trs (MarketState row, ord2, 0) d1 = (Inr (ms, ord3, nq), d2)"
    "finalize_order (ord_market_id ord) ord3 0
       (s\<lparr>orderbooks := (orderbooks s)(ord_market_id ord \<mapsto> ob2), eng_db := d2\<rparr>) = (Inr ord4, s5)"
    "trs \<noteq> [] \<longrightarrow> verify_invariants_after_trade ms (eng_db s5) = (Inr (), eng_db s5)"
    "flush_market ms (eng_db s5) = (Inr (), d7)" "s' = s5\<lparr>eng_db := d7\<rparr>"
proof -
  from assms obtain ord1 d1 where prep: "prepare_order ord (eng_db s) = (Inr ord1, d1)"
    by (auto simp: place_order_ok place_order_inner_def ok_simps in_db_ok)
  note m = prepare_order_market [OF prep]
  from assms prep obtain row ord2 ob2 ms ord3 d2 s5 d7 s6 where
    "mkt d1 (ord_market_id ord) = Some row"
    "match_order ord1 (book_at (ord_market_id ord) s) = (Inr (ord2, trs), ob2)"
    "fold_act clear_fill trs (MarketState row, ord2, 0) d1 = (Inr (ms, ord3, nq), d2)"
    "finalize_order (ord_market_id ord) ord3 0
       (s\<lparr>orderbooks := (orderbooks s)(ord_market_id ord \<mapsto> ob2), eng_db := d2\<rparr>) = (Inr ord4, s5)"
    "when_act (trs \<noteq> []) (in_db (verify_invariants_after_trade ms)) s5 = (Inr (), s6)"
    "flush_market ms (eng_db s6) = (Inr (), d7)" "s' = s6\<lparr>eng_db := d7\<rparr>"
    by (auto simp: place_order_ok place_order_inner_def ok_simps in_db_ok in_book_ok load_market_ok m)
  moreover have "s6 = s5" "trs \<noteq> [] \<longrightarrow> verify_invariants_after_trade ms (eng_db s5) = (Inr (), eng_db s5)"
    using calculation(5) verify_invariants_state
    by (auto simp: when_act_run in_db_ok verify_invariants_ok split: if_splits)
  ultimately show thesis using that [OF prep] by blast
qed

lemma transform_dir: "transform_order sd dir p = (bt, bd, bp) \<Longrightarrow> bd = BUY \<or> bd = SELL"
  by (auto simp: transform_order_def split: if_splits)

lemma prepare_order_result:
  assumes run: "prepare_order ord d = (Inr ord1, d1)" and wf: "wf_db d"
  obtains bt bd bp where "transform_order (original_side ord) (original_direction ord) (original_price ord) = (bt, bd, bp)"
    "ord1 = ord\<lparr>book_type := bt, book_direction := bd, book_price := bp,
       frozen_amount := frozen_amount ord1, frozen_asset_type := frozen_asset_type ord1\<rparr>"
    "1 \<le> bp" "bp \<le> 99" "bd \<in> {BUY, SELL}" "1 \<le> quantity ord" "wf_db d1"
    "order_view d (ord_id ord) = None"
    "\<exists>t. order_view d1 = (order_view d)(ord_id ord \<mapsto> new_order_row t ord1)"
proof -
  obtain bt bd bp where tr: "transform_order (original_side ord) (original_direction ord) (original_price ord) = (bt, bd, bp)"
    by (metis prod_cases3)
  from run obtain d2 d3 where price: "1 \<le> original_price ord" "original_price ord \<le> 99" and qty: "1 \<le> quantity ord"
    and fz: "check_and_freeze (ord\<lparr>book_type := bt, book_direction := bd, book_price := bp\<rparr>) d = (Inr ord1, d2)"
    and sv: "order_save ord1 d2 = (Inr (), d3)"
    and wal: "write_wal_event ORDER_ACCEPTED (ord_id ord1) (ord_market_id ord1) (ord_user_id ord1) [] d3 = (Inr (), d1)"
    by (auto simp: prepare_order_def ok_simps tr check_market_active_ok check_price_range_ok check_order_limit_ok)
  have ord1: "ord1 = ord\<lparr>book_type := bt, book_direction := bd, book_price := bp,
       frozen_amount := frozen_amount ord1, frozen_asset_type := frozen_asset_type ord1\<rparr>"
    using check_and_freeze_order [OF fz] by simp
  have id: "ord_id ord1 = ord_id ord" using check_and_freeze_order [OF fz] by simp
  have wf2: "wf_db d2" using keepsD [OF keeps_wf_check_and_freeze wf fz] .
  have v2: "order_view d2 = order_view d"
    using check_and_freeze_views(3) [OF fz] by (simp add: order_view_def fun_eq_iff)
  note save = repo.save_law [OF wf2 sv]
  have wf1: "wf_db d1" using keepsD [OF keeps_wf_write_wal save [THEN conjunct1] wal] .
  have "order_view d1 = order_view d3"
    using keeps_view [OF keeps_orders_write_wal keeps_wf_write_wal wal save [THEN conjunct1]] by simp
  with id save v2 have view: "order_view d1 = (order_view d)(ord_id ord \<mapsto> new_order_row (clock d2) ord1)"
    "order_view d (ord_id ord) = None"
    by simp_all
  show thesis
  proof (rule that [OF tr ord1])
    show "1 \<le> bp" "bp \<le> 99" using transform_order_price [OF tr price] by simp_all
    show "bd \<in> {BUY, SELL}" using transform_dir [OF tr] by simp
    show "1 \<le> quantity ord" "wf_db d1" by (rule qty wf1)+
    show "order_view d (ord_id ord) = None" by (rule view(2))
    show "\<exists>t. order_view d1 = (order_view d)(ord_id ord \<mapsto> new_order_row t ord1)"
      using view(1) by (rule exI)
  qed
qed

definition remainder_entry :: "order \<Rightarrow> int \<Rightarrow> book_order" where
  "remainder_entry ord t = \<lparr>bo_order_id = ord_id ord, bo_user_id = ord_user_id ord,
     bo_book_type = book_type ord, bo_quantity = remaining_quantity ord, bo_created_at = t\<rparr>"

lemma keeps_wf_unfreeze_remainder [pres_intros]: "keeps wf_db (unfreeze_remainder ord)"
  unfolding unfreeze_remainder_def by (intro keeps_if keeps_bind keeps_wf_unfreeze keeps_wf_write_ledger keeps_ret)

lemma keeps_orders_unfreeze_remainder [pres_intros]: "keeps (orders_are X) (unfreeze_remainder ord)"
  unfolding unfreeze_remainder_def
  by (intro keeps_if keeps_bind keeps_orders_unfreeze keeps_orders_write_ledger keeps_ret)

lemma keeps_flush [pres_intros]: "keeps (orders_are X) (flush_market ms)" "keeps wf_db (flush_market ms)"
  unfolding flush_market_def by (intro keeps_bind keeps_ret keeps_orders_statements keeps_wf_update_markets; simp)+

lemma finalize_cases:
  assumes run: "finalize_order m ord k s = (Inr ord', s')" and wf: "wf_db (eng_db s)"
  obtains (nothing) "remaining_quantity ord \<le> 0" "ord' = ord" "s' = s"
  | (rest) t ob' where "0 < remaining_quantity ord" "time_in_force ord = GTC" "ord' = ord"
      "add_order (remainder_entry ord t) (book_price ord) (book_direction ord) (book_at m s) = (Inr (), ob')"
      "book_at m s' = ob'" "order_view (eng_db s') = order_view (eng_db s)" "wf_db (eng_db s')"
      "same_core (eng_db s) (eng_db s')"
  | (expired) d1 where "0 < remaining_quantity ord" "time_in_force ord \<noteq> GTC" "ord' = ord\<lparr>ord_status := CANCELLED\<rparr>"
      "unfreeze_remainder ord (eng_db s) = (Inr (), d1)"
      "book_at m s' = book_at m s" "order_view (eng_db s') = set_row ord' (order_view (eng_db s))"
      "wf_db (eng_db s')" "accounts (eng_db s') = accounts d1" "positions (eng_db s') = positions d1"
      "markets (eng_db s') = markets d1"
proof (cases "0 < remaining_quantity ord")
  case False
  show thesis by (rule nothing) (use run False in \<open>simp_all add: finalize_order_def\<close>)
next
  case rem: True
  show thesis
  proof (cases "time_in_force ord = GTC")
    case True
    let ?t = "case ord_created_at ord of Some t \<Rightarrow> t | None \<Rightarrow> clock (eng_db s)"
    from run rem True obtain ob' s2 where
      add: "add_order (remainder_entry ord ?t) (book_price ord) (book_direction ord) (book_at m s) = (Inr (), ob')" and
      s2: "s2 = s\<lparr>orderbooks := (orderbooks s)(m \<mapsto> ob')\<rparr>" and
      wal: "when_act (0 < filled_quantity ord) (in_db (write_wal_event ORDER_PARTIALLY_FILLED
        (ord_id ord) (ord_market_id ord) (ord_user_id ord) [])) s2 = (Inr (), s')" and "ord' = ord"
      by (auto simp: finalize_order_def ok_simps in_db_ok in_book_ok Let_def remainder_entry_def)
    have d2: "eng_db s2 = eng_db s" by (simp add: s2)
    have "order_view (eng_db s') = order_view (eng_db s) \<and> wf_db (eng_db s') \<and> book_at m s' = ob' \<and>
        same_core (eng_db s) (eng_db s')"
    proof (cases "0 < filled_quantity ord")
      case True
      then obtain d where w: "write_wal_event ORDER_PARTIALLY_FILLED (ord_id ord) (ord_market_id ord)
          (ord_user_id ord) [] (eng_db s) = (Inr (), d)" and "s' = s2\<lparr>eng_db := d\<rparr>"
        using wal by (auto simp: when_act_run in_db_ok d2)
      then show ?thesis
        using keeps_view [OF keeps_orders_write_wal keeps_wf_write_wal w wf] write_wal_core [OF w]
        by (simp add: s2)
    next
      case False
      then have "s' = s2" using wal by (simp add: when_act_run)
      then show ?thesis using wf by (simp add: s2 d2)
    qed
    with rest [OF rem True \<open>ord' = ord\<close> add] show thesis by blast
  next
    case False
    let ?o = "ord\<lparr>ord_status := CANCELLED\<rparr>"
    from run rem False obtain d1 d2 d3 where
      u: "unfreeze_remainder ord (eng_db s) = (Inr (), d1)" and
      st: "order_update_status ?o d1 = (Inr (), d2)" and
      w: "write_wal_event ORDER_EXPIRED (ord_id ord) (ord_market_id ord) (ord_user_id ord) [] d2 = (Inr (), d3)" and
      s': "s' = s\<lparr>eng_db := d3\<rparr>" and "ord' = ?o"
      by (auto simp: finalize_order_def ok_simps in_db_ok Let_def)
    note v1 = keeps_view [OF keeps_orders_unfreeze_remainder keeps_wf_unfreeze_remainder u wf]
    note v2 = repo.update_law [OF v1 [THEN conjunct2, THEN conjunct2] st]
    note v3 = keeps_view [OF keeps_orders_write_wal keeps_wf_write_wal w v2 [THEN conjunct1]]
    note core = write_wal_core [OF w] order_update_state [OF st]
    show thesis
      by (rule expired [OF rem False \<open>ord' = ?o\<close> u])
         (use v1 v2 v3 core \<open>ord' = ?o\<close> in \<open>simp_all add: s' set_row_def same_core_def\<close>)
  qed
qed

text \<open>A successful order up to its clearing: the row and the book of the taker.\<close>

definition is_new_order :: "order \<Rightarrow> bool" where
  "is_new_order ord \<longleftrightarrow> ord_status ord = OPEN \<and> filled_quantity ord = 0 \<and> remaining_quantity ord = quantity ord"

lemma synced_open_view:
  "wf_db d \<Longrightarrow> synced m d ob \<longleftrightarrow> ob_inv ob \<and> entry_key ` resting ob = row_key ` open_view m (order_view d)"
  by (simp add: synced_def open_orders_view)

text \<open>
  A book may lack the entries of some open orders \<open>X\<close>, those of a market whose book was evicted
  or whose process was restarted; what it has is in step with their rows.
\<close>

definition shows_but :: "string set \<Rightarrow> string \<Rightarrow> db \<Rightarrow> order_book \<Rightarrow> bool" where
  "shows_but X m d ob \<longleftrightarrow> ob_inv ob \<and>
     entry_key ` resting ob = row_key ` {r \<in> set (open_orders m d). ord_id r \<notin> X}"

lemma synced_shows: "synced m d ob \<longleftrightarrow> shows_but {} m d ob"
  by (simp add: synced_def shows_but_def)

lemma open_view_but: "open_view m (v |` (- X)) = {r \<in> open_view m v. ord_id r \<notin> X}"
  by (auto simp: open_view_def restrict_map_def split: if_splits)

lemma shows_but_view:
  "wf_db d \<Longrightarrow> shows_but X m d ob \<longleftrightarrow> ob_inv ob \<and> entry_key ` resting ob = row_key ` open_view m (order_view d |` (- X))"
  by (simp add: shows_but_def open_view_but open_orders_view)

lemma shows_but_inv: "shows_but X m d ob \<Longrightarrow> ob_inv ob"
  by (simp add: shows_but_def)

lemma shows_but_entry:
  assumes "shows_but X m d ob" and "(sd, p, bo) \<in> resting ob"
  obtains r where "r \<in> set (open_orders m d)" "ord_id r \<notin> X" "row_key r = entry_key (sd, p, bo)"
proof -
  have "entry_key (sd, p, bo) \<in> row_key ` {r \<in> set (open_orders m d). ord_id r \<notin> X}"
    using assms unfolding shows_but_def by (metis (no_types, lifting) image_eqI)
  then show thesis using that by auto
qed

lemma order_view_id: "order_view d oid = Some r \<Longrightarrow> ord_id r = oid"
  by (auto simp: order_view_def dest!: lookup_row_SomeD)

lemma fresh_id_not_resting:
  assumes "entry_key ` resting ob = row_key ` open_view m v" and "v oid = None"
  shows "oid \<notin> entry_id ` resting ob"
proof
  assume "oid \<in> entry_id ` resting ob"
  then obtain e where e: "e \<in> resting ob" "entry_id e = oid" by auto
  then have "entry_key e \<in> row_key ` open_view m v" using assms(1) by blast
  then obtain r where "v (ord_id r) = Some r" "row_key r = entry_key e" by (auto simp: open_view_def)
  moreover have "ord_id r = oid"
    using calculation(2) e(2) by (cases e) (simp add: row_key_def entry_key_def entry_id_def)
  ultimately show False using assms(2) by simp
qed

lemma traded_zero: "(\<And>t. t \<in> set trs \<Longrightarrow> maker_order_id t \<noteq> oid) \<Longrightarrow> traded trs oid = 0"
  by (induction trs) auto

text \<open>A match against a synced book: which rows it fills, and that each has enough left.\<close>

lemma match_on_synced:
  assumes inv: "ob_inv ob" and sync: "entry_key ` resting ob = row_key ` open_view m v"
    and sound: "\<And>oid r. v oid = Some r \<Longrightarrow> ord_id r = oid \<and> 0 \<le> remaining_quantity r"
    and limit: "1 \<le> book_price inc" "book_price inc \<le> 99" "book_direction inc \<in> {BUY, SELL}"
    and rem: "0 < remaining_quantity inc" and match: "match_order inc ob = (Inr (inc', trs), ob')"
  obtains fs x where "inc' = filled_by x inc" "book_after fs ob ob'"
    "traded trs = filled_of fs" "\<forall>f \<in> set fs. 0 < snd f"
    "\<forall>f \<in> set fs. \<exists>sd p. (sd, p, fst f) \<in> resting ob"
    "\<forall>sd p bo. (sd, p, bo) \<in> resting ob \<longrightarrow> filled_of fs (bo_order_id bo) \<le> bo_quantity bo"
    "\<forall>t \<in> set trs. 0 < tr_quantity t \<and> maker_order_id t \<in> entry_id ` resting ob"
    "\<forall>oid r. v oid = Some r \<longrightarrow> traded trs oid \<le> remaining_quantity r"
    "0 \<le> x" "x \<le> remaining_quantity inc" "trs = [] \<longleftrightarrow> x = 0"
proof -
  obtain gs r' where
    pass: "levels_pass (ord_user_id inc) (remaining_quantity inc) (ladder (book_direction inc) (book_price inc) ob) = (gs, r')"
    and res0: "(Inr (inc', trs) :: exc + _) = Inr (filled_by (remaining_quantity inc - r') inc, trades_of (book_direction inc) inc gs)"
    and after: "book_after (map snd gs) ob ob'"
    by (rule match_order_cases [OF inv limit match])
  from res0 have inc': "inc' = filled_by (remaining_quantity inc - r') inc"
    and trs: "trs = trades_of (book_direction inc) inc gs" by simp_all
  have fills: "\<forall>(p, bo, n) \<in> set gs. (maker_dir (book_direction inc), p, bo) \<in> resting ob \<and> 0 < n"
    using levels_pass_fills [OF pass ladder_pos_ladder [OF inv limit(1,2)]] ladder_resting [OF limit(1,2)] by fastforce
  then have pos: "\<forall>f \<in> set (map snd gs). 0 < snd f"
    and makers: "\<forall>f \<in> set (map snd gs). \<exists>sd p. (sd, p, fst f) \<in> resting ob" by fastforce+
  have bound: "filled_of (map snd gs) (bo_order_id bo) \<le> bo_quantity bo" if "(sd, p, bo) \<in> resting ob" for sd p bo
    by (rule match_maker_bound [OF inv limit(1,2) pass that])
  have tr: "traded trs = filled_of (map snd gs)" by (simp add: fun_eq_iff trs traded_trades_of)
  have enough: "traded trs oid \<le> remaining_quantity r" if r: "v oid = Some r" for oid r
  proof (cases "\<exists>f \<in> set (map snd gs). bo_order_id (fst f) = oid")
    case True
    then obtain f where "f \<in> set (map snd gs)" "bo_order_id (fst f) = oid" by blast
    moreover from this(1) obtain sd p where "(sd, p, fst f) \<in> resting ob" using makers by blast
    ultimately have f: "bo_order_id (fst f) = oid" "(sd, p, fst f) \<in> resting ob" by simp_all
    then obtain r0 where r0: "r0 \<in> open_view m v" "row_key r0 = entry_key (sd, p, fst f)"
      using sync by (metis (no_types, lifting) imageE image_eqI)
    have "r0 = r" using r0 r f(1) by (auto simp: open_view_def row_key_def entry_key_def)
    then have "remaining_quantity r = bo_quantity (fst f)" using r0(2) by (simp add: row_key_def entry_key_def)
    then show ?thesis using bound [OF f(2)] f(1) by (simp add: tr)
  next
    case False
    then have "traded trs oid = 0" using filled_of_none by (simp add: tr)
    then show ?thesis using sound [OF r] by simp
  qed
  have total: "fill_total (map snd gs) = remaining_quantity inc - r'" by (rule levels_pass_total [OF pass])
  have "0 \<le> r'" using levels_pass_rest_nonneg [OF pass] rem by simp
  moreover have "trs = [] \<longleftrightarrow> remaining_quantity inc - r' = 0"
    using fill_total_pos [OF pos] total by (auto simp: trs trades_of_def)
  moreover have "\<forall>t \<in> set trs. 0 < tr_quantity t \<and> maker_order_id t \<in> entry_id ` resting ob"
    using fills by (force simp: trs trades_of_def entry_id_def)
  ultimately show thesis
    using that [OF inc' after tr pos makers] bound enough fill_total_pos [OF pos] total by simp
qed

text \<open>A lost order makes no trade, so the bound holds for every row.\<close>

lemma makers_have_enough:
  assumes keys: "entry_key ` resting ob = row_key ` open_view m (v |` (- X))"
    and trs: "\<forall>t \<in> set trs. 0 < tr_quantity t \<and> maker_order_id t \<in> entry_id ` resting ob"
    and enough: "\<forall>oid r. (v |` (- X)) oid = Some r \<longrightarrow> traded trs oid \<le> remaining_quantity r"
    and sound: "\<And>oid r. v oid = Some r \<Longrightarrow> ord_id r = oid \<and> 0 \<le> remaining_quantity r" and r: "v oid = Some r"
  shows "traded trs oid \<le> remaining_quantity r"
proof (cases "oid \<in> X")
  case True
  have "oid \<notin> entry_id ` resting ob"
    by (rule fresh_id_not_resting [OF keys]) (use True in \<open>simp add: restrict_map_def\<close>)
  then have "traded trs oid = 0" using trs by (intro traded_zero) blast
  then show ?thesis using sound [OF r] by simp
next
  case False
  then show ?thesis using enough r by (simp add: restrict_map_def)
qed

text \<open>From the saved order to the cleared fills.\<close>

lemma placed_until_cleared:
  assumes prep: "prepare_order ord d = (Inr ord1, d1)" and wf: "wf_db d" and new: "is_new_order ord"
    and sync: "shows_but X m d ob" and m: "m = ord_market_id ord" and lost: "X \<subseteq> dom (order_view d)"
    and match: "match_order ord1 ob = (Inr (ord2, trs), ob2)"
    and clear: "fold_act clear_fill trs (MarketState row, ord2, 0) d1 = (Inr (ms, ord3, nq), d2)"
  obtains row0 where "ob_inv ob2" "wf_db d2"
    "entry_key ` resting ob2 = row_key ` (open_view m (order_view d2 |` (- X)) - {r. ord_id r = ord_id ord3})"
    "ord_id ord \<notin> X" "ord_id ord3 = ord_id ord" "ord_market_id ord3 = m" "ord_id ord \<notin> entry_id ` resting ob2"
    "order_view d2 (ord_id ord) = Some row0" "ord_market_id row0 = m"
    "is_active row0 \<longleftrightarrow> 0 < remaining_quantity ord3"
    "row_key row0 = (book_direction ord3, book_price ord3, ord_id ord3, ord_user_id ord3, book_type ord3, remaining_quantity ord3)"
    "1 \<le> book_price ord3" "book_price ord3 \<le> 99" "book_direction ord3 \<in> {BUY, SELL}"
proof -
  obtain bt bd bp t where
    ord1: "ord1 = ord\<lparr>book_type := bt, book_direction := bd, book_price := bp,
       frozen_amount := frozen_amount ord1, frozen_asset_type := frozen_asset_type ord1\<rparr>" and
    bp: "1 \<le> bp" "bp \<le> 99" "bd \<in> {BUY, SELL}" and qty: "1 \<le> quantity ord" and wf1: "wf_db d1" and
    none: "order_view d (ord_id ord) = None" and
    v1: "order_view d1 = (order_view d)(ord_id ord \<mapsto> new_order_row t ord1)"
    by (rule prepare_order_result [OF prep wf]) blast
  have o1: "ord_id ord1 = ord_id ord" "ord_market_id ord1 = m" "book_price ord1 = bp" "book_direction ord1 = bd"
    "remaining_quantity ord1 = quantity ord1" "0 < quantity ord1" "ord_status ord1 = OPEN"
    using new qty by (subst ord1, simp add: is_new_order_def m)+
  let ?v = "order_view d |` (- X)"
  have inv: "ob_inv ob" and sync_d: "entry_key ` resting ob = row_key ` open_view m ?v"
    using sync shows_but_view [OF wf] by simp_all
  have new_id: "ord_id ord \<notin> X" and none_v: "?v (ord_id ord) = None"
    using lost none by (auto simp: restrict_map_def)
  have limit: "1 \<le> book_price ord1" "book_price ord1 \<le> 99" "book_direction ord1 \<in> {BUY, SELL}"
    using bp o1 by simp_all
  have fresh: "ord_id ord \<notin> entry_id ` resting ob" by (rule fresh_id_not_resting [OF sync_d none_v])
  have sound0: "ord_id r = oid \<and> 0 \<le> remaining_quantity r" if "order_view d oid = Some r" for oid r
    using repo.view_sound [OF wf that] by simp
  then have sound: "ord_id r = oid \<and> 0 \<le> remaining_quantity r" if "?v oid = Some r" for oid r
    using that by (auto simp: restrict_map_def split: if_splits)
  have rem1: "0 < remaining_quantity ord1" using o1 by simp
  obtain fs x where ord2: "ord2 = filled_by x ord1" and after: "book_after fs ob ob2"
    and tr: "traded trs = filled_of fs" and pos: "\<forall>f \<in> set fs. 0 < snd f"
    and makers: "\<forall>f \<in> set fs. \<exists>sd p. (sd, p, fst f) \<in> resting ob"
    and bound: "\<forall>sd p bo. (sd, p, bo) \<in> resting ob \<longrightarrow> filled_of fs (bo_order_id bo) \<le> bo_quantity bo"
    and trs: "\<forall>t \<in> set trs. 0 < tr_quantity t \<and> maker_order_id t \<in> entry_id ` resting ob"
    and enough0: "\<forall>oid r. ?v oid = Some r \<longrightarrow> traded trs oid \<le> remaining_quantity r"
    and x: "0 \<le> x" "x \<le> remaining_quantity ord1" "trs = [] \<longleftrightarrow> x = 0"
    by (rule match_on_synced [OF inv sync_d sound limit rem1 match])
  note enough = makers_have_enough [OF sync_d trs enough0 sound0]
  have ids: "ord_id ord2 = ord_id ord" "remaining_quantity ord2 = quantity ord1 - x"
    using ord2 o1 by simp_all
  have cleared: "wf_db d2 \<and> ord3 = (if trs = [] then ord2 else sync_frozen_amount ord2 (remaining_quantity ord2)) \<and>
    (\<forall>oid. oid \<noteq> ord_id ord2 \<longrightarrow> rel_option (row_filled (traded trs oid)) (order_view d1 oid) (order_view d2 oid)) \<and>
    order_view d2 (ord_id ord2) = (if trs = [] then order_view d1 (ord_id ord2)
       else map_option (status_columns ord3) (order_view d1 (ord_id ord2)))"
  proof (rule clear_fills_view [OF clear wf1])
    show "\<forall>t \<in> set trs. 0 < tr_quantity t \<and> maker_order_id t \<noteq> ord_id ord2"
      using trs fresh ids by metis
    show "\<And>oid r. oid \<noteq> ord_id ord2 \<Longrightarrow> order_view d1 oid = Some r \<Longrightarrow> traded trs oid \<le> remaining_quantity r"
      using enough ids by (simp add: v1)
  qed
  define row0 where "row0 = (if trs = [] then new_order_row t ord1 else status_columns ord3 (new_order_row t ord1))"
  have o3: "ord_id ord3 = ord_id ord" "ord_market_id ord3 = m" "book_price ord3 = bp" "book_direction ord3 = bd"
    "remaining_quantity ord3 = quantity ord1 - x" "ord_user_id ord3 = ord_user_id ord1" "book_type ord3 = book_type ord1"
    "ord_status ord3 = (if x = 0 then OPEN else if quantity ord1 - x = 0 then FILLED else PARTIALLY_FILLED)"
    using cleared ids o1 by (auto simp: ord2 filled_by_def)
  have row0: "order_view d2 (ord_id ord) = Some row0"
    using cleared ids by (simp add: row0_def v1)
  let ?v2 = "order_view d2 |` (- X)"
  have view_ids: "ord_id r = oid" if "?v oid = Some r \<or> ?v2 oid = Some r" for oid r
    using that order_view_id by (auto simp: restrict_map_def split: if_splits)
  have "entry_key ` resting_after fs (resting ob) = row_key ` (open_view m ?v2 - {r. ord_id r = ord_id ord})"
  proof (rule synced_after_fills [OF inv sync_d view_ids view_ids none_v _ pos], simp, simp)
    show "\<And>f. f \<in> set fs \<Longrightarrow> \<exists>sd p. (sd, p, fst f) \<in> resting ob" using makers by blast
    show "\<And>sd p bo. (sd, p, bo) \<in> resting ob \<Longrightarrow> filled_of fs (bo_order_id bo) \<le> bo_quantity bo"
      using bound by blast
  next
    fix oid assume "oid \<noteq> ord_id ord"
    then have "rel_option (row_filled (filled_of fs oid)) (order_view d oid) (order_view d2 oid)"
      using cleared ids by (metis fun_upd_other tr v1)
    then show "rel_option (row_filled (filled_of fs oid)) (?v oid) (?v2 oid)"
      by (simp add: restrict_map_def)
  qed
  moreover have "ord_id ord \<notin> entry_id ` resting ob2"
    using after fresh by (force simp: book_after_def resting_after_def entry_id_def)
  moreover have "is_active row0 \<longleftrightarrow> 0 < remaining_quantity ord3"
    using x o1 o3 by (auto simp: row0_def is_active_def new_order_row_def status_columns_def)
  moreover have "row_key row0 = (book_direction ord3, book_price ord3, ord_id ord3, ord_user_id ord3, book_type ord3, remaining_quantity ord3)"
    "ord_market_id row0 = m"
    using x o1 o3 by (auto simp: row0_def row_key_def new_order_row_def status_columns_def)
  ultimately show thesis
    using that [of row0] cleared after row0 o3 bp new_id by (auto simp: book_after_def)
qed

lemma open_view_inactive:
  "v T = Some r \<Longrightarrow> ord_id r = T \<Longrightarrow> \<not> is_active r \<Longrightarrow> open_view m v - {r. ord_id r = T} = open_view m v"
  by (auto simp: open_view_def)

lemma open_view_active:
  "v T = Some r \<Longrightarrow> ord_id r = T \<Longrightarrow> is_active r \<Longrightarrow> ord_market_id r = m \<Longrightarrow>
   open_view m v = insert r (open_view m v - {r. ord_id r = T})"
  by (auto simp: open_view_def)

lemma open_view_set_row:
  assumes "ord_status o1 = CANCELLED"
  shows "open_view m (set_row o1 v) = open_view m v - {r. ord_id r = ord_id o1}"
proof -
  have "\<not> is_active (status_columns o1 r)" for r
    using assms by (simp add: is_active_def status_columns_def)
  then show ?thesis
    by (auto simp: open_view_def set_row_def split: if_splits)
qed

lemma set_row_but: "ord_id o1 \<notin> X \<Longrightarrow> set_row o1 v |` (- X) = set_row o1 (v |` (- X))"
  by (auto simp: set_row_def restrict_map_def fun_eq_iff)

lemma place_order_shows:
  assumes run: "place_order ord s = (Inr (ord4, trs, nq), s')" and wf: "wf_db (eng_db s)"
    and new: "is_new_order ord"
    and sync: "shows_but X (ord_market_id ord) (eng_db s) (book_at (ord_market_id ord) s)"
    and lost: "X \<subseteq> dom (order_view (eng_db s))"
  shows "wf_db (eng_db s') \<and> shows_but X (ord_market_id ord) (eng_db s') (book_at (ord_market_id ord) s')"
proof -
  let ?m = "ord_market_id ord" and ?T = "ord_id ord"
  obtain ord1 d1 row ord2 ob2 ms ord3 d2 s5 d7 where
    prep: "prepare_order ord (eng_db s) = (Inr ord1, d1)" and
    match: "match_order ord1 (book_at ?m s) = (Inr (ord2, trs), ob2)" and
    clear: "fold_act clear_fill trs (MarketState row, ord2, 0) d1 = (Inr (ms, ord3, nq), d2)" and
    fin: "finalize_order ?m ord3 0 (s\<lparr>orderbooks := (orderbooks s)(?m \<mapsto> ob2), eng_db := d2\<rparr>) = (Inr ord4, s5)" and
    fl: "flush_market ms (eng_db s5) = (Inr (), d7)" and s': "s' = s5\<lparr>eng_db := d7\<rparr>"
    by (rule place_order_runs [OF run])
  obtain row0 where inv2: "ob_inv ob2" and wf2: "wf_db d2" and
    keys: "entry_key ` resting ob2 = row_key ` (open_view ?m (order_view d2 |` (- X)) - {r. ord_id r = ord_id ord3})" and
    new_id: "?T \<notin> X" and
    o3: "ord_id ord3 = ?T" "ord_market_id ord3 = ?m" and fresh: "?T \<notin> entry_id ` resting ob2" and
    row0: "order_view d2 ?T = Some row0" "ord_market_id row0 = ?m" and
    act: "is_active row0 \<longleftrightarrow> 0 < remaining_quantity ord3" and
    key0: "row_key row0 = (book_direction ord3, book_price ord3, ord_id ord3, ord_user_id ord3, book_type ord3, remaining_quantity ord3)" and
    px: "1 \<le> book_price ord3" "book_price ord3 \<le> 99" "book_direction ord3 \<in> {BUY, SELL}"
    by (rule placed_until_cleared [OF prep wf new sync refl lost match clear])
  let ?v2 = "order_view d2 |` (- X)"
  have id0: "ord_id row0 = ?T" using order_view_id [OF row0(1)] .
  have row_v: "?v2 ?T = Some row0" using row0(1) new_id by (simp add: restrict_map_def)
  have "wf_db (eng_db s5) \<and> ob_inv (book_at ?m s5) \<and>
      entry_key ` resting (book_at ?m s5) = row_key ` open_view ?m (order_view (eng_db s5) |` (- X))"
  proof (rule finalize_cases [OF fin], goal_cases)
    case 1
    then show ?case using wf2 by simp
  next
    case 2
    then show ?case using inv2 wf2 keys o3 open_view_inactive [where v = ?v2, OF row_v id0] act by simp
  next
    case (3 t ob')
    let ?bo = "remainder_entry ord3 t"
    obtain ob3 where add: "add_order ?bo (book_price ord3) (book_direction ord3) ob2 = (Inr (), ob3)" "ob_inv ob3"
      "resting ob3 = insert (book_direction ord3, book_price ord3, ?bo) (resting ob2)"
      by (rule add_order_ok [OF inv2, of "book_price ord3" "book_direction ord3" ?bo])
         (use px 3(1) fresh o3 in \<open>simp_all add: remainder_entry_def\<close>)
    have "ob' = ob3" using 3(4) add(1) by simp
    moreover have "entry_key (book_direction ord3, book_price ord3, ?bo) = row_key row0"
      by (simp add: key0 entry_key_def remainder_entry_def)
    moreover have "row_key ` open_view ?m ?v2 = insert (row_key row0) (row_key ` (open_view ?m ?v2 - {r. ord_id r = ?T}))"
      unfolding image_insert [symmetric]
      using open_view_active [where v = ?v2, OF row_v id0 _ row0(2)] act 3(1) by simp
    ultimately show ?case
      using 3(5,6,7) add(2,3) keys o3(1) by simp
  next
    case (4 d1')
    then show ?case using inv2 keys o3 new_id open_view_set_row [of ord4 ?m ?v2] by (simp add: set_row_but)
  qed
  then have wf5: "wf_db (eng_db s5)" and inv5: "ob_inv (book_at ?m s5)" and
    keys5: "entry_key ` resting (book_at ?m s5) = row_key ` open_view ?m (order_view (eng_db s5) |` (- X))" by simp_all
  note v7 = keeps_view [OF keeps_flush fl wf5]
  show ?thesis using v7 inv5 keys5 by (simp add: s' shows_but_view)
qed

lemma place_order_in_sync:
  assumes "place_order ord s = (Inr (ord4, trs, nq), s')" and "wf_db (eng_db s)" and "is_new_order ord"
    and "synced (ord_market_id ord) (eng_db s) (book_at (ord_market_id ord) s)"
  shows "wf_db (eng_db s') \<and> synced (ord_market_id ord) (eng_db s') (book_at (ord_market_id ord) s')"
  using place_order_shows [OF assms(1-3), of "{}"] assms(4) by (simp add: synced_shows)

text \<open>Claim C2. A placed order keeps book and database in step: if the market's book showed exactly its
  open orders, up to orders \<open>X\<close> that it had lost (none of them, or all after an order that failed
  or a restart), it does so after any order that succeeds, up to the same lost ones, with the
  makers reduced, the used up ones gone, and the rest of the order resting, filled or expired.\<close>

theorem place_order_keeps_sync:
  assumes "place_order ord s = (Inr (ord4, trs, nq), s')" and "wf_db (eng_db s)"
    and "is_new_order ord"
    and "shows_but X (ord_market_id ord) (eng_db s) (book_at (ord_market_id ord) s)"
    and "X \<subseteq> dom (order_view (eng_db s))"
  shows "wf_db (eng_db s') \<and> shows_but X (ord_market_id ord) (eng_db s') (book_at (ord_market_id ord) s')"
  by (rule place_order_shows [OF assms])

end
