(* ===== verification/Engine_Runs.thy ===== *)
theory Engine_Runs
  imports Engine
begin

text \<open>
  Concrete runs of the engine. \<open>exec_defs\<close> collects the definitions a run unfolds and
  \<open>exec_congs\<close> keeps the simplifier out of continuations until their argument is known, so that
  \<open>simp add: exec_defs cong: exec_congs\<close> evaluates a handler on a concrete state. On top of it:
  the sample engine, the runs the engine's properties are applied to, and runs that show what
  the code does where it departs from its documents.
\<close>

section \<open>Evaluation\<close>

lemma bind_act_weak_cong: "m = m' \<Longrightarrow> bind_act m f = bind_act m' f"
  by simp

lemma Let_weak_cong': "x = x' \<Longrightarrow> Let x f = Let x' f"
  by simp

lemmas exec_congs = bind_act_weak_cong Let_weak_cong'

lemma exec_Let: "Let x f s = f x s"
  by simp

lemma exec_sql:
  "sql_update name ck tab put P f d =
    (if list_all ck (map f (filter P (tab d)))
     then (Inr (map f (filter P (tab d))), put (update_where P f) d) else (Inl (DBError name), d))"
  "sql_insert name ck clash tab put row d =
    (if ck row \<and> \<not> list_ex (clash row) (tab d) then (Inr (), put (\<lambda>rows. rows @ [row]) d)
     else (Inl (DBError name), d))"
  "sql_upsert name ck tab put K row f d =
    (if \<not> ck row then (Inl (DBError name), d)
     else if list_ex K (tab d) then
       (if list_all ck (map f (filter K (tab d))) then (Inr (), put (update_where K f) d)
        else (Inl (DBError name), d))
     else (Inr (), put (\<lambda>rows. rows @ [row]) d))"
  by (simp_all add: sql_update_def sql_insert_def sql_upsert_def Let_def)

lemma prices_unrolled:
  "[Suc 0..<100] =
   [1, 2, 3, 4, 5, 6, 7, 8, 9, 10, 11, 12, 13, 14, 15, 16, 17, 18, 19, 20, 21, 22, 23, 24, 25, 26,
    27, 28, 29, 30, 31, 32, 33, 34, 35, 36, 37, 38, 39, 40, 41, 42, 43, 44, 45, 46, 47, 48, 49, 50,
    51, 52, 53, 54, 55, 56, 57, 58, 59, 60, 61, 62, 63, 64, 65, 66, 67, 68, 69, 70, 71, 72, 73, 74,
    75, 76, 77, 78, 79, 80, 81, 82, 83, 84, 85, 86, 87, 88, 89, 90, 91, 92, 93, 94, 95, 96, 97, 98,
    99]"
  by code_simp

lemmas exec_checks = in_int2_def in_int4_def in_int8_def varchar_def varchar_opt_def ck_account_def
  ck_position_def ck_market_def ck_order_def ck_trade_def ck_ledger_def ck_wal_def pos_key_def
  ord_client_key_def order_clash_def trade_clash_def ledger_clash_def account_clash_def

lemmas exec_tables = exec_checks exec_sql update_where_def lookup_row_def acct_def posn_def mkt_def
  next_ledger_id_def generate_id_def rollback_to_def write_ledger_def write_wal_event_def
  order_post_init_def is_active_def is_cancellable_def MarketNotFoundError_def
  MarketNotActiveError_def PriceOutOfRangeError_def OrderLimitExceededError_def
  InsufficientBalanceError_def InsufficientPositionError_def

lemmas exec_rules = get_fee_trade_value_def calc_fee_def calc_released_cost_def calculate_fee_def
  TAKER_FEE_BPS_def calc_max_fee_def transform_order_def type_dir_match_def check_price_range_def
  MAX_ORDER_QUANTITY_def check_order_limit_def check_market_active_def AMM_USER_ID_def
  lower_char_def lower_def is_self_trade_def freeze_funds_sql_def freeze_yes_sql_def
  freeze_no_sql_def check_and_freeze_def

lemmas exec_book = OrderBook_def refresh_best_bid_def refresh_best_ask_def add_order_def
  book_cancel_def py_index_def prices_unrolled determine_scenario_def make_trade_buy_incoming_def
  make_trade_sell_incoming_def apply_fill_def match_order_def match_buy.simps match_sell.simps
  fill_level.simps

lemmas exec_clearing = MarketState_def unfreeze_debit_sql_def add_balance_sql_def empty_position_def
  add_yes_volume_sql_def add_no_volume_sql_def reduce_yes_volume_sql_def reduce_no_volume_sql_def
  net_position_sql_def unfreeze_funds_sql_def unfreeze_yes_sql_def unfreeze_no_sql_def
  clear_mint_def clear_transfer_yes_def clear_transfer_no_def clear_burn_def settle_trade_def
  do_netting_def execute_netting_if_needed_def PLATFORM_FEE_USER_ID_def
  collect_fee_from_frozen_def collect_fee_from_proceeds_def write_trade_def
  verify_invariants_after_trade_def col_sum_def in_market_def yes_held_def no_held_def cost_held_def

lemmas exec_orders = row_to_order_def new_order_row_def order_save_def order_get_by_id_def
  order_get_by_client_order_id_def status_columns_def order_update_status_def

lemmas exec_engine = in_db_def get_or_create_orderbook_def in_book_def nested_def evict_def
  update_maker_status_def unfreeze_remainder_def flush_market_def collect_fee_def clear_fill_def
  finalize_order_def prepare_order_def load_market_def place_order_inner_def place_order_def
  is_app_error_def evict_unless_app_error_def cancel_inline_def
  cancel_lookup_def cancel_locked_def cancel_order_def fresh_order_def replace_lookup_def replace_locked_def
  replace_order_def batch_rows_def frozen_sum_def cancel_in_existing_book_def batch_cancel_def
  book_entry_def maker_after_def [unfolded Let_def] sync_frozen_amount_def [unfolded Let_def]

lemmas exec_defs = exec_tables exec_rules exec_book exec_clearing exec_orders exec_engine
  bind_run raise_if_def when_act_def on_error_def exec_Let

lemma run_exists: "fst p = r \<Longrightarrow> \<exists>s'. p = (r, s')"
  by (cases p) simp

section \<open>The sample engine\<close>

text \<open>
  The sample market at 50 cents, so that a trade at 50 realises neither profit nor loss: its
  book holds the one open order of the database, carol's bid for two shares.
\<close>

definition even_db :: db where
  "even_db = sample_db\<lparr>positions :=
       [\<lparr>pos_user_id = ''alice'', pos_market_id = ''M'', yes_volume = 10, yes_cost_sum = 500,
         yes_pending_sell = 0, no_volume = 0, no_cost_sum = 0, no_pending_sell = 0\<rparr>,
        \<lparr>pos_user_id = ''bob'', pos_market_id = ''M'', yes_volume = 0, yes_cost_sum = 0,
         yes_pending_sell = 0, no_volume = 10, no_cost_sum = 500, no_pending_sell = 0\<rparr>]\<rparr>"

definition even_book :: order_book where
  "even_book = book_of [(book_entry sample_open, 50, BUY)]"

definition even_engine :: engine_state where
  "even_engine = \<lparr>eng_db = even_db, orderbooks = [''M'' \<mapsto> even_book]\<rparr>"

lemmas exec_samples = even_engine_def even_book_def even_db_def sample_db_def book_of_def
  sample_order_def sample_account_def sample_market_def sample_open_def

lemma even_db_wf: "wf_db even_db"
  by code_simp

lemma even_db_open: "open_orders ''M'' even_db = [sample_open]"
  by code_simp

lemma even_synced: "synced ''M'' even_db even_book"
proof -
  have "0 < bo_quantity (book_entry sample_open)" by code_simp
  then have "ob_inv even_book" "resting even_book = {(BUY, 50, book_entry sample_open)}"
    unfolding even_book_def by (auto intro!: book_of_ok simp: book_of_ok)
  moreover have "entry_key (BUY, 50, book_entry sample_open) = row_key sample_open" by code_simp
  ultimately show ?thesis by (simp add: synced_def even_db_open)
qed

text \<open>Alice sells three of her shares at 45 cents: two go to carol's bid, one rests.\<close>

definition sale :: order where
  "sale = sample_order ''t1'' ''alice'' YES SELL 45 3"

lemma sale_runs:
  "case fst (place_order sale even_engine) of
     Inr (ord, trs, nq) \<Rightarrow> map tr_quantity trs = [2] \<and> map tr_price trs = [50] \<and> remaining_quantity ord = 1
   | Inl _ \<Rightarrow> False"
  by (simp add: exec_defs exec_samples sale_def cong: exec_congs)

section \<open>The engine's properties at work\<close>

theorem rebuild_orderbook_synced_witness:
  "\<exists>ob. rebuild_orderbook ''M'' even_engine
          = (Inr (), even_engine\<lparr>orderbooks := (orderbooks even_engine)(''M'' \<mapsto> ob)\<rparr>) \<and>
        synced ''M'' (eng_db even_engine) ob"
proof (rule rebuild_orderbook_synced)
  show "wf_db (eng_db even_engine)" by (simp add: even_engine_def even_db_wf)
  show "open_positive ''M'' (eng_db even_engine)"
    by (simp add: even_engine_def open_positive_def even_db_open) code_simp
qed

theorem place_order_failure_witness:
  "\<exists>s'. place_order (sale\<lparr>original_price := 100\<rparr>) even_engine = (Inl (PriceOutOfRangeError 100), s') \<and>
     same_tables (eng_db even_engine) (eng_db s') \<and>
     orderbooks s' = (orderbooks even_engine)(ord_market_id (sale\<lparr>original_price := 100\<rparr>) := None)"
proof -
  have "fst (place_order (sale\<lparr>original_price := 100\<rparr>) even_engine) = Inl (PriceOutOfRangeError 100)"
    by (simp add: exec_defs exec_samples sale_def cong: exec_congs)
  from run_exists [OF this] obtain s' where
    run: "place_order (sale\<lparr>original_price := 100\<rparr>) even_engine = (Inl (PriceOutOfRangeError 100), s')" by blast
  show ?thesis using run place_order_failure [OF run] by blast
qed

theorem place_order_keeps_sync_witness:
  "\<exists>ord trs nq s'. place_order sale even_engine = (Inr (ord, trs, nq), s') \<and> map tr_quantity trs = [2] \<and>
     wf_db (eng_db s') \<and> synced (ord_market_id sale) (eng_db s') (book_at (ord_market_id sale) s')"
proof -
  obtain ord trs nq s' where run: "place_order sale even_engine = (Inr (ord, trs, nq), s')"
    and qty: "map tr_quantity trs = [2]"
    using sale_runs by (cases "place_order sale even_engine") (auto split: sum.splits)
  have "synced (ord_market_id sale) (eng_db even_engine) (book_at (ord_market_id sale) even_engine)"
    using even_synced by (simp add: even_engine_def sale_def sample_order_def book_at_def)
  then have even: "shows_but {} (ord_market_id sale) (eng_db even_engine) (book_at (ord_market_id sale) even_engine)"
    by (simp add: synced_shows)
  have "wf_db (eng_db even_engine)" "is_new_order sale" by (simp add: even_engine_def even_db_wf, code_simp)
  from place_order_keeps_sync [OF run this even]
  have "wf_db (eng_db s') \<and> synced (ord_market_id sale) (eng_db s') (book_at (ord_market_id sale) s')"
    by (simp add: synced_shows)
  with run qty show ?thesis by metis
qed

end
