(* ===== verification/Pagination.thy ===== *)
theory Pagination
  imports Prelude
begin

text \<open>
  Keyset pagination, as the ledger, the orders and the markets are listed: one more row than
  the page holds is fetched in descending order of a unique key, below the cursor; the extra
  row tells whether there is more, and the cursor of the next page is the key of the last row
  shown. The contract is stated once, with what a client that follows the cursors sees.
\<close>

definition desc :: "('r \<Rightarrow> 'k::linorder) \<Rightarrow> 'r list \<Rightarrow> 'r list" where
  "desc key rows = rev (sort_key key rows)"

definition below :: "('r \<Rightarrow> 'k::linorder) \<Rightarrow> 'k option \<Rightarrow> 'r \<Rightarrow> bool" where
  "below key c r = (case c of None \<Rightarrow> True | Some k \<Rightarrow> key r < k)"

text \<open>\<open>xs[:n]\<close>; a negative \<open>n\<close> counts from the end.\<close>

definition py_prefix :: "int \<Rightarrow> 'a list \<Rightarrow> 'a list" where
  "py_prefix n xs = (if 0 \<le> n then take (nat n) xs else take (nat (int (length xs) + n)) xs)"

text \<open>A client that asks for pages until there is no next cursor; \<open>fuel\<close> bounds the requests.\<close>

fun walk :: "nat \<Rightarrow> ('k option \<Rightarrow> 'i list \<times> 'k option) \<Rightarrow> 'k option \<Rightarrow> 'i list option" where
  "walk 0 get c = None"
| "walk (Suc fuel) get c =
     (case get c of
        (page, None) \<Rightarrow> Some page
      | (page, Some k) \<Rightarrow> map_option ((@) page) (walk fuel get (Some k)))"

text \<open>A client that carries the cursors in another form asks the same questions.\<close>

lemma walk_encoded:
  assumes "\<And>c. get' (map_option enc c) = (case get c of (page, next) \<Rightarrow> (page, map_option enc next))"
  shows "walk fuel get' (map_option enc c) = walk fuel get c"
proof (induction fuel arbitrary: c)
  case 0
  then show ?case by simp
next
  case (Suc fuel)
  obtain page nxt where get: "get c = (page, nxt)" by fastforce
  then have get': "get' (map_option enc c) = (page, map_option enc nxt)" using assms [of c] by simp
  show ?case using Suc.IH [of nxt] by (cases nxt) (simp_all add: get get')
qed

lemma set_desc [simp]: "set (desc key rows) = set rows"
  by (simp add: desc_def)

lemma length_desc [simp]: "length (desc key rows) = length rows"
  by (simp add: desc_def)

lemma filter_desc: "filter P (desc key rows) = desc key (filter P rows)"
  by (simp add: desc_def filter_sort flip: rev_filter)

lemma desc_sorted:
  assumes "distinct (map key rows)"
  shows "sorted_wrt (\<lambda>x y. key y < key x) (desc key rows)"
proof -
  have "distinct (map key (sort_key key rows))" using assms by (simp add: distinct_map)
  then have "sorted_wrt (<) (map key (sort_key key rows))" by (simp add: strict_sorted_iff)
  then have "sorted_wrt (\<lambda>x y. key x < key y) (sort_key key rows)" by (simp add: sorted_wrt_map)
  then show ?thesis by (simp add: desc_def sorted_wrt_rev)
qed

lemma filter_after:
  assumes "sorted_wrt (\<lambda>x y. key y < (key x :: 'k::linorder)) xs" and "0 < n" and "n \<le> length xs"
  shows "filter (\<lambda>r. key r < key (last (take n xs))) xs = drop n xs"
proof -
  let ?k = "key (last (take n xs))"
  have parts: "sorted_wrt (\<lambda>x y. key y < key x) (take n xs)"
    "\<And>x y. x \<in> set (take n xs) \<Longrightarrow> y \<in> set (drop n xs) \<Longrightarrow> key y < key x"
    using assms(1) sorted_wrt_append [of "\<lambda>x y. key y < key x" "take n xs" "drop n xs"] by auto
  have ne: "take n xs \<noteq> []" using assms by auto
  have first: "\<not> key x < ?k" if "x \<in> set (take n xs)" for x
  proof -
    have "take n xs = butlast (take n xs) @ [last (take n xs)]" using ne by simp
    then have "x \<in> set (butlast (take n xs)) \<or> x = last (take n xs)"
      using that by (metis in_set_conv_decomp Un_iff empty_iff set_append set_ConsD list.set(1))
    moreover have "sorted_wrt (\<lambda>x y. key y < key x) (butlast (take n xs) @ [last (take n xs)])"
      using parts(1) ne by simp
    ultimately show ?thesis by (auto simp: sorted_wrt_append)
  qed
  have rest: "key y < ?k" if "y \<in> set (drop n xs)" for y
    using parts(2) [OF last_in_set [OF ne] that] .
  have "filter (\<lambda>r. key r < ?k) (take n xs @ drop n xs) = drop n xs"
    using first rest by (simp only: filter_append) (simp add: filter_id_conv filter_empty_conv)
  then show ?thesis by simp
qed

text \<open>The extra row tells whether there is more; the page is the rows before it.\<close>

lemma page_of_found:
  fixes found :: "'r list"
  assumes "0 < limit"
  shows "limit < int (length (take (nat (limit + 1)) found)) \<longleftrightarrow> limit < int (length found)"
    and "py_prefix limit (take (nat (limit + 1)) found) = take (nat limit) found"
    and "limit < int (length found) \<Longrightarrow> take (nat limit) found \<noteq> []"
    and "\<not> limit < int (length found) \<Longrightarrow>
      take (nat (limit + 1)) found = found \<and> take (nat limit) found = found"
  using assms by (auto simp: py_prefix_def min_def)

text \<open>The page and its cursor, computed from one row too many.\<close>

lemma keyset_page:
  fixes found :: "'r list"
  assumes "0 < limit"
  shows "(let entries = take (nat (limit + 1)) found; page = py_prefix limit entries in
     (map item page, if limit < int (length entries) \<and> page \<noteq> [] then Some (k (last page)) else None)) =
    (map item (take (nat limit) found),
     if limit < int (length found) then Some (k (last (take (nat limit) found))) else None)"
  using page_of_found [OF assms, of found] by (simp add: Let_def)

text \<open>The contract of a paginated listing: \<open>rows\<close> is what the listing selects, without the cursor.\<close>

locale keyset_listing =
  fixes key :: "'r \<Rightarrow> 'k::linorder" and item :: "'r \<Rightarrow> 'i"
    and rows :: "'f \<Rightarrow> 's \<Rightarrow> 'r list" and inv :: "'s \<Rightarrow> bool"
    and get :: "'f \<Rightarrow> int \<Rightarrow> 's \<Rightarrow> 'k option \<Rightarrow> 'i list \<times> 'k option"
  assumes unique: "inv s \<Longrightarrow> distinct (map key (rows f s))"
    and get_law: "0 < limit \<Longrightarrow> inv s \<Longrightarrow>
      get f limit s c =
        (let found = desc key (filter (below key c) (rows f s)) in
         (map item (take (nat limit) found),
          if limit < int (length found) then Some (key (last (take (nat limit) found))) else None))"
begin

lemma walk_from:
  assumes "0 < limit" and "inv s" and "length (filter (below key c) (rows f s)) < fuel"
  shows "walk fuel (get f limit s) c = Some (map item (desc key (filter (below key c) (rows f s))))"
  using assms(3)
proof (induction fuel arbitrary: c)
  case 0
  then show ?case by simp
next
  case (Suc fuel)
  define found where "found = desc key (filter (below key c) (rows f s))"
  have get: "get f limit s c = (map item (take (nat limit) found),
      if limit < int (length found) then Some (key (last (take (nat limit) found))) else None)"
    using get_law [OF assms(1,2), of f c] by (simp add: found_def Let_def)
  show ?case
  proof (cases "limit < int (length found)")
    case False
    then show ?thesis using get by (simp add: found_def)
  next
    case True
    let ?k = "key (last (take (nat limit) found))"
    have n: "0 < nat limit" "nat limit < length found" using True assms(1) by simp_all
    have "distinct (map key (filter (below key c) (rows f s)))"
      using unique [OF assms(2), of f] by (rule distinct_map_filter)
    then have sorted: "sorted_wrt (\<lambda>x y. key y < key x) found" unfolding found_def by (rule desc_sorted)
    have "last (take (nat limit) found) \<in> set found"
      using n by (metis in_set_takeD last_in_set length_greater_0_conv less_trans take_eq_Nil2 neq0_conv)
    then have "below key c (last (take (nat limit) found))" by (simp add: found_def)
    then have under: "filter (below key (Some ?k)) (rows f s) = filter (\<lambda>r. key r < ?k) (filter (below key c) (rows f s))"
      by (auto simp: below_def filter_filter intro!: filter_cong split: option.splits)
    have rest: "desc key (filter (below key (Some ?k)) (rows f s)) = drop (nat limit) found"
    proof -
      have "desc key (filter (below key (Some ?k)) (rows f s)) = filter (\<lambda>r. key r < ?k) found"
        unfolding under unfolding found_def by (simp only: filter_desc)
      then show ?thesis using filter_after [OF sorted n(1)] n(2) by simp
    qed
    then have len: "length (filter (below key (Some ?k)) (rows f s)) = length found - nat limit"
      by (metis length_desc length_drop)
    have "walk fuel (get f limit s) (Some ?k) = Some (map item (drop (nat limit) found))"
      using Suc.IH [of "Some ?k"] Suc.prems n len rest by (simp add: found_def)
    moreover have "map item (take (nat limit) found) @ map item (drop (nat limit) found) = map item found"
      by (metis append_take_drop_id map_append)
    ultimately show ?thesis using get True by (simp add: found_def)
  qed
qed

text \<open>Following the cursors shows every selected row once, in descending order, and ends.\<close>

lemma walk_all:
  assumes "0 < limit" and "inv s" and "length (rows f s) < fuel"
  shows "walk fuel (get f limit s) None = Some (map item (desc key (rows f s)))"
  using walk_from [OF assms(1,2), of None f fuel] assms(3) by (simp add: below_def)

end

end
