(* ===== verification/Order_Service.thy ===== *)
theory Order_Service
  imports Engine_Runs Pagination
begin

text \<open>
  The order service, \<open>pm_order/application/service.py\<close> with its schemas, and the two endpoints
  of \<open>pm_order/api/amm_router.py\<close>: placing an order idempotently under the client's order id,
  cancelling, reading and listing orders, replacing and batch cancelling. Each mutating service
  commits the session or rolls it back around the engine's call; the engine's books are not
  part of the session.
\<close>

section \<open>Requests and responses\<close>

text \<open>Python's whitespace among the first 256 characters, and \<open>no_whitespace\<close>.\<close>

definition py_space :: "char \<Rightarrow> bool" where
  "py_space c \<longleftrightarrow>
     (let n = of_char c :: nat in 9 \<le> n \<and> n \<le> 13 \<or> 28 \<le> n \<and> n \<le> 32 \<or> n = 133 \<or> n = 160)"

definition py_strip :: "string \<Rightarrow> string" where
  "py_strip s = rev (dropWhile py_space (rev (dropWhile py_space s)))"

definition no_whitespace :: "string \<Rightarrow> bool" where
  "no_whitespace v \<longleftrightarrow> v \<noteq> [] \<and> v = py_strip v \<and> CHR '' '' \<notin> set v"

record order_response =
  or_id :: string
  or_client_order_id :: string
  or_market_id :: string
  or_original_side :: side
  or_original_direction :: direction
  or_original_price_cents :: int
  or_book_type :: book_type
  or_price_type :: string
  or_time_in_force :: time_in_force
  or_quantity :: int
  or_filled_quantity :: int
  or_remaining_quantity :: int
  or_frozen_amount :: int
  or_frozen_asset_type :: frozen_asset
  or_status :: order_status
  or_cancel_reason :: "string option"
  or_created_at :: "int option"
  or_updated_at :: "int option"

definition order_to_response :: "order \<Rightarrow> order_response" where
  "order_to_response ord =
     \<lparr>or_id = ord_id ord, or_client_order_id = client_order_id ord, or_market_id = ord_market_id ord,
      or_original_side = original_side ord, or_original_direction = original_direction ord,
      or_original_price_cents = original_price ord, or_book_type = book_type ord,
      or_price_type = ''LIMIT'', or_time_in_force = time_in_force ord, or_quantity = quantity ord,
      or_filled_quantity = filled_quantity ord, or_remaining_quantity = remaining_quantity ord,
      or_frozen_amount = frozen_amount ord, or_frozen_asset_type = frozen_asset_type ord,
      or_status = ord_status ord, or_cancel_reason = cancel_reason ord,
      or_created_at = ord_created_at ord, or_updated_at = ord_updated_at ord\<rparr>"

record trade_response =
  tresp_buy_order_id :: string
  tresp_sell_order_id :: string
  tresp_price :: int
  tresp_quantity :: int
  tresp_scenario :: trade_scenario

definition trade_to_response :: "trade_result \<Rightarrow> trade_response" where
  "trade_to_response tr =
     \<lparr>tresp_buy_order_id = buy_order_id tr, tresp_sell_order_id = sell_order_id tr,
      tresp_price = tr_price tr, tresp_quantity = tr_quantity tr,
      tresp_scenario = determine_scenario (buy_book_type tr) (sell_book_type tr)\<rparr>"

record place_response =
  plr_order :: order_response
  plr_trades :: "trade_response list"
  plr_netting :: "(int \<times> int) option"   \<comment> \<open>\<open>netting_qty\<close> and \<open>refund_amount\<close>\<close>

definition build_place_response :: "order \<Rightarrow> trade_result list \<Rightarrow> (int \<times> int) option \<Rightarrow> place_response" where
  "build_place_response ord trs netting =
     \<lparr>plr_order = order_to_response ord, plr_trades = map trade_to_response trs, plr_netting = netting\<rparr>"

record cancel_response =
  cr_order_id :: string
  cr_status :: order_status
  cr_unfrozen_amount :: int
  cr_unfrozen_asset_type :: frozen_asset
  cr_remaining_quantity_cancelled :: int

record order_list_response =
  olr_items :: "order_response list"
  olr_next_cursor :: "string option"
  olr_has_more :: bool

section \<open>The services\<close>

text \<open>\<open>await db.commit()\<close> after the engine's call, \<open>await db.rollback()\<close> if it raises.\<close>

definition session_transaction :: "(engine_state, 'a) act \<Rightarrow> (engine_state, 'a) act" where
  "session_transaction m =
     (\<lambda>s. on_error m (\<lambda>_ s'. s'\<lparr>eng_db := rollback_to (eng_db s) (eng_db s')\<rparr>) s)"

definition same_request :: "new_order_params \<Rightarrow> order \<Rightarrow> bool" where
  "same_request req existing \<longleftrightarrow>
     original_side existing = nop_side req \<and> original_direction existing = nop_direction req \<and>
     original_price existing = nop_price_cents req \<and> quantity existing = nop_quantity req"

definition service_place_order :: "new_order_params \<Rightarrow> string \<Rightarrow> (engine_state, place_response) act" where
  "service_place_order req user_id =
     bind_act (in_db (order_get_by_client_order_id (nop_client_order_id req) user_id)) (\<lambda>existing.
     case existing of
       Some e \<Rightarrow>
         if \<not> same_request req e then raise (DuplicateOrderError (nop_client_order_id req))
         else ret (build_place_response e [] None)
     | None \<Rightarrow>
         bind_act (in_db generate_id) (\<lambda>oid.
         bind_act (in_db (reads clock)) (\<lambda>now.
         bind_act (session_transaction (place_order (fresh_order oid req user_id now)))
           (\<lambda>(ord, trs, netting_qty).
         ret (build_place_response ord trs
           (if netting_qty \<noteq> 0 then Some (netting_qty, netting_qty * 100) else None))))))"

definition service_cancel_order :: "string \<Rightarrow> string \<Rightarrow> (engine_state, cancel_response) act" where
  "service_cancel_order oid user_id =
     bind_act (session_transaction (cancel_order oid user_id)) (\<lambda>ord.
     ret \<lparr>cr_order_id = ord_id ord, cr_status = ord_status ord, cr_unfrozen_amount = frozen_amount ord,
          cr_unfrozen_asset_type = frozen_asset_type ord,
          cr_remaining_quantity_cancelled = remaining_quantity ord\<rparr>)"

definition service_get_order :: "string \<Rightarrow> string \<Rightarrow> (engine_state, order_response) act" where
  "service_get_order oid user_id =
     bind_act (in_db (order_get_by_id oid)) (\<lambda>row.
     case row of
       None \<Rightarrow> raise (AppError 4004 ''Order not found'' 404)
     | Some ord \<Rightarrow>
         bind_act (raise_if (ord_user_id ord \<noteq> user_id) (AppError 403 ''Forbidden'' 403)) (\<lambda>_.
         ret (order_to_response ord)))"

text \<open>\<open>[status] if status else None\<close>: the empty string is no filter.\<close>

definition service_list_orders ::
  "string \<Rightarrow> string option \<Rightarrow> string option \<Rightarrow> string option \<Rightarrow> string option \<Rightarrow> int \<Rightarrow> string option \<Rightarrow>
   (engine_state, order_list_response) act" where
  "service_list_orders user_id market_id status sd dir limit cursor =
     (let statuses = (case status of None \<Rightarrow> None | Some [] \<Rightarrow> None | Some st \<Rightarrow> Some [st]) in
      bind_act (in_db (order_list_by_user user_id market_id statuses sd dir (limit + 1) cursor)) (\<lambda>found.
      (let has_more = limit < int (length found);
           page = (if has_more then py_prefix limit found else found) in
       if has_more \<and> page = [] then raise IndexError
       else ret \<lparr>olr_items = map order_to_response page,
                 olr_next_cursor = (if has_more then Some (ord_id (last page)) else None),
                 olr_has_more = has_more\<rparr>)))"

definition atomic_replace :: "string \<Rightarrow> new_order_params \<Rightarrow> string \<Rightarrow> (engine_state, replace_result) act" where
  "atomic_replace old_order_id new_order user_id =
     session_transaction (replace_order old_order_id new_order user_id)"

definition batch_cancel_endpoint :: "string \<Rightarrow> cancel_scope \<Rightarrow> string \<Rightarrow> (engine_state, batch_result) act" where
  "batch_cancel_endpoint market_id scope user_id =
     session_transaction (batch_cancel market_id user_id scope)"

section \<open>Reading all orders page by page\<close>

text \<open>The rows a listing selects: filters as the endpoint passes them, before the cursor.\<close>

record order_filter =
  of_user :: string
  of_market :: "string option"
  of_status :: "string option"
  of_side :: "string option"
  of_direction :: "string option"

definition order_rows :: "order_filter \<Rightarrow> db \<Rightarrow> order list" where
  "order_rows f d = filter (\<lambda>r. ord_user_id r = of_user f \<and> opt_eq (of_market f) (ord_market_id r) \<and>
     (case of_status f of None \<Rightarrow> True | Some st \<Rightarrow> st = [] \<or> order_status_name (ord_status r) \<in> set (split_comma st)) \<and>
     opt_eq (of_side f) (side_name (original_side r)) \<and>
     opt_eq (of_direction f) (direction_name (original_direction r))) (orders d)"

text \<open>What a client gets from one request, and the cursor it sends with the next.\<close>

definition order_client ::
  "order_filter \<Rightarrow> int \<Rightarrow> engine_state \<Rightarrow> string option \<Rightarrow> order_response list \<times> string option" where
  "order_client f limit s c =
     (case fst (service_list_orders (of_user f) (of_market f) (of_status f) (of_side f) (of_direction f) limit c s) of
        Inl _ \<Rightarrow> ([], None)
      | Inr r \<Rightarrow> (olr_items r, olr_next_cursor r))"

lemma order_rows_page:
  "order_list_by_user (of_user f) (of_market f)
     (case of_status f of None \<Rightarrow> None | Some [] \<Rightarrow> None | Some st \<Rightarrow> Some [st])
     (of_side f) (of_direction f) n c d =
   (Inr (map row_to_order (take (nat n) (desc ord_id (filter (below ord_id c) (order_rows f d))))), d)"
proof -
  have "filter (\<lambda>r. ord_user_id r = of_user f \<and> opt_eq (of_market f) (ord_market_id r) \<and>
      (case c of None \<Rightarrow> True | Some c \<Rightarrow> ord_id r < c) \<and>
      (case (case (case of_status f of None \<Rightarrow> None | Some [] \<Rightarrow> None | Some st \<Rightarrow> Some [st]) of
               None \<Rightarrow> None | Some [] \<Rightarrow> None | Some ss \<Rightarrow> Some (join_comma ss)) of
         None \<Rightarrow> True | Some csv \<Rightarrow> order_status_name (ord_status r) \<in> set (split_comma csv)) \<and>
      opt_eq (of_side f) (side_name (original_side r)) \<and>
      opt_eq (of_direction f) (direction_name (original_direction r))) (orders d) =
    filter (below ord_id c) (order_rows f d)"
    unfolding order_rows_def filter_filter
    by (rule filter_cong [OF refl])
       (cases c; cases "of_status f"; auto simp: below_def split: list.splits)
  then show ?thesis by (simp add: order_list_by_user_def desc_def)
qed

interpretation order_pages: keyset_listing ord_id "\<lambda>r. order_to_response (row_to_order r)"
  "\<lambda>f s. order_rows f (eng_db s)" "\<lambda>s. wf_db (eng_db s)" order_client
proof (unfold_locales, goal_cases)
  case (1 s f)
  then have "distinct (map ord_id (orders (eng_db s)))" by (simp add: wf_db_def)
  then show ?case unfolding order_rows_def by (rule distinct_map_filter)
next
  case (2 limit s f c)
  define found where "found = desc ord_id (filter (below ord_id c) (order_rows f (eng_db s)))"
  note page = page_of_found [OF 2(1), of found] page_of_found(2) [OF 2(1), of "map row_to_order found"]
  have id: "ord_id (row_to_order r) = ord_id r" for r by (simp add: row_to_order_def order_post_init_def)
  have list: "order_list_by_user (of_user f) (of_market f)
      (case of_status f of None \<Rightarrow> None | Some [] \<Rightarrow> None | Some st \<Rightarrow> Some [st]) (of_side f) (of_direction f)
      (limit + 1) c (eng_db s) = (Inr (map row_to_order (take (nat (limit + 1)) found)), eng_db s)"
    unfolding found_def by (rule order_rows_page)
  have "order_client f limit s c =
    (map (\<lambda>r. order_to_response (row_to_order r)) (take (nat limit) found),
     if limit < int (length found) then Some (ord_id (last (take (nat limit) found))) else None)"
  proof (cases "limit < int (length found)")
    case True
    then show ?thesis
      using page by (simp add: order_client_def service_list_orders_def Let_def bind_act_def in_db_def list
          take_map last_map id comp_def del: length_take)
  next
    case False
    then show ?thesis
      using page by (simp add: order_client_def service_list_orders_def Let_def bind_act_def in_db_def list
          comp_def del: length_take)
  qed
  then show ?case by (simp add: found_def Let_def)
qed

text \<open>A client that follows the cursors of the order listing sees every order of the user
  that passes the filters exactly once, by descending id, and stops after finitely many requests,
  whatever the page size.\<close>

theorem order_walk_complete:
  assumes "0 < limit" and "wf_db (eng_db s)" and "length (order_rows f (eng_db s)) < fuel"
  shows "walk fuel (order_client f limit s) None =
    Some (map (\<lambda>r. order_to_response (row_to_order r)) (desc ord_id (order_rows f (eng_db s))))"
  by (rule order_pages.walk_all [OF assms])

definition order_no :: "string \<Rightarrow> order" where
  "order_no oid = sample_open\<lparr>ord_id := oid, client_order_id := oid\<rparr>"

definition listed_engine :: engine_state where
  "listed_engine = even_engine\<lparr>eng_db := even_db\<lparr>orders := map order_no [''a1'', ''a2'', ''b1'']\<rparr>\<rparr>"

definition carols_orders :: order_filter where
  "carols_orders = \<lparr>of_user = ''carol'', of_market = None, of_status = Some ''OPEN'', of_side = None, of_direction = None\<rparr>"

theorem order_walk_complete_witness:
  "walk 4 (order_client carols_orders 2 listed_engine) None =
     Some (map (\<lambda>r. order_to_response (row_to_order r))
       (desc ord_id (order_rows carols_orders (eng_db listed_engine)))) \<and>
   map ord_id (order_rows carols_orders (eng_db listed_engine)) = [''a1'', ''a2'', ''b1'']"
proof
  have "wf_db (eng_db listed_engine)" "length (order_rows carols_orders (eng_db listed_engine)) < 4"
    by (simp_all add: listed_engine_def) code_simp+
  then show "walk 4 (order_client carols_orders 2 listed_engine) None =
     Some (map (\<lambda>r. order_to_response (row_to_order r))
       (desc ord_id (order_rows carols_orders (eng_db listed_engine))))"
    by (intro order_walk_complete) simp_all
qed (simp add: listed_engine_def, code_simp)

end
