(* ===== verification/Account.thy ===== *)
theory Account
  imports Settlement Pagination Cursors "HOL-Library.List_Lexorder" "HOL-Library.Char_ord"
begin

text \<open>
  The account module, \<open>pm_account\<close>: the SQL repository (deposit, withdraw, freeze, unfreeze,
  positions, the ledger's listing), the application service over it with its responses and
  transactions, and the positions queries. \<open>AccountRepositoryProtocol\<close> is the locale
  \<open>account_repository\<close>, interpreted on the SQL repository.
\<close>

fun ledger_type_name :: "ledger_entry_type \<Rightarrow> string" where
  "ledger_type_name DEPOSIT = ''DEPOSIT''"
| "ledger_type_name WITHDRAW = ''WITHDRAW''"
| "ledger_type_name ORDER_FREEZE = ''ORDER_FREEZE''"
| "ledger_type_name ORDER_UNFREEZE = ''ORDER_UNFREEZE''"
| "ledger_type_name MINT_COST = ''MINT_COST''"
| "ledger_type_name MINT_RESERVE_IN = ''MINT_RESERVE_IN''"
| "ledger_type_name BURN_REVENUE = ''BURN_REVENUE''"
| "ledger_type_name BURN_RESERVE_OUT = ''BURN_RESERVE_OUT''"
| "ledger_type_name TRANSFER_PAYMENT = ''TRANSFER_PAYMENT''"
| "ledger_type_name TRANSFER_RECEIPT = ''TRANSFER_RECEIPT''"
| "ledger_type_name NETTING = ''NETTING''"
| "ledger_type_name NETTING_RESERVE_OUT = ''NETTING_RESERVE_OUT''"
| "ledger_type_name FEE = ''FEE''"
| "ledger_type_name FEE_REVENUE = ''FEE_REVENUE''"
| "ledger_type_name SETTLEMENT_PAYOUT = ''SETTLEMENT_PAYOUT''"
| "ledger_type_name SETTLEMENT_VOID = ''SETTLEMENT_VOID''"

section \<open>The SQL repository\<close>

text \<open>
  An \<open>INSERT ... RETURNING\<close> that does not fail returns its row, so the branch for an empty
  result, which the code marks as impossible, has no counterpart.
\<close>

definition insert_ledger_returning ::
  "string \<Rightarrow> ledger_entry_type \<Rightarrow> int \<Rightarrow> int \<Rightarrow> string \<Rightarrow> string option \<Rightarrow> string \<Rightarrow> (db, ledger_entry) act" where
  "insert_ledger_returning u ty amount bal ref_type ref_id descr =
     bind_act next_ledger_id (\<lambda>i.
     bind_act (reads clock) (\<lambda>t.
     (let e = \<lparr>le_id = i, le_user_id = u, entry_type = ty, le_amount = amount, balance_after = bal,
               reference_type = Some ref_type, reference_id = ref_id, le_description = Some descr,
               le_created_at = t\<rparr> in
      bind_act (insert_ledger e) (\<lambda>_. ret e))))"

definition get_account_sql :: "string \<Rightarrow> (db, account option) act" where
  "get_account_sql u = reads (\<lambda>d. acct d u)"

definition get_account_by_user_id :: "string \<Rightarrow> (db, account option) act" where
  "get_account_by_user_id u = get_account_sql u"

definition deposit_sql :: "string \<Rightarrow> int \<Rightarrow> (db, account list) act" where
  "deposit_sql u amount =
     update_accounts (\<lambda>a. acc_user_id a = u)
       (\<lambda>a. a\<lparr>available_balance := available_balance a + amount, acc_version := acc_version a + 1\<rparr>)"

definition withdraw_sql :: "string \<Rightarrow> int \<Rightarrow> (db, account list) act" where
  "withdraw_sql u amount =
     update_accounts (\<lambda>a. acc_user_id a = u \<and> amount \<le> available_balance a)
       (\<lambda>a. a\<lparr>available_balance := available_balance a - amount, acc_version := acc_version a + 1\<rparr>)"

definition repo_freeze_funds_sql :: "string \<Rightarrow> int \<Rightarrow> (db, account list) act" where
  "repo_freeze_funds_sql u amount =
     update_accounts (\<lambda>a. acc_user_id a = u \<and> amount \<le> available_balance a)
       (\<lambda>a. a\<lparr>available_balance := available_balance a - amount,
              frozen_balance := frozen_balance a + amount, acc_version := acc_version a + 1\<rparr>)"

definition repo_unfreeze_funds_sql :: "string \<Rightarrow> int \<Rightarrow> (db, account list) act" where
  "repo_unfreeze_funds_sql u amount =
     update_accounts (\<lambda>a. acc_user_id a = u \<and> amount \<le> frozen_balance a)
       (\<lambda>a. a\<lparr>available_balance := available_balance a + amount,
              frozen_balance := frozen_balance a - amount, acc_version := acc_version a + 1\<rparr>)"

definition repo_deposit :: "string \<Rightarrow> int \<Rightarrow> (db, account \<times> ledger_entry) act" where
  "repo_deposit u amount =
     bind_act (deposit_sql u amount) (\<lambda>rows.
     case rows of
       [] \<Rightarrow> raise (InternalError (''Account not found for user '' @ u))
     | a # _ \<Rightarrow>
         bind_act (insert_ledger_returning u DEPOSIT amount (available_balance a) ''DEPOSIT'' None
                     ''Simulated deposit'') (\<lambda>e. ret (a, e)))"

text \<open>No row updated: the balance is read again for the message.\<close>

definition insufficient :: "(account \<Rightarrow> int) \<Rightarrow> string \<Rightarrow> int \<Rightarrow> (db, 'a) act" where
  "insufficient balance u amount =
     bind_act (get_account_sql u) (\<lambda>row.
     raise (InsufficientBalanceError amount (case row of None \<Rightarrow> 0 | Some a \<Rightarrow> balance a)))"

definition repo_withdraw :: "string \<Rightarrow> int \<Rightarrow> (db, account \<times> ledger_entry) act" where
  "repo_withdraw u amount =
     bind_act (withdraw_sql u amount) (\<lambda>rows.
     case rows of
       [] \<Rightarrow> insufficient available_balance u amount
     | a # _ \<Rightarrow>
         bind_act (insert_ledger_returning u WITHDRAW (- amount) (available_balance a) ''WITHDRAW'' None
                     ''Simulated withdrawal'') (\<lambda>e. ret (a, e)))"

definition repo_freeze_funds ::
  "string \<Rightarrow> int \<Rightarrow> string \<Rightarrow> string \<Rightarrow> string \<Rightarrow> (db, account \<times> ledger_entry) act" where
  "repo_freeze_funds u amount ref_type ref_id descr =
     bind_act (repo_freeze_funds_sql u amount) (\<lambda>rows.
     case rows of
       [] \<Rightarrow> insufficient available_balance u amount
     | a # _ \<Rightarrow>
         bind_act (insert_ledger_returning u ORDER_FREEZE (- amount) (available_balance a) ref_type
                     (Some ref_id) descr) (\<lambda>e. ret (a, e)))"

definition repo_unfreeze_funds ::
  "string \<Rightarrow> int \<Rightarrow> string \<Rightarrow> string \<Rightarrow> string \<Rightarrow> (db, account \<times> ledger_entry) act" where
  "repo_unfreeze_funds u amount ref_type ref_id descr =
     bind_act (repo_unfreeze_funds_sql u amount) (\<lambda>rows.
     case rows of
       [] \<Rightarrow> insufficient frozen_balance u amount
     | a # _ \<Rightarrow>
         bind_act (insert_ledger_returning u ORDER_UNFREEZE amount (available_balance a) ref_type
                     (Some ref_id) descr) (\<lambda>e. ret (a, e)))"

definition default_position :: "string \<Rightarrow> string \<Rightarrow> position" where
  "default_position u m =
     \<lparr>pos_user_id = u, pos_market_id = m, yes_volume = 0, yes_cost_sum = 0, yes_pending_sell = 0,
      no_volume = 0, no_cost_sum = 0, no_pending_sell = 0\<rparr>"

text \<open>
  \<open>INSERT ... ON CONFLICT DO NOTHING RETURNING\<close>, or else the row that was there: the
  constraints of the row proposed are checked in both cases.
\<close>

definition get_or_create_position :: "string \<Rightarrow> string \<Rightarrow> (db, position) act" where
  "get_or_create_position u m = (\<lambda>d.
     let row = default_position u m in
     if \<not> ck_position row then (Inl (DBError ''positions''), d)
     else case posn d u m of
            Some p \<Rightarrow> (Inr p, d)
          | None \<Rightarrow> (Inr row, d\<lparr>positions := positions d @ [row]\<rparr>))"

definition repo_freeze_yes_sql :: "string \<Rightarrow> string \<Rightarrow> int \<Rightarrow> (db, position list) act" where
  "repo_freeze_yes_sql u m qty =
     update_positions (\<lambda>p. pos_key p = (u, m) \<and> qty \<le> yes_volume p - yes_pending_sell p)
       (\<lambda>p. p\<lparr>yes_pending_sell := yes_pending_sell p + qty\<rparr>)"

definition repo_unfreeze_yes_sql :: "string \<Rightarrow> string \<Rightarrow> int \<Rightarrow> (db, position list) act" where
  "repo_unfreeze_yes_sql u m qty =
     update_positions (\<lambda>p. pos_key p = (u, m) \<and> qty \<le> yes_pending_sell p)
       (\<lambda>p. p\<lparr>yes_pending_sell := yes_pending_sell p - qty\<rparr>)"

definition repo_freeze_no_sql :: "string \<Rightarrow> string \<Rightarrow> int \<Rightarrow> (db, position list) act" where
  "repo_freeze_no_sql u m qty =
     update_positions (\<lambda>p. pos_key p = (u, m) \<and> qty \<le> no_volume p - no_pending_sell p)
       (\<lambda>p. p\<lparr>no_pending_sell := no_pending_sell p + qty\<rparr>)"

definition repo_unfreeze_no_sql :: "string \<Rightarrow> string \<Rightarrow> int \<Rightarrow> (db, position list) act" where
  "repo_unfreeze_no_sql u m qty =
     update_positions (\<lambda>p. pos_key p = (u, m) \<and> qty \<le> no_pending_sell p)
       (\<lambda>p. p\<lparr>no_pending_sell := no_pending_sell p - qty\<rparr>)"

definition first_position :: "string \<Rightarrow> int \<Rightarrow> position list \<Rightarrow> (db, position) act" where
  "first_position what qty rows =
     (case rows of
        [] \<Rightarrow> raise (InsufficientPositionError (what @ show_int qty))
      | p # _ \<Rightarrow> ret p)"

definition freeze_yes_position :: "string \<Rightarrow> string \<Rightarrow> int \<Rightarrow> (db, position) act" where
  "freeze_yes_position u m qty =
     bind_act (repo_freeze_yes_sql u m qty) (first_position ''Insufficient YES shares to freeze: need '' qty)"

definition unfreeze_yes_position :: "string \<Rightarrow> string \<Rightarrow> int \<Rightarrow> (db, position) act" where
  "unfreeze_yes_position u m qty =
     bind_act (repo_unfreeze_yes_sql u m qty)
       (first_position ''Insufficient frozen YES shares to unfreeze: need '' qty)"

definition freeze_no_position :: "string \<Rightarrow> string \<Rightarrow> int \<Rightarrow> (db, position) act" where
  "freeze_no_position u m qty =
     bind_act (repo_freeze_no_sql u m qty) (first_position ''Insufficient NO shares to freeze: need '' qty)"

definition unfreeze_no_position :: "string \<Rightarrow> string \<Rightarrow> int \<Rightarrow> (db, position) act" where
  "unfreeze_no_position u m qty =
     bind_act (repo_unfreeze_no_sql u m qty)
       (first_position ''Insufficient frozen NO shares to unfreeze: need '' qty)"

text \<open>\<open>LIMIT\<close> of a negative number is an error of the database.\<close>

definition ledger_rows :: "string \<Rightarrow> string option \<Rightarrow> db \<Rightarrow> ledger_entry list" where
  "ledger_rows u ty d =
     filter (\<lambda>e. le_user_id e = u \<and> opt_eq ty (ledger_type_name (entry_type e))) (ledger_entries d)"

definition list_ledger_entries ::
  "string \<Rightarrow> int option \<Rightarrow> int \<Rightarrow> string option \<Rightarrow> (db, ledger_entry list) act" where
  "list_ledger_entries u cursor_id limit ty =
     bind_act (raise_if (limit < 0) (DBError ''ledger_entries'')) (\<lambda>_.
     reads (\<lambda>d. take (nat limit) (desc le_id
       (filter (below le_id cursor_id) (ledger_rows u ty d)))))"

section \<open>The contract\<close>

text \<open>
  One posting: the available and the frozen balance of one account move by given amounts, one
  ledger entry is appended whose \<open>balance_after\<close> is the new available balance.
\<close>

definition posted ::
  "('s \<Rightarrow> string \<Rightarrow> (int \<times> int) option) \<Rightarrow> ('s \<Rightarrow> ledger_entry list) \<Rightarrow> 's \<Rightarrow> 's \<Rightarrow> string \<Rightarrow> int \<Rightarrow> int \<Rightarrow>
   ledger_entry_type \<Rightarrow> int \<Rightarrow> ledger_entry \<Rightarrow> bool" where
  "posted bal log s s' u da df ty amount e \<longleftrightarrow>
     (\<exists>x y. bal s u = Some (x, y) \<and> bal s' = (bal s)(u \<mapsto> (x + da, y + df)) \<and> balance_after e = x + da) \<and>
     log s' = log s @ [e] \<and> le_user_id e = u \<and> entry_type e = ty \<and> le_amount e = amount"

locale account_repository =
  fixes bal :: "'s \<Rightarrow> string \<Rightarrow> (int \<times> int) option"
    and log :: "'s \<Rightarrow> ledger_entry list"
    and inv :: "'s \<Rightarrow> bool"
    and deposit :: "string \<Rightarrow> int \<Rightarrow> ('s, account \<times> ledger_entry) act"
    and withdraw :: "string \<Rightarrow> int \<Rightarrow> ('s, account \<times> ledger_entry) act"
    and freeze :: "string \<Rightarrow> int \<Rightarrow> string \<Rightarrow> string \<Rightarrow> string \<Rightarrow> ('s, account \<times> ledger_entry) act"
    and unfreeze :: "string \<Rightarrow> int \<Rightarrow> string \<Rightarrow> string \<Rightarrow> string \<Rightarrow> ('s, account \<times> ledger_entry) act"
  assumes deposit_law: "inv s \<Longrightarrow> deposit u n s = (Inr (a, e), s') \<Longrightarrow>
      inv s' \<and> posted bal log s s' u n 0 DEPOSIT n e"
    and withdraw_law: "inv s \<Longrightarrow> withdraw u n s = (Inr (a, e), s') \<Longrightarrow>
      inv s' \<and> posted bal log s s' u (- n) 0 WITHDRAW (- n) e"
    and freeze_law: "inv s \<Longrightarrow> freeze u n rt ri ds s = (Inr (a, e), s') \<Longrightarrow>
      inv s' \<and> posted bal log s s' u (- n) n ORDER_FREEZE (- n) e"
    and unfreeze_law: "inv s \<Longrightarrow> unfreeze u n rt ri ds s = (Inr (a, e), s') \<Longrightarrow>
      inv s' \<and> posted bal log s s' u n (- n) ORDER_UNFREEZE n e"
    and nonneg: "inv s \<Longrightarrow> bal s u = Some (x, y) \<Longrightarrow> 0 \<le> x \<and> 0 \<le> y"
begin

text \<open>Nobody withdraws or freezes more than is available, or releases more than is frozen.\<close>

lemma withdraw_bound:
  assumes "inv s" and "withdraw u n s = (Inr (a, e), s')"
  shows "\<exists>x y. bal s u = Some (x, y) \<and> n \<le> x"
  using withdraw_law [OF assms] nonneg [of s' u] by (fastforce simp: posted_def)

lemma freeze_bound:
  assumes "inv s" and "freeze u n rt ri ds s = (Inr (a, e), s')"
  shows "\<exists>x y. bal s u = Some (x, y) \<and> n \<le> x"
  using freeze_law [OF assms] nonneg [of s' u] by (fastforce simp: posted_def)

lemma unfreeze_bound:
  assumes "inv s" and "unfreeze u n rt ri ds s = (Inr (a, e), s')"
  shows "\<exists>x y. bal s u = Some (x, y) \<and> n \<le> y"
  using unfreeze_law [OF assms] nonneg [of s' u] by (fastforce simp: posted_def)

lemma posted_inverse:
  assumes "posted bal log s s1 u da df ty n e" and "posted bal log s1 s2 u (- da) (- df) ty' (- n) e'"
  shows "bal s2 = bal s \<and> log s2 = log s @ [e, e'] \<and> le_amount e + le_amount e' = 0"
  using assms by (auto simp: posted_def fun_eq_iff split: if_splits)

lemma deposit_withdraw:
  assumes "inv s" and "deposit u n s = (Inr (a, e), s1)" and "withdraw u n s1 = (Inr (a', e'), s2)"
  shows "inv s2 \<and> bal s2 = bal s \<and> log s2 = log s @ [e, e'] \<and> le_amount e + le_amount e' = 0"
proof -
  note one = deposit_law [OF assms(1,2)]
  note two = withdraw_law [OF _ assms(3)]
  show ?thesis using one two posted_inverse [of s s1 u n 0 DEPOSIT n e s2 WITHDRAW e'] by simp
qed

lemma freeze_unfreeze:
  assumes "inv s" and "freeze u n rt ri ds s = (Inr (a, e), s1)"
    and "unfreeze u n rt' ri' ds' s1 = (Inr (a', e'), s2)"
  shows "inv s2 \<and> bal s2 = bal s \<and> log s2 = log s @ [e, e'] \<and> le_amount e + le_amount e' = 0"
proof -
  note one = freeze_law [OF assms(1,2)]
  note two = unfreeze_law [OF _ assms(3)]
  show ?thesis using one two posted_inverse [of s s1 u "- n" n ORDER_FREEZE "- n" e s2 ORDER_UNFREEZE e'] by simp
qed

end

section \<open>The SQL repository satisfies it\<close>

definition balances :: "db \<Rightarrow> string \<Rightarrow> (int \<times> int) option" where
  "balances d u = map_option (\<lambda>a. (available_balance a, frozen_balance a)) (acct d u)"

lemma insert_ledger_returning_ok:
  assumes "insert_ledger_returning u ty amount bal rt ri ds d = (Inr e, d')"
  shows "accounts d' = accounts d \<and> ledger_entries d' = ledger_entries d @ [e] \<and>
    le_user_id e = u \<and> entry_type e = ty \<and> le_amount e = amount \<and> balance_after e = bal \<and>
    le_id e = ledger_seq d + 1 \<and> ledger_seq d' = ledger_seq d + 1"
  using assms
  by (auto simp: insert_ledger_returning_def ok_simps next_ledger_id_def Let_def sql_insert_ok_iff)

lemma keeps_wf_insert_ledger_returning [pres_intros]:
  "keeps wf_db (insert_ledger_returning u ty amount bal rt ri ds)"
  unfolding insert_ledger_returning_def Let_def by (intro pres_intros)

text \<open>An update with a condition on the account: the row it returns and what it leaves.\<close>

lemma guarded_account_update:
  assumes "update_accounts (\<lambda>a. acc_user_id a = u \<and> Q a) f d = (Inr (a # rows), d')"
    and "\<And>a. acc_user_id (f a) = acc_user_id a" and "wf_db d"
  obtains b where "acct d u = Some b" and "Q b" and "a = f b"
    and "\<And>v. acct d' v = (if v = u then Some (f b) else acct d v)"
    and "ledger_entries d' = ledger_entries d" and "wf_db d'"
proof -
  have rows: "filter (\<lambda>a. acc_user_id a = u \<and> Q a) (accounts d) =
      (case acct d u of None \<Rightarrow> [] | Some b \<Rightarrow> if Q b then [b] else [])"
    using filter_key_lookup [OF wf_distinct_accounts [OF assms(3)], of u Q] by (simp add: acct_def)
  have upd: "a # rows = map f (filter (\<lambda>a. acc_user_id a = u \<and> Q a) (accounts d))"
    "d' = d\<lparr>accounts := update_where (\<lambda>a. acc_user_id a = u \<and> Q a) f (accounts d)\<rparr>"
    using assms(1) by (simp_all add: sql_update_ok_iff)
  then obtain b where b: "acct d u = Some b" "Q b" "a = f b"
    using rows by (cases "acct d u") (auto split: if_splits)
  have "acct d' v = (if v = u then Some (f b) else acct d v)" for v
    using b upd(2) lookup_row_update_guarded [of acc_user_id f v u Q] assms(2) by (simp add: acct_def)
  moreover have "wf_db d'" by (rule keepsD [OF keeps_wf_update_accounts assms(3,1)]) (rule assms(2))
  ultimately show thesis using b upd(2) by (intro that) auto
qed

lemma guarded_account_none:
  assumes "update_accounts (\<lambda>a. acc_user_id a = u \<and> Q a) f d = (Inr [], d')" and "wf_db d"
  shows "d' = d \<and> (\<forall>b. acct d u = Some b \<longrightarrow> \<not> Q b)"
proof -
  have none: "filter (\<lambda>a. acc_user_id a = u \<and> Q a) (accounts d) = []"
    using assms(1) by (auto simp: sql_update_ok_iff)
  then have "update_where (\<lambda>a. acc_user_id a = u \<and> Q a) f (accounts d) = accounts d"
    by (auto simp: filter_empty_conv)
  moreover have "\<not> Q b" if "acct d u = Some b" for b
    using none that by (auto simp: filter_empty_conv acct_def dest!: lookup_row_SomeD)
  ultimately show ?thesis using assms(1) by (auto simp: sql_update_ok_iff)
qed

lemma guarded_account_posted:
  assumes "update_accounts (\<lambda>a. acc_user_id a = u \<and> Q a) f d = (Inr (a # rows), d1)" and "wf_db d"
    and "insert_ledger_returning u ty amount (available_balance a) rt ri ds d1 = (Inr e, d')"
    and "\<And>a. acc_user_id (f a) = acc_user_id a"
    and "\<And>a. available_balance (f a) = available_balance a + da"
    and "\<And>a. frozen_balance (f a) = frozen_balance a + df"
  shows "wf_db d' \<and> posted balances ledger_entries d d' u da df ty amount e"
proof -
  obtain b where b: "acct d u = Some b" "a = f b"
    and acct1: "\<And>v. acct d1 v = (if v = u then Some (f b) else acct d v)"
    and "ledger_entries d1 = ledger_entries d" and wf1: "wf_db d1"
    using guarded_account_update [OF assms(1,4,2)] by metis
  moreover note insert_ledger_returning_ok [OF assms(3)]
  moreover have "wf_db d'" by (rule keepsD [OF keeps_wf_insert_ledger_returning wf1 assms(3)])
  moreover have "balances d' = balances d1"
    using calculation(6) by (simp add: balances_def acct_def fun_eq_iff)
  ultimately show ?thesis
    by (auto simp: posted_def balances_def fun_eq_iff assms(5,6))
qed

interpretation acc: account_repository balances ledger_entries wf_db
  repo_deposit repo_withdraw repo_freeze_funds repo_unfreeze_funds
proof (unfold_locales, goal_cases)
  case (1 d u n a e d')
  then obtain rows d1 where "update_accounts (\<lambda>a. acc_user_id a = u \<and> True)
      (\<lambda>a. a\<lparr>available_balance := available_balance a + n, acc_version := acc_version a + 1\<rparr>) d = (Inr (a # rows), d1)"
    and "insert_ledger_returning u DEPOSIT n (available_balance a) ''DEPOSIT'' None ''Simulated deposit'' d1 = (Inr e, d')"
    by (auto simp: repo_deposit_def deposit_sql_def ok_simps neq_Nil_conv split: list.splits)
  from guarded_account_posted [OF this(1) 1(1) this(2)] show ?case by simp
next
  case (2 d u n a e d')
  then obtain rows d1 where "update_accounts (\<lambda>a. acc_user_id a = u \<and> n \<le> available_balance a)
      (\<lambda>a. a\<lparr>available_balance := available_balance a - n, acc_version := acc_version a + 1\<rparr>) d = (Inr (a # rows), d1)"
    and "insert_ledger_returning u WITHDRAW (- n) (available_balance a) ''WITHDRAW'' None ''Simulated withdrawal'' d1 = (Inr e, d')"
    by (auto simp: repo_withdraw_def withdraw_sql_def insufficient_def get_account_sql_def ok_simps neq_Nil_conv split: list.splits)
  from guarded_account_posted [OF this(1) 2(1) this(2)] show ?case by simp
next
  case (3 d u n rt ri ds a e d')
  then obtain rows d1 where "update_accounts (\<lambda>a. acc_user_id a = u \<and> n \<le> available_balance a)
      (\<lambda>a. a\<lparr>available_balance := available_balance a - n, frozen_balance := frozen_balance a + n,
             acc_version := acc_version a + 1\<rparr>) d = (Inr (a # rows), d1)"
    and "insert_ledger_returning u ORDER_FREEZE (- n) (available_balance a) rt (Some ri) ds d1 = (Inr e, d')"
    by (auto simp: repo_freeze_funds_def repo_freeze_funds_sql_def insufficient_def get_account_sql_def ok_simps neq_Nil_conv split: list.splits)
  from guarded_account_posted [OF this(1) 3(1) this(2)] show ?case by simp
next
  case (4 d u n rt ri ds a e d')
  then obtain rows d1 where "update_accounts (\<lambda>a. acc_user_id a = u \<and> n \<le> frozen_balance a)
      (\<lambda>a. a\<lparr>available_balance := available_balance a + n, frozen_balance := frozen_balance a - n,
             acc_version := acc_version a + 1\<rparr>) d = (Inr (a # rows), d1)"
    and "insert_ledger_returning u ORDER_UNFREEZE n (available_balance a) rt (Some ri) ds d1 = (Inr e, d')"
    by (auto simp: repo_unfreeze_funds_def repo_unfreeze_funds_sql_def insufficient_def get_account_sql_def ok_simps neq_Nil_conv split: list.splits)
  from guarded_account_posted [OF this(1) 4(1) this(2)] show ?case by simp
next
  case (5 d u x y)
  then show ?case using wf_ck_acct by (auto simp: balances_def ck_account_def)
qed

section \<open>The application service\<close>

record balance_response =
  bal_user_id :: string
  bal_available_cents :: int
  bal_available_display :: string
  bal_frozen_cents :: int
  bal_frozen_display :: string
  bal_total_cents :: int
  bal_total_display :: string

definition balance_from_cents :: "string \<Rightarrow> int \<Rightarrow> int \<Rightarrow> balance_response" where
  "balance_from_cents u avail frozen =
     \<lparr>bal_user_id = u,
      bal_available_cents = avail, bal_available_display = cents_to_display avail,
      bal_frozen_cents = frozen, bal_frozen_display = cents_to_display frozen,
      bal_total_cents = avail + frozen, bal_total_display = cents_to_display (avail + frozen)\<rparr>"

record posting_response =
  pr_available_cents :: int
  pr_available_display :: string
  pr_amount_cents :: int
  pr_amount_display :: string
  pr_ledger_entry_id :: int

text \<open>\<open>DepositResponse.from_result\<close> and \<open>WithdrawResponse.from_result\<close>, which have the same fields
  up to their names.\<close>

definition posting_from_result :: "int \<Rightarrow> int \<Rightarrow> int \<Rightarrow> posting_response" where
  "posting_from_result avail amount entry =
     \<lparr>pr_available_cents = avail, pr_available_display = cents_to_display avail,
      pr_amount_cents = amount, pr_amount_display = cents_to_display amount,
      pr_ledger_entry_id = entry\<rparr>"

definition get_balance :: "string \<Rightarrow> (db, balance_response) act" where
  "get_balance u =
     bind_act (get_account_by_user_id u) (\<lambda>row.
     case row of
       None \<Rightarrow> raise (InternalError (''Account not found for user '' @ u))
     | Some a \<Rightarrow> ret (balance_from_cents u (available_balance a) (frozen_balance a)))"

definition account_deposit :: "string \<Rightarrow> int \<Rightarrow> (db, posting_response) act" where
  "account_deposit u amount =
     bind_act (commit_or_rollback (repo_deposit u amount)) (\<lambda>(a, e).
     ret (posting_from_result (available_balance a) amount (le_id e)))"

definition account_withdraw :: "string \<Rightarrow> int \<Rightarrow> (db, posting_response) act" where
  "account_withdraw u amount =
     bind_act (commit_or_rollback (repo_withdraw u amount)) (\<lambda>(a, e).
     ret (posting_from_result (available_balance a) amount (le_id e)))"

text \<open>
  The methods for other modules: they hand the call to the repository and leave the transaction
  to the caller.
\<close>

definition account_freeze_funds ::
  "string \<Rightarrow> int \<Rightarrow> string \<Rightarrow> string \<Rightarrow> string \<Rightarrow> (db, account \<times> ledger_entry) act" where
  "account_freeze_funds = repo_freeze_funds"

definition account_unfreeze_funds ::
  "string \<Rightarrow> int \<Rightarrow> string \<Rightarrow> string \<Rightarrow> string \<Rightarrow> (db, account \<times> ledger_entry) act" where
  "account_unfreeze_funds = repo_unfreeze_funds"

definition account_get_or_create_position :: "string \<Rightarrow> string \<Rightarrow> (db, position) act" where
  "account_get_or_create_position = get_or_create_position"

definition account_freeze_yes :: "string \<Rightarrow> string \<Rightarrow> int \<Rightarrow> (db, position) act" where
  "account_freeze_yes = freeze_yes_position"

definition account_unfreeze_yes :: "string \<Rightarrow> string \<Rightarrow> int \<Rightarrow> (db, position) act" where
  "account_unfreeze_yes = unfreeze_yes_position"

definition account_freeze_no :: "string \<Rightarrow> string \<Rightarrow> int \<Rightarrow> (db, position) act" where
  "account_freeze_no = freeze_no_position"

definition account_unfreeze_no :: "string \<Rightarrow> string \<Rightarrow> int \<Rightarrow> (db, position) act" where
  "account_unfreeze_no = unfreeze_no_position"

text \<open>\<open>DepositRequest\<close> and \<open>WithdrawRequest\<close> admit these amounts.\<close>

definition valid_amount :: "int \<Rightarrow> bool" where
  "valid_amount amount_cents \<longleftrightarrow> 0 < amount_cents \<and> amount_cents \<le> 10000000"

text \<open>The time stamp of an item is kept as the instant, without its ISO rendering.\<close>

record ledger_item =
  li_id :: int
  li_entry_type :: string
  li_amount_cents :: int
  li_amount_display :: string
  li_balance_after_cents :: int
  li_balance_after_display :: string
  li_reference_type :: "string option"
  li_reference_id :: "string option"
  li_description :: "string option"
  li_created_at :: int

definition ledger_item_of :: "ledger_entry \<Rightarrow> ledger_item" where
  "ledger_item_of e =
     \<lparr>li_id = le_id e, li_entry_type = ledger_type_name (entry_type e),
      li_amount_cents = le_amount e, li_amount_display = cents_to_display (le_amount e),
      li_balance_after_cents = balance_after e,
      li_balance_after_display = cents_to_display (balance_after e),
      li_reference_type = reference_type e, li_reference_id = reference_id e,
      li_description = le_description e, li_created_at = le_created_at e\<rparr>"

record ledger_response =
  lr_items :: "ledger_item list"
  lr_next_cursor :: "string option"
  lr_has_more :: bool

text \<open>
  \<open>decode\<close> stands for the reading of a cursor that a client sends (Base64, then JSON, then
  \<open>int\<close>; \<open>None\<close> when any of them raises).
\<close>

definition cursor_decode :: "(string \<Rightarrow> int option) \<Rightarrow> string option \<Rightarrow> int option" where
  "cursor_decode decode cursor = (case cursor of None \<Rightarrow> None | Some c \<Rightarrow> decode c)"

definition list_ledger ::
  "(string \<Rightarrow> int option) \<Rightarrow> string \<Rightarrow> string option \<Rightarrow> int \<Rightarrow> string option \<Rightarrow> (db, ledger_response) act" where
  "list_ledger decode u cursor limit ty =
     (let cursor_id = cursor_decode decode cursor in
      bind_act (list_ledger_entries u cursor_id (limit + 1) ty) (\<lambda>entries.
      (let has_more = limit < int (length entries);
           page = py_prefix limit entries in
       ret \<lparr>lr_items = map ledger_item_of page,
            lr_next_cursor =
              (if has_more \<and> page \<noteq> [] then Some (cursor_encode (le_id (last page))) else None),
            lr_has_more = has_more\<rparr>)))"

section \<open>Positions queries\<close>

record position_view =
  pv_market_id :: string
  pv_yes_volume :: int
  pv_yes_cost_sum :: int
  pv_no_volume :: int
  pv_no_cost_sum :: int

definition position_to_dict :: "position \<Rightarrow> position_view" where
  "position_to_dict p =
     \<lparr>pv_market_id = pos_market_id p, pv_yes_volume = yes_volume p, pv_yes_cost_sum = yes_cost_sum p,
      pv_no_volume = no_volume p, pv_no_cost_sum = no_cost_sum p\<rparr>"

definition list_positions :: "string \<Rightarrow> (db, position_view list) act" where
  "list_positions u =
     reads (\<lambda>d. map position_to_dict (sort_key pos_market_id
       (filter (\<lambda>p. pos_user_id p = u \<and> (0 < yes_volume p \<or> 0 < no_volume p)) (positions d))))"

definition get_position :: "string \<Rightarrow> string \<Rightarrow> (db, position_view) act" where
  "get_position u m =
     bind_act (reads (\<lambda>d. posn d u m)) (\<lambda>row.
     case row of
       None \<Rightarrow> raise (AppError 3001 (''Position not found: '' @ m) 404)
     | Some p \<Rightarrow> ret (position_to_dict p))"

section \<open>What a posting does to the totals\<close>

definition balance_total :: "(int \<times> int) option \<Rightarrow> int" where
  "balance_total b = (case b of None \<Rightarrow> 0 | Some (x, y) \<Rightarrow> x + y)"

lemma dom_balances: "dom (balances d) = acc_user_id ` set (accounts d)"
  using acct_None_iff by (auto simp: balances_def dom_def account_ids_def)

lemma funds_as_sum:
  assumes "wf_db d"
  shows "funds d = (\<Sum>u \<in> dom (balances d). balance_total (balances d u))"
proof -
  note dist = wf_distinct_accounts [OF assms]
  have row: "balance_total (balances d (acc_user_id a)) = acc_funds a" if "a \<in> set (accounts d)" for a
    using lookup_row_key [OF dist that] by (simp add: balances_def acct_def balance_total_def acc_funds_def)
  have "funds d = sum_list (map (\<lambda>a. balance_total (balances d (acc_user_id a))) (accounts d))"
    unfolding funds_def col_sum_def by (intro arg_cong [of _ _ sum_list] map_cong) (simp_all add: row)
  also have "\<dots> = sum_list (map (\<lambda>u. balance_total (balances d u)) (map acc_user_id (accounts d)))"
    by (simp add: comp_def)
  also have "\<dots> = (\<Sum>u \<in> set (map acc_user_id (accounts d)). balance_total (balances d u))"
    by (rule sum_list_distinct_conv_sum_set [OF dist])
  finally show ?thesis by (simp add: dom_balances)
qed

lemma posted_totals:
  assumes "posted balances ledger_entries d d' u da df ty amount e" and "wf_db d" and "wf_db d'"
  shows "funds d' = funds d + da + df"
    and "net_deposits d' = net_deposits d + (if ty \<in> {DEPOSIT, WITHDRAW} then amount else 0)"
proof -
  obtain x y where b: "balances d u = Some (x, y)" and b': "balances d' = (balances d)(u \<mapsto> (x + da, y + df))"
    using assms(1) by (auto simp: posted_def)
  have dom: "dom (balances d') = dom (balances d)" "u \<in> dom (balances d)" "finite (dom (balances d))"
    using b b' by (auto simp: dom_balances [symmetric]) (simp add: dom_balances)
  have "(\<Sum>v \<in> dom (balances d) - {u}. balance_total (balances d' v)) =
        (\<Sum>v \<in> dom (balances d) - {u}. balance_total (balances d v))"
    by (rule sum.cong) (auto simp: b')
  then show "funds d' = funds d + da + df"
    unfolding funds_as_sum [OF assms(2)] funds_as_sum [OF assms(3)] dom(1)
    using sum.remove [OF dom(3,2), of "\<lambda>v. balance_total (balances d' v)"]
      sum.remove [OF dom(3,2), of "\<lambda>v. balance_total (balances d v)"]
    by (simp add: b b' balance_total_def)
  show "net_deposits d' = net_deposits d + (if ty \<in> {DEPOSIT, WITHDRAW} then amount else 0)"
    using assms(1) by (simp add: posted_def net_deposits_def)
qed

section \<open>When a posting succeeds\<close>

text \<open>The sequence of the ledger is ahead of its entries, as \<open>BIGSERIAL\<close> keeps it.\<close>

definition seq_ahead :: "db \<Rightarrow> bool" where
  "seq_ahead d \<longleftrightarrow> (\<forall>e \<in> set (ledger_entries d). le_id e \<le> ledger_seq d) \<and> in_int8 (ledger_seq d + 1)"

lemma insert_ledger_returning_run:
  assumes "seq_ahead d" and "in_int8 amount" and "in_int8 b" and "0 \<le> b" and "varchar 64 u"
    and "varchar 30 rt" and "varchar_opt 64 ri" and "varchar 500 ds"
  shows "\<exists>e d'. insert_ledger_returning u ty amount b rt ri ds d = (Inr e, d')"
  using assms
  by (force simp: insert_ledger_returning_def bind_act_def next_ledger_id_def Let_def sql_insert_def
      list_ex_iff ck_ledger_def ledger_clash_def seq_ahead_def varchar_opt_def)

lemma account_row_update:
  assumes "wf_db d" and "acct d u = Some a" and "acc_user_id (f a) = u"
  shows "update_accounts (\<lambda>a. acc_user_id a = u \<and> Q a) f d =
    (if \<not> Q a then (Inr [], d)
     else if ck_account (f a) then (Inr [f a], d\<lparr>accounts := update_where (\<lambda>a. acc_user_id a = u \<and> Q a) f (accounts d)\<rparr>)
     else (Inl (DBError ''accounts''), d))"
proof -
  have rows: "filter (\<lambda>a. acc_user_id a = u \<and> Q a) (accounts d) = (if Q a then [a] else [])"
    using filter_key_lookup [OF wf_distinct_accounts [OF assms(1)], of u Q] assms(2) by (simp add: acct_def)
  then have "\<not> Q a \<Longrightarrow> update_where (\<lambda>a. acc_user_id a = u \<and> Q a) f (accounts d) = accounts d"
    by (auto simp: filter_empty_conv)
  then show ?thesis by (simp add: sql_update_def rows)
qed

lemma acct_user_id: "acct d u = Some a \<Longrightarrow> acc_user_id a = u"
  by (auto simp: acct_def dest!: lookup_row_SomeD)

lemma seq_ahead_accounts [simp]: "seq_ahead (d\<lparr>accounts := rows\<rparr>) = seq_ahead d"
  by (simp add: seq_ahead_def)

lemmas account_row_update_all = account_row_update [where Q = "\<lambda>_. True", simplified]

text \<open>Both services: the repository's step committed, then the response.\<close>

lemma account_deposit_ok_iff:
  "account_deposit u n d = (Inr resp, d') \<longleftrightarrow>
     (\<exists>a e. repo_deposit u n d = (Inr (a, e), d') \<and>
        resp = posting_from_result (available_balance a) n (le_id e))"
  by (auto simp: account_deposit_def ok_simps commit_or_rollback_ok)

lemma account_withdraw_ok_iff:
  "account_withdraw u n d = (Inr resp, d') \<longleftrightarrow>
     (\<exists>a e. repo_withdraw u n d = (Inr (a, e), d') \<and>
        resp = posting_from_result (available_balance a) n (le_id e))"
  by (auto simp: account_withdraw_def ok_simps commit_or_rollback_ok)

lemma repo_deposit_run:
  assumes "wf_db d" and "seq_ahead d" and "acct d u = Some a" and "0 < n"
    and "in_int8 (available_balance a + n)" and "in_int8 (acc_version a + 1)"
  shows "\<exists>e d'. repo_deposit u n d = (Inr (a\<lparr>available_balance := available_balance a + n,
      acc_version := acc_version a + 1\<rparr>, e), d') \<and> le_id e = ledger_seq d + 1"
proof -
  let ?f = "\<lambda>a. a\<lparr>available_balance := available_balance a + n, acc_version := acc_version a + 1\<rparr>"
  let ?d1 = "d\<lparr>accounts := update_where (\<lambda>a. acc_user_id a = u) ?f (accounts d)\<rparr>"
  note ck = wf_ck_acct [OF assms(1,3)] acct_user_id [OF assms(3)]
  then have "deposit_sql u n d = (Inr [?f a], ?d1)"
    using assms account_row_update_all [OF assms(1,3), of ?f] by (simp add: deposit_sql_def ck_account_def)
  moreover have "in_int8 n" using ck assms(4,5) by (simp add: ck_account_def in_int8_def)
  then obtain e d' where "insert_ledger_returning u DEPOSIT n (available_balance a + n) ''DEPOSIT'' None
      ''Simulated deposit'' ?d1 = (Inr e, d')"
    using insert_ledger_returning_run [of ?d1 n "available_balance a + n" u "''DEPOSIT''" None "''Simulated deposit''" DEPOSIT]
      assms ck by (auto simp: ck_account_def varchar_def varchar_opt_def)
  ultimately show ?thesis
    using insert_ledger_returning_ok by (fastforce simp: repo_deposit_def bind_act_def)
qed

text \<open>A deposit by a user with an account succeeds exactly when the new balance fits its column; it
  adds the amount to the available balance, writes one ledger entry whose \<open>balance_after\<close> is
  that balance, and raises the money in the system and the net deposits by the amount; a
  deposit that does not fit leaves every table as it was.\<close>

theorem deposit_outcome:
  assumes "wf_db d" and "seq_ahead d" and "acct d u = Some a" and "0 < n"
    and "in_int8 (acc_version a + 1)"
  shows "if in_int8 (available_balance a + n)
    then \<exists>e d'. account_deposit u n d =
           (Inr (posting_from_result (available_balance a + n) n (ledger_seq d + 1)), d') \<and>
         wf_db d' \<and> posted balances ledger_entries d d' u n 0 DEPOSIT n e \<and>
         funds d' = funds d + n \<and> net_deposits d' = net_deposits d + n
    else \<exists>d'. account_deposit u n d = (Inl (DBError ''accounts''), d') \<and> same_tables d d'"
proof (cases "in_int8 (available_balance a + n)")
  case True
  obtain e d' where run: "repo_deposit u n d = (Inr (a\<lparr>available_balance := available_balance a + n,
      acc_version := acc_version a + 1\<rparr>, e), d')" and id: "le_id e = ledger_seq d + 1"
    using repo_deposit_run [OF assms(1-4) True assms(5)] by blast
  note law = acc.deposit_law [OF assms(1) run]
  have "account_deposit u n d =
      (Inr (posting_from_result (available_balance a + n) n (ledger_seq d + 1)), d')"
    using run id by (simp add: account_deposit_ok_iff)
  then show ?thesis using law posted_totals [of d d' u n 0 DEPOSIT n e] True assms(1) by auto
next
  case False
  then have "deposit_sql u n d = (Inl (DBError ''accounts''), d)"
    using account_row_update_all [OF assms(1,3), of "\<lambda>a. a\<lparr>available_balance := available_balance a + n,
      acc_version := acc_version a + 1\<rparr>"] acct_user_id [OF assms(3)]
    by (simp add: deposit_sql_def ck_account_def)
  then have "repo_deposit u n d = (Inl (DBError ''accounts''), d)" by (simp add: repo_deposit_def)
  then have "account_deposit u n d = (Inl (DBError ''accounts''), rollback_to d d)"
    by (simp add: account_deposit_def commit_or_rollback_def on_error_def)
  with False show ?thesis using same_tables_rollback by auto
qed

lemma repo_withdraw_run:
  assumes "wf_db d" and "seq_ahead d" and "acct d u = Some a" and "0 < n"
    and "n \<le> available_balance a" and "in_int8 (acc_version a + 1)"
  shows "\<exists>e d'. repo_withdraw u n d = (Inr (a\<lparr>available_balance := available_balance a - n,
      acc_version := acc_version a + 1\<rparr>, e), d') \<and> le_id e = ledger_seq d + 1"
proof -
  let ?f = "\<lambda>a. a\<lparr>available_balance := available_balance a - n, acc_version := acc_version a + 1\<rparr>"
  let ?d1 = "d\<lparr>accounts := update_where (\<lambda>a. acc_user_id a = u \<and> n \<le> available_balance a) ?f (accounts d)\<rparr>"
  note ck = wf_ck_acct [OF assms(1,3)] acct_user_id [OF assms(3)]
  then have range: "in_int8 (available_balance a - n)" "in_int8 (- n)"
    using assms(4,5) by (simp_all add: ck_account_def in_int8_def)
  then have "withdraw_sql u n d = (Inr [?f a], ?d1)"
    using assms ck account_row_update [OF assms(1,3), of ?f "\<lambda>a. n \<le> available_balance a"]
    by (simp add: withdraw_sql_def ck_account_def)
  moreover obtain e d' where "insert_ledger_returning u WITHDRAW (- n) (available_balance a - n) ''WITHDRAW'' None
      ''Simulated withdrawal'' ?d1 = (Inr e, d')"
    using insert_ledger_returning_run [of ?d1 "- n" "available_balance a - n" u "''WITHDRAW''" None
        "''Simulated withdrawal''" WITHDRAW] assms ck range
    by (auto simp: ck_account_def varchar_def varchar_opt_def)
  ultimately show ?thesis
    using insert_ledger_returning_ok by (fastforce simp: repo_withdraw_def bind_act_def)
qed

text \<open>A withdrawal is granted exactly when the amount is available: then the amount
  leaves the available balance, the ledger and the totals; otherwise it is refused with the
  balance it found and no table changes.\<close>

theorem withdraw_outcome:
  assumes "wf_db d" and "seq_ahead d" and "acct d u = Some a" and "0 < n"
    and "in_int8 (acc_version a + 1)"
  shows "if n \<le> available_balance a
    then \<exists>e d'. account_withdraw u n d =
           (Inr (posting_from_result (available_balance a - n) n (ledger_seq d + 1)), d') \<and>
         wf_db d' \<and> posted balances ledger_entries d d' u (- n) 0 WITHDRAW (- n) e \<and>
         funds d' = funds d - n \<and> net_deposits d' = net_deposits d - n
    else \<exists>d'. account_withdraw u n d = (Inl (InsufficientBalanceError n (available_balance a)), d') \<and>
         same_tables d d'"
proof (cases "n \<le> available_balance a")
  case True
  obtain e d' where run: "repo_withdraw u n d = (Inr (a\<lparr>available_balance := available_balance a - n,
      acc_version := acc_version a + 1\<rparr>, e), d')" and id: "le_id e = ledger_seq d + 1"
    using repo_withdraw_run [OF assms(1-4) True assms(5)] by blast
  note law = acc.withdraw_law [OF assms(1) run]
  have "account_withdraw u n d =
      (Inr (posting_from_result (available_balance a - n) n (ledger_seq d + 1)), d')"
    using run id by (simp add: account_withdraw_ok_iff)
  then show ?thesis using law posted_totals [of d d' u "- n" 0 WITHDRAW "- n" e] True assms(1) by auto
next
  case False
  then have "withdraw_sql u n d = (Inr [], d)"
    using account_row_update [OF assms(1,3), of "\<lambda>a. a\<lparr>available_balance := available_balance a - n,
      acc_version := acc_version a + 1\<rparr>" "\<lambda>a. n \<le> available_balance a"] acct_user_id [OF assms(3)]
    by (simp add: withdraw_sql_def)
  then have "repo_withdraw u n d = (Inl (InsufficientBalanceError n (available_balance a)), d)"
    using assms(3) by (simp add: repo_withdraw_def insufficient_def get_account_sql_def bind_act_def)
  then have "account_withdraw u n d =
      (Inl (InsufficientBalanceError n (available_balance a)), rollback_to d d)"
    by (simp add: account_withdraw_def commit_or_rollback_def on_error_def)
  with False show ?thesis using same_tables_rollback by auto
qed

text \<open>Withdrawing what was just deposited restores every balance, the money in the system and
  the net deposits; the two ledger entries stay and cancel out.\<close>

theorem deposit_withdraw_restores:
  assumes "wf_db d" and "account_deposit u n d = (Inr r1, d1)" and "account_withdraw u n d1 = (Inr r2, d2)"
  shows "wf_db d2 \<and> balances d2 = balances d \<and> funds d2 = funds d \<and> net_deposits d2 = net_deposits d \<and>
    (\<exists>e e'. ledger_entries d2 = ledger_entries d @ [e, e'] \<and> le_amount e + le_amount e' = 0)"
proof -
  obtain a e a' e' where r: "repo_deposit u n d = (Inr (a, e), d1)" "repo_withdraw u n d1 = (Inr (a', e'), d2)"
    using assms(2,3) by (auto simp: account_deposit_ok_iff account_withdraw_ok_iff)
  note both = acc.deposit_withdraw [OF assms(1) r]
  then have "funds d2 = funds d" using assms(1) by (simp add: funds_as_sum)
  moreover have "net_deposits d2 = net_deposits d"
    using acc.deposit_law [OF assms(1) r(1)] acc.withdraw_law [OF _ r(2)] both
    by (simp add: net_deposits_def posted_def)
  ultimately show ?thesis using both by blast
qed

text \<open>Freezing funds for an order and releasing them restores every balance, and no money is
  created or lost on the way; only what is available can be frozen.\<close>

theorem freeze_unfreeze_restores:
  assumes "wf_db d" and "repo_freeze_funds u n rt ri ds d = (Inr (a, e), d1)"
    and "repo_unfreeze_funds u n rt' ri' ds' d1 = (Inr (a', e'), d2)"
  shows "wf_db d2 \<and> balances d2 = balances d \<and> funds d1 = funds d \<and> funds d2 = funds d \<and>
    (\<exists>x y. balances d u = Some (x, y) \<and> n \<le> x)"
proof -
  note both = acc.freeze_unfreeze [OF assms]
  note one = acc.freeze_law [OF assms(1,2)]
  have "funds d1 = funds d"
    using posted_totals(1) [of d d1 u "- n" n ORDER_FREEZE "- n" e] one assms(1) by simp
  moreover have "funds d2 = funds d" using both assms(1) by (simp add: funds_as_sum)
  ultimately show ?thesis using both acc.freeze_bound [OF assms(1,2)] by simp
qed

section \<open>Reading the whole ledger page by page\<close>

definition ledger_page ::
  "string \<times> string option \<Rightarrow> int \<Rightarrow> db \<Rightarrow> int option \<Rightarrow> ledger_item list \<times> int option" where
  "ledger_page f limit d c =
     (let entries = take (nat (limit + 1)) (desc le_id (filter (below le_id c) (ledger_rows (fst f) (snd f) d)));
          page = py_prefix limit entries in
      (map ledger_item_of page,
       if limit < int (length entries) \<and> page \<noteq> [] then Some (le_id (last page)) else None))"

interpretation ledger_pages: keyset_listing le_id ledger_item_of
  "\<lambda>f. ledger_rows (fst f) (snd f)" wf_db ledger_page
proof (unfold_locales, goal_cases)
  case (1 d f)
  then have "distinct (map le_id (ledger_entries d))" by (simp add: wf_db_def)
  then show ?case unfolding ledger_rows_def by (rule distinct_map_filter)
next
  case (2 limit d f c)
  then show ?case unfolding ledger_page_def keyset_page [OF 2(1)] by (simp add: Let_def)
qed

text \<open>What a client gets from one request, and the cursor it sends with the next.\<close>

definition ledger_client ::
  "(string \<Rightarrow> int option) \<Rightarrow> string \<Rightarrow> int \<Rightarrow> string option \<Rightarrow> db \<Rightarrow> string option \<Rightarrow>
   ledger_item list \<times> string option" where
  "ledger_client decode u limit ty d c =
     (case fst (list_ledger decode u c limit ty d) of
        Inl _ \<Rightarrow> ([], None)
      | Inr r \<Rightarrow> (lr_items r, lr_next_cursor r))"

lemma ledger_client_page:
  assumes "\<And>i. decode (cursor_encode i) = Some i" and "0 < limit"
  shows "ledger_client decode u limit ty d (map_option cursor_encode c) =
    (case ledger_page (u, ty) limit d c of (page, nxt) \<Rightarrow> (page, map_option cursor_encode nxt))"
proof -
  have "cursor_decode decode (map_option cursor_encode c) = c"
    using assms(1) by (cases c) (simp_all add: cursor_decode_def)
  then show ?thesis
    using assms(2)
    by (simp add: ledger_client_def list_ledger_def list_ledger_entries_def ledger_page_def Let_def bind_act_def
        raise_if_def)
qed

text \<open>Claim C30. A client that follows the cursors of the ledger's listing sees every entry of the user
  that passes the filter exactly once, newest first, and stops after finitely many requests,
  whatever the page size. The reader of cursors is assumed to read those the service issues.\<close>

theorem ledger_walk_complete:
  assumes "\<And>i. decode (cursor_encode i) = Some i" and "0 < limit" and "wf_db d"
    and "length (ledger_rows u ty d) < fuel"
  shows "walk fuel (ledger_client decode u limit ty d) None =
    Some (map ledger_item_of (desc le_id (ledger_rows u ty d)))"
proof -
  have "walk fuel (ledger_client decode u limit ty d) (map_option cursor_encode None) =
      walk fuel (ledger_page (u, ty) limit d) None"
    by (rule walk_encoded) (rule ledger_client_page [OF assms(1,2)])
  then show ?thesis using ledger_pages.walk_all [OF assms(2,3), of "(u, ty)" fuel] assms(4) by simp
qed

section \<open>The properties at work\<close>

definition rich_db :: db where
  "rich_db = sample_db\<lparr>ledger_seq := 7\<rparr>"

lemma rich_db_wf: "wf_db rich_db"
  by code_simp

lemma rich_db_alice: "acct rich_db ''alice'' = Some (sample_account ''alice'' 10000 0)"
  by code_simp

theorem deposit_outcome_witness:
  "\<exists>e d'. account_deposit ''alice'' 500 rich_db = (Inr (posting_from_result 10500 500 8), d') \<and>
     wf_db d' \<and> posted balances ledger_entries rich_db d' ''alice'' 500 0 DEPOSIT 500 e \<and>
     funds d' = funds rich_db + 500 \<and> net_deposits d' = net_deposits rich_db + 500"
proof -
  have "seq_ahead rich_db" "(0 :: int) < 500" "in_int8 (acc_version (sample_account ''alice'' 10000 0) + 1)"
    by code_simp+
  from deposit_outcome [OF rich_db_wf this(1) rich_db_alice this(2,3)]
  show ?thesis by (simp add: sample_account_def in_int8_def rich_db_def [THEN arg_cong [of _ _ ledger_seq]])
qed

theorem withdraw_outcome_witness:
  "\<exists>d'. account_withdraw ''alice'' 10001 rich_db = (Inl (InsufficientBalanceError 10001 10000), d') \<and>
     same_tables rich_db d'"
proof -
  have "seq_ahead rich_db" "(0 :: int) < 10001" "in_int8 (acc_version (sample_account ''alice'' 10000 0) + 1)"
    by code_simp+
  from withdraw_outcome [OF rich_db_wf this(1) rich_db_alice this(2,3)]
  show ?thesis by (simp add: sample_account_def)
qed

definition deposited_db :: db where
  "deposited_db = snd (account_deposit ''alice'' 500 rich_db)"

lemma deposited_run:
  "account_deposit ''alice'' 500 rich_db = (Inr (posting_from_result 10500 500 8), deposited_db)"
  unfolding deposited_db_def by (rule run_of_fst) code_simp

lemma withdrawn_run:
  "account_withdraw ''alice'' 500 deposited_db =
     (Inr (posting_from_result 10000 500 9), snd (account_withdraw ''alice'' 500 deposited_db))"
  by (rule run_of_fst) code_simp

theorem deposit_withdraw_restores_witness:
  "balances (snd (account_withdraw ''alice'' 500 deposited_db)) = balances rich_db \<and>
   net_deposits (snd (account_withdraw ''alice'' 500 deposited_db)) = net_deposits rich_db"
  using deposit_withdraw_restores [OF rich_db_wf deposited_run withdrawn_run] by blast

text \<open>Carol has 101 cents frozen; half a dollar more is frozen for an order and released.\<close>

definition frozen_for_order :: db where
  "frozen_for_order = snd (repo_freeze_funds ''carol'' 50 ''ORDER'' ''o1'' ''buy'' rich_db)"

lemma frozen_for_order_run:
  "\<exists>a e. repo_freeze_funds ''carol'' 50 ''ORDER'' ''o1'' ''buy'' rich_db = (Inr (a, e), frozen_for_order)"
proof -
  have "case fst (repo_freeze_funds ''carol'' 50 ''ORDER'' ''o1'' ''buy'' rich_db) of Inr _ \<Rightarrow> True | Inl _ \<Rightarrow> False"
    by code_simp
  then show ?thesis
    unfolding frozen_for_order_def
    by (cases "repo_freeze_funds ''carol'' 50 ''ORDER'' ''o1'' ''buy'' rich_db") (auto split: sum.splits)
qed

lemma released_run:
  "\<exists>a e. repo_unfreeze_funds ''carol'' 50 ''ORDER'' ''o1'' ''cancel'' frozen_for_order =
     (Inr (a, e), snd (repo_unfreeze_funds ''carol'' 50 ''ORDER'' ''o1'' ''cancel'' frozen_for_order))"
proof -
  have "case fst (repo_unfreeze_funds ''carol'' 50 ''ORDER'' ''o1'' ''cancel'' frozen_for_order) of
      Inr _ \<Rightarrow> True | Inl _ \<Rightarrow> False" by code_simp
  then show ?thesis
    by (cases "repo_unfreeze_funds ''carol'' 50 ''ORDER'' ''o1'' ''cancel'' frozen_for_order")
       (auto split: sum.splits)
qed

theorem freeze_unfreeze_restores_witness:
  "balances (snd (repo_unfreeze_funds ''carol'' 50 ''ORDER'' ''o1'' ''cancel'' frozen_for_order)) = balances rich_db \<and>
   funds frozen_for_order = funds rich_db"
proof -
  obtain a e a' e' where
    "repo_freeze_funds ''carol'' 50 ''ORDER'' ''o1'' ''buy'' rich_db = (Inr (a, e), frozen_for_order)"
    "repo_unfreeze_funds ''carol'' 50 ''ORDER'' ''o1'' ''cancel'' frozen_for_order =
      (Inr (a', e'), snd (repo_unfreeze_funds ''carol'' 50 ''ORDER'' ''o1'' ''cancel'' frozen_for_order))"
    using frozen_for_order_run released_run by blast
  from freeze_unfreeze_restores [OF rich_db_wf this] show ?thesis by blast
qed

text \<open>Three entries of alice, read in pages of two.\<close>

definition ledger_entry_no :: "int \<Rightarrow> ledger_entry" where
  "ledger_entry_no i =
     \<lparr>le_id = i, le_user_id = ''alice'', entry_type = DEPOSIT, le_amount = 100 * i,
      balance_after = 100 * i, reference_type = None, reference_id = None, le_description = None,
      le_created_at = i\<rparr>"

definition ledger_db :: db where
  "ledger_db = rich_db\<lparr>ledger_entries := map ledger_entry_no [1, 2, 3]\<rparr>"

theorem ledger_walk_complete_witness:
  "walk 4 (ledger_client issued_cursor_id ''alice'' 2 None ledger_db) None =
     Some (map ledger_item_of (desc le_id (ledger_rows ''alice'' None ledger_db))) \<and>
   length (ledger_rows ''alice'' None ledger_db) = 3"
proof
  have "wf_db ledger_db" "length (ledger_rows ''alice'' None ledger_db) < 4" by code_simp+
  then show "walk 4 (ledger_client issued_cursor_id ''alice'' 2 None ledger_db) None =
     Some (map ledger_item_of (desc le_id (ledger_rows ''alice'' None ledger_db)))"
    by (intro ledger_walk_complete) simp_all
qed code_simp

end
