(* ===== verification/Users.thy ===== *)
theory Users
  imports Settlement Cursors
begin

text \<open>
  Users and tokens, \<open>pm_gateway\<close>: registration, login, refresh, the dependencies that
  authenticate a request, and the session they share with the endpoint. Parameters stand for
  the libraries: \<open>hashpw\<close> and \<open>checkpw\<close> for bcrypt (\<open>None\<close> when it rejects the stored hash),
  \<open>enc\<close> and \<open>dec\<close> for the signing and the checked reading of a token at an instant (\<open>None\<close> is
  \<open>JWTError\<close>), \<open>parse_uuid\<close> for \<open>UUID(text)\<close> printed again, \<open>new_id\<close> for the primary key that
  the database draws. The lifetimes are the defaults of \<open>config/settings.py\<close>, in seconds.
\<close>

section \<open>Sessions\<close>

text \<open>
  A request's session: its first statement begins a transaction, and \<open>async with db.begin()\<close>
  refuses a session that has one.
\<close>

record session =
  ses_db :: db
  in_transaction :: bool

definition execute :: "(db, 'a) act \<Rightarrow> (session, 'a) act" where
  "execute m = (\<lambda>s. case m (ses_db s) of (r, d) \<Rightarrow> (r, s\<lparr>ses_db := d, in_transaction := True\<rparr>))"

definition begin_block :: "(session, 'a) act \<Rightarrow> (session, 'a) act" where
  "begin_block m = (\<lambda>s.
     if in_transaction s
     then (Inl (InvalidRequestError ''A transaction is already begun on this Session.''), s)
     else
       (case m (s\<lparr>in_transaction := True\<rparr>) of
          (Inl e, s') \<Rightarrow> (Inl e, s'\<lparr>ses_db := rollback_to (ses_db s) (ses_db s'), in_transaction := False\<rparr>)
        | (Inr x, s') \<Rightarrow> (Inr x, s'\<lparr>in_transaction := False\<rparr>)))"

section \<open>Tokens\<close>

record claims =
  clm_sub :: "string option"
  clm_type :: "string option"
  clm_iat :: int
  clm_exp :: int

definition access_expire :: int where "access_expire = 30 * 60"

definition refresh_expire :: int where "refresh_expire = 7 * 24 * 60 * 60"

definition create_access_token :: "(claims \<Rightarrow> string) \<Rightarrow> int \<Rightarrow> string \<Rightarrow> string" where
  "create_access_token enc now user_id =
     enc \<lparr>clm_sub = Some user_id, clm_type = Some ''access'', clm_iat = now, clm_exp = now + access_expire\<rparr>"

definition create_refresh_token :: "(claims \<Rightarrow> string) \<Rightarrow> int \<Rightarrow> string \<Rightarrow> string" where
  "create_refresh_token enc now user_id =
     enc \<lparr>clm_sub = Some user_id, clm_type = Some ''refresh'', clm_iat = now, clm_exp = now + refresh_expire\<rparr>"

definition auth_error :: "string \<Rightarrow> exc" where
  "auth_error expected_type =
     (if expected_type = ''access'' then InvalidCredentialsError else InvalidRefreshTokenError)"

definition decode_token :: "(int \<Rightarrow> string \<Rightarrow> claims option) \<Rightarrow> int \<Rightarrow> string \<Rightarrow> string \<Rightarrow> exc + claims" where
  "decode_token dec now token expected_type =
     (case dec now token of
        None \<Rightarrow> Inl (auth_error expected_type)
      | Some c \<Rightarrow> if clm_type c \<noteq> Some expected_type then Inl (auth_error expected_type) else Inr c)"

section \<open>Requests\<close>

definition ascii_between :: "nat \<Rightarrow> nat \<Rightarrow> char \<Rightarrow> bool" where
  "ascii_between a b c \<longleftrightarrow> a \<le> of_char c \<and> of_char c \<le> b"

definition is_upper :: "char \<Rightarrow> bool" where "is_upper = ascii_between 65 90"

definition is_lower :: "char \<Rightarrow> bool" where "is_lower = ascii_between 97 122"

text \<open>The username's pattern and length, and the password's length and complexity.\<close>

definition register_request_ok :: "string \<Rightarrow> string \<Rightarrow> bool" where
  "register_request_ok name password \<longleftrightarrow>
     3 \<le> length name \<and> length name \<le> 64 \<and>
     list_all (\<lambda>c. is_upper c \<or> is_lower c \<or> is_digit c \<or> c = CHR ''_'') name \<and>
     8 \<le> length password \<and> length password \<le> 128 \<and>
     list_ex is_upper password \<and> list_ex is_lower password \<and> list_ex is_digit password"

record register_response =
  rgr_user_id :: string
  rgr_username :: string
  rgr_email :: string
  rgr_created_at :: int

record login_response =
  lgr_access_token :: string
  lgr_refresh_token :: string
  lgr_token_type :: string
  lgr_expires_in :: int
  lgr_user_id :: string
  lgr_username :: string
  lgr_email :: string

section \<open>The user service\<close>

definition user_by :: "(user \<Rightarrow> bool) \<Rightarrow> (db, user option) act" where
  "user_by P = reads (\<lambda>d. lookup_row P (users d))"

definition new_account :: "string \<Rightarrow> account" where
  "new_account u = \<lparr>acc_user_id = u, available_balance = 0, frozen_balance = 0, acc_version = 0,
     auto_netting_enabled = True\<rparr>"

definition register :: "(string \<Rightarrow> string) \<Rightarrow> string \<Rightarrow> string \<Rightarrow> string \<Rightarrow> string \<Rightarrow> (db, user) act" where
  "register hashpw new_id name mail password =
     bind_act (user_by (\<lambda>u. username u = name)) (\<lambda>found.
     bind_act (raise_if (found \<noteq> None) UsernameExistsError) (\<lambda>_.
     bind_act (user_by (\<lambda>u. email u = mail)) (\<lambda>found.
     bind_act (raise_if (found \<noteq> None) EmailExistsError) (\<lambda>_.
     (let user = \<lparr>usr_id = new_id, username = name, email = mail, password_hash = hashpw password,
                  usr_is_active = True\<rparr> in
      bind_act (insert_user user) (\<lambda>_.
      bind_act (insert_account (new_account (usr_id user))) (\<lambda>_. ret user)))))))"

definition login ::
  "(string \<Rightarrow> string \<Rightarrow> bool option) \<Rightarrow> (claims \<Rightarrow> string) \<Rightarrow> string \<Rightarrow> string \<Rightarrow>
   (db, user \<times> string \<times> string) act" where
  "login checkpw enc name password =
     bind_act (user_by (\<lambda>u. username u = name)) (\<lambda>found.
     case found of
       None \<Rightarrow> raise InvalidCredentialsError
     | Some user \<Rightarrow>
         (case checkpw password (password_hash user) of
            None \<Rightarrow> raise (ValueError ''Invalid salt'')
          | Some ok \<Rightarrow>
              bind_act (raise_if (\<not> ok) InvalidCredentialsError) (\<lambda>_.
              bind_act (raise_if (\<not> usr_is_active user) AccountDisabledError) (\<lambda>_.
              bind_act (reads clock) (\<lambda>now.
              ret (user, create_access_token enc now (usr_id user),
                   create_refresh_token enc now (usr_id user)))))))"

definition refresh ::
  "(claims \<Rightarrow> string) \<Rightarrow> (int \<Rightarrow> string \<Rightarrow> claims option) \<Rightarrow> string \<Rightarrow> (db, string) act" where
  "refresh enc dec token =
     bind_act (reads clock) (\<lambda>now.
     case decode_token dec now token ''refresh'' of
       Inl e \<Rightarrow> raise e
     | Inr claims \<Rightarrow>
         (case clm_sub claims of
            None \<Rightarrow> raise (KeyError ''sub'')
          | Some user_id \<Rightarrow> ret (create_access_token enc now user_id)))"

definition credentials_exception :: exc where
  "credentials_exception = HTTPException 401 ''Invalid or expired token''"

definition get_current_user ::
  "(int \<Rightarrow> string \<Rightarrow> claims option) \<Rightarrow> (string \<Rightarrow> string option) \<Rightarrow> string \<Rightarrow> (session, user) act" where
  "get_current_user dec parse_uuid token =
     bind_act (reads (\<lambda>s. clock (ses_db s))) (\<lambda>now.
     case decode_token dec now token ''access'' of
       Inl _ \<Rightarrow> raise credentials_exception
     | Inr claims \<Rightarrow>
         (case clm_sub claims of
            None \<Rightarrow> raise credentials_exception
          | Some user_id \<Rightarrow>
              if user_id = [] then raise credentials_exception
              else
                (case parse_uuid user_id of
                   None \<Rightarrow> raise credentials_exception
                 | Some uuid \<Rightarrow>
                     bind_act (execute (user_by (\<lambda>u. usr_id u = uuid))) (\<lambda>found.
                     case found of
                       None \<Rightarrow> raise credentials_exception
                     | Some user \<Rightarrow>
                         bind_act (raise_if (\<not> usr_is_active user) AccountDisabledError) (\<lambda>_. ret user)))))"

definition require_amm_user ::
  "(int \<Rightarrow> string \<Rightarrow> claims option) \<Rightarrow> (string \<Rightarrow> string option) \<Rightarrow> string \<Rightarrow> (session, user) act" where
  "require_amm_user dec parse_uuid token =
     bind_act (get_current_user dec parse_uuid token) (\<lambda>user.
     bind_act (raise_if (usr_id user \<noteq> AMM_USER_ID) (HTTPException 403 ''AMM system account required'')) (\<lambda>_.
     ret user))"

section \<open>The endpoints\<close>

definition register_endpoint ::
  "(string \<Rightarrow> string) \<Rightarrow> string \<Rightarrow> string \<Rightarrow> string \<Rightarrow> string \<Rightarrow> (session, register_response) act" where
  "register_endpoint hashpw new_id name mail password =
     bind_act (begin_block (execute (register hashpw new_id name mail password))) (\<lambda>user.
     bind_act (reads (\<lambda>s. clock (ses_db s))) (\<lambda>now.
     ret \<lparr>rgr_user_id = usr_id user, rgr_username = username user, rgr_email = email user,
          rgr_created_at = now\<rparr>))"

definition login_endpoint ::
  "(string \<Rightarrow> string \<Rightarrow> bool option) \<Rightarrow> (claims \<Rightarrow> string) \<Rightarrow> string \<Rightarrow> string \<Rightarrow>
   (session, login_response) act" where
  "login_endpoint checkpw enc name password =
     bind_act (execute (login checkpw enc name password)) (\<lambda>(user, access_token, refresh_token).
     ret \<lparr>lgr_access_token = access_token, lgr_refresh_token = refresh_token,
          lgr_token_type = ''Bearer'', lgr_expires_in = access_expire, lgr_user_id = usr_id user,
          lgr_username = username user, lgr_email = email user\<rparr>)"

section \<open>Registration\<close>

lemma sql_insert_run:
  "ck row \<Longrightarrow> \<not> list_ex (clash row) (tab d) \<Longrightarrow>
   sql_insert name ck clash tab put row d = (Inr (), put (\<lambda>rows. rows @ [row]) d)"
  by (simp add: sql_insert_def)

lemma rollback_to_same [simp]: "rollback_to d d = d"
  by (simp add: rollback_to_def)

text \<open>What the database must accept besides the request: the key it draws, the sizes of the columns.\<close>

definition storable :: "(string \<Rightarrow> string) \<Rightarrow> string \<Rightarrow> string \<Rightarrow> string \<Rightarrow> db \<Rightarrow> bool" where
  "storable hashpw new_id mail password d \<longleftrightarrow>
     new_id \<notin> usr_id ` set (users d) \<and> new_id \<notin> acc_user_id ` set (accounts d) \<and> length new_id \<le> 64 \<and>
     length mail \<le> 255 \<and> length (hashpw password) \<le> 255"

lemma lookup_None_image: "lookup_row (\<lambda>r. k r = x) rows = None \<longleftrightarrow> x \<notin> k ` set rows"
  by (auto simp: lookup_row_None_iff)

lemma register_runs:
  assumes "register_request_ok name password" and "storable hashpw new_id mail password d"
  shows "register hashpw new_id name mail password d =
    (if name \<in> username ` set (users d) then (Inl UsernameExistsError, d)
     else if mail \<in> email ` set (users d) then (Inl EmailExistsError, d)
     else
       (let user = \<lparr>usr_id = new_id, username = name, email = mail, password_hash = hashpw password,
                    usr_is_active = True\<rparr> in
        (Inr user, d\<lparr>users := users d @ [user], accounts := accounts d @ [new_account new_id]\<rparr>)))"
proof (cases "name \<in> username ` set (users d) \<or> mail \<in> email ` set (users d)")
  case True
  then show ?thesis
    by (cases "name \<in> username ` set (users d)")
       (simp_all add: register_def user_by_def bind_act_def raise_if_def lookup_None_image del: not_None_eq image_iff)
next
  case False
  let ?user = "\<lparr>usr_id = new_id, username = name, email = mail, password_hash = hashpw password,
                usr_is_active = True\<rparr>"
  have user: "insert_user ?user d = (Inr (), d\<lparr>users := users d @ [?user]\<rparr>)"
    using False assms
    by (subst sql_insert_run)
       (auto simp: ck_user_def varchar_def register_request_ok_def storable_def user_clash_def list_ex_iff)
  have "insert_account (new_account new_id) (d\<lparr>users := users d @ [?user]\<rparr>) =
      (Inr (), d\<lparr>users := users d @ [?user], accounts := accounts d @ [new_account new_id]\<rparr>)"
    using assms(2)
    by (subst sql_insert_run)
       (auto simp: ck_account_def varchar_def in_int8_def new_account_def storable_def account_clash_def list_ex_iff)
  with user False show ?thesis
    by (simp add: register_def user_by_def bind_act_def raise_if_def lookup_None_image Let_def del: not_None_eq)
qed

lemma register_endpoint_runs:
  assumes "register_request_ok name password" and "storable hashpw new_id mail password (ses_db s)"
    and "\<not> in_transaction s"
  shows "register_endpoint hashpw new_id name mail password s =
    (let d = ses_db s in
     if name \<in> username ` set (users d) then (Inl UsernameExistsError, s)
     else if mail \<in> email ` set (users d) then (Inl EmailExistsError, s)
     else
       (Inr \<lparr>rgr_user_id = new_id, rgr_username = name, rgr_email = mail, rgr_created_at = clock d\<rparr>,
        s\<lparr>ses_db := d\<lparr>users := users d @ [\<lparr>usr_id = new_id, username = name, email = mail,
              password_hash = hashpw password, usr_is_active = True\<rparr>],
            accounts := accounts d @ [new_account new_id]\<rparr>\<rparr>))"
  using assms(3)
  by (simp add: register_endpoint_def begin_block_def execute_def bind_act_def Let_def
      register_runs [OF assms(1,2)])

text \<open>Registration is all or nothing: with a free name and address it adds one active user and one
  empty account under the user's id and nothing else, with a name or an address that is taken it is
  refused with the error of that field, the name first, and the session is left as it was.\<close>

theorem register_outcome:
  assumes "register_request_ok name password" and "storable hashpw new_id mail password (ses_db s)"
    and "\<not> in_transaction s"
  shows "register_endpoint hashpw new_id name mail password s =
    (let d = ses_db s in
     if name \<in> username ` set (users d) then (Inl UsernameExistsError, s)
     else if mail \<in> email ` set (users d) then (Inl EmailExistsError, s)
     else
       (Inr \<lparr>rgr_user_id = new_id, rgr_username = name, rgr_email = mail, rgr_created_at = clock d\<rparr>,
        s\<lparr>ses_db := d\<lparr>users := users d @ [\<lparr>usr_id = new_id, username = name, email = mail,
              password_hash = hashpw password, usr_is_active = True\<rparr>],
            accounts := accounts d @ [new_account new_id]\<rparr>\<rparr>))"
  by (rule register_endpoint_runs [OF assms])

section \<open>From registration to an authenticated request\<close>

definition at_time :: "int \<Rightarrow> session \<Rightarrow> session" where
  "at_time t s = s\<lparr>ses_db := (ses_db s)\<lparr>clock := t\<rparr>\<rparr>"

text \<open>The token library reads back what it signed until the expiry.\<close>

lemma decode_issued:
  assumes "\<And>now c. dec now (enc c) = (if now \<le> clm_exp c then Some c else None)"
  shows "decode_token dec t (create_access_token enc now u) ''access'' =
      (if t \<le> now + access_expire
       then Inr \<lparr>clm_sub = Some u, clm_type = Some ''access'', clm_iat = now, clm_exp = now + access_expire\<rparr>
       else Inl InvalidCredentialsError)"
    and "decode_token dec t (create_refresh_token enc now u) ''refresh'' =
      (if t \<le> now + refresh_expire
       then Inr \<lparr>clm_sub = Some u, clm_type = Some ''refresh'', clm_iat = now, clm_exp = now + refresh_expire\<rparr>
       else Inl InvalidRefreshTokenError)"
    and "decode_token dec t (create_refresh_token enc now u) ''access'' = Inl InvalidCredentialsError"
    and "decode_token dec t (create_access_token enc now u) ''refresh'' = Inl InvalidRefreshTokenError"
  by (simp_all add: decode_token_def create_access_token_def create_refresh_token_def auth_error_def assms)

lemma current_user_of_token:
  assumes "\<And>now c. dec now (enc c) = (if now \<le> clm_exp c then Some c else None)"
    and "parse_uuid (usr_id u) = Some (usr_id u)" and "usr_id u \<noteq> []"
    and "lookup_row (\<lambda>r. usr_id r = usr_id u) (users (ses_db s)) = Some u" and "usr_is_active u"
  shows "fst (get_current_user dec parse_uuid (create_access_token enc now (usr_id u)) s) =
    (if clock (ses_db s) \<le> now + access_expire then Inr u else Inl credentials_exception)"
  using assms(2-5)
  by (simp add: get_current_user_def bind_act_def decode_issued [OF assms(1)] execute_def user_by_def raise_if_def)

text \<open>Claim C25. A user who has registered can log in with the same name and password; the access token
  authenticates exactly that user for thirty minutes and the refresh token yields new access
  tokens for seven days, and neither is accepted a second later or in the place of the other.
  The hash is assumed to verify, the token library to read back what it signs until it expires,
  and the identifier to be printed in the form it is parsed to.\<close>

theorem registered_user_can_log_in:
  assumes "checkpw password (hashpw password) = Some True"
    and "\<And>now c. dec now (enc c) = (if now \<le> clm_exp c then Some c else None)"
    and "parse_uuid new_id = Some new_id" and "new_id \<noteq> []"
    and "register_request_ok name password" and "storable hashpw new_id mail password (ses_db s)"
    and "\<not> in_transaction s"
    and "register_endpoint hashpw new_id name mail password s = (Inr r, s')"
  shows "\<exists>user a f. login checkpw enc name password (ses_db s') = (Inr (user, a, f), ses_db s') \<and>
    usr_id user = new_id \<and>
    (\<forall>t. fst (get_current_user dec parse_uuid a (at_time t s')) =
           (if t \<le> clock (ses_db s') + 1800 then Inr user else Inl credentials_exception) \<and>
         fst (refresh enc dec f (ses_db (at_time t s'))) =
           (if t \<le> clock (ses_db s') + 604800 then Inr (create_access_token enc t new_id)
            else Inl InvalidRefreshTokenError) \<and>
         fst (get_current_user dec parse_uuid f (at_time t s')) = Inl credentials_exception \<and>
         fst (refresh enc dec a (ses_db (at_time t s'))) = Inl InvalidRefreshTokenError)"
proof -
  let ?d = "ses_db s"
  let ?user = "\<lparr>usr_id = new_id, username = name, email = mail, password_hash = hashpw password,
                usr_is_active = True\<rparr>"
  have free: "name \<notin> username ` set (users ?d)"
    and s': "s' = s\<lparr>ses_db := ?d\<lparr>users := users ?d @ [?user], accounts := accounts ?d @ [new_account new_id]\<rparr>\<rparr>"
    using assms(8) unfolding register_endpoint_runs [OF assms(5-7)] by (auto simp: Let_def split: if_splits)
  have "lookup_row (\<lambda>u. username u = name) (users ?d) = None"
    using free by (auto simp: lookup_row_None_iff)
  then have by_name: "lookup_row (\<lambda>u. username u = name) (users (ses_db s')) = Some ?user"
    by (simp add: s' lookup_row_append)
  have "lookup_row (\<lambda>u. usr_id u = new_id) (users ?d) = None"
    using assms(6) by (auto simp: lookup_row_None_iff storable_def)
  then have by_id: "lookup_row (\<lambda>u. usr_id u = usr_id ?user) (users (ses_db (at_time t s'))) = Some ?user" for t
    by (simp add: s' at_time_def lookup_row_append)
  let ?now = "clock (ses_db s')"
  have login: "login checkpw enc name password (ses_db s') =
      (Inr (?user, create_access_token enc ?now new_id, create_refresh_token enc ?now new_id), ses_db s')"
    by (simp add: login_def user_by_def bind_act_def by_name assms(1) raise_if_def)
  note issued = decode_issued [OF assms(2)]
  have "fst (get_current_user dec parse_uuid (create_access_token enc ?now new_id) (at_time t s')) =
      (if t \<le> ?now + 1800 then Inr ?user else Inl credentials_exception)" for t
    using current_user_of_token [OF assms(2), where u = ?user and s = "at_time t s'" and now = ?now] by_id assms(3,4)
    by (simp add: access_expire_def at_time_def)
  moreover have "fst (get_current_user dec parse_uuid (create_refresh_token enc ?now new_id) (at_time t s')) =
      Inl credentials_exception" for t
    by (simp add: get_current_user_def bind_act_def issued)
  moreover have "fst (refresh enc dec (create_refresh_token enc ?now new_id) (ses_db (at_time t s'))) =
      (if t \<le> ?now + 604800 then Inr (create_access_token enc t new_id) else Inl InvalidRefreshTokenError)" for t
    by (simp add: refresh_def bind_act_def issued at_time_def refresh_expire_def)
  moreover have "fst (refresh enc dec (create_access_token enc ?now new_id) (ses_db (at_time t s'))) =
      Inl InvalidRefreshTokenError" for t
    by (simp add: refresh_def bind_act_def issued)
  ultimately show ?thesis using login by (intro exI [of _ ?user] exI conjI) auto
qed

section \<open>The properties at work\<close>

text \<open>A signing that only writes the claims down, and its reader.\<close>

definition opt_text :: "string option \<Rightarrow> string" where
  "opt_text x = (case x of None \<Rightarrow> [] | Some s \<Rightarrow> CHR ''s'' # s)"

definition read_opt :: "string \<Rightarrow> string option" where
  "read_opt s = (case s of [] \<Rightarrow> None | _ # r \<Rightarrow> Some r)"

definition plain_enc :: "claims \<Rightarrow> string" where
  "plain_enc c = pair_text (opt_text (clm_sub c), pair_text (opt_text (clm_type c),
     pair_text (show_int (clm_iat c), show_int (clm_exp c))))"

definition plain_dec :: "int \<Rightarrow> string \<Rightarrow> claims option" where
  "plain_dec now s =
     Option.bind (read_pair s) (\<lambda>(u, s). Option.bind (read_pair s) (\<lambda>(ty, s).
     Option.bind (read_pair s) (\<lambda>(i, e).
     if now \<le> read_int e
     then Some \<lparr>clm_sub = read_opt u, clm_type = read_opt ty, clm_iat = read_int i, clm_exp = read_int e\<rparr>
     else None)))"

lemma plain_dec_enc: "plain_dec now (plain_enc c) = (if now \<le> clm_exp c then Some c else None)"
  by (simp add: plain_dec_def plain_enc_def read_opt_def opt_text_def split: option.splits)

definition plain_hash :: "string \<Rightarrow> string" where
  "plain_hash p = CHR ''#'' # p"

definition plain_check :: "string \<Rightarrow> string \<Rightarrow> bool option" where
  "plain_check p h = (if h = [] then None else Some (h = plain_hash p))"

definition fresh_session :: session where
  "fresh_session = \<lparr>ses_db = sample_db, in_transaction = False\<rparr>"

lemma fresh_request:
  "register_request_ok ''new_user1'' ''Passw0rd''"
  "storable plain_hash ''u1'' ''n@x'' ''Passw0rd'' (ses_db fresh_session)"
  "\<not> in_transaction fresh_session"
  by code_simp+

lemma register_outcome_run:
  "\<exists>r s'. register_endpoint plain_hash ''u1'' ''new_user1'' ''n@x'' ''Passw0rd'' fresh_session = (Inr r, s')"
  using register_endpoint_runs [OF fresh_request] by (simp add: fresh_session_def sample_db_def Let_def)

theorem register_outcome_witness:
  "\<exists>s'. register_endpoint plain_hash ''u1'' ''new_user1'' ''n@x'' ''Passw0rd'' fresh_session =
     (Inr \<lparr>rgr_user_id = ''u1'', rgr_username = ''new_user1'', rgr_email = ''n@x'', rgr_created_at = 7\<rparr>, s') \<and>
     accounts (ses_db s') = accounts sample_db @ [new_account ''u1'']"
  using register_outcome [OF fresh_request] by (simp add: fresh_session_def sample_db_def Let_def)

theorem registered_user_can_log_in_witness:
  "\<exists>s' user a f. login plain_check plain_enc ''new_user1'' ''Passw0rd'' (ses_db s') = (Inr (user, a, f), ses_db s') \<and>
     usr_id user = ''u1'' \<and> fst (get_current_user plain_dec Some a s') = Inr user"
proof -
  obtain r s' where run: "register_endpoint plain_hash ''u1'' ''new_user1'' ''n@x'' ''Passw0rd'' fresh_session = (Inr r, s')"
    using register_outcome_run by blast
  have "plain_check ''Passw0rd'' (plain_hash ''Passw0rd'') = Some True"
    by (simp add: plain_check_def plain_hash_def)
  from registered_user_can_log_in [where parse_uuid = Some and checkpw = plain_check and hashpw = plain_hash
      and dec = plain_dec and enc = plain_enc, OF this plain_dec_enc _ _ fresh_request run]
  obtain user a f where "login plain_check plain_enc ''new_user1'' ''Passw0rd'' (ses_db s') = (Inr (user, a, f), ses_db s')"
      "usr_id user = ''u1''"
      "fst (get_current_user plain_dec Some a (at_time (clock (ses_db s')) s')) = Inr user"
    by force
  then show ?thesis by (auto simp: at_time_def)
qed

end
