(* ===== verification/Invariants.thy ===== *)
theory Invariants
  imports Order_Service Account Users
begin

text \<open>
  Invariants of the stored data. The locale \<open>trading_invariant\<close> asks of a property of the
  database that every statement trading issues keeps it; inside it, every operation of the
  risk rules, the clearing, the engine, the order services and the settlement is shown to keep
  it, whether it returns or raises. \<open>stored_invariant\<close> extends it to the postings of the account
  service and to registration. They are interpreted on the schema's guarantees (\<open>wf_db\<close>), on the presence of an
  order with given fixed columns (\<open>placed\<close>) and on the net deposits.
\<close>

named_theorems kept \<open>operations that keep the invariant of the locale\<close>

text \<open>
  A request on a session of its own, closed at its end: what is not committed then is rolled back.
\<close>

definition with_session :: "(session, 'a) act \<Rightarrow> (engine_state, 'a) act" where
  "with_session m = (\<lambda>s.
     case m \<lparr>ses_db = eng_db s, in_transaction = False\<rparr> of
       (r, t) \<Rightarrow> (r, s\<lparr>eng_db := (if in_transaction t then rollback_to (eng_db s) (ses_db t) else ses_db t)\<rparr>))"

text \<open>The columns of an order that no statement changes after its insertion.\<close>

definition order_core :: "order \<Rightarrow> string \<times> string \<times> string \<times> string \<times> side \<times> direction \<times> int \<times> int" where
  "order_core r = (ord_id r, client_order_id r, ord_market_id r, ord_user_id r, original_side r,
     original_direction r, original_price r, quantity r)"

lemma keeps_case_list:
  "keeps I a \<Longrightarrow> (\<And>x xs. keeps I (f x xs)) \<Longrightarrow> keeps I (case l of [] \<Rightarrow> a | x # xs \<Rightarrow> f x xs)"
  by (cases l) auto

lemma keeps_case_prod_app: "(\<And>a b. keeps I (f a b c)) \<Longrightarrow> keeps I ((case p of (a, b) \<Rightarrow> f a b) c)"
  by (cases p) simp

locale trading_invariant =
  fixes I :: "db \<Rightarrow> bool"
  assumes on_accounts: "(\<And>a. acc_user_id (fa a) = acc_user_id a) \<Longrightarrow> keeps I (update_accounts Pa fa)"
    and on_positions: "(\<And>p. pos_key (fp p) = pos_key p) \<Longrightarrow> keeps I (update_positions Pp fp)"
    and on_upsert: "(\<And>p. pos_key (fp p) = pos_key p) \<Longrightarrow> (\<And>p. K p \<longleftrightarrow> pos_key p = pos_key row) \<Longrightarrow>
      keeps I (upsert_position K row fp)"
    and on_markets: "(\<And>m. mkt_id (fm m) = mkt_id m) \<Longrightarrow> keeps I (update_markets Pm fm)"
    and on_orders: "(\<And>r. order_core (fo r) = order_core r) \<Longrightarrow> keeps I (update_orders Po fo)"
    and on_insert_order: "keeps I (insert_order o1)"
    and on_insert_trade: "keeps I (insert_trade t)"
    and on_write_ledger: "ty \<notin> {DEPOSIT, WITHDRAW} \<Longrightarrow> keeps I (write_ledger u ty amount b rt ri)"
    and on_insert_wal: "keeps I (insert_wal w)"
    and on_generate: "keeps I generate_id"
    and on_rollback: "I d \<Longrightarrow> I (rollback_to d d')"
begin

lemmas statements = on_insert_order on_insert_trade on_insert_wal on_generate
  keeps_ret keeps_raise keeps_reads keeps_raise_if keeps_bind keeps_when keeps_if keeps_case_prod keeps_case_prod_app
  keeps_case_option keeps_fold_act

lemma write_wal_event [kept]: "keeps I (write_wal_event ty oid m u x)"
  unfolding write_wal_event_def by (intro statements)

lemma check_market_active [kept]: "keeps I (check_market_active m)"
  unfolding check_market_active_def by (intro statements)

lemma check_price_range [kept]: "keeps I (check_price_range p)"
  unfolding check_price_range_def by (intro statements)

lemma check_order_limit [kept]: "keeps I (check_order_limit q)"
  unfolding check_order_limit_def by (intro statements)

lemma check_and_freeze [kept]: "keeps I (check_and_freeze ord)"
  unfolding check_and_freeze_def Let_def freeze_funds_sql_def freeze_yes_sql_def freeze_no_sql_def
  by (intro statements kept on_accounts on_positions on_write_ledger) (simp_all add: pos_key_def)

lemma order_save [kept]: "keeps I (order_save ord)"
  unfolding order_save_def by (intro statements)

lemma order_get_by_id [kept]: "keeps I (order_get_by_id oid)"
  unfolding order_get_by_id_def by (intro statements)

lemma order_update_status [kept]: "keeps I (order_update_status ord)"
  unfolding order_update_status_def
  by (intro statements on_orders) (simp add: order_core_def status_columns_def)

lemma unfreeze [kept]:
  "keeps I (unfreeze_funds_sql u n)" "keeps I (unfreeze_yes_sql u m n)" "keeps I (unfreeze_no_sql u m n)"
  unfolding unfreeze_funds_sql_def unfreeze_yes_sql_def unfreeze_no_sql_def
  by (rule on_accounts on_positions; simp add: pos_key_def)+

lemma settle_trade [kept]: "keeps I (settle_trade t ms)"
  unfolding clearing_defs
  by (cases "determine_scenario (buy_book_type t) (sell_book_type t)")
     (simp_all, (intro statements kept on_accounts on_positions on_upsert on_write_ledger;
        simp add: pos_key_def empty_position_def)+)

lemma netting [kept]: "keeps I (execute_netting_if_needed u m ms)"
  unfolding execute_netting_if_needed_def do_netting_def net_position_sql_def add_balance_sql_def Let_def
  by (intro statements kept on_accounts on_positions on_write_ledger) (simp_all add: pos_key_def)

lemma collect_fee [kept]: "keeps I (collect_fee tr bps)"
  unfolding collect_fee_def collect_fee_from_frozen_def collect_fee_from_proceeds_def add_balance_sql_def Let_def
  by (intro statements kept on_accounts on_write_ledger; simp)

lemma write_trade [kept]: "keeps I (write_trade t sc mf tf bp sp)"
  unfolding write_trade_def by (intro statements kept)

lemma update_maker_status [kept]: "keeps I (update_maker_status tr)"
  unfolding update_maker_status_def by (intro statements kept)

lemma clear_fill [kept]: "keeps I (clear_fill tr acc)"
  unfolding clear_fill_def Let_def by (intro statements kept)

lemma unfreeze_remainder [kept]: "keeps I (unfreeze_remainder ord)"
  unfolding unfreeze_remainder_def by (intro statements kept on_write_ledger) simp

lemma flush_market [kept]: "keeps I (flush_market ms)"
  unfolding flush_market_def by (intro statements on_markets) simp

lemma prepare_order [kept]: "keeps I (prepare_order ord)"
  unfolding prepare_order_def by (intro statements kept)

lemma load_market [kept]: "keeps I (load_market m)"
  unfolding load_market_def by (intro statements)

lemma verify_after_trade [kept]: "keeps I (verify_invariants_after_trade ms)"
  unfolding verify_invariants_after_trade_def Let_def by (intro statements)

section \<open>The engine\<close>

abbreviation (input) J :: "engine_state \<Rightarrow> bool" where
  "J s \<equiv> I (eng_db s)"

lemma in_db: "keeps I m \<Longrightarrow> keeps J (in_db m)"
  by (auto simp: keeps_def in_db_def split: prod.splits)

lemma in_book: "keeps J (in_book m a)"
  by (auto simp: keeps_def in_book_run split: prod.splits)

lemma on_error_keeps: "keeps J m \<Longrightarrow> (\<And>e s. J s \<Longrightarrow> J (h e s)) \<Longrightarrow> keeps J (on_error m h)"
  by (fastforce simp: keeps_def on_error_def split: prod.splits sum.splits)

lemma nested: "keeps J m \<Longrightarrow> keeps J (nested m)"
  by (fastforce simp: keeps_def nested_def on_error_def on_rollback split: prod.splits sum.splits)

lemma session_transaction: "keeps J m \<Longrightarrow> keeps J (session_transaction m)"
  by (fastforce simp: keeps_def session_transaction_def on_error_def on_rollback split: prod.splits sum.splits)

lemmas engine_steps = in_db in_book nested session_transaction on_error_keeps

lemma finalize_order [kept]: "keeps J (finalize_order m ord k)"
  unfolding finalize_order_def Let_def by (intro statements engine_steps kept)

lemma place_order_inner [kept]: "keeps J (place_order_inner ord)"
  unfolding place_order_inner_def by (intro statements engine_steps kept)

lemma place_order [kept]: "keeps J (place_order ord)"
  unfolding place_order_def by (intro statements engine_steps kept) (simp add: evict_def)

lemma cancel_inline [kept]: "keeps J (cancel_inline ord u x)"
  unfolding cancel_inline_def Let_def by (intro statements engine_steps kept)

lemma cancel_order [kept]: "keeps J (cancel_order oid u)"
  unfolding cancel_order_def cancel_lookup_def cancel_locked_def
  by (intro statements engine_steps kept) (simp add: evict_unless_app_error_def evict_def)

lemma replace_order [kept]: "keeps J (replace_order oid ps u)"
  unfolding replace_order_def replace_lookup_def replace_locked_def
  by (intro statements engine_steps kept on_generate) (simp add: evict_unless_app_error_def evict_def)

lemma cancel_in_existing_book [kept]: "keeps J (cancel_in_existing_book m ids)"
  by (auto simp: keeps_def cancel_in_existing_book_def split: option.splits prod.splits)

lemma batch_cancel [kept]: "keeps J (batch_cancel m u scope)"
  unfolding batch_cancel_def Let_def
  by (intro statements engine_steps kept on_orders) (simp add: order_core_def)

section \<open>The services\<close>

lemma service_place_order [kept]: "keeps J (service_place_order req u)"
  unfolding service_place_order_def order_get_by_client_order_id_def
  by (intro statements engine_steps kept on_generate)

lemma service_cancel_order [kept]: "keeps J (service_cancel_order oid u)"
  unfolding service_cancel_order_def by (intro statements engine_steps kept)

lemma atomic_replace [kept]: "keeps J (atomic_replace oid ps u)"
  unfolding atomic_replace_def by (intro statements engine_steps kept)

lemma batch_cancel_endpoint [kept]: "keeps J (batch_cancel_endpoint m sc u)"
  unfolding batch_cancel_endpoint_def by (intro statements engine_steps kept)

lemma commit_or_rollback: "keeps I m \<Longrightarrow> keeps I (commit_or_rollback m)"
  by (fastforce simp: keeps_def commit_or_rollback_def on_error_def on_rollback split: prod.splits sum.splits)

lemma resolve_market [kept]: "keeps I (resolve_market m oc)"
  unfolding resolve_market_def release_order_def settle_market_def pay_position_def cancel_resolved_sql_def
    clear_position_sql_def settle_market_sql_def add_balance_sql_def Let_def
  by (intro statements commit_or_rollback kept on_accounts on_positions on_orders on_markets on_write_ledger)
     (simp_all add: order_core_def pos_key_def zeroed_def)

end

locale stored_invariant = trading_invariant +
  assumes on_insert_ledger: "keeps I (insert_ledger e)"
    and on_sequence: "keeps I next_ledger_id"
    and on_clock: "I d \<Longrightarrow> I (d\<lparr>clock := t\<rparr>)"
    and on_insert_user: "keeps I (insert_user u1)"
    and on_insert_account: "keeps I (insert_account a1)"
begin

lemma insert_ledger_returning [kept]: "keeps I (insert_ledger_returning u ty a b rt ri ds)"
  unfolding insert_ledger_returning_def Let_def by (intro statements on_insert_ledger on_sequence)

lemma repo_deposit [kept]: "keeps I (repo_deposit u n)"
  unfolding repo_deposit_def deposit_sql_def by (intro statements keeps_case_list kept on_accounts) simp

lemma repo_withdraw [kept]: "keeps I (repo_withdraw u n)"
  unfolding repo_withdraw_def withdraw_sql_def insufficient_def get_account_sql_def
  by (intro statements keeps_case_list kept on_accounts) simp

lemma account_deposit [kept]: "keeps I (account_deposit u n)"
  unfolding account_deposit_def by (intro statements commit_or_rollback kept)

lemma account_withdraw [kept]: "keeps I (account_withdraw u n)"
  unfolding account_withdraw_def by (intro statements commit_or_rollback kept)

lemma register [kept]: "keeps I (register hashpw new_id name mail password)"
  unfolding register_def user_by_def Let_def by (intro statements on_insert_user on_insert_account)

text \<open>On a session; closing it takes back what was not committed.\<close>

lemma execute: "keeps I m \<Longrightarrow> keeps (\<lambda>s. I (ses_db s)) (execute m)"
  by (auto simp: keeps_def execute_def split: prod.splits)

lemma begin_block:
  assumes "keeps (\<lambda>s. I (ses_db s)) m"
  shows "keeps (\<lambda>s. I (ses_db s)) (begin_block m)"
proof (rule keepsI)
  fix s r s'
  assume I: "I (ses_db s)" and run: "begin_block m s = (r, s')"
  obtain q t where m: "m (s\<lparr>in_transaction := True\<rparr>) = (q, t)" by fastforce
  have "I (ses_db t)" by (rule keepsD [OF assms _ m]) (simp add: I)
  then show "I (ses_db s')"
    using I run m on_rollback by (cases q) (auto simp: begin_block_def split: if_splits)
qed

lemma with_session:
  assumes "keeps (\<lambda>s. I (ses_db s)) m"
  shows "keeps J (with_session m)"
proof (rule keepsI)
  fix s r s'
  assume I: "J s" and run: "with_session m s = (r, s')"
  obtain q t where m: "m \<lparr>ses_db = eng_db s, in_transaction = False\<rparr> = (q, t)" by fastforce
  have "I (ses_db t)" by (rule keepsD [OF assms _ m]) (simp add: I)
  then show "J s'" using I run m on_rollback by (auto simp: with_session_def)
qed

lemma register_endpoint [kept]: "keeps J (with_session (register_endpoint hashpw new_id name mail password))"
  unfolding register_endpoint_def by (intro with_session statements begin_block execute kept)

end

section \<open>The invariants of the program\<close>

interpretation wf: stored_invariant wf_db
proof (unfold_locales, goal_cases)
  case (5 fo Po)
  then show ?case by (intro keeps_wf_update_orders) (simp_all add: order_core_def ord_client_key_def)
qed ((rule keeps_wf_update_accounts keeps_wf_update_positions keeps_wf_upsert_position
       keeps_wf_update_markets keeps_wf_insert_order keeps_wf_insert_trade keeps_wf_insert_wal
       keeps_wf_insert_ledger keeps_wf_write_ledger keeps_wf_next_ledger_id keeps_wf_generate_id
       keeps_wf_insert_user keeps_wf_insert_account; blast) | simp | simp add: wf_db_def)+

text \<open>An order with these columns is stored.\<close>

definition placed :: "string \<times> string \<times> string \<times> string \<times> side \<times> direction \<times> int \<times> int \<Rightarrow> db \<Rightarrow> bool" where
  "placed c d \<longleftrightarrow> c \<in> order_core ` set (orders d)"

lemma keeps_placed_orders_are:
  assumes "\<And>X. keeps (orders_are X) m"
  shows "keeps (placed c) m"
proof (rule keepsI)
  fix d r d'
  assume placed: "placed c d" and run: "m d = (r, d')"
  have "orders_are (orders d) d'"
    by (rule keepsD [OF assms _ run]) (simp add: orders_are_def)
  with placed show "placed c d'" by (simp add: placed_def orders_are_def)
qed

lemma keeps_orders_logs:
  "keeps (orders_are X) (insert_wal w)" "keeps (orders_are X) (insert_ledger e)"
  "keeps (orders_are X) (insert_user u1)" "keeps (orders_are X) (insert_account a1)" "keeps (orders_are X) next_ledger_id"
  by (rule keeps_sql_insert, simp add: orders_are_def)+ (simp add: keeps_def orders_are_def next_ledger_id_def)

lemma placed_update_orders:
  assumes "\<And>r. order_core (f r) = order_core r"
  shows "keeps (placed c) (update_orders P f)"
  by (rule keeps_sql_update) (simp add: placed_def image_update_where assms)

interpretation placed: stored_invariant "placed c" for c
proof (unfold_locales, goal_cases)
  case (5 fo Po)
  then show ?case by (rule placed_update_orders)
next
  case (6 o1)
  show ?case by (rule keeps_sql_insert) (simp add: placed_def)
next
  case 11
  then show ?case by (simp add: placed_def rollback_to_def)
next
  case 14
  then show ?case by (simp add: placed_def)
qed (rule keeps_placed_orders_are, rule keeps_orders_statements keeps_orders_write_ledger keeps_orders_logs)+

text \<open>Trading writes no deposits and no withdrawals.\<close>

lemma keeps_deposits_write_ledger:
  assumes "ty \<notin> {DEPOSIT, WITHDRAW}"
  shows "keeps (\<lambda>d. net_deposits d = x) (write_ledger u ty amount b rt ri)"
  using assms
  by (auto simp: keeps_def write_ledger_def bind_act_def next_ledger_id_def sql_insert_def net_deposits_def
      split: if_splits)

interpretation deposits: trading_invariant "\<lambda>d. net_deposits d = x" for x
proof (unfold_locales, goal_cases)
  case (8 ty u amount b rt ri)
  then show ?case by (rule keeps_deposits_write_ledger)
qed (auto simp: keeps_def net_deposits_def sql_update_def sql_upsert_def sql_insert_def generate_id_def
       rollback_to_def Let_def split: if_splits)

end
