(* ===== verification/Engine_Cancel.thy ===== *)
theory Engine_Cancel
  imports Engine_Runs
begin

text \<open>
  Cancelling, replacing and batch cancelling: what they do to the book and the orders, the balances
  and shares they give back (\<open>paid_back\<close>), what a failure leaves behind, and what happens when
  another handler runs between the lookup of an order and the lock.
\<close>

section \<open>Releasing what an order froze\<close>

lemma effect_core:
  assumes "effect m d d1 f y n c" and "same_core d1 d2" and "wf_db d2"
  shows "effect m d d2 f y n c"
  using assms(1,3) unfolding effect_def same_core_views [OF assms(2)]
  using assms(2) by (simp add: same_core_def)

lemma unfreeze_remainder_effect:
  assumes "unfreeze_remainder ord d = (Inr u, d')" and "wf_db d"
  shows "effect k d d' 0 0 0 0"
proof (cases "frozen_asset_type ord = FUNDS")
  case True
  with assms(1) obtain rs d1 where s1: "unfreeze_funds_sql (ord_user_id ord) (frozen_amount ord) d = (Inr rs, d1)"
    and s2: "write_ledger (ord_user_id ord) ORDER_UNFREEZE (frozen_amount ord) 0 ''ORDER'' (ord_id ord) d1 = (Inr u, d')"
    by (auto simp: unfreeze_remainder_def ok_simps)
  have "wf_db d'" by (rule keepsD [OF keeps_wf_unfreeze_remainder assms(2,1)])
  then show ?thesis
    by (rule effect_core [OF unfreeze_effect(1) [OF s1 assms(2)] write_ledger_core [OF s2]])
next
  case False
  with assms show ?thesis
    by (auto simp: unfreeze_remainder_def ok_simps split: if_splits intro: unfreeze_effect)
qed

text \<open>What a handler leaves of the money and the shares: every total is as before.\<close>

definition same_totals :: "db \<Rightarrow> db \<Rightarrow> bool" where
  "same_totals d d' \<longleftrightarrow> funds d' = funds d \<and> account_ids d' = account_ids d \<and> markets d' = markets d \<and>
     (\<forall>k. yes_held k d' = yes_held k d \<and> no_held k d' = no_held k d \<and> cost_held k d' = cost_held k d)"

lemma effect_same_totals: "(\<And>k. effect k d d' 0 0 0 0) \<Longrightarrow> same_totals d d'"
  by (simp add: effect_def same_totals_def)

lemma same_totals_trans: "same_totals d d1 \<Longrightarrow> same_totals d1 d2 \<Longrightarrow> same_totals d d2"
  by (simp add: same_totals_def)

lemma same_totals_core:
  assumes "same_core d d'"
  shows "same_totals d d'"
  using assms by (simp add: same_totals_def same_core_views [OF assms]) (simp add: same_core_def)

lemma update_orders_totals:
  "update_orders P f d = (Inr rs, d') \<Longrightarrow> same_totals d d'"
  by (auto simp: sql_update_ok_iff same_totals_def view_defs)

lemma order_update_totals: "order_update_status o1 d = (Inr u, d') \<Longrightarrow> same_totals d d'"
  by (auto simp: order_update_status_def ok_simps dest!: update_orders_totals)

section \<open>The steps under the lock\<close>

lemma cancel_inline_runs:
  assumes "cancel_inline ord w x s = (Inr ord', s')"
  obtains ob' d1 d2 d3 where
    "book_cancel (ord_id ord) (book_at (ord_market_id ord) s) = (Inr (), ob')"
    "unfreeze_remainder ord (eng_db s) = (Inr (), d1)" "ord' = ord\<lparr>ord_status := CANCELLED\<rparr>"
    "order_update_status ord' d1 = (Inr (), d2)"
    "write_wal_event ORDER_CANCELLED (ord_id ord) (ord_market_id ord) w x d2 = (Inr (), d3)"
    "s' = s\<lparr>orderbooks := (orderbooks s)(ord_market_id ord \<mapsto> ob'), eng_db := d3\<rparr>"
  using assms by (auto simp: cancel_inline_def ok_simps in_db_ok in_book_ok Let_def)

text \<open>
  \<open>paid_back u m n y o\<close>: the account of \<open>u\<close> has \<open>n\<close> cents less frozen and as many more available, the
  position of \<open>u\<close> in \<open>m\<close> has \<open>y\<close> YES and \<open>o\<close> NO shares less that wait to be sold, and nobody else's
  balances and shares have changed.
\<close>

definition account_paid :: "int \<Rightarrow> account \<Rightarrow> int \<times> int" where
  "account_paid n a = (available_balance a + n, frozen_balance a - n)"

definition position_paid :: "int \<Rightarrow> int \<Rightarrow> position \<Rightarrow> position" where
  "position_paid y no p = p\<lparr>yes_pending_sell := yes_pending_sell p - y, no_pending_sell := no_pending_sell p - no\<rparr>"

definition paid_back :: "string \<Rightarrow> string \<Rightarrow> int \<Rightarrow> int \<Rightarrow> int \<Rightarrow> db \<Rightarrow> db \<Rightarrow> bool" where
  "paid_back u m n y no d d' \<longleftrightarrow>
     (\<forall>v. map_option (account_paid 0) (acct d' v) = map_option (account_paid (if v = u then n else 0)) (acct d v)) \<and>
     (\<forall>v k. posn d' v k = map_option (if (v, k) = (u, m) then position_paid y no else id) (posn d v k))"

lemma position_paid_paid: "position_paid y' no' (position_paid y no p) = position_paid (y + y') (no + no') p"
  by (simp add: position_paid_def algebra_simps)

lemma position_paid_0 [simp]: "position_paid 0 0 = id"
  by (simp add: position_paid_def fun_eq_iff)

lemma position_paid_one_side:
  "(\<lambda>p. p\<lparr>yes_pending_sell := yes_pending_sell p - n\<rparr>) = position_paid n 0"
  "(\<lambda>p. p\<lparr>no_pending_sell := no_pending_sell p - n\<rparr>) = position_paid 0 n"
  by (simp_all add: position_paid_def fun_eq_iff)

lemma pos_key_paid [simp]: "pos_key (position_paid y no p) = pos_key p"
  by (simp add: pos_key_def position_paid_def)

lemma paid_back_0: "paid_back u m 0 0 0 d d"
  by (simp add: paid_back_def option.map_id)

lemma paid_back_core: "same_core d1 d2 \<Longrightarrow> paid_back u m n y no d d1 \<Longrightarrow> paid_back u m n y no d d2"
  by (simp add: paid_back_def acct_def posn_def same_core_def)

lemma paid_back_tables:
  "accounts d2 = accounts d1 \<Longrightarrow> positions d2 = positions d1 \<Longrightarrow> paid_back u m n y no d d1 \<Longrightarrow> paid_back u m n y no d d2"
  by (simp add: paid_back_def acct_def posn_def)

lemma paid_back_trans:
  assumes "paid_back u m n y no d d1" and "paid_back u m n' y' no' d1 d2"
  shows "paid_back u m (n + n') (y + y') (no + no') d d2"
  unfolding paid_back_def
proof (intro conjI allI)
  fix v k
  have "map_option (account_paid 0) (acct d1 v) = map_option (account_paid (if v = u then n else 0)) (acct d v)"
    "map_option (account_paid 0) (acct d2 v) = map_option (account_paid (if v = u then n' else 0)) (acct d1 v)"
    using assms by (simp_all add: paid_back_def)
  then show "map_option (account_paid 0) (acct d2 v) = map_option (account_paid (if v = u then n + n' else 0)) (acct d v)"
    by (cases "acct d v"; cases "acct d1 v"; cases "acct d2 v") (auto simp: account_paid_def split: if_splits)
  have "posn d1 v k = map_option (if (v, k) = (u, m) then position_paid y no else id) (posn d v k)"
    "posn d2 v k = map_option (if (v, k) = (u, m) then position_paid y' no' else id) (posn d1 v k)"
    using assms by (simp_all add: paid_back_def)
  then show "posn d2 v k = map_option (if (v, k) = (u, m) then position_paid (y + y') (no + no') else id) (posn d v k)"
    by (cases "posn d v k") (simp_all add: position_paid_paid)
qed

lemma update_position_posn:
  assumes "update_position u m f d = (Inr rs, d')" and "\<And>p. pos_key (f p) = pos_key p"
  shows "acct d' = acct d" "posn d' v k = map_option (if (v, k) = (u, m) then f else id) (posn d v k)"
  using assms(1) lookup_row_update_key [of pos_key f "(v, k)" "(u, m)" "positions d"] assms(2)
  by (auto simp: sql_update_ok_iff acct_def posn_def fun_eq_iff option.map_id)

lemma unfreeze_pays_back:
  "unfreeze_funds_sql u n d = (Inr rs, d') \<Longrightarrow> paid_back u m n 0 0 d d'"
  "unfreeze_yes_sql u m n d = (Inr rs', d') \<Longrightarrow> paid_back u m 0 n 0 d d'"
  "unfreeze_no_sql u m n d = (Inr rs', d') \<Longrightarrow> paid_back u m 0 0 n d d'"
proof -
  assume "unfreeze_funds_sql u n d = (Inr rs, d')"
  then have "acct d' v = (if v = u then map_option (\<lambda>a. a\<lparr>available_balance := available_balance a + n,
      frozen_balance := frozen_balance a - n, acc_version := acc_version a + 1\<rparr>) (acct d v) else acct d v)"
    and "posn d' v k = posn d v k" for v k
    by (auto simp: unfreeze_funds_sql_def sql_update_ok_iff acct_def posn_def lookup_row_update_key)
  then show "paid_back u m n 0 0 d d'"
    by (simp add: paid_back_def account_paid_def [abs_def] option.map_comp comp_def option.map_id)
next
  assume "unfreeze_yes_sql u m n d = (Inr rs', d')"
  from update_position_posn [OF this [unfolded unfreeze_yes_sql_def position_paid_one_side]] show "paid_back u m 0 n 0 d d'"
    by (simp add: paid_back_def)
next
  assume "unfreeze_no_sql u m n d = (Inr rs', d')"
  from update_position_posn [OF this [unfolded unfreeze_no_sql_def position_paid_one_side]] show "paid_back u m 0 0 n d d'"
    by (simp add: paid_back_def)
qed

text \<open>What an order object says it has frozen: cents, YES shares and NO shares.\<close>

definition recorded_freeze :: "order \<Rightarrow> int \<times> int \<times> int" where
  "recorded_freeze r = (case frozen_asset_type r of FUNDS \<Rightarrow> (frozen_amount r, 0, 0)
     | YES_SHARES \<Rightarrow> (0, remaining_quantity r, 0) | _ \<Rightarrow> (0, 0, remaining_quantity r))"

definition released :: "order \<Rightarrow> db \<Rightarrow> db \<Rightarrow> bool" where
  "released r d d' \<longleftrightarrow> (case recorded_freeze r of (n, y, no) \<Rightarrow> paid_back (ord_user_id r) (ord_market_id r) n y no d d')"

lemma unfreeze_remainder_releases:
  assumes "unfreeze_remainder r d = (Inr u, d')"
  shows "released r d d'"
proof (cases "frozen_asset_type r = FUNDS")
  case True
  with assms obtain rs d1 where s1: "unfreeze_funds_sql (ord_user_id r) (frozen_amount r) d = (Inr rs, d1)"
    and s2: "write_ledger (ord_user_id r) ORDER_UNFREEZE (frozen_amount r) 0 ''ORDER'' (ord_id r) d1 = (Inr u, d')"
    by (auto simp: unfreeze_remainder_def ok_simps)
  show ?thesis
    using paid_back_core [OF write_ledger_core [OF s2] unfreeze_pays_back(1) [OF s1]] True by (simp add: released_def recorded_freeze_def)
next
  case False
  with assms show ?thesis
    by (auto simp: unfreeze_remainder_def ok_simps released_def recorded_freeze_def split: if_splits frozen_asset.splits
        intro: unfreeze_pays_back)
qed

lemma cancel_inline_releases:
  assumes "cancel_inline ord w x s = (Inr ord', s')"
  shows "released ord (eng_db s) (eng_db s')"
proof (rule cancel_inline_runs [OF assms], goal_cases)
  case (1 ob' d1 d2 d3)
  have "accounts d3 = accounts d1" "positions d3 = positions d1"
    using write_wal_core [OF 1(5)] order_update_state [OF 1(4)] by (simp_all add: same_core_def)
  then show ?case
    using unfreeze_remainder_releases [OF 1(2)] 1(6) paid_back_tables by (auto simp: released_def split: prod.splits)
qed

lemma cancel_inline_order:
  assumes run: "cancel_inline ord w x s = (Inr ord', s')" and wf: "wf_db (eng_db s)"
  shows "order_view (eng_db s') = set_row ord' (order_view (eng_db s)) \<and> ord' = ord\<lparr>ord_status := CANCELLED\<rparr>"
proof (rule cancel_inline_runs [OF run], goal_cases)
  case (1 ob' d1 d2 d3)
  note v1 = keeps_view [OF keeps_orders_unfreeze_remainder keeps_wf_unfreeze_remainder 1(2) wf]
  note v2 = repo.update_law [OF v1 [THEN conjunct2, THEN conjunct2] 1(4)]
  note v3 = keeps_view [OF keeps_orders_write_wal keeps_wf_write_wal 1(5) v2 [THEN conjunct1]]
  show ?case using v1 v2 v3 1(3,6) by (simp add: set_row_def)
qed

lemma cancel_resting_keys:
  assumes "entry_key ` resting ob = row_key ` open_view m v"
  shows "entry_key ` {e \<in> resting ob. entry_id e \<notin> X} = row_key ` (open_view m v - {r. ord_id r \<in> X})"
proof -
  have key: "fst (snd (snd (entry_key e))) = entry_id e" for e
    by (cases e) (simp add: entry_key_def entry_id_def)
  have row: "fst (snd (snd (row_key r))) = ord_id r" for r by (simp add: row_key_def)
  have "entry_key ` {e \<in> resting ob. entry_id e \<notin> X} = {k \<in> entry_key ` resting ob. fst (snd (snd k)) \<notin> X}"
    by (auto simp: key)
  also have "\<dots> = {k \<in> row_key ` open_view m v. fst (snd (snd k)) \<notin> X}" by (simp only: assms)
  also have "\<dots> = row_key ` (open_view m v - {r. ord_id r \<in> X})" by (auto simp: row)
  finally show ?thesis .
qed

lemma cancel_inline_shows:
  assumes run: "cancel_inline ord w x s = (Inr ord', s')" and wf: "wf_db (eng_db s)"
    and sync: "shows_but X (ord_market_id ord) (eng_db s) (book_at (ord_market_id ord) s)"
  shows "wf_db (eng_db s') \<and> shows_but X (ord_market_id ord) (eng_db s') (book_at (ord_market_id ord) s') \<and>
    ord' = ord\<lparr>ord_status := CANCELLED\<rparr> \<and>
    order_view (eng_db s') = set_row ord' (order_view (eng_db s)) \<and> same_totals (eng_db s) (eng_db s')"
proof (rule cancel_inline_runs [OF run], goal_cases)
  case (1 ob' d1 d2 d3)
  let ?m = "ord_market_id ord"
  note v1 = keeps_view [OF keeps_orders_unfreeze_remainder keeps_wf_unfreeze_remainder 1(2) wf]
  note v2 = repo.update_law [OF v1 [THEN conjunct2, THEN conjunct2] 1(4)]
  note v3 = keeps_view [OF keeps_orders_write_wal keeps_wf_write_wal 1(5) v2 [THEN conjunct1]]
  have view: "order_view d3 = set_row ord' (order_view (eng_db s))" using v1 v2 v3 by (simp add: set_row_def)
  let ?v = "order_view (eng_db s) |` (- X)"
  have inv: "ob_inv (book_at ?m s)" and keys: "entry_key ` resting (book_at ?m s) = row_key ` open_view ?m ?v"
    using sync shows_but_view [OF wf] by simp_all
  obtain ob2 where c: "book_cancel (ord_id ord) (book_at ?m s) = (Inr (), ob2)" "ob_inv ob2"
    "resting ob2 = {e \<in> resting (book_at ?m s). entry_id e \<noteq> ord_id ord}"
    by (rule book_cancel_ok [OF inv])
  have ob': "ob' = ob2" using c(1) 1(1) by simp
  have "entry_key ` resting ob' = row_key ` (open_view ?m ?v - {r. ord_id r = ord_id ord})"
    unfolding ob' c(3) using cancel_resting_keys [OF keys, of "{ord_id ord}"] by simp
  also have "open_view ?m ?v - {r. ord_id r = ord_id ord} = open_view ?m (order_view d3 |` (- X))"
    using open_view_set_row [of ord' ?m "order_view (eng_db s)"] 1(3) by (auto simp: view open_view_but)
  finally have "shows_but X ?m d3 ob'"
    using v3 c(2) ob' by (simp add: shows_but_view)
  moreover have "same_totals (eng_db s) d3"
    using effect_same_totals [OF unfreeze_remainder_effect [OF 1(2) wf]] order_update_totals [OF 1(4)]
      same_totals_core [OF write_wal_core [OF 1(5)]] by (blast intro: same_totals_trans)
  ultimately show ?case using 1(3,6) v3 view by simp
qed

lemma cancel_inline_result:
  assumes "cancel_inline ord w x s = (Inr ord', s')" and "wf_db (eng_db s)"
    and "synced (ord_market_id ord) (eng_db s) (book_at (ord_market_id ord) s)"
  shows "wf_db (eng_db s') \<and> synced (ord_market_id ord) (eng_db s') (book_at (ord_market_id ord) s') \<and>
    ord' = ord\<lparr>ord_status := CANCELLED\<rparr> \<and>
    order_view (eng_db s') = set_row ord' (order_view (eng_db s)) \<and> same_totals (eng_db s) (eng_db s')"
  using assms unfolding synced_shows by (rule cancel_inline_shows)

lemma cancel_locked_ok: "cancel_locked ord s = (Inr x, s') \<longleftrightarrow> cancel_inline ord (ord_user_id ord) [] s = (Inr x, s')"
  by (simp add: cancel_locked_def on_error_ok_iff nested_ok)

lemma cancel_lookup_runs:
  assumes "wf_db (eng_db s)"
  shows "cancel_lookup oid u s =
    (case order_view (eng_db s) oid of
       None \<Rightarrow> (Inl (AppError 4004 ''Order not found'' 404), s)
     | Some r \<Rightarrow> if ord_user_id r \<noteq> u then (Inl (AppError 403 ''Forbidden'' 403), s)
         else if \<not> is_active r then (Inl (AppError 4006 ''Order cannot be cancelled'' 422), s)
         else (Inr r, s))"
  using repo.get_law [OF assms, of oid]
  by (auto simp: cancel_lookup_def bind_run in_db_def raise_if_run is_cancellable_def is_active_def split: option.splits)

lemma cancel_order_runs:
  assumes run: "cancel_order oid u s = (Inr ord', s')" and wf: "wf_db (eng_db s)"
  obtains ord where "order_view (eng_db s) oid = Some ord" "ord_user_id ord = u" "is_active ord"
    "cancel_inline ord u [] s = (Inr ord', s')"
proof -
  from run obtain ord where "cancel_lookup oid u s = (Inr ord, s)" "cancel_locked ord s = (Inr ord', s')"
    using cancel_lookup_runs [OF wf] by (auto simp: cancel_order_def ok_simps split: option.splits if_splits)
  then show thesis
    using that cancel_lookup_runs [OF wf, of oid u] by (auto simp: cancel_locked_ok split: option.splits if_splits)
qed

section \<open>Cancelling\<close>

lemma cancel_order_shows:
  assumes run: "cancel_order oid u s = (Inr ord', s')" and wf: "wf_db (eng_db s)"
    and sync: "shows_but X (ord_market_id ord') (eng_db s) (book_at (ord_market_id ord') s)"
  shows "wf_db (eng_db s') \<and> shows_but X (ord_market_id ord') (eng_db s') (book_at (ord_market_id ord') s') \<and>
    (\<exists>ord. order_view (eng_db s) oid = Some ord \<and> ord_user_id ord = u \<and> is_active ord \<and>
       ord' = ord\<lparr>ord_status := CANCELLED\<rparr>) \<and>
    order_view (eng_db s') = (order_view (eng_db s))(oid \<mapsto> ord') \<and>
    same_totals (eng_db s) (eng_db s')"
proof -
  obtain ord where ord: "order_view (eng_db s) oid = Some ord" "ord_user_id ord = u" "is_active ord"
    and inl: "cancel_inline ord u [] s = (Inr ord', s')"
    by (rule cancel_order_runs [OF run wf])
  have o': "ord' = ord\<lparr>ord_status := CANCELLED\<rparr>" by (rule cancel_inline_runs [OF inl])
  then have "ord_market_id ord' = ord_market_id ord" by simp
  then have res: "wf_db (eng_db s') \<and> shows_but X (ord_market_id ord) (eng_db s') (book_at (ord_market_id ord) s') \<and>
    ord' = ord\<lparr>ord_status := CANCELLED\<rparr> \<and>
    order_view (eng_db s') = set_row ord' (order_view (eng_db s)) \<and> same_totals (eng_db s) (eng_db s')"
    using cancel_inline_shows [OF inl wf] sync by simp
  have "status_columns ord' ord = ord'" by (simp add: o' status_columns_def)
  then have "set_row ord' (order_view (eng_db s)) = (order_view (eng_db s))(oid \<mapsto> ord')"
    using ord(1) order_view_id [OF ord(1)] o' by (simp add: set_row_def)
  then show ?thesis using res ord o' by simp
qed

lemma cancel_order_result:
  assumes run: "cancel_order oid u s = (Inr ord', s')" and wf: "wf_db (eng_db s)"
    and sync: "synced (ord_market_id ord') (eng_db s) (book_at (ord_market_id ord') s)"
  shows "wf_db (eng_db s') \<and> synced (ord_market_id ord') (eng_db s') (book_at (ord_market_id ord') s') \<and>
    (\<exists>ord. order_view (eng_db s) oid = Some ord \<and> ord_user_id ord = u \<and> is_active ord \<and>
       ord' = ord\<lparr>ord_status := CANCELLED\<rparr>) \<and>
    order_view (eng_db s') = (order_view (eng_db s))(oid \<mapsto> ord') \<and>
    same_totals (eng_db s) (eng_db s')"
  using cancel_order_shows [OF run wf, of "{}"] sync by (simp add: synced_shows)

text \<open>Claim C10. Cancelling an open order gives back exactly what it had frozen: its frozen cents return
  from the frozen to the available balance of its owner, or as many of the owner's shares as the order
  still had to sell stop being pending, and no other balance or position changes. The order is
  returned and stored as cancelled, no other order changes, and its entry leaves the book, which
  stays in step with the database, up to orders \<open>X\<close> that it had lost before.\<close>

theorem cancel_order_releases:
  assumes run: "cancel_order oid u s = (Inr ord', s')" and wf: "wf_db (eng_db s)"
    and sync: "shows_but X (ord_market_id ord') (eng_db s) (book_at (ord_market_id ord') s)"
  shows "wf_db (eng_db s') \<and> shows_but X (ord_market_id ord') (eng_db s') (book_at (ord_market_id ord') s') \<and>
    (\<exists>ord. order_view (eng_db s) oid = Some ord \<and> ord_user_id ord = u \<and> is_active ord \<and>
       ord' = ord\<lparr>ord_status := CANCELLED\<rparr> \<and> released ord (eng_db s) (eng_db s')) \<and>
    order_view (eng_db s') = (order_view (eng_db s))(oid \<mapsto> ord') \<and>
    same_totals (eng_db s) (eng_db s')"
proof -
  obtain ord where "order_view (eng_db s) oid = Some ord" and inl: "cancel_inline ord u [] s = (Inr ord', s')"
    by (rule cancel_order_runs [OF run wf])
  then show ?thesis using cancel_order_shows [OF run wf sync] cancel_inline_releases [OF inl] by auto
qed

text \<open>A cancelled order cannot be cancelled again: the second request answers 4006 and
  changes nothing.\<close>

theorem cancel_order_twice:
  assumes "cancel_order oid u s = (Inr ord', s')" and "wf_db (eng_db s)"
    and "synced (ord_market_id ord') (eng_db s) (book_at (ord_market_id ord') s)"
  shows "cancel_order oid u s' = (Inl (AppError 4006 ''Order cannot be cancelled'' 422), s')"
proof -
  obtain ord where inl: "cancel_inline ord u [] s = (Inr ord', s')"
    and ord: "order_view (eng_db s) oid = Some ord" "ord_user_id ord = u"
    by (rule cancel_order_runs [OF assms(1,2)])
  have o': "ord' = ord\<lparr>ord_status := CANCELLED\<rparr>" by (rule cancel_inline_runs [OF inl])
  then have "wf_db (eng_db s')" "order_view (eng_db s') = set_row ord' (order_view (eng_db s))"
    using cancel_inline_result [OF inl assms(2)] assms(3) by simp_all
  then show ?thesis
    using ord o' order_view_id [OF ord(1)] cancel_lookup_runs [of s' oid u]
    by (simp add: cancel_order_def set_row_def status_columns_def is_active_def)
qed

section \<open>Failures\<close>

text \<open>Computations that raise no \<open>AppError\<close>.\<close>

definition no_app_error :: "('s, 'a) act \<Rightarrow> bool" where
  "no_app_error m \<longleftrightarrow> (\<forall>s e s'. m s = (Inl e, s') \<longrightarrow> \<not> is_app_error e)"

lemma no_app_error_bind:
  "no_app_error m \<Longrightarrow> (\<And>x. no_app_error (f x)) \<Longrightarrow> no_app_error (bind_act m f)"
  by (fastforce simp: no_app_error_def bind_act_def split: prod.splits sum.splits)

lemma no_app_error_if: "no_app_error m \<Longrightarrow> no_app_error n \<Longrightarrow> no_app_error (if b then m else n)"
  by simp

lemma no_app_error_base:
  "no_app_error (ret x)" "no_app_error (reads f)" "no_app_error next_ledger_id"
  "no_app_error (sql_update name ck tab put P g)" "no_app_error (sql_insert name ck clash tab put row)"
  by (auto simp: no_app_error_def is_app_error_def sql_update_def sql_insert_def next_ledger_id_def Let_def
      split: if_splits)

lemma no_app_error_in_db: "no_app_error m \<Longrightarrow> no_app_error (in_db m)"
  by (fastforce simp: no_app_error_def in_db_def split: prod.splits)

lemma no_app_error_in_book: "no_app_error m \<Longrightarrow> no_app_error (in_book k m)"
  by (fastforce simp: no_app_error_def in_book_run split: prod.splits)

lemma no_app_error_book_cancel: "no_app_error (book_cancel oid)"
  by (auto simp: no_app_error_def book_cancel_def is_app_error_def Let_def split: option.splits prod.splits if_splits)

lemmas no_app_errors = no_app_error_bind no_app_error_if no_app_error_base no_app_error_in_db
  no_app_error_in_book no_app_error_book_cancel

lemma no_app_error_cancel_inline: "no_app_error (cancel_inline ord w x)"
  unfolding cancel_inline_def unfreeze_remainder_def unfreeze_funds_sql_def unfreeze_yes_sql_def
    unfreeze_no_sql_def write_ledger_def write_wal_event_def order_update_status_def Let_def
  by (intro no_app_errors)

lemma keeps_other_cancel_inline: "keeps (other_books (ord_market_id ord) f) (cancel_inline ord w x)"
  unfolding cancel_inline_def Let_def
  by (intro keeps_bind keeps_ret keeps_other_in_db keeps_other_in_book)

text \<open>A cancellation that fails leaves every table as it was. When the request is refused (no
  such order, another user's, not open) the books are untouched too; when a statement fails,
  exactly the market's book is evicted.\<close>

theorem cancel_order_failure:
  assumes run: "cancel_order oid u s = (Inl e, s')" and wf: "wf_db (eng_db s)"
  shows "same_tables (eng_db s) (eng_db s') \<and>
    (if is_app_error e then s' = s
     else \<exists>ord. order_view (eng_db s) oid = Some ord \<and> ord_user_id ord = u \<and> is_active ord \<and>
       orderbooks s' = (orderbooks s)(ord_market_id ord := None))"
proof (cases "fst (cancel_lookup oid u s)")
  case (Inl e')
  then have "cancel_lookup oid u s = (Inl e, s)" "s' = s" "is_app_error e"
    using run cancel_lookup_runs [OF wf, of oid u]
    by (auto simp: cancel_order_def is_app_error_def bind_run split: option.splits if_splits)
  then show ?thesis by (simp add: same_tables_def)
next
  case (Inr ord)
  then have look: "cancel_lookup oid u s = (Inr ord, s)"
    and ord: "order_view (eng_db s) oid = Some ord" "ord_user_id ord = u" "is_active ord"
    using cancel_lookup_runs [OF wf, of oid u] by (auto split: option.splits if_splits)
  obtain s1 where inl: "cancel_inline ord u [] s = (Inl e, s1)"
    and s': "s' = evict_unless_app_error (ord_market_id ord) e (s1\<lparr>eng_db := rollback_to (eng_db s) (eng_db s1)\<rparr>)"
    using run look ord(2)
    by (auto simp: cancel_order_def cancel_locked_def nested_def on_error_def bind_run split: prod.splits sum.splits)
  have e: "\<not> is_app_error e" using no_app_error_cancel_inline [of ord u "[]"] inl unfolding no_app_error_def by blast
  have "other_books (ord_market_id ord) (orderbooks s) s1"
    using keepsD [OF keeps_other_cancel_inline _ inl] by (simp add: other_books_def)
  then have "orderbooks s' = (orderbooks s)(ord_market_id ord := None)"
    by (auto simp: s' e evict_unless_app_error_def evict_def other_books_def fun_eq_iff)
  then show ?thesis using e ord by (auto simp: s' evict_unless_app_error_def evict_def)
qed

text \<open>After an order that fails the book of its market is empty, whatever its orders are.\<close>

lemma failed_order_loses_the_book:
  assumes "place_order ord s = (Inl e, s')"
  shows "book_at (ord_market_id ord) s' = OrderBook (ord_market_id ord) \<and> same_tables (eng_db s) (eng_db s') \<and>
    order_view (eng_db s') = order_view (eng_db s)"
  using place_order_failure [OF assms] by (simp add: book_at_def same_tables_def order_view_def fun_eq_iff)

lemma empty_book_matches_nobody:
  assumes match: "match_order inc (OrderBook m) = (Inr (inc', trs), ob')" and rem: "0 < remaining_quantity inc"
    and limit: "1 \<le> book_price inc" "book_price inc \<le> 99" "book_direction inc \<in> {BUY, SELL}"
  shows "trs = [] \<and> inc' = inc"
proof -
  have empty: "resting (OrderBook m) = {}" and keys: "entry_key ` resting (OrderBook m) = row_key ` open_view m Map.empty"
    by (simp_all add: open_view_def)
  obtain fs x where x: "inc' = filled_by x inc" "trs = [] \<longleftrightarrow> x = 0"
    "\<forall>t \<in> set trs. 0 < tr_quantity t \<and> maker_order_id t \<in> entry_id ` resting (OrderBook m)"
    by (rule match_on_synced [OF OrderBook_inv keys _ limit rem match]) simp_all
  then have "set trs = {}" unfolding empty by (metis equals0I image_empty emptyE)
  then have "trs = []" by simp
  with x show ?thesis by (simp add: filled_by_def)
qed

lemma keeps_book:
  "keeps (\<lambda>s. orderbooks s m \<noteq> None) (in_db a)" "keeps (\<lambda>s. orderbooks s m \<noteq> None) (in_book m b)"
  by (auto simp: keeps_def in_db_def in_book_run split: prod.splits)

lemma keeps_book_finalize: "keeps (\<lambda>s. orderbooks s m \<noteq> None) (finalize_order m ord k)"
  unfolding finalize_order_def Let_def
  by (intro keeps_bind keeps_if keeps_when keeps_ret keeps_raise_if keeps_book)

text \<open>Claim C36. After an order that fails, its market trades on a book without the orders that were
  open before: the next order of the market that succeeds, whatever its price, trades with
  nobody, no order stored before changes, so that the open ones stay open, and the book that the
  engine then keeps has at most the new order in it.\<close>

theorem failed_order_hides_the_book:
  assumes fail: "place_order ord s = (Inl e, s1)" and wf: "wf_db (eng_db s)"
    and run: "place_order ord2 s1 = (Inr (o2, trs, nq), s2)" and new: "is_new_order ord2"
    and m: "ord_market_id ord2 = ord_market_id ord"
  shows "trs = [] \<and> order_view (eng_db s) (ord_id ord2) = None \<and>
    (\<forall>oid. oid \<noteq> ord_id ord2 \<longrightarrow> order_view (eng_db s2) oid = order_view (eng_db s) oid) \<and>
    (\<exists>ob. orderbooks s2 (ord_market_id ord) = Some ob \<and> entry_id ` resting ob \<subseteq> {ord_id ord2})"
proof -
  let ?m = "ord_market_id ord2" and ?T = "ord_id ord2" and ?X = "dom (order_view (eng_db s1))"
  have at1: "book_at ?m s1 = OrderBook ?m" and v0: "order_view (eng_db s1) = order_view (eng_db s)" and wf1: "wf_db (eng_db s1)"
    using failed_order_loses_the_book [OF fail] wf by (simp_all add: m wf_db_def same_tables_def)
  obtain ord1 d1 row ord2' ob2 ms ord3 d2 s5 d7 where
    prep: "prepare_order ord2 (eng_db s1) = (Inr ord1, d1)" and
    match: "match_order ord1 (book_at ?m s1) = (Inr (ord2', trs), ob2)" and
    clear: "fold_act clear_fill trs (MarketState row, ord2', 0) d1 = (Inr (ms, ord3, nq), d2)" and
    fin: "finalize_order ?m ord3 0 (s1\<lparr>orderbooks := (orderbooks s1)(?m \<mapsto> ob2), eng_db := d2\<rparr>) = (Inr o2, s5)" and
    fl: "flush_market ms (eng_db s5) = (Inr (), d7)" and s2: "s2 = s5\<lparr>eng_db := d7\<rparr>"
    by (rule place_order_runs [OF run])
  obtain bt bd bp t where
    ord1: "ord1 = ord2\<lparr>book_type := bt, book_direction := bd, book_price := bp,
       frozen_amount := frozen_amount ord1, frozen_asset_type := frozen_asset_type ord1\<rparr>" and
    bp: "1 \<le> bp" "bp \<le> 99" "bd \<in> {BUY, SELL}" and qty: "1 \<le> quantity ord2" and wfd: "wf_db d1" and
    none: "order_view (eng_db s1) ?T = None" and
    v1: "order_view d1 = (order_view (eng_db s1))(?T \<mapsto> new_order_row t ord1)"
    by (rule prepare_order_result [OF prep wf1]) blast
  have limit: "1 \<le> book_price ord1" "book_price ord1 \<le> 99" "book_direction ord1 \<in> {BUY, SELL}" "0 < remaining_quantity ord1"
    "ord_id ord1 = ?T"
    using bp qty new by (subst ord1, simp add: is_new_order_def)+
  have trs: "trs = []" "ord2' = ord1"
    using empty_book_matches_nobody [OF match [unfolded at1] limit(4,1,2,3)] by simp_all
  then have cl: "ord3 = ord1" "d2 = d1" using clear by simp_all
  have wf4: "wf_db (eng_db (s1\<lparr>orderbooks := (orderbooks s1)(?m \<mapsto> ob2), eng_db := d2\<rparr>))" using wfd cl by simp
  have "wf_db (eng_db s5) \<and> (\<forall>oid. oid \<noteq> ?T \<longrightarrow> order_view (eng_db s5) oid = order_view d1 oid)"
    by (rule finalize_cases [OF fin wf4]) (use cl wfd limit in \<open>simp_all add: set_row_def\<close>)
  then have view: "order_view (eng_db s2) oid = order_view (eng_db s1) oid" if "oid \<noteq> ?T" for oid
    using keeps_view [OF keeps_flush fl] v1 that by (simp add: s2)
  have kept: "orderbooks s5 ?m \<noteq> None" by (rule keepsD [OF keeps_book_finalize _ fin]) simp
  then obtain ob where ob: "orderbooks s2 ?m = Some ob" by (auto simp: s2)
  have "shows_but ?X ?m (eng_db s1) (book_at ?m s1)"
    using shows_but_view [OF wf1] by (simp add: at1 OrderBook_inv open_view_but) (auto simp: open_view_def)
  from place_order_shows [OF run wf1 new this subset_refl]
  have after: "wf_db (eng_db s2)" "shows_but ?X ?m (eng_db s2) ob" using ob by (simp_all add: book_at_def)
  have "entry_id x = ?T" if x: "x \<in> resting ob" for x
  proof -
    obtain sd p bo where "x = (sd, p, bo)" by (cases x)
    with x shows_but_entry [OF after(2)] obtain r where
      r: "r \<in> set (open_orders ?m (eng_db s2))" "ord_id r \<notin> ?X" "row_key r = entry_key x" by metis
    have "order_view (eng_db s2) (ord_id r) = Some r"
      using r(1) open_orders_view [OF after(1)] by (simp add: open_view_def)
    then have "ord_id r = ?T" using view r(2) by (metis domI)
    then show ?thesis using r(3) \<open>x = _\<close> by (simp add: row_key_def entry_key_def entry_id_def)
  qed
  then show ?thesis using trs(1) none v0 view ob m by auto
qed

section \<open>Batch cancelling\<close>

lemma lookup_row_update_set:
  assumes "\<And>r. k (f r) = k r"
  shows "lookup_row (\<lambda>r. k r = y) (update_where (\<lambda>r. k r \<in> X) f rows) =
    (if y \<in> X then map_option f (lookup_row (\<lambda>r. k r = y) rows) else lookup_row (\<lambda>r. k r = y) rows)"
  using assms by (induction rows) auto

definition mark_cancelled :: "order \<Rightarrow> order" where
  "mark_cancelled r = r\<lparr>ord_status := CANCELLED\<rparr>"

definition cancel_rows :: "string set \<Rightarrow> (string \<Rightarrow> order option) \<Rightarrow> string \<Rightarrow> order option" where
  "cancel_rows X v i = (if i \<in> X then map_option mark_cancelled (v i) else v i)"

lemma open_view_cancel_rows:
  "open_view m (cancel_rows X v) = open_view m v - {r. ord_id r \<in> X}"
proof (rule set_eqI)
  fix r
  have "\<not> (map_option mark_cancelled z = Some r \<and> is_active r)" for z
    by (cases z) (auto simp: mark_cancelled_def is_active_def)
  then show "r \<in> open_view m (cancel_rows X v) \<longleftrightarrow> r \<in> open_view m v - {r. ord_id r \<in> X}"
    by (simp add: open_view_def cancel_rows_def)
qed

lemma keeps_wf_cancel_rows:
  "keeps wf_db (update_orders P mark_cancelled)"
  by (intro pres_intros) (simp_all add: mark_cancelled_def ord_client_key_def)

text \<open>The three optional releases at the end.\<close>

lemma released_totals:
  assumes "when_act b (in_db (bind_act m (\<lambda>_. ret ()))) s = (Inr u, s')" and "wf_db (eng_db s)"
    and "\<And>k r d'. m (eng_db s) = (Inr r, d') \<Longrightarrow> effect k (eng_db s) d' 0 0 0 0"
  shows "wf_db (eng_db s') \<and> same_totals (eng_db s) (eng_db s') \<and> orders (eng_db s') = orders (eng_db s) \<and>
    orderbooks s' = orderbooks s"
proof (cases b)
  case True
  with assms(1) obtain r d' where m: "m (eng_db s) = (Inr r, d')" and s': "s' = s\<lparr>eng_db := d'\<rparr>"
    by (auto simp: when_act_run in_db_ok ok_simps)
  have "\<And>k. effect k (eng_db s) d' 0 0 0 0" using assms(3) [OF m] .
  then show ?thesis using effect_same_totals by (simp add: s') (simp add: effect_def)
next
  case False
  with assms show ?thesis by (simp add: when_act_run same_totals_def)
qed

lemma batch_cancel_runs:
  assumes "batch_cancel m u scope s = (Inr res, s')" and rows: "rows = batch_rows m u scope (eng_db s)" "rows \<noteq> []"
  obtains r2 s1 s2 s3 s4 where
    "cancel_in_existing_book m (map ord_id rows) s = (Inr (), s1)"
    "in_db (update_orders (\<lambda>r. ord_id r \<in> set (map ord_id rows)) mark_cancelled) s1 = (Inr r2, s2)"
    "when_act (0 < frozen_sum FUNDS rows)
       (in_db (bind_act (unfreeze_funds_sql u (frozen_sum FUNDS rows)) (\<lambda>_. ret ()))) s2 = (Inr (), s3)"
    "when_act (0 < frozen_sum YES_SHARES rows)
       (in_db (bind_act (unfreeze_yes_sql u m (frozen_sum YES_SHARES rows)) (\<lambda>_. ret ()))) s3 = (Inr (), s4)"
    "when_act (0 < frozen_sum NO_SHARES rows)
       (in_db (bind_act (unfreeze_no_sql u m (frozen_sum NO_SHARES rows)) (\<lambda>_. ret ()))) s4 = (Inr (), s')"
    "res = \<lparr>br_market_id = m, br_cancelled_count = int (length rows), br_funds_cents = frozen_sum FUNDS rows,
       br_yes_shares = frozen_sum YES_SHARES rows, br_no_shares = frozen_sum NO_SHARES rows\<rparr>"
proof -
  have read: "in_db (reads (batch_rows m u scope)) s = (Inr rows, s)" by (simp add: in_db_def rows)
  from assms(1) show thesis
    unfolding batch_cancel_def mark_cancelled_def [abs_def, symmetric] bind_Inr [of "in_db (reads (batch_rows m u scope))", OF read]
    using rows(2) that by (auto simp: Let_def bind_ok_iff ret_ok_iff)
qed

lemma existing_book_cancel:
  assumes "cancel_in_existing_book m ids s = (Inr u, s1)" and "ob_inv (book_at m s)"
    and "orderbooks s m \<noteq> None \<or> resting (book_at m s) = {}"
  shows "eng_db s1 = eng_db s \<and> ob_inv (book_at m s1) \<and>
    resting (book_at m s1) = {e \<in> resting (book_at m s). entry_id e \<notin> set ids}"
proof (cases "orderbooks s m")
  case None
  then show ?thesis using assms by (simp add: cancel_in_existing_book_def)
next
  case (Some ob)
  then have "book_at m s = ob" by (simp add: book_at_def)
  with assms(2) obtain ob' where "fold_act (\<lambda>oid _. book_cancel oid) ids () ob = (Inr (), ob')" "ob_inv ob'"
    "resting ob' = {e \<in> resting ob. entry_id e \<notin> set ids}"
    using ob.cancel_all [of ob ids] by auto
  moreover from this(1) have "s1 = s\<lparr>orderbooks := (orderbooks s)(m \<mapsto> ob')\<rparr>"
    using assms(1) Some by (simp add: cancel_in_existing_book_def)
  ultimately show ?thesis by (simp add: \<open>book_at m s = ob\<close>)
qed

lemma update_cancelled_rows:
  assumes "in_db (update_orders (\<lambda>r. ord_id r \<in> X) mark_cancelled) s = (Inr rs, s')" and "wf_db (eng_db s)"
  shows "wf_db (eng_db s') \<and> orderbooks s' = orderbooks s \<and> same_totals (eng_db s) (eng_db s') \<and>
    order_view (eng_db s') = cancel_rows X (order_view (eng_db s))"
proof -
  obtain d' where run: "update_orders (\<lambda>r. ord_id r \<in> X) mark_cancelled (eng_db s) = (Inr rs, d')"
    and s': "s' = s\<lparr>eng_db := d'\<rparr>"
    using assms(1) by (auto simp: in_db_ok)
  have "orders d' = update_where (\<lambda>r. ord_id r \<in> X) mark_cancelled (orders (eng_db s))"
    using run by (auto simp: sql_update_ok_iff)
  then have "order_view d' = cancel_rows X (order_view (eng_db s))"
    by (simp add: order_view_def cancel_rows_def fun_eq_iff lookup_row_update_set mark_cancelled_def)
  then show ?thesis
    using keepsD [OF keeps_wf_cancel_rows assms(2) run] update_orders_totals [OF run] by (simp add: s')
qed

lemma batch_cancel_shows:
  assumes run: "batch_cancel m u scope s = (Inr res, s')" and wf: "wf_db (eng_db s)"
    and sync: "shows_but L m (eng_db s) (book_at m s)"
  shows "wf_db (eng_db s') \<and> shows_but L m (eng_db s') (book_at m s') \<and>
    order_view (eng_db s') =
      cancel_rows (ord_id ` set (batch_rows m u scope (eng_db s))) (order_view (eng_db s)) \<and>
    br_cancelled_count res = int (length (batch_rows m u scope (eng_db s))) \<and>
    same_totals (eng_db s) (eng_db s')"
proof (cases "batch_rows m u scope (eng_db s) = []")
  case True
  have "in_db (reads (batch_rows m u scope)) s = (Inr [], s)" by (simp add: in_db_def True)
  then have "s' = s" "br_cancelled_count res = 0"
    using run by (auto simp: batch_cancel_def bind_ok_iff Let_def)
  then show ?thesis using wf sync True by (simp add: cancel_rows_def [abs_def] same_totals_def)
next
  case False
  define rows where "rows = batch_rows m u scope (eng_db s)"
  let ?X = "ord_id ` set rows"
  have inv: "ob_inv (book_at m s)"
    and keys: "entry_key ` resting (book_at m s) = row_key ` open_view m (order_view (eng_db s) |` (- L))"
    using sync shows_but_view [OF wf] by simp_all
  have book: "orderbooks s m \<noteq> None \<or> resting (book_at m s) = {}"
    by (cases "orderbooks s m") (simp_all add: book_at_def)
  from False have ne: "rows \<noteq> []" by (simp add: rows_def)
  show ?thesis
  proof (rule batch_cancel_runs [OF run rows_def ne], goal_cases)
    case (1 r2 s1 s2 s3 s4)
    note b1 = existing_book_cancel [OF 1(1) inv book]
    have wf1: "wf_db (eng_db s1)" using b1 wf by simp
    note b2 = update_cancelled_rows [OF 1(2) [unfolded set_map] wf1]
    note b3 = released_totals [OF 1(3) b2 [THEN conjunct1] unfreeze_effect(1) [OF _ b2 [THEN conjunct1]]]
    note b4 = released_totals [OF 1(4) b3 [THEN conjunct1] unfreeze_effect(2) [OF _ b3 [THEN conjunct1]]]
    note b5 = released_totals [OF 1(5) b4 [THEN conjunct1] unfreeze_effect(3) [OF _ b4 [THEN conjunct1]]]
    have view: "order_view (eng_db s') = cancel_rows ?X (order_view (eng_db s))"
      using b1 b2 b3 b4 b5 by (simp add: order_view_def fun_eq_iff)
    have book: "book_at m s' = book_at m s1" using b2 b3 b4 b5 by (simp add: book_at_def)
    have "open_view m (order_view (eng_db s') |` (- L)) = open_view m (order_view (eng_db s) |` (- L)) - {r. ord_id r \<in> ?X}"
      by (auto simp: view open_view_but open_view_cancel_rows)
    then have "entry_key ` resting (book_at m s') = row_key ` open_view m (order_view (eng_db s') |` (- L))"
      unfolding book using b1 cancel_resting_keys [OF keys, of ?X] by simp
    then have "shows_but L m (eng_db s') (book_at m s')" using b1 b5 book by (simp add: shows_but_view)
    moreover have "same_totals (eng_db s) (eng_db s')"
      using same_totals_trans [of "eng_db s" "eng_db s2" "eng_db s3"] same_totals_trans [of "eng_db s" "eng_db s3" "eng_db s4"]
        same_totals_trans [of "eng_db s" "eng_db s4" "eng_db s'"] b1 b2 b3 b4 b5 by simp
    ultimately show ?case using 1(6) b5 view by (simp add: rows_def)
  qed
qed

lemma batch_cancel_result:
  assumes "batch_cancel m u scope s = (Inr res, s')" and "wf_db (eng_db s)" and "synced m (eng_db s) (book_at m s)"
  shows "wf_db (eng_db s') \<and> synced m (eng_db s') (book_at m s') \<and>
    order_view (eng_db s') =
      cancel_rows (ord_id ` set (batch_rows m u scope (eng_db s))) (order_view (eng_db s)) \<and>
    br_cancelled_count res = int (length (batch_rows m u scope (eng_db s))) \<and>
    same_totals (eng_db s) (eng_db s')"
  using assms unfolding synced_shows by (rule batch_cancel_shows)

lemma when_pays_back:
  fixes n :: int
  assumes "when_act (0 < n) (in_db (bind_act m (\<lambda>_. ret ()))) s = (Inr v, s')" and "0 \<le> n"
    and "\<And>rs d'. m (eng_db s) = (Inr rs, d') \<Longrightarrow> P (eng_db s) d'" and "n = 0 \<Longrightarrow> P (eng_db s) (eng_db s)"
  shows "P (eng_db s) (eng_db s')"
proof (cases "n = 0")
  case True
  with assms(1,4) show ?thesis by (simp add: when_act_run)
next
  case False
  with assms(1-3) show ?thesis by (auto simp: when_act_run in_db_ok ok_simps)
qed

lemma batch_cancel_pays_back:
  assumes run: "batch_cancel m u scope s = (Inr res, s')" and wf: "wf_db (eng_db s)"
    and rows: "rows = batch_rows m u scope (eng_db s)"
    and book: "ob_inv (book_at m s)"
  shows "paid_back u m (frozen_sum FUNDS rows) (frozen_sum YES_SHARES rows) (frozen_sum NO_SHARES rows) (eng_db s) (eng_db s')"
proof (cases "rows = []")
  case True
  have "in_db (reads (batch_rows m u scope)) s = (Inr [], s)" by (simp add: in_db_def True flip: rows)
  then have "s' = s" using run by (auto simp: batch_cancel_def bind_ok_iff Let_def)
  then show ?thesis by (simp add: True frozen_sum_def paid_back_0)
next
  case False
  have pos: "0 \<le> frozen_sum x rows" for x
  proof -
    have "\<forall>r \<in> set rows. 0 \<le> frozen_amount r"
      using wf by (auto simp: rows batch_rows_def wf_db_def list_all_iff ck_order_def)
    then show ?thesis by (auto simp: frozen_sum_def col_sum_def intro!: sum_list_nonneg)
  qed
  have has_book: "orderbooks s m \<noteq> None \<or> resting (book_at m s) = {}"
    by (cases "orderbooks s m") (simp_all add: book_at_def)
  show ?thesis
  proof (rule batch_cancel_runs [OF run rows False], goal_cases)
    case (1 r2 s1 s2 s3 s4)
    have same: "accounts (eng_db s2) = accounts (eng_db s)" "positions (eng_db s2) = positions (eng_db s)"
      using existing_book_cancel [OF 1(1) book has_book] 1(2) by (auto simp: in_db_ok sql_update_ok_iff)
    have f: "paid_back u m (frozen_sum FUNDS rows) 0 0 (eng_db s2) (eng_db s3)"
      by (rule when_pays_back [OF 1(3) pos]) (simp_all add: unfreeze_pays_back paid_back_0)
    have y: "paid_back u m 0 (frozen_sum YES_SHARES rows) 0 (eng_db s3) (eng_db s4)"
      by (rule when_pays_back [OF 1(4) pos]) (simp_all add: unfreeze_pays_back paid_back_0)
    have n: "paid_back u m 0 0 (frozen_sum NO_SHARES rows) (eng_db s4) (eng_db s')"
      by (rule when_pays_back [OF 1(5) pos]) (simp_all add: unfreeze_pays_back paid_back_0)
    have "paid_back u m 0 0 0 (eng_db s) (eng_db s2)" by (rule paid_back_tables [OF same paid_back_0])
    from paid_back_trans [OF paid_back_trans [OF paid_back_trans [OF this f] y] n] show ?case by simp
  qed
qed

text \<open>Claim C22. A batch cancellation that succeeds cancels exactly the user's open orders of the market
  and direction asked for, counts them, and gives back exactly what they had frozen: the sum of
  their frozen cents returns to the user's available balance, their shares for sale stop being
  pending, and no other balance or position changes. The book stays in step with the database, up to orders \<open>X\<close>
  that it had lost before.\<close>

theorem batch_cancel_releases:
  assumes run: "batch_cancel m u scope s = (Inr res, s')" and wf: "wf_db (eng_db s)"
    and sync: "shows_but X m (eng_db s) (book_at m s)" and rows: "rows = batch_rows m u scope (eng_db s)"
  shows "wf_db (eng_db s') \<and> shows_but X m (eng_db s') (book_at m s') \<and>
    order_view (eng_db s') = cancel_rows (ord_id ` set rows) (order_view (eng_db s)) \<and>
    br_cancelled_count res = int (length rows) \<and>
    paid_back u m (frozen_sum FUNDS rows) (frozen_sum YES_SHARES rows) (frozen_sum NO_SHARES rows) (eng_db s) (eng_db s') \<and>
    same_totals (eng_db s) (eng_db s')"
  using batch_cancel_shows [OF run wf sync] batch_cancel_pays_back [OF run wf rows] sync
  by (simp add: rows shows_but_def)

section \<open>Replacing\<close>

lemma replace_lookup_runs:
  assumes "replace_lookup oid ps u s = (Inr old, s')" and "wf_db (eng_db s)"
  shows "s' = s \<and> order_view (eng_db s) oid = Some old \<and> ord_user_id old = u \<and> ord_status old \<noteq> FILLED \<and>
    filled_quantity old \<le> 0 \<and> ord_market_id old = nop_market_id ps"
  using assms(1) repo.get_law [OF assms(2), of oid]
  by (auto simp: replace_lookup_def bind_ok_iff in_db_ok ret_ok_iff raise_if_ok_iff split: option.splits)

lemma replace_locked_runs:
  assumes "replace_locked ps u old s = (Inr res, s')"
  obtains old1 s1 nid d2 trs nq where
    "cancel_inline old u [(''replace_reason'', JStr ''atomic_replace'')] s = (Inr old1, s1)"
    "generate_id (eng_db s1) = (Inr nid, d2)"
    "place_order (fresh_order nid ps u (clock d2)) (s1\<lparr>eng_db := d2\<rparr>) = (Inr (rr_new_order res, trs, nq), s')"
    "rr_old_order_id res = ord_id old" "rr_trades res = trs"
  using assms
  by (auto simp: replace_locked_def on_error_ok_iff nested_ok bind_ok_iff in_db_ok ret_ok_iff reads_def place_order_ok)

lemma fresh_order_new: "is_new_order (fresh_order nid ps u now) \<and> ord_market_id (fresh_order nid ps u now) = nop_market_id ps"
  by (simp add: fresh_order_def is_new_order_def order_post_init_def)

text \<open>Claim C23. A replacement that succeeds was of the requester's own, unfilled order; afterwards book and
  database are still in step.\<close>

theorem replace_order_keeps_sync:
  assumes run: "replace_order oid ps u s = (Inr res, s')" and wf: "wf_db (eng_db s)"
    and sync: "synced (nop_market_id ps) (eng_db s) (book_at (nop_market_id ps) s)"
  shows "wf_db (eng_db s') \<and> synced (nop_market_id ps) (eng_db s') (book_at (nop_market_id ps) s') \<and>
    (\<exists>old. order_view (eng_db s) oid = Some old \<and> ord_user_id old = u \<and> filled_quantity old = 0 \<and>
       ord_market_id old = nop_market_id ps \<and> rr_old_order_id res = oid)"
proof -
  let ?m = "nop_market_id ps"
  obtain old where look: "replace_lookup oid ps u s = (Inr old, s)" and lock: "replace_locked ps u old s = (Inr res, s')"
    using run replace_lookup_runs [OF _ wf] by (auto simp: replace_order_def bind_ok_iff) (metis (no_types))
  note old = replace_lookup_runs [OF look wf]
  have filled: "filled_quantity old = 0"
    using old order_view_ck [OF wf, of oid old] by (auto simp: ck_order_def)
  have id: "ord_id old = oid" using old order_view_id by blast
  show ?thesis
  proof (rule replace_locked_runs [OF lock], goal_cases)
    case (1 old1 s1 nid d2 trs nq)
    have c: "wf_db (eng_db s1)" "synced ?m (eng_db s1) (book_at ?m s1)"
      using cancel_inline_result [OF 1(1) wf] old sync by simp_all
    have g: "orders d2 = orders (eng_db s1)" "wf_db d2"
      using 1(2) c(1) by (auto simp: generate_id_def wf_db_def)
    let ?s2 = "s1\<lparr>eng_db := d2\<rparr>" and ?o = "fresh_order nid ps u (clock d2)"
    have "synced ?m d2 (book_at ?m ?s2)" using c(2) g(1) by (simp add: synced_def open_orders_def)
    with place_order_in_sync [OF 1(3)] g(2) fresh_order_new [of nid ps u "clock d2"]
    have "wf_db (eng_db s') \<and> synced ?m (eng_db s') (book_at ?m s')" by simp
    then show ?case using old filled id 1(4) by simp
  qed
qed

section \<open>The properties at work\<close>

lemma cancel_runs:
  "fst (cancel_order ''r1'' ''carol'' even_engine) = Inr (sample_open\<lparr>ord_status := CANCELLED\<rparr>)"
  by (simp add: exec_defs exec_samples cong: exec_congs)

lemma even_engine_ok:
  "wf_db (eng_db even_engine)" "synced ''M'' (eng_db even_engine) (book_at ''M'' even_engine)"
  using even_synced even_db_wf by (simp_all add: even_engine_def book_at_def)

theorem cancel_order_releases_witness:
  "\<exists>s'. cancel_order ''r1'' ''carol'' even_engine = (Inr (sample_open\<lparr>ord_status := CANCELLED\<rparr>), s') \<and>
     synced ''M'' (eng_db s') (book_at ''M'' s') \<and> paid_back ''carol'' ''M'' 101 0 0 (eng_db even_engine) (eng_db s') \<and>
     order_view (eng_db s') = (order_view (eng_db even_engine))(''r1'' \<mapsto> sample_open\<lparr>ord_status := CANCELLED\<rparr>)"
proof -
  from run_exists [OF cancel_runs] obtain s' where
    run: "cancel_order ''r1'' ''carol'' even_engine = (Inr (sample_open\<lparr>ord_status := CANCELLED\<rparr>), s')" by blast
  have m: "ord_market_id (sample_open\<lparr>ord_status := CANCELLED\<rparr>) = ''M''" by code_simp
  have row: "order_view (eng_db even_engine) ''r1'' = Some sample_open" by code_simp
  have parts: "recorded_freeze sample_open = (101, 0, 0)" "ord_user_id sample_open = ''carol''" "ord_market_id sample_open = ''M''"
    by code_simp+
  show ?thesis
    using run cancel_order_releases [OF run, unfolded m, OF even_engine_ok [unfolded synced_shows]] row parts
    by (auto simp: synced_shows released_def)
qed

theorem cancel_order_twice_witness:
  "\<exists>s'. cancel_order ''r1'' ''carol'' even_engine = (Inr (sample_open\<lparr>ord_status := CANCELLED\<rparr>), s') \<and>
     cancel_order ''r1'' ''carol'' s' = (Inl (AppError 4006 ''Order cannot be cancelled'' 422), s')"
proof -
  from run_exists [OF cancel_runs] obtain s' where
    run: "cancel_order ''r1'' ''carol'' even_engine = (Inr (sample_open\<lparr>ord_status := CANCELLED\<rparr>), s')" by blast
  have m: "ord_market_id (sample_open\<lparr>ord_status := CANCELLED\<rparr>) = ''M''" by code_simp
  show ?thesis using run cancel_order_twice [OF run, unfolded m, OF even_engine_ok] by simp
qed

text \<open>Carol's account with nothing frozen: the release of her bid breaks a constraint.\<close>

definition flat_accounts :: "account list" where
  "flat_accounts = [sample_account ''alice'' 10000 0, sample_account ''bob'' 10000 0,
     sample_account ''carol'' 10000 0, sample_account ''PLATFORM_FEE'' 0 0]"

definition broke_engine :: engine_state where
  "broke_engine = even_engine\<lparr>eng_db := even_db\<lparr>accounts := flat_accounts\<rparr>\<rparr>"

lemma broke_cancel_runs: "fst (cancel_order ''r1'' ''carol'' broke_engine) = Inl (DBError ''accounts'')"
  by (simp add: broke_engine_def flat_accounts_def exec_defs exec_samples cong: exec_congs)

lemma broke_wf: "wf_db (eng_db broke_engine)"
  by code_simp

theorem cancel_order_failure_witness:
  "\<exists>s'. cancel_order ''r1'' ''carol'' broke_engine = (Inl (DBError ''accounts''), s') \<and>
     same_tables (eng_db broke_engine) (eng_db s') \<and> orderbooks s' ''M'' = None"
proof -
  from run_exists [OF broke_cancel_runs] obtain s' where
    run: "cancel_order ''r1'' ''carol'' broke_engine = (Inl (DBError ''accounts''), s')" by blast
  have "order_view (eng_db broke_engine) ''r1'' = Some sample_open" by code_simp
  moreover have "ord_market_id sample_open = ''M''" by code_simp
  moreover note cancel_order_failure [OF run broke_wf]
  ultimately have "same_tables (eng_db broke_engine) (eng_db s') \<and> orderbooks s' ''M'' = None"
    by (auto simp: is_app_error_def)
  then show ?thesis using run by blast
qed

text \<open>The price of 100 is refused; the sale that would have met carol's bid then meets nobody.\<close>

lemma sale_after_failure_runs:
  "fst (place_order (sale\<lparr>original_price := 100\<rparr>) even_engine) = Inl (PriceOutOfRangeError 100) \<and>
   (case fst (place_order sale (snd (place_order (sale\<lparr>original_price := 100\<rparr>) even_engine))) of Inr _ \<Rightarrow> True | Inl _ \<Rightarrow> False)"
  by (simp add: exec_defs exec_samples sale_def cong: exec_congs)

theorem failed_order_hides_the_book_witness:
  "\<exists>s1 o2 nq s2 ob. place_order (sale\<lparr>original_price := 100\<rparr>) even_engine = (Inl (PriceOutOfRangeError 100), s1) \<and>
     place_order sale s1 = (Inr (o2, [], nq), s2) \<and> order_view (eng_db s2) ''r1'' = Some sample_open \<and>
     orderbooks s2 ''M'' = Some ob \<and> ''r1'' \<notin> entry_id ` resting ob"
proof -
  obtain s1 o2 trs nq s2 where fail: "place_order (sale\<lparr>original_price := 100\<rparr>) even_engine = (Inl (PriceOutOfRangeError 100), s1)"
    and run: "place_order sale s1 = (Inr (o2, trs, nq), s2)"
    using sale_after_failure_runs by (auto simp: prod_eq_iff split: sum.splits prod.splits)
  have parts: "is_new_order sale" "ord_market_id sale = ''M''" "ord_id sale = ''t1''"
      "ord_market_id (sale\<lparr>original_price := 100\<rparr>) = ''M''" "order_view (eng_db even_engine) ''r1'' = Some sample_open"
    by code_simp+
  show ?thesis
    using failed_order_hides_the_book [OF fail even_engine_ok(1) run] fail run parts by fastforce
qed

lemma batch_runs:
  "fst (batch_cancel ''M'' ''carol'' BUY_ONLY even_engine) =
     Inr \<lparr>br_market_id = ''M'', br_cancelled_count = 1, br_funds_cents = 101, br_yes_shares = 0, br_no_shares = 0\<rparr>"
  by (simp add: exec_defs exec_samples cong: exec_congs)

theorem batch_cancel_releases_witness:
  "\<exists>res s'. batch_cancel ''M'' ''carol'' BUY_ONLY even_engine = (Inr res, s') \<and> br_cancelled_count res = 1 \<and>
     wf_db (eng_db s') \<and> synced ''M'' (eng_db s') (book_at ''M'' s') \<and>
     paid_back ''carol'' ''M'' 101 0 0 (eng_db even_engine) (eng_db s') \<and>
     order_view (eng_db s') = cancel_rows {''r1''} (order_view (eng_db even_engine))"
proof -
  from run_exists [OF batch_runs] obtain res s' where
    run: "batch_cancel ''M'' ''carol'' BUY_ONLY even_engine = (Inr res, s')" and "br_cancelled_count res = 1" by auto
  moreover have rows: "batch_rows ''M'' ''carol'' BUY_ONLY (eng_db even_engine) = [sample_open]" by code_simp
  moreover have "ord_id sample_open = ''r1''" "frozen_sum FUNDS [sample_open] = 101" "frozen_sum YES_SHARES [sample_open] = 0"
    "frozen_sum NO_SHARES [sample_open] = 0" by code_simp+
  ultimately show ?thesis
    using batch_cancel_releases [OF run even_engine_ok [unfolded synced_shows] rows [symmetric]] by (auto simp: synced_shows)
qed

definition new_bid :: "int \<Rightarrow> new_order_params" where
  "new_bid price = \<lparr>nop_client_order_id = ''n1'', nop_market_id = ''M'', nop_side = YES,
     nop_direction = BUY, nop_price_cents = price, nop_quantity = 1, nop_time_in_force = GTC\<rparr>"

lemma replace_runs:
  "case fst (replace_order ''r1'' (new_bid 30) ''carol'' even_engine) of
     Inr res \<Rightarrow> book_price (rr_new_order res) = 30 | Inl _ \<Rightarrow> False"
  by (simp add: exec_defs exec_samples new_bid_def cong: exec_congs)

theorem replace_order_keeps_sync_witness:
  "\<exists>res s'. replace_order ''r1'' (new_bid 30) ''carol'' even_engine = (Inr res, s') \<and>
     wf_db (eng_db s') \<and> synced ''M'' (eng_db s') (book_at ''M'' s') \<and> rr_old_order_id res = ''r1''"
proof -
  obtain res s' where run: "replace_order ''r1'' (new_bid 30) ''carol'' even_engine = (Inr res, s')"
    using replace_runs by (cases "replace_order ''r1'' (new_bid 30) ''carol'' even_engine") (auto split: sum.splits)
  have m: "nop_market_id (new_bid 30) = ''M''" by (simp add: new_bid_def)
  show ?thesis using run replace_order_keeps_sync [OF run, unfolded m, OF even_engine_ok] by auto
qed

section \<open>Where the code departs from its contract\<close>

text \<open>Carol bids for two at 50 and for four at 40; alice sells two at 50.\<close>

definition second_open :: order where
  "second_open = (sample_order ''r2'' ''carol'' YES BUY 40 4)
     \<lparr>book_type := NATIVE_BUY, book_direction := BUY, book_price := 40,
      frozen_amount := 161, frozen_asset_type := FUNDS\<rparr>"

definition two_bids_engine :: engine_state where
  "two_bids_engine = \<lparr>eng_db = even_db\<lparr>orders := [sample_open, second_open],
     accounts := [sample_account ''alice'' 10000 0, sample_account ''bob'' 10000 0,
       sample_account ''carol'' 9738 262, sample_account ''PLATFORM_FEE'' 0 0]\<rparr>,
     orderbooks = [''M'' \<mapsto> book_of [(book_entry sample_open, 50, BUY), (book_entry second_open, 40, BUY)]]\<rparr>"

definition sale_of_two :: order where
  "sale_of_two = sample_order ''t2'' ''alice'' YES SELL 50 2"

lemma unfreeze_trades: "unfreeze_remainder ord d = (Inr u, d') \<Longrightarrow> trades d' = trades d"
  by (auto simp: unfreeze_remainder_def unfreeze_funds_sql_def unfreeze_yes_sql_def unfreeze_no_sql_def write_ledger_def
      ok_simps sql_update_ok_iff sql_insert_ok_iff next_ledger_id_def split: if_splits)

lemma cancel_inline_trades: "cancel_inline ord w x s = (Inr ord', s') \<Longrightarrow> trades (eng_db s') = trades (eng_db s)"
  by (erule cancel_inline_runs) (auto simp: order_update_status_def write_wal_event_def ok_simps
      sql_update_ok_iff sql_insert_ok_iff dest!: unfreeze_trades)

text \<open>Claim C37. Cancelling reads the order before it takes the lock of the market, and does not read it
  again. Whatever happens to the order in between, also when it is filled: a cancellation that then goes
  through writes the quantities back that it had read, with the status cancelled, and releases
  all that the order had frozen when it was read, while the trades of the fill stay recorded.\<close>

theorem stale_cancel_overwrites_a_fill:
  assumes look: "cancel_lookup oid u s0 = (Inr ord, s1)" and wf0: "wf_db (eng_db s0)"
    and run: "cancel_locked ord s = (Inr ord', s')" and wf: "wf_db (eng_db s)"
    and now: "order_view (eng_db s) oid = Some r"
  shows "order_view (eng_db s0) oid = Some ord \<and> is_active ord \<and>
    order_view (eng_db s') = (order_view (eng_db s))(oid \<mapsto> r\<lparr>ord_status := CANCELLED,
      filled_quantity := filled_quantity ord, remaining_quantity := remaining_quantity ord,
      frozen_amount := frozen_amount ord\<rparr>) \<and>
    released ord (eng_db s) (eng_db s') \<and> trades (eng_db s') = trades (eng_db s)"
proof -
  from look cancel_lookup_runs [OF wf0, of oid u] have ord: "order_view (eng_db s0) oid = Some ord" "is_active ord"
    by (auto split: option.splits if_splits)
  have id: "ord_id ord = oid" by (rule order_view_id [OF ord(1)])
  from run have inl: "cancel_inline ord (ord_user_id ord) [] s = (Inr ord', s')" by (simp add: cancel_locked_ok)
  have "order_view (eng_db s') = set_row ord' (order_view (eng_db s))" "ord' = ord\<lparr>ord_status := CANCELLED\<rparr>"
    using cancel_inline_order [OF inl wf] by simp_all
  then show ?thesis
    using ord id now cancel_inline_releases [OF inl] cancel_inline_trades [OF inl] by (simp add: set_row_def status_columns_def)
qed

text \<open>Alice's sale fills carol's first bid between the lookup and the lock.\<close>

lemma two_bids_ok:
  "wf_db (eng_db two_bids_engine)" "synced ''M'' (eng_db two_bids_engine) (book_at ''M'' two_bids_engine)"
proof -
  let ?ob = "book_of [(book_entry sample_open, 50, BUY), (book_entry second_open, 40, BUY)]"
  have "0 < bo_quantity (book_entry sample_open)" "0 < bo_quantity (book_entry second_open)"
    "bo_order_id (book_entry sample_open) \<noteq> bo_order_id (book_entry second_open)" by code_simp+
  then have "ob_inv ?ob" "resting ?ob = {(BUY, 50, book_entry sample_open), (BUY, 40, book_entry second_open)}"
    by (auto intro!: book_of_ok simp: book_of_ok)
  moreover have "entry_key (BUY, 50, book_entry sample_open) = row_key sample_open"
    "entry_key (BUY, 40, book_entry second_open) = row_key second_open"
    "open_orders ''M'' (eng_db two_bids_engine) = [sample_open, second_open]" by code_simp+
  ultimately show "synced ''M'' (eng_db two_bids_engine) (book_at ''M'' two_bids_engine)"
    by (simp add: synced_def two_bids_engine_def book_at_def)
  show "wf_db (eng_db two_bids_engine)" by code_simp
qed

lemma stale_cancel_runs:
  "case bind_act (cancel_lookup ''r1'' ''carol'') (\<lambda>ord.
          bind_act (place_order sale_of_two) (\<lambda>_. bind_act (in_db (reads (\<lambda>d. order_view d ''r1''))) (\<lambda>now.
          bind_act (cancel_locked ord) (\<lambda>_. ret now)))) two_bids_engine of
     (r, s') \<Rightarrow> (\<exists>now. r = Inr (Some now) \<and> ord_status now = FILLED \<and> filled_quantity now = 2) \<and>
       map trow_quantity (trades (eng_db s')) = [2] \<and> map trow_maker_order_id (trades (eng_db s')) = [''r1'']"
  by (simp add: two_bids_engine_def sale_of_two_def second_open_def exec_defs exec_samples
      order_view_def cong: exec_congs)

theorem stale_cancel_overwrites_a_fill_witness:
  "\<exists>ord s o2 trs nq r ord' s'. cancel_lookup ''r1'' ''carol'' two_bids_engine = (Inr ord, two_bids_engine) \<and>
     place_order sale_of_two two_bids_engine = (Inr (o2, trs, nq), s) \<and>
     order_view (eng_db s) ''r1'' = Some r \<and> ord_status r = FILLED \<and> filled_quantity r = 2 \<and>
     cancel_locked ord s = (Inr ord', s') \<and> order_view (eng_db s') ''r1'' = Some (r\<lparr>ord_status := CANCELLED,
       filled_quantity := 0, remaining_quantity := 2, frozen_amount := 101\<rparr>) \<and>
     map trow_maker_order_id (trades (eng_db s')) = [''r1'']"
proof -
  have look: "cancel_lookup ''r1'' ''carol'' two_bids_engine = (Inr sample_open, two_bids_engine)"
  proof -
    have "order_view (eng_db two_bids_engine) ''r1'' = Some sample_open" "ord_user_id sample_open = ''carol''"
      "is_active sample_open" by code_simp+
    then show ?thesis by (simp add: cancel_lookup_runs [OF two_bids_ok(1)])
  qed
  obtain o2 trs nq s r ord' s' where place: "place_order sale_of_two two_bids_engine = (Inr (o2, trs, nq), s)"
    and now: "order_view (eng_db s) ''r1'' = Some r" "ord_status r = FILLED" "filled_quantity r = 2"
    and run: "cancel_locked sample_open s = (Inr ord', s')"
    and after: "map trow_maker_order_id (trades (eng_db s')) = [''r1'']"
    using stale_cancel_runs look by (auto simp: bind_run in_db_def split: prod.splits sum.splits)
  have parts: "is_new_order sale_of_two" "ord_market_id sale_of_two = ''M''"
    "filled_quantity sample_open = 0" "remaining_quantity sample_open = 2" "frozen_amount sample_open = 101" by code_simp+
  have "wf_db (eng_db s)" using place_order_in_sync [OF place two_bids_ok(1) parts(1)] parts(2) two_bids_ok(2) by simp
  from stale_cancel_overwrites_a_fill [OF look two_bids_ok(1) run this now(1)] parts
  have "order_view (eng_db s') ''r1'' = Some (r\<lparr>ord_status := CANCELLED,
       filled_quantity := 0, remaining_quantity := 2, frozen_amount := 101\<rparr>)" by simp
  with look place now run after show ?thesis by - (intro exI conjI, assumption+)
qed

text \<open>Claim C38. Replacing checks that the old order is not filled, but not that it is still open: when an
  order is cancelled and then replaced, what it had frozen is released twice before the new
  order is placed: twice the cents leave the frozen balance of its owner, or twice the shares stop
  being pending.\<close>

theorem replayed_replace_releases_twice:
  assumes cancel: "cancel_order oid u s = (Inr ord, s1)" and replace: "replace_order oid ps u s1 = (Inr res, s2)"
    and wf: "wf_db (eng_db s)" "wf_db (eng_db s1)" and n: "recorded_freeze ord = (n, y, no)"
  shows "\<exists>s3 nid now trs nq. paid_back u (ord_market_id ord) (2 * n) (2 * y) (2 * no) (eng_db s) (eng_db s3) \<and>
    place_order (fresh_order nid ps u now) s3 = (Inr (rr_new_order res, trs, nq), s2)"
proof -
  obtain o1 where o1: "order_view (eng_db s) oid = Some o1" "ord_user_id o1 = u"
    and inl: "cancel_inline o1 u [] s = (Inr ord, s1)"
    by (rule cancel_order_runs [OF cancel wf(1)])
  have ord: "ord = o1\<lparr>ord_status := CANCELLED\<rparr>" by (rule cancel_inline_runs [OF inl])
  have same: "recorded_freeze o1 = recorded_freeze ord" "ord_user_id ord = u" "ord_market_id o1 = ord_market_id ord"
    using o1(2) by (simp_all add: ord recorded_freeze_def split: frozen_asset.splits)
  have "order_view (eng_db s1) oid = Some ord"
    using cancel_inline_order [OF inl wf(1)] o1(1) order_view_id [OF o1(1)] ord by (simp add: set_row_def status_columns_def)
  moreover obtain old where look: "replace_lookup oid ps u s1 = (Inr old, s1)" and lock: "replace_locked ps u old s1 = (Inr res, s2)"
    using replace replace_lookup_runs [OF _ wf(2)] by (auto simp: replace_order_def bind_ok_iff) (metis (no_types))
  ultimately have old: "old = ord" using replace_lookup_runs [OF look wf(2)] by simp
  show ?thesis
  proof (rule replace_locked_runs [OF lock], goal_cases)
    case (1 old1 s4 nid d2 trs nq)
    have "released o1 (eng_db s) (eng_db s1)" "released ord (eng_db s1) (eng_db s4)"
      using cancel_inline_releases [OF inl] cancel_inline_releases [OF 1(1)] old by simp_all
    then have "paid_back u (ord_market_id ord) n y no (eng_db s) (eng_db s1)"
      "paid_back u (ord_market_id ord) n y no (eng_db s1) (eng_db s4)"
      using same n o1(2) by (simp_all add: released_def)
    from paid_back_trans [OF this] have "paid_back u (ord_market_id ord) (2 * n) (2 * y) (2 * no) (eng_db s) (eng_db s4)"
      by simp
    moreover have "accounts d2 = accounts (eng_db s4)" "positions d2 = positions (eng_db s4)"
      using 1(2) by (auto simp: generate_id_def)
    ultimately have "paid_back u (ord_market_id ord) (2 * n) (2 * y) (2 * no) (eng_db s) (eng_db (s4\<lparr>eng_db := d2\<rparr>))"
      using paid_back_tables by simp
    then show ?case using 1(3) by blast
  qed
qed

lemma replayed_replace_runs:
  "case fst (bind_act (cancel_order ''r1'' ''carol'') (\<lambda>_. replace_order ''r1'' (new_bid 30) ''carol'') two_bids_engine) of
     Inr _ \<Rightarrow> True | Inl _ \<Rightarrow> False"
  by (simp add: two_bids_engine_def new_bid_def second_open_def exec_defs exec_samples cong: exec_congs)

theorem replayed_replace_releases_twice_witness:
  "\<exists>ord s1 res s2 (s3 :: engine_state). cancel_order ''r1'' ''carol'' two_bids_engine = (Inr ord, s1) \<and>
     replace_order ''r1'' (new_bid 30) ''carol'' s1 = (Inr res, s2) \<and>
     paid_back ''carol'' ''M'' 202 0 0 (eng_db two_bids_engine) (eng_db s3)"
proof -
  obtain ord s1 res where cancel: "cancel_order ''r1'' ''carol'' two_bids_engine = (Inr ord, s1)"
    and "fst (replace_order ''r1'' (new_bid 30) ''carol'' s1) = Inr res"
    using replayed_replace_runs by (auto simp: bind_run split: prod.splits sum.splits)
  from run_exists [OF this(2)] obtain s2 where replace: "replace_order ''r1'' (new_bid 30) ''carol'' s1 = (Inr res, s2)" ..
  obtain o1 where "order_view (eng_db two_bids_engine) ''r1'' = Some o1"
    and inl: "cancel_inline o1 ''carol'' [] two_bids_engine = (Inr ord, s1)"
    by (rule cancel_order_runs [OF cancel two_bids_ok(1)])
  moreover have "order_view (eng_db two_bids_engine) ''r1'' = Some sample_open" by code_simp
  ultimately have ord: "ord = sample_open\<lparr>ord_status := CANCELLED\<rparr>" by (auto elim: cancel_inline_runs)
  have parts: "recorded_freeze (sample_open\<lparr>ord_status := CANCELLED\<rparr>) = (101, 0, 0)"
    "ord_market_id (sample_open\<lparr>ord_status := CANCELLED\<rparr>) = ''M''" by code_simp+
  have wf1: "wf_db (eng_db s1)" using cancel_order_result [OF cancel two_bids_ok(1)] two_bids_ok(2) parts(2) ord by simp
  have ord': "recorded_freeze ord = (101, 0, 0)" "ord_market_id ord = ''M''" using parts ord by simp_all
  have "\<exists>s3 :: engine_state. paid_back ''carol'' ''M'' (2 * 101) (2 * 0) (2 * 0) (eng_db two_bids_engine) (eng_db s3)"
    using replayed_replace_releases_twice [OF cancel replace two_bids_ok(1) wf1 ord'(1), unfolded ord'(2)]
    by (elim exE conjE) (rule exI)
  then obtain s3 :: engine_state where "paid_back ''carol'' ''M'' (2 * 101) (2 * 0) (2 * 0) (eng_db two_bids_engine) (eng_db s3)" ..
  then have "paid_back ''carol'' ''M'' 202 0 0 (eng_db two_bids_engine) (eng_db s3)" by simp
  with cancel replace show ?thesis by - (intro exI conjI, assumption+)
qed

lemma refused_replace_runs:
  "fst (replace_order ''r1'' (new_bid 100) ''carol'' even_engine) = Inl (PriceOutOfRangeError 100)"
  by (simp add: exec_defs exec_samples new_bid_def cong: exec_congs)

definition flat_engine :: engine_state where
  "flat_engine = \<lparr>eng_db = even_db\<lparr>orders := [], accounts := flat_accounts\<rparr>, orderbooks = (\<lambda>_. None)\<rparr>"

lemma frozen_too_low:
  assumes "acct d u = Some a" and "frozen_balance a < n"
  shows "unfreeze_funds_sql u n d = (Inl (DBError ''accounts''), d)"
proof -
  have "a \<in> set (accounts d)" "acc_user_id a = u" using assms(1) by (auto simp: acct_def dest: lookup_row_SomeD)
  then show ?thesis
    using assms(2) by (force simp: unfreeze_funds_sql_def sql_update_def Let_def list_all_iff ck_account_def)
qed

text \<open>Claim C35. A taker's fee is paid out of what its order froze, yet what the order records as frozen is
  recomputed with a fee on the remainder: the record may exceed what the account has frozen. As
  long as the owner of an open order has less frozen than the order records, every attempt to
  cancel it fails on the constraint of the accounts, changes no table and evicts the market's book.\<close>

theorem uncovered_order_cannot_cancel:
  assumes wf: "wf_db (eng_db s)" and inv: "ob_inv (book_at (ord_market_id r) s)"
    and r: "order_view (eng_db s) oid = Some r" "is_active r" "frozen_asset_type r = FUNDS"
    and a: "acct (eng_db s) (ord_user_id r) = Some a" "frozen_balance a < frozen_amount r"
  shows "\<exists>s'. cancel_order oid (ord_user_id r) s = (Inl (DBError ''accounts''), s') \<and> same_tables (eng_db s) (eng_db s') \<and>
    orderbooks s' = (orderbooks s)(ord_market_id r := None)"
proof -
  obtain ob' where "book_cancel (ord_id r) (book_at (ord_market_id r) s) = (Inr (), ob')"
    by (rule book_cancel_ok [OF inv])
  then have "fst (cancel_inline r (ord_user_id r) [] s) = Inl (DBError ''accounts'')"
    using frozen_too_low [OF a] r(3)
    by (simp add: cancel_inline_def bind_run in_book_run in_db_def unfreeze_remainder_def)
  then have "fst (cancel_locked r s) = Inl (DBError ''accounts'')"
    by (auto simp: cancel_locked_def nested_def on_error_def split: prod.splits sum.splits)
  moreover have "cancel_lookup oid (ord_user_id r) s = (Inr r, s)" using cancel_lookup_runs [OF wf] r by simp
  ultimately have "fst (cancel_order oid (ord_user_id r) s) = Inl (DBError ''accounts'')"
    by (simp add: cancel_order_def bind_run)
  then obtain s' where run: "cancel_order oid (ord_user_id r) s = (Inl (DBError ''accounts''), s')"
    by (cases "cancel_order oid (ord_user_id r) s") simp
  from cancel_order_failure [OF run wf] r(1) show ?thesis using run by (auto simp: is_app_error_def)
qed

text \<open>After buying one of two shares at 50 carol's order records 51 cents of the 50 that are frozen.\<close>

lemma partly_filled_taker_runs:
  "case bind_act (place_order (sample_order ''a1'' ''alice'' YES SELL 50 1)) (\<lambda>_.
        bind_act (place_order (sample_order ''b1'' ''carol'' YES BUY 50 2)) (\<lambda>_. ret ())) flat_engine of
     (r, s') \<Rightarrow> r = Inr () \<and> map_option frozen_balance (acct (eng_db s') ''carol'') = Some 50 \<and>
       (\<exists>o1. order_view (eng_db s') ''b1'' = Some o1 \<and> is_active o1 \<and> frozen_asset_type o1 = FUNDS \<and>
          frozen_amount o1 = 51 \<and> ord_user_id o1 = ''carol'' \<and> ord_market_id o1 = ''M'')"
  by (simp add: flat_engine_def flat_accounts_def exec_defs exec_samples order_view_def acct_def is_active_def cong: exec_congs)

lemma flat_engine_ok:
  "wf_db (eng_db flat_engine)" "synced ''M'' (eng_db flat_engine) (book_at ''M'' flat_engine)"
proof -
  show "wf_db (eng_db flat_engine)" by code_simp
  have "open_orders ''M'' (eng_db flat_engine) = []" by code_simp
  then show "synced ''M'' (eng_db flat_engine) (book_at ''M'' flat_engine)"
    by (simp add: synced_def OrderBook_inv book_at_def flat_engine_def)
qed

theorem uncovered_order_cannot_cancel_witness:
  "\<exists>o1 trs1 nq1 s1 o2 trs2 nq2 s2 s3. place_order (sample_order ''a1'' ''alice'' YES SELL 50 1) flat_engine = (Inr (o1, trs1, nq1), s1) \<and>
     place_order (sample_order ''b1'' ''carol'' YES BUY 50 2) s1 = (Inr (o2, trs2, nq2), s2) \<and>
     cancel_order ''b1'' ''carol'' s2 = (Inl (DBError ''accounts''), s3) \<and> orderbooks s3 ''M'' = None"
proof -
  let ?a = "sample_order ''a1'' ''alice'' YES SELL 50 1" and ?b = "sample_order ''b1'' ''carol'' YES BUY 50 2"
  obtain o1 trs1 nq1 s1 o2 trs2 nq2 s2 r where run: "place_order ?a flat_engine = (Inr (o1, trs1, nq1), s1)"
      "place_order ?b s1 = (Inr (o2, trs2, nq2), s2)"
    and acc: "map_option frozen_balance (acct (eng_db s2) ''carol'') = Some 50"
    and r: "order_view (eng_db s2) ''b1'' = Some r" "is_active r" "frozen_asset_type r = FUNDS"
      "frozen_amount r = 51" "ord_user_id r = ''carol''" "ord_market_id r = ''M''"
    using partly_filled_taker_runs by (auto simp: bind_run split: prod.splits sum.splits)
  have parts: "is_new_order ?a" "ord_market_id ?a = ''M''" "is_new_order ?b" "ord_market_id ?b = ''M''" by code_simp+
  have "wf_db (eng_db s2) \<and> synced ''M'' (eng_db s2) (book_at ''M'' s2)"
    using place_order_in_sync [OF run(2) _ parts(3)] place_order_in_sync [OF run(1) flat_engine_ok(1) parts(1)]
      flat_engine_ok(2) parts by simp
  then have ok: "wf_db (eng_db s2)" "ob_inv (book_at (ord_market_id r) s2)" by (simp_all add: r synced_def)
  obtain a where a: "acct (eng_db s2) (ord_user_id r) = Some a" "frozen_balance a < frozen_amount r" using acc r by auto
  obtain s3 where cancel: "cancel_order ''b1'' ''carol'' s2 = (Inl (DBError ''accounts''), s3)" "orderbooks s3 ''M'' = None"
    using uncovered_order_cannot_cancel [OF ok r(1-3) a] by (auto simp: r)
  show ?thesis by (intro exI conjI) (rule run cancel)+
qed

end
