(* ===== verification/Engine_Money.thy ===== *)
theory Engine_Money
  imports Engine_Cancel
begin

text \<open>
  The money through a whole order: freezing, every fill with its fee and its netting, the
  release of a remainder and the write-back of the market row. The books of a market
  (\<open>Clearing.books\<close>) are kept when the market's fee rate is the 20 basis points the buffer is
  computed with.
\<close>

section \<open>The books through one fill\<close>

definition kept :: "string \<Rightarrow> market_state \<Rightarrow> db \<Rightarrow> market_state \<Rightarrow> db \<Rightarrow> bool" where
  "kept m ms d ms' d' \<longleftrightarrow>
     wf_db d' \<and> account_ids d' = account_ids d \<and> markets d' = markets d \<and>
     books m ms' d' = books m ms d \<and>
     ms_id ms' = ms_id ms \<and> ms_fee_bps ms' = ms_fee_bps ms \<and> ms_status ms' = ms_status ms"

lemma kept_refl: "wf_db d \<Longrightarrow> kept m ms d ms d"
  by (simp add: kept_def)

lemma kept_trans: "kept m ms d ms1 d1 \<Longrightarrow> kept m ms1 d1 ms2 d2 \<Longrightarrow> kept m ms d ms2 d2"
  by (simp add: kept_def)

lemma keeps_books_kept: "keeps_books m ms d ms' d' \<Longrightarrow> kept m ms d ms' d'"
  by (simp add: kept_def keeps_books_def)

lemma effect_kept: "effect m d d' 0 0 0 0 \<Longrightarrow> kept m ms d ms d'"
  by (simp add: effect_def kept_def books_def)

lemma totals_kept: "same_totals d d' \<Longrightarrow> wf_db d' \<Longrightarrow> kept m ms d ms d'"
  by (simp add: same_totals_def kept_def books_def)

lemma kept_wf: "kept m ms d ms' d' \<Longrightarrow> wf_db d'"
  by (simp add: kept_def)

lemma kept_accounts: "kept m ms d ms' d' \<Longrightarrow> account_ids d' = account_ids d"
  by (simp add: kept_def)

text \<open>At 20 basis points the fee is the whole buffer, and nothing is refunded.\<close>

lemma calc_fee_is_buffer: "calc_fee x 20 = calc_max_fee x"
  by (simp add: calc_fee_def calc_max_fee_def TAKER_FEE_BPS_def)

lemma collect_fee_effect:
  assumes run: "collect_fee tr 20 d = (Inr fee, d')" and wf: "wf_db d"
    and users: "{buy_user_id tr, sell_user_id tr, PLATFORM_FEE_USER_ID} \<subseteq> account_ids d"
  shows "effect m d d' 0 0 0 0"
proof -
  define taker where "taker = (if taker_order_id tr = buy_order_id tr then buy_user_id tr else sell_user_id tr)"
  define base where "base = get_fee_trade_value (if taker_order_id tr = buy_order_id tr then buy_book_type tr
    else sell_book_type tr) (tr_price tr) (tr_quantity tr) (buy_original_price tr)"
  have "(\<exists>u. collect_fee_from_frozen taker (calc_fee base 20) (calc_max_fee base) d = (Inr u, d')) \<or>
    (\<exists>u. collect_fee_from_proceeds taker (calc_fee base 20) d = (Inr u, d'))"
    using run by (auto simp: collect_fee_def ok_simps Let_def taker_def base_def split: if_splits)
  moreover have "taker \<in> account_ids d" "PLATFORM_FEE_USER_ID \<in> account_ids d"
    using users by (simp_all add: taker_def)
  ultimately show ?thesis
    using collect_fee_from_frozen_effect [of taker "calc_fee base 20" "calc_max_fee base" d _ d' m]
      collect_fee_from_proceeds_effect [of taker "calc_fee base 20" d _ d' m] wf
    by (auto simp: calc_fee_is_buffer)
qed

lemma clear_fill_kept:
  assumes run: "clear_fill tr (ms, ord, n) d = (Inr (ms', ord', n'), d')" and wf: "wf_db d"
    and bps: "ms_fee_bps ms = 20" and m: "tr_market_id tr = m" "ord_market_id ord = m"
    and users: "{buy_user_id tr, sell_user_id tr, PLATFORM_FEE_USER_ID} \<subseteq> account_ids d"
  shows "kept m ms d ms' d'"
proof (rule clear_fill_runs [OF run], goal_cases)
  case (1 bp sp ms1 d1 d2 d3 fee d4 d5 nq d6)
  have k1: "kept m ms d ms1 d1"
    using keeps_books_kept [OF settle_trade_books [OF 1(1) wf]] users m by simp
  have bps1: "ms_fee_bps ms1 = 20" using k1 bps by (simp add: kept_def)
  have wf2: "wf_db d2" using repo.update_law [OF kept_wf [OF k1] 1(3)] by simp
  have k2: "kept m ms1 d1 ms1 d2" using totals_kept [OF order_update_totals [OF 1(3)] wf2] .
  have "same_totals d2 d3"
    using 1(4) order_update_totals
    by (auto simp: update_maker_status_def ok_simps order_get_by_id_def reads_def same_totals_def split: option.splits)
  then have k3: "kept m ms1 d2 ms1 d3"
    using update_maker_view [OF 1(4) wf2] by (blast intro: totals_kept)
  have acc3: "account_ids d3 = account_ids d" using k1 k2 k3 by (simp add: kept_def)
  have k4: "kept m ms1 d3 ms1 d4"
    using collect_fee_effect [OF 1(5) [unfolded bps1] kept_wf [OF k3]] users acc3 by (simp add: effect_kept)
  have k5: "kept m ms1 d4 ms1 d5"
    using write_trade_effect [OF 1(6) kept_wf [OF k4]] by (rule effect_kept)
  have "buy_user_id tr \<in> account_ids d5" using users acc3 k4 k5 by (simp add: kept_def)
  then have k6: "kept m ms1 d5 ms' d6"
    using keeps_books_kept [OF execute_netting_books [OF 1(7) kept_wf [OF k5]]] m by simp
  have "wf_db d'" using keepsD [OF keeps_wf_write_wal kept_wf [OF k6] 1(8)] .
  then have k7: "kept m ms' d6 ms' d'" using totals_kept [OF same_totals_core [OF write_wal_core [OF 1(8)]]] by blast
  show ?case by (rule kept_trans [OF kept_trans [OF kept_trans [OF kept_trans [OF kept_trans [OF kept_trans
    [OF k1 k2] k3] k4] k5] k6] k7])
qed

lemma clear_fills_kept:
  assumes "fold_act clear_fill trs (ms, ord, n) d = (Inr (ms', ord', n'), d')" and "wf_db d"
    and "ms_fee_bps ms = 20" and "ord_market_id ord = m"
    and "\<forall>t \<in> set trs. tr_market_id t = m \<and> {buy_user_id t, sell_user_id t} \<subseteq> account_ids d"
    and "PLATFORM_FEE_USER_ID \<in> account_ids d"
  shows "kept m ms d ms' d'"
  using assms
proof (induction trs arbitrary: ms ord n d)
  case Nil
  then show ?case by (simp add: kept_refl)
next
  case (Cons tr trs)
  then obtain ms1 ord1 n1 d1 where s1: "clear_fill tr (ms, ord, n) d = (Inr (ms1, ord1, n1), d1)"
    and rest: "fold_act clear_fill trs (ms1, ord1, n1) d1 = (Inr (ms', ord', n'), d')"
    by (auto simp: ok_simps)
  have k1: "kept m ms d ms1 d1"
    using clear_fill_kept [OF s1 Cons.prems(2,3)] Cons.prems(4,5,6) by simp
  have "ord_market_id ord1 = m" using clear_fill_view [OF s1 Cons.prems(2)] Cons.prems(4) by simp
  then have "kept m ms1 d1 ms' d'"
    using Cons.IH [OF rest kept_wf [OF k1]] Cons.prems(3,5,6) k1 by (simp add: kept_def)
  with k1 show ?case by (rule kept_trans)
qed

section \<open>The books through an order\<close>

lemma prepare_order_totals:
  assumes "prepare_order ord d = (Inr ord1, d1)"
  shows "same_totals d d1 \<and> ord_user_id ord1 = ord_user_id ord"
proof -
  obtain bt bd bp where tr: "transform_order (original_side ord) (original_direction ord) (original_price ord) = (bt, bd, bp)"
    by (metis prod_cases3)
  from assms obtain d2 d3 where
    fz: "check_and_freeze (ord\<lparr>book_type := bt, book_direction := bd, book_price := bp\<rparr>) d = (Inr ord1, d2)"
    and sv: "order_save ord1 d2 = (Inr (), d3)"
    and wal: "write_wal_event ORDER_ACCEPTED (ord_id ord1) (ord_market_id ord1) (ord_user_id ord1) [] d3 = (Inr (), d1)"
    by (auto simp: prepare_order_def ok_simps tr check_market_active_ok check_price_range_ok check_order_limit_ok)
  have "same_totals d d2" using check_and_freeze_views [OF fz] by (simp add: same_totals_def)
  moreover have "same_totals d2 d3" using order_save_state [OF sv] by (simp add: same_totals_def view_defs)
  moreover have "same_totals d3 d1" by (rule same_totals_core [OF write_wal_core [OF wal]])
  ultimately have "same_totals d d1" by (blast intro: same_totals_trans)
  then show ?thesis using check_and_freeze_order [OF fz] by simp
qed

lemma finalize_totals:
  assumes "finalize_order m ord k s = (Inr ord', s')" and "wf_db (eng_db s)"
  shows "wf_db (eng_db s') \<and> same_totals (eng_db s) (eng_db s')"
proof (rule finalize_cases [OF assms], goal_cases)
  case 1
  then show ?case using assms(2) by (simp add: same_totals_def)
next
  case (2 t ob')
  then show ?case by (simp add: same_totals_core)
next
  case (3 d1)
  have "same_totals (eng_db s) d1"
    by (rule effect_same_totals [OF unfreeze_remainder_effect [OF 3(4) assms(2)]])
  moreover have "same_totals d1 (eng_db s')" using 3(8-10) by (simp add: same_totals_def view_defs)
  ultimately show ?case using 3(7) by (blast intro: same_totals_trans)
qed

text \<open>Who trades: the taker and owners of resting orders.\<close>

lemma match_users:
  assumes "ob_inv ob" and "1 \<le> book_price inc" "book_price inc \<le> 99" "book_direction inc \<in> {BUY, SELL}"
    and "match_order inc ob = (Inr (inc', trs), ob')" and "t \<in> set trs"
  shows "tr_market_id t = ord_market_id inc \<and>
    {buy_user_id t, sell_user_id t} \<subseteq> insert (ord_user_id inc) {bo_user_id bo |bo sd p. (sd, p, bo) \<in> resting ob}"
proof -
  obtain gs r' where pass: "levels_pass (ord_user_id inc) (remaining_quantity inc)
      (ladder (book_direction inc) (book_price inc) ob) = (gs, r')"
    and res: "(Inr (inc', trs) :: exc + _) = Inr (filled_by (remaining_quantity inc - r') inc, trades_of (book_direction inc) inc gs)"
    by (rule match_order_cases [OF assms(1-5)])
  have fills: "\<forall>(p, bo, n) \<in> set gs. (maker_dir (book_direction inc), p, bo) \<in> resting ob"
    using levels_pass_fills [OF pass ladder_pos_ladder [OF assms(1-3)]] ladder_resting [OF assms(2,3)] by fastforce
  obtain p bo n where t: "t = make_trade (book_direction inc) p inc bo n" and g: "(p, bo, n) \<in> set gs"
    using assms(6) res by (auto simp: trades_of_def)
  have "(maker_dir (book_direction inc), p, bo) \<in> resting ob" using fills g by fast
  then show ?thesis by (auto simp: t make_trade_def make_trade_buy_incoming_def make_trade_sell_incoming_def)
qed

lemma match_market:
  assumes "ob_inv ob" and "1 \<le> book_price inc" "book_price inc \<le> 99" "book_direction inc \<in> {BUY, SELL}"
    and "match_order inc ob = (Inr (inc', trs), ob')"
  shows "ord_market_id inc' = ord_market_id inc"
proof -
  obtain gs r' where "(Inr (inc', trs) :: exc + _) =
      Inr (filled_by (remaining_quantity inc - r') inc, trades_of (book_direction inc) inc gs)"
    by (rule match_order_cases [OF assms])
  then have "inc' = filled_by (remaining_quantity inc - r') inc" by simp
  then show ?thesis by simp
qed

definition owners_have_accounts :: "db \<Rightarrow> bool" where
  "owners_have_accounts d \<longleftrightarrow> PLATFORM_FEE_USER_ID \<in> account_ids d \<and>
     (\<forall>r \<in> set (orders d). ord_user_id r \<in> account_ids d)"

lemma book_users:
  assumes "shows_but X m d ob" and "owners_have_accounts d" and "(sd, p, bo) \<in> resting ob"
  shows "bo_user_id bo \<in> account_ids d"
  by (rule shows_but_entry [OF assms(1,3)])
     (use assms(2) in \<open>auto simp: open_orders_def entry_key_def row_key_def owners_have_accounts_def\<close>)

lemma flush_market_result:
  assumes "flush_market ms d = (Inr u, d')" and "wf_db d" and "mkt d m = Some row" and "ms_id ms = m"
  shows "same_totals d (d'\<lparr>markets := markets d\<rparr>) \<and>
    mkt d' m = Some (row\<lparr>reserve_balance := ms_reserve ms, pnl_pool := ms_pnl ms,
      total_yes_shares := ms_yes ms, total_no_shares := ms_no ms\<rparr>) \<and> (\<forall>k. k \<noteq> m \<longrightarrow> mkt d' k = mkt d k)"
  using assms
  by (auto simp: flush_market_def ok_simps sql_update_ok_iff same_totals_def view_defs mkt_def lookup_row_update_key)

lemma place_order_books:
  assumes run: "place_order ord s = (Inr (ord4, trs, nq), s')" and wf: "wf_db (eng_db s)"
    and sync: "shows_but X (ord_market_id ord) (eng_db s) (book_at (ord_market_id ord) s)"
    and row: "mkt (eng_db s) (ord_market_id ord) = Some row" and bps: "taker_fee_bps row = 20"
    and acc: "owners_have_accounts (eng_db s)" "ord_user_id ord \<in> account_ids (eng_db s)"
  shows "\<exists>row'. mkt (eng_db s') (ord_market_id ord) = Some row' \<and>
    taker_fee_bps row' = taker_fee_bps row \<and> mkt_status row' = mkt_status row \<and>
    (pnl_pool row' = pnl_pool row \<or>
     reserve_balance row' + pnl_pool row' = cost_held (ord_market_id ord) (eng_db s')) \<and> account_ids (eng_db s') = account_ids (eng_db s) \<and>
    books (ord_market_id ord) (MarketState row') (eng_db s') = books (ord_market_id ord) (MarketState row) (eng_db s) \<and>
    (\<forall>k. k \<noteq> ord_market_id ord \<longrightarrow> mkt (eng_db s') k = mkt (eng_db s) k)"
proof -
  let ?m = "ord_market_id ord" and ?d = "eng_db s"
  obtain ord1 d1 row1 ord2 ob2 ms ord3 d2 s5 d7 where
    prep: "prepare_order ord ?d = (Inr ord1, d1)" and
    row1: "mkt d1 ?m = Some row1" and
    match: "match_order ord1 (book_at ?m s) = (Inr (ord2, trs), ob2)" and
    clear: "fold_act clear_fill trs (MarketState row1, ord2, 0) d1 = (Inr (ms, ord3, nq), d2)" and
    fin: "finalize_order ?m ord3 0 (s\<lparr>orderbooks := (orderbooks s)(?m \<mapsto> ob2), eng_db := d2\<rparr>) = (Inr ord4, s5)" and
    check: "trs \<noteq> [] \<longrightarrow> verify_invariants_after_trade ms (eng_db s5) = (Inr (), eng_db s5)" and
    fl: "flush_market ms (eng_db s5) = (Inr (), d7)" and s': "s' = s5\<lparr>eng_db := d7\<rparr>"
    by (rule place_order_runs [OF run])
  note t1 = prepare_order_totals [OF prep]
  obtain bt bd bp where bp: "1 \<le> bp" "bp \<le> 99" "bd \<in> {BUY, SELL}" and wf1: "wf_db d1"
    and o1: "ord1 = ord\<lparr>book_type := bt, book_direction := bd, book_price := bp,
       frozen_amount := frozen_amount ord1, frozen_asset_type := frozen_asset_type ord1\<rparr>"
    by (rule prepare_order_result [OF prep wf]) blast
  have limit: "1 \<le> book_price ord1" "book_price ord1 \<le> 99" "book_direction ord1 \<in> {BUY, SELL}"
    and m1: "ord_market_id ord1 = ?m" using bp by (subst o1, simp)+
  have row_eq: "row1 = row" using row row1 t1 by (simp add: same_totals_def mkt_def)
  have inv: "ob_inv (book_at ?m s)" using sync by (rule shows_but_inv)
  have users: "\<forall>t \<in> set trs. tr_market_id t = ?m \<and> {buy_user_id t, sell_user_id t} \<subseteq> account_ids d1"
  proof
    fix t assume "t \<in> set trs"
    note mu = match_users [OF inv limit match this]
    moreover have "bo_user_id bo \<in> account_ids ?d" if "(sd, p, bo) \<in> resting (book_at ?m s)" for sd p bo
      by (rule book_users [OF sync acc(1) that])
    moreover have "account_ids d1 = account_ids ?d" "ord_user_id ord1 = ord_user_id ord" using t1 by (simp_all add: same_totals_def)
    ultimately show "tr_market_id t = ?m \<and> {buy_user_id t, sell_user_id t} \<subseteq> account_ids d1"
      using acc(2) m1 by auto
  qed
  have "ord_market_id ord2 = ?m" using match_market [OF inv limit match] m1 by simp
  then have k2: "kept ?m (MarketState row) d1 ms d2"
    using clear_fills_kept [OF clear wf1 _ _ users] bps acc(1) t1
    by (simp add: row_eq MarketState_def owners_have_accounts_def same_totals_def)
  have f: "wf_db (eng_db s5) \<and> same_totals d2 (eng_db s5)"
    using finalize_totals [OF fin] kept_wf [OF k2] by simp
  have "mkt (eng_db s5) ?m = Some row" using row1 row_eq k2 f by (simp add: kept_def same_totals_def mkt_def)
  moreover have id: "ms_id ms = ?m" "ms_fee_bps ms = taker_fee_bps row" "ms_status ms = mkt_status row"
    using k2 lookup_row_SomeD [OF row1 [unfolded mkt_def]] by (simp_all add: kept_def MarketState_def row_eq)
  ultimately have fr: "same_totals (eng_db s5) (d7\<lparr>markets := markets (eng_db s5)\<rparr>) \<and>
    mkt d7 ?m = Some (row\<lparr>reserve_balance := ms_reserve ms, pnl_pool := ms_pnl ms,
      total_yes_shares := ms_yes ms, total_no_shares := ms_no ms\<rparr>) \<and>
    (\<forall>k. k \<noteq> ?m \<longrightarrow> mkt d7 k = mkt (eng_db s5) k)"
    using flush_market_result [OF fl f [THEN conjunct1]] by blast
  let ?row' = "row\<lparr>reserve_balance := ms_reserve ms, pnl_pool := ms_pnl ms,
      total_yes_shares := ms_yes ms, total_no_shares := ms_no ms\<rparr>"
  have "books ?m (MarketState ?row') d7 = books ?m ms (eng_db s5)"
    using fr by (simp add: books_def MarketState_def same_totals_def view_defs)
  also have "\<dots> = books ?m (MarketState row) ?d"
    using k2 f t1 by (simp add: books_def kept_def same_totals_def)
  finally have books: "books ?m (MarketState ?row') d7 = books ?m (MarketState row) ?d" .
  have "pnl_pool ?row' = pnl_pool row \<or> reserve_balance ?row' + pnl_pool ?row' = cost_held ?m d7"
  proof (cases "trs = []")
    case True
    then show ?thesis using clear by (auto simp: ret_ok_iff MarketState_def row_eq)
  next
    case False
    then show ?thesis
      using check fr by (auto simp: verify_invariants_ok id same_totals_def cost_held_def)
  qed
  moreover have "account_ids (d7\<lparr>markets := X\<rparr>) = account_ids d7" for X by (simp add: account_ids_def)
  ultimately show ?thesis
    using books fr k2 f t1 by (intro exI [of _ ?row']) (simp add: s' kept_def same_totals_def mkt_def)
qed

text \<open>Claim C3. A successful order neither makes nor loses money: the accounts and the market's reserve
  together hold what they held before, no other market changes, and a market whose totals are
  the shares held, with a hundred cents behind each pair, stays so. The market's fee rate has to
  be the 20 basis points of the frozen buffer, as that of every seeded market is; the market's book
  shows its open orders, up to any \<open>X\<close> that it has lost in failures and restarts.\<close>

theorem place_order_conserves_money:
  assumes "place_order ord s = (Inr (ord4, trs, nq), s')" and "wf_db (eng_db s)"
    and "shows_but X (ord_market_id ord) (eng_db s) (book_at (ord_market_id ord) s)"
    and "mkt (eng_db s) (ord_market_id ord) = Some row" and "taker_fee_bps row = 20"
    and "owners_have_accounts (eng_db s)" and "ord_user_id ord \<in> account_ids (eng_db s)"
  shows "\<exists>row'. mkt (eng_db s') (ord_market_id ord) = Some row' \<and>
    funds (eng_db s') + reserve_balance row' = funds (eng_db s) + reserve_balance row \<and>
    (solvent (ord_market_id ord) (MarketState row) (eng_db s) \<longrightarrow>
     solvent (ord_market_id ord) (MarketState row') (eng_db s')) \<and>
    (\<forall>k. k \<noteq> ord_market_id ord \<longrightarrow> mkt (eng_db s') k = mkt (eng_db s) k)"
  using place_order_books [OF assms] by (force simp: books_def solvent_def MarketState_def)

theorem place_order_conserves_money_witness:
  "\<exists>ord trs nq s' row'. place_order sale even_engine = (Inr (ord, trs, nq), s') \<and> map tr_quantity trs = [2] \<and>
     mkt (eng_db s') ''M'' = Some row' \<and>
     funds (eng_db s') + reserve_balance row' = funds (eng_db even_engine) + 1000 \<and>
     solvent ''M'' (MarketState row') (eng_db s')"
proof -
  obtain ord trs nq s' where run: "place_order sale even_engine = (Inr (ord, trs, nq), s')"
    and qty: "map tr_quantity trs = [2]"
    using sale_runs by (cases "place_order sale even_engine") (auto split: sum.splits)
  have m: "ord_market_id sale = ''M''" by code_simp
  have row: "mkt (eng_db even_engine) ''M'' = Some sample_market" "taker_fee_bps sample_market = 20"
    "reserve_balance sample_market = 1000" by code_simp+
  have acc: "owners_have_accounts (eng_db even_engine)" "ord_user_id sale \<in> account_ids (eng_db even_engine)"
    by (simp_all add: owners_have_accounts_def account_ids_def PLATFORM_FEE_USER_ID_def even_engine_def even_db_def
        sample_db_def sample_account_def sample_open_def sample_order_def sale_def)
  have sol: "solvent ''M'' (MarketState sample_market) (eng_db even_engine)"
    by (simp add: solvent_def yes_held_def no_held_def in_market_def col_sum_def MarketState_def sample_market_def
        even_engine_def even_db_def)
  note all = place_order_conserves_money [OF run, unfolded m, OF even_engine_ok [unfolded synced_shows] row(1,2) acc]
  then obtain row' where r: "mkt (eng_db s') ''M'' = Some row'"
    "funds (eng_db s') + reserve_balance row' = funds (eng_db even_engine) + 1000"
    "solvent ''M'' (MarketState row') (eng_db s')"
    using sol row(3) by auto
  show ?thesis
    by (intro exI conjI) (rule run qty r)+
qed

end
