(* ===== verification/System.thy ===== *)
theory System
  imports Invariants Engine_Money
begin

text \<open>
  The program as a transition system: one step is one request handled from start to end (the
  market lock and the session make a handler one step), with whatever result. What holds in
  every reachable state, and what a client that repeats a request can rely on.
\<close>

section \<open>Requests as steps\<close>

inductive step :: "engine_state \<Rightarrow> engine_state \<Rightarrow> bool" where
  place: "service_place_order req u s = (r, s') \<Longrightarrow> step s s'"
| cancel: "service_cancel_order oid u s = (r, s') \<Longrightarrow> step s s'"
| replace: "atomic_replace oid req u s = (r, s') \<Longrightarrow> step s s'"
| batch: "batch_cancel_endpoint m scope u s = (r, s') \<Longrightarrow> step s s'"
| deposit: "in_db (account_deposit u n) s = (r, s') \<Longrightarrow> step s s'"
| withdraw: "in_db (account_withdraw u n) s = (r, s') \<Longrightarrow> step s s'"
| resolve: "in_db (resolve_market m oc) s = (r, s') \<Longrightarrow> step s s'"
| register: "with_session (register_endpoint hashpw new_id name mail password) s = (r, s') \<Longrightarrow> step s s'"
| restart: "step s (s\<lparr>orderbooks := Map.empty\<rparr>)"
| time: "clock (eng_db s) \<le> t \<Longrightarrow> step s (s\<lparr>eng_db := (eng_db s)\<lparr>clock := t\<rparr>\<rparr>)"

inductive_cases stepE: "step s s'"

inductive reachable :: "engine_state \<Rightarrow> engine_state \<Rightarrow> bool" where
  start: "reachable s s"
| further: "reachable s s1 \<Longrightarrow> step s1 s2 \<Longrightarrow> reachable s s2"

text \<open>An invariant of the stored data holds in every reachable state.\<close>

context stored_invariant
begin

lemma step: "step s s' \<Longrightarrow> J s \<Longrightarrow> J s'"
proof (induction rule: step.induct)
  case (place req u s r s')
  show ?case by (rule keepsD [OF service_place_order place(2,1)])
next
  case (cancel oid u s r s')
  show ?case by (rule keepsD [OF service_cancel_order cancel(2,1)])
next
  case (replace oid req u s r s')
  show ?case by (rule keepsD [OF atomic_replace replace(2,1)])
next
  case (batch m scope u s r s')
  show ?case by (rule keepsD [OF batch_cancel_endpoint batch(2,1)])
next
  case (deposit u n s r s')
  show ?case by (rule keepsD [OF in_db [OF account_deposit] deposit(2,1)])
next
  case (withdraw u n s r s')
  show ?case by (rule keepsD [OF in_db [OF account_withdraw] withdraw(2,1)])
next
  case (resolve m oc s r s')
  show ?case by (rule keepsD [OF in_db [OF resolve_market] resolve(2,1)])
next
  case (register hashpw new_id name mail password s r s')
  show ?case by (rule keepsD [OF register_endpoint register(2,1)])
next
  case (restart s)
  then show ?case by simp
next
  case (time s t)
  then show ?case by (simp add: on_clock)
qed

lemma reachable: "reachable s s' \<Longrightarrow> J s \<Longrightarrow> J s'"
  by (induction rule: reachable.induct) (auto intro: step)

end

section \<open>Placing an order twice\<close>

lemma clear_fills_id:
  "fold_act clear_fill trs (ms, ord, n) d = (Inr (ms', ord', n'), d') \<Longrightarrow> order_core ord' = order_core ord"
proof (induction trs arbitrary: ms ord n d)
  case Nil
  then show ?case by simp
next
  case (Cons tr trs)
  then obtain ms1 ord1 n1 d1 where s1: "clear_fill tr (ms, ord, n) d = (Inr (ms1, ord1, n1), d1)"
    and rest: "fold_act clear_fill trs (ms1, ord1, n1) d1 = (Inr (ms', ord', n'), d')"
    by (auto simp: ok_simps)
  have "ord1 = sync_frozen_amount ord (remaining_quantity ord)" by (rule clear_fill_runs [OF s1])
  then have "order_core ord1 = order_core ord"
    by (simp add: order_core_def sync_frozen_amount_def Let_def)
  with Cons.IH [OF rest] show ?case by simp
qed

lemma finalize_core: "finalize_order m ord k s = (Inr ord', s') \<Longrightarrow> order_core ord' = order_core ord"
  by (auto simp: finalize_order_def ok_simps Let_def order_core_def split: if_splits)

lemma place_order_stores:
  assumes run: "place_order ord s = (Inr (ord4, trs, nq), s')" and wf: "wf_db (eng_db s)"
    and inv: "ob_inv (book_at (ord_market_id ord) s)"
  shows "placed (order_core ord) (eng_db s') \<and> order_core ord4 = order_core ord"
proof -
  obtain ord1 d1 row ord2 ob2 ms ord3 d2 s5 d7 where
    prep: "prepare_order ord (eng_db s) = (Inr ord1, d1)" and
    match: "match_order ord1 (book_at (ord_market_id ord) s) = (Inr (ord2, trs), ob2)" and
    clear: "fold_act clear_fill trs (MarketState row, ord2, 0) d1 = (Inr (ms, ord3, nq), d2)" and
    fin: "finalize_order (ord_market_id ord) ord3 0
      (s\<lparr>orderbooks := (orderbooks s)(ord_market_id ord \<mapsto> ob2), eng_db := d2\<rparr>) = (Inr ord4, s5)" and
    fl: "flush_market ms (eng_db s5) = (Inr (), d7)" and s': "s' = s5\<lparr>eng_db := d7\<rparr>"
    by (rule place_order_runs [OF run])
  obtain bt bd bp t where bp: "1 \<le> bp" "bp \<le> 99" "bd \<in> {BUY, SELL}"
    and o1: "ord1 = ord\<lparr>book_type := bt, book_direction := bd, book_price := bp,
       frozen_amount := frozen_amount ord1, frozen_asset_type := frozen_asset_type ord1\<rparr>"
    and view: "order_view d1 = (order_view (eng_db s))(ord_id ord \<mapsto> new_order_row t ord1)"
    by (rule prepare_order_result [OF prep wf]) blast
  have limit: "1 \<le> book_price ord1" "book_price ord1 \<le> 99" "book_direction ord1 \<in> {BUY, SELL}"
    using bp by (subst o1, simp)+
  have core1: "order_core ord1 = order_core ord" by (subst o1) (simp add: order_core_def)
  have "new_order_row t ord1 \<in> set (orders d1)"
    using view by (auto simp: order_view_def fun_eq_iff dest!: spec [of _ "ord_id ord"] lookup_row_SomeD)
  moreover have "order_core (new_order_row t ord1) = order_core ord1"
    by (simp add: new_order_row_def order_core_def)
  ultimately have "placed (order_core ord) d1"
    using core1 unfolding placed_def by (metis image_eqI)
  then have "placed (order_core ord) d2"
    by (rule keepsD [OF keeps_fold_act [where f = clear_fill, OF placed.clear_fill] _ clear])
  then have "placed (order_core ord) (eng_db s5)"
    using keepsD [OF placed.finalize_order _ fin] by simp
  then have "placed (order_core ord) d7" using keepsD [OF placed.flush_market _ fl] by blast
  moreover obtain gs r' where
    "(Inr (ord2, trs) :: exc + _) = Inr (filled_by (remaining_quantity ord1 - r') ord1, trades_of (book_direction ord1) ord1 gs)"
    by (rule match_order_cases [OF inv limit match])
  then have "order_core ord2 = order_core ord1" by (simp add: order_core_def filled_by_def)
  ultimately show ?thesis
    using clear_fills_id [OF clear] finalize_core [OF fin] core1 by (simp add: s')
qed


text \<open>A stored order answers a request with its client order id.\<close>

lemma stored_order_answers:
  assumes "wf_db (eng_db s)"
    and "placed (oid, nop_client_order_id req, m, u, sd, dir, p, q) (eng_db s)"
  shows "\<exists>r. ord_id r = oid \<and> service_place_order req u s =
    (if sd = nop_side req \<and> dir = nop_direction req \<and> p = nop_price_cents req \<and> q = nop_quantity req
     then (Inr (build_place_response r [] None), s)
     else (Inl (DuplicateOrderError (nop_client_order_id req)), s))"
proof -
  obtain r where r: "r \<in> set (orders (eng_db s))"
    "order_core r = (oid, nop_client_order_id req, m, u, sd, dir, p, q)"
    using assms(2) by (auto simp: placed_def)
  have "distinct (map ord_client_key (orders (eng_db s)))" using assms(1) by (simp add: wf_db_def)
  from lookup_row_key [OF this r(1)]
  have "lookup_row (\<lambda>r'. ord_client_key r' = (nop_client_order_id req, u)) (orders (eng_db s)) = Some r"
    using r(2) by (simp add: ord_client_key_def order_core_def)
  then show ?thesis
    using r(2)
    by (intro exI [of _ "row_to_order r"])
       (simp add: service_place_order_def bind_act_def in_db_def order_get_by_client_order_id_def
         same_request_def row_to_order_def order_post_init_def order_core_def)
qed

lemma session_transaction_ok: "session_transaction m s = (Inr x, s') \<longleftrightarrow> m s = (Inr x, s')"
  by (simp add: session_transaction_def on_error_ok_iff)

text \<open>The state in which the engine gets the new order, and the order it gets.\<close>

definition id_taken :: "engine_state \<Rightarrow> engine_state" where
  "id_taken s = s\<lparr>eng_db := (eng_db s)\<lparr>gid_next := Suc (gid_next (eng_db s))\<rparr>\<rparr>"

definition next_order :: "new_order_params \<Rightarrow> string \<Rightarrow> engine_state \<Rightarrow> order" where
  "next_order req u s = fresh_order (gid (eng_db s) (gid_next (eng_db s))) req u (clock (eng_db s))"

lemma service_place_run:
  "service_place_order req u s =
    (case lookup_row (\<lambda>r. ord_client_key r = (nop_client_order_id req, u)) (orders (eng_db s)) of
       Some r \<Rightarrow>
         (if \<not> same_request req (row_to_order r) then (Inl (DuplicateOrderError (nop_client_order_id req)), s)
          else (Inr (build_place_response (row_to_order r) [] None), s))
     | None \<Rightarrow>
         (case session_transaction (place_order (next_order req u s)) (id_taken s) of
            (Inl e, s') \<Rightarrow> (Inl e, s')
          | (Inr (ord, trs, nq), s') \<Rightarrow>
              (Inr (build_place_response ord trs (if nq \<noteq> 0 then Some (nq, nq * 100) else None)), s')))"
  by (auto simp: service_place_order_def bind_act_def in_db_def order_get_by_client_order_id_def generate_id_def
      next_order_def id_taken_def split: option.splits prod.splits sum.splits)

lemma service_place_cases:
  assumes "service_place_order req u s = (Inr resp, s1)"
  shows "(\<exists>r \<in> set (orders (eng_db s)). s1 = s \<and> resp = build_place_response (row_to_order r) [] None \<and>
      same_request req (row_to_order r) \<and> ord_client_key r = (nop_client_order_id req, u)) \<or>
    (\<exists>ord trs nq nt. place_order (next_order req u s) (id_taken s) = (Inr (ord, trs, nq), s1) \<and>
      resp = build_place_response ord trs nt)"
  using assms
  by (auto simp: service_place_run session_transaction_ok dest!: lookup_row_SomeD
      split: option.splits prod.splits sum.splits if_splits)

text \<open>Claim C12. The client order id is an idempotency key for good: once a request has succeeded,
  whatever else the program handles and however often it restarts, a request of the same user
  with the same client order id changes nothing. With the same side, direction, price and
  quantity it answers with the order placed first and no trades (the market and the time in
  force are not compared); otherwise it is refused as a duplicate.\<close>

theorem client_order_id_is_idempotent:
  assumes "service_place_order req u s = (Inr resp, s1)" and "wf_db (eng_db s)"
    and "ob_inv (book_at (nop_market_id req) s)" and "reachable s1 s2"
    and "nop_client_order_id req' = nop_client_order_id req"
  shows "\<exists>r. ord_id r = or_id (plr_order resp) \<and> service_place_order req' u s2 =
    (if nop_side req = nop_side req' \<and> nop_direction req = nop_direction req' \<and>
        nop_price_cents req = nop_price_cents req' \<and> nop_quantity req = nop_quantity req'
     then (Inr (build_place_response r [] None), s2)
     else (Inl (DuplicateOrderError (nop_client_order_id req')), s2))"
proof -
  have "wf_db (eng_db s1)" using keepsD [OF wf.service_place_order assms(2,1)] .
  then have wf2: "wf_db (eng_db s2)" using wf.reachable [OF assms(4)] by blast
  have "\<exists>m. placed (or_id (plr_order resp), nop_client_order_id req, m, u, nop_side req, nop_direction req,
      nop_price_cents req, nop_quantity req) (eng_db s1)"
    using service_place_cases [OF assms(1)]
  proof (elim disjE bexE exE conjE)
    fix r assume "r \<in> set (orders (eng_db s))" "s1 = s" "resp = build_place_response (row_to_order r) [] None"
      "same_request req (row_to_order r)" "ord_client_key r = (nop_client_order_id req, u)"
    then show ?thesis
      by (force simp: placed_def order_core_def same_request_def ord_client_key_def build_place_response_def
          order_to_response_def row_to_order_def order_post_init_def image_iff)
  next
    fix ord trs nq nt assume run: "place_order (next_order req u s) (id_taken s) = (Inr (ord, trs, nq), s1)"
      and resp: "resp = build_place_response ord trs nt"
    have "wf_db (eng_db (id_taken s))" using assms(2) by (simp add: id_taken_def wf_db_def)
    moreover have "ob_inv (book_at (ord_market_id (next_order req u s)) (id_taken s))"
      using assms(3) by (simp add: id_taken_def next_order_def fresh_order_def order_post_init_def book_at_def)
    ultimately have "placed (order_core (next_order req u s)) (eng_db s1)"
      "order_core ord = order_core (next_order req u s)"
      using place_order_stores [OF run] by blast+
    then show ?thesis
      by (auto simp: resp build_place_response_def order_to_response_def order_core_def next_order_def
          fresh_order_def order_post_init_def)
  qed
  then obtain m where "placed (or_id (plr_order resp), nop_client_order_id req, m, u, nop_side req,
      nop_direction req, nop_price_cents req, nop_quantity req) (eng_db s2)"
    using placed.reachable [OF assms(4)] by blast
  then have "placed (or_id (plr_order resp), nop_client_order_id req', m, u, nop_side req,
      nop_direction req, nop_price_cents req, nop_quantity req) (eng_db s2)" by (simp add: assms(5))
  from stored_order_answers [OF wf2 this] show ?thesis .
qed

definition sale_request :: new_order_params where
  "sale_request = \<lparr>nop_client_order_id = ''c1'', nop_market_id = ''M'', nop_side = YES, nop_direction = SELL,
     nop_price_cents = 45, nop_quantity = 3, nop_time_in_force = GTC\<rparr>"

lemma sale_request_placed:
  "case fst (place_order (next_order sale_request ''alice'' even_engine) (id_taken even_engine)) of
     Inr (ord, trs, nq) \<Rightarrow> ord_id ord = ''g'' \<and> map tr_quantity trs = [2]
   | Inl _ \<Rightarrow> False"
  by (simp add: exec_defs exec_samples next_order_def id_taken_def sale_request_def cong: exec_congs)

lemma sale_request_runs:
  "\<exists>resp s1. service_place_order sale_request ''alice'' even_engine = (Inr resp, s1) \<and>
     or_id (plr_order resp) = ''g''"
proof -
  have none: "lookup_row (\<lambda>r. ord_client_key r = (nop_client_order_id sale_request, ''alice''))
      (orders (eng_db even_engine)) = None"
    by (simp add: exec_samples sale_request_def ord_client_key_def)
  obtain ord trs nq s1 where "place_order (next_order sale_request ''alice'' even_engine) (id_taken even_engine) =
      (Inr (ord, trs, nq), s1)" "ord_id ord = ''g''"
    using sale_request_placed
    by (cases "place_order (next_order sale_request ''alice'' even_engine) (id_taken even_engine)")
       (auto split: sum.splits)
  then show ?thesis
    unfolding service_place_run
    by (simp add: none session_transaction_def on_error_def build_place_response_def order_to_response_def)
qed

text \<open>Alice's sale, a restart, and the request again: for another market, and for another price.\<close>

theorem client_order_id_is_idempotent_witness:
  "\<exists>resp s1 r. service_place_order sale_request ''alice'' even_engine = (Inr resp, s1) \<and> ord_id r = ''g'' \<and>
     service_place_order (sale_request\<lparr>nop_market_id := ''N''\<rparr>) ''alice'' (s1\<lparr>orderbooks := Map.empty\<rparr>) =
       (Inr (build_place_response r [] None), s1\<lparr>orderbooks := Map.empty\<rparr>)"
proof -
  obtain resp s1 where run: "service_place_order sale_request ''alice'' even_engine = (Inr resp, s1)"
    and id: "or_id (plr_order resp) = ''g''"
    using sale_request_runs by blast
  have "wf_db (eng_db even_engine)" by (simp add: even_engine_def even_db_wf)
  moreover have "ob_inv (book_at (nop_market_id sale_request) even_engine)"
    using even_synced by (simp add: even_engine_def sale_request_def book_at_def synced_def)
  moreover have "reachable s1 (s1\<lparr>orderbooks := Map.empty\<rparr>)"
    using reachable.further [OF reachable.start step.restart] .
  ultimately obtain r where "ord_id r = ''g''"
    "service_place_order (sale_request\<lparr>nop_market_id := ''N''\<rparr>) ''alice'' (s1\<lparr>orderbooks := Map.empty\<rparr>) =
       (Inr (build_place_response r [] None), s1\<lparr>orderbooks := Map.empty\<rparr>)"
    using client_order_id_is_idempotent [OF run, of "s1\<lparr>orderbooks := Map.empty\<rparr>"
        "sale_request\<lparr>nop_market_id := ''N''\<rparr>"] id by auto
  with run show ?thesis by blast
qed

text \<open>Every reachable state of the program satisfies the schema's guarantees, whatever
  requests were handled, in whatever order and with whatever results.\<close>

theorem reachable_states_are_well_formed:
  assumes "reachable s s'" and "wf_db (eng_db s)"
  shows "wf_db (eng_db s')"
  by (rule wf.reachable [OF assms])

lemma reachable_place: "reachable s (snd (service_place_order req u s))"
  by (rule reachable.further [OF reachable.start], rule step.place, rule surjective_pairing)

theorem reachable_states_are_well_formed_witness:
  "wf_db (eng_db (snd (service_place_order sale_request ''alice'' even_engine)))"
proof -
  have "wf_db (eng_db even_engine)" by (simp add: even_engine_def even_db_wf)
  then show ?thesis by (rule reachable_states_are_well_formed [OF reachable_place])
qed

end
