(* ===== verification/Frames.thy ===== *)
theory Frames
  imports System
begin

text \<open>
  What an operation of the engine does not touch. The locale \<open>untouched\<close> is given a property of the
  database that every statement keeps as long as it writes the accounts of users in \<open>U\<close> and the
  positions in \<open>H\<close> only, and shows that an operation whose users and market are such keeps it too.
  It is interpreted on the positions of the other markets and on the holders of positions here,
  and on everything that a user holds in \<open>Bystanders\<close>.
\<close>

section \<open>Statements that do not concern a user\<close>

locale untouched =
  fixes I :: "db \<Rightarrow> bool" and U :: "string \<Rightarrow> bool" and H :: "string \<Rightarrow> string \<Rightarrow> bool"
  assumes on_account: "U u \<Longrightarrow> (\<And>a. P a \<Longrightarrow> acc_user_id a = u) \<Longrightarrow> (\<And>a. acc_user_id (f a) = acc_user_id a) \<Longrightarrow>
      keeps I (update_accounts P f)"
    and on_position: "H u m \<Longrightarrow> (\<And>p. Q p \<Longrightarrow> pos_key p = (u, m)) \<Longrightarrow> (\<And>p. pos_key (g p) = pos_key p) \<Longrightarrow>
      keeps I (update_positions Q g)"
    and on_upsert: "H u m \<Longrightarrow> pos_key row = (u, m) \<Longrightarrow> (\<And>p. Q p \<Longrightarrow> pos_key p = (u, m)) \<Longrightarrow>
      (\<And>p. pos_key (g p) = pos_key p) \<Longrightarrow> keeps I (upsert_position Q row g)"
    and on_platform: "keeps I (add_balance_sql PLATFORM_FEE_USER_ID n)"
    and on_new_account: "keeps I (insert_account a1)"
    and on_others: "accounts d' = accounts d \<Longrightarrow> positions d' = positions d \<Longrightarrow> I d \<Longrightarrow> I d'"
begin

lemma other_tables:
  "keeps I (update_markets Pm fm)" "keeps I (update_orders Po fo)" "keeps I (insert_order o1)"
  "keeps I (insert_trade t)" "keeps I (insert_wal w)" "keeps I (insert_ledger e)" "keeps I (insert_user u1)"
  "keeps I next_ledger_id" "keeps I generate_id"
  by (auto simp: keeps_def sql_update_def sql_insert_def next_ledger_id_def generate_id_def Let_def
      intro: on_others split: if_splits)

lemma log_tables:
  "keeps I (write_ledger u ty amount b rt ri)" "keeps I (write_wal_event we oid m u x)"
  unfolding write_ledger_def write_wal_event_def Let_def by (intro pres_intros other_tables)+

lemmas elsewhere = other_tables log_tables keeps_ret keeps_raise keeps_reads keeps_raise_if keeps_bind keeps_when
  keeps_if keeps_case_prod keeps_case_prod_app keeps_case_option keeps_case_list keeps_fold_act

lemma account_statements:
  assumes "U u"
  shows "keeps I (add_balance_sql u n)" "keeps I (unfreeze_debit_sql u n n')" "keeps I (unfreeze_funds_sql u n)"
    "keeps I (freeze_funds_sql u n)" "keeps I (deposit_sql u n)" "keeps I (withdraw_sql u n)"
    "keeps I (update_account u (\<lambda>a. a\<lparr>frozen_balance := fz a, available_balance := av a, acc_version := ve a\<rparr>))"
    "keeps I (update_account u (\<lambda>a. a\<lparr>available_balance := av a, acc_version := ve a\<rparr>))"
  unfolding add_balance_sql_def unfreeze_debit_sql_def unfreeze_funds_sql_def freeze_funds_sql_def
    deposit_sql_def withdraw_sql_def
  by (rule on_account [OF assms]; simp)+

lemma position_statements:
  assumes "H u m"
  shows "keeps I (add_yes_volume_sql u m n c)" "keeps I (add_no_volume_sql u m n c)"
    "keeps I (reduce_yes_volume_sql u m n c)" "keeps I (reduce_no_volume_sql u m n c)"
    "keeps I (net_position_sql u m n c c')" "keeps I (unfreeze_yes_sql u m n)" "keeps I (unfreeze_no_sql u m n)"
    "keeps I (freeze_yes_sql u m n)" "keeps I (freeze_no_sql u m n)"
  unfolding add_yes_volume_sql_def add_no_volume_sql_def reduce_yes_volume_sql_def reduce_no_volume_sql_def
    net_position_sql_def unfreeze_yes_sql_def unfreeze_no_sql_def freeze_yes_sql_def freeze_no_sql_def
  by (rule on_position [OF assms] on_upsert [OF assms]; simp add: pos_key_def empty_position_def)+

section \<open>Trading\<close>

text \<open>Who may trade in a market without being noticed.\<close>

definition may :: "string \<Rightarrow> string \<Rightarrow> bool" where
  "may u m \<longleftrightarrow> U u \<and> H u m"

definition may_trade :: "string \<Rightarrow> trade_result \<Rightarrow> bool" where
  "may_trade m t \<longleftrightarrow> tr_market_id t = m \<and> may (buy_user_id t) m \<and> may (sell_user_id t) m"

lemma settle_trade:
  assumes "may_trade m t"
  shows "keeps I (settle_trade t ms)"
proof -
  have U: "U (buy_user_id t)" "U (sell_user_id t)"
    and H: "H (buy_user_id t) (tr_market_id t)" "H (sell_user_id t) (tr_market_id t)"
    using assms by (simp_all add: may_trade_def may_def)
  show ?thesis
    unfolding settle_trade_def clear_mint_def clear_transfer_yes_def clear_transfer_no_def clear_burn_def Let_def
    by (cases "determine_scenario (buy_book_type t) (sell_book_type t)")
       (simp_all, (intro elsewhere account_statements position_statements U H)+)
qed

lemma netting:
  assumes "may u m"
  shows "keeps I (execute_netting_if_needed u m ms)"
proof -
  have "U u" "H u m" using assms by (simp_all add: may_def)
  then show ?thesis
    unfolding execute_netting_if_needed_def do_netting_def Let_def
    by (intro elsewhere account_statements position_statements)
qed

lemma collect_fee:
  assumes "may_trade m t"
  shows "keeps I (collect_fee t bps)"
  unfolding collect_fee_def collect_fee_from_frozen_def collect_fee_from_proceeds_def Let_def
  by (intro elsewhere account_statements on_platform) (use assms in \<open>simp_all add: may_trade_def may_def\<close>)

lemma clear_fill:
  assumes "may_trade (ord_market_id ord) t"
  shows "keeps I (clear_fill t (ms, ord, n))"
proof -
  have m: "may (buy_user_id t) (ord_market_id (sync_frozen_amount ord n'))" for n'
    using assms by (simp add: may_trade_def sync_frozen_amount_def Let_def)
  show ?thesis
    unfolding clear_fill_def order_update_status_def update_maker_status_def order_get_by_id_def write_trade_def
      Let_def prod.case
    by (intro elsewhere settle_trade [OF assms] netting [OF m] collect_fee [OF assms])
qed

lemma clear_fills:
  assumes "fold_act clear_fill trs (ms, ord, n) d = (Inr (ms', ord', n'), d')"
    and "\<forall>t \<in> set trs. may_trade (ord_market_id ord) t" and "I d"
  shows "I d'"
  using assms
proof (induction trs arbitrary: ms ord n d)
  case Nil
  then show ?case by simp
next
  case (Cons t trs)
  then obtain ms1 ord1 n1 d1 where s1: "clear_fill t (ms, ord, n) d = (Inr (ms1, ord1, n1), d1)"
    and rest: "fold_act clear_fill trs (ms1, ord1, n1) d1 = (Inr (ms', ord', n'), d')"
    by (auto simp: ok_simps)
  have "ord1 = sync_frozen_amount ord (remaining_quantity ord)" by (rule clear_fill_runs [OF s1])
  then have m: "ord_market_id ord1 = ord_market_id ord" by (simp add: sync_frozen_amount_def Let_def)
  have "I d1" using keepsD [OF clear_fill _ s1] Cons.prems(2,3) by simp
  then show ?case using Cons.IH [OF rest] Cons.prems(2) m by simp
qed

lemma prepare_order:
  assumes "may (ord_user_id ord) (ord_market_id ord)"
  shows "keeps I (prepare_order ord)"
  unfolding prepare_order_def check_market_active_def check_price_range_def check_order_limit_def check_and_freeze_def
    order_save_def Let_def
  by (intro elsewhere account_statements position_statements) (use assms in \<open>simp_all add: may_def\<close>)

lemma unfreeze_remainder:
  assumes "may (ord_user_id ord) (ord_market_id ord)"
  shows "keeps I (unfreeze_remainder ord)"
proof -
  have "U (ord_user_id ord)" "H (ord_user_id ord) (ord_market_id ord)" using assms by (simp_all add: may_def)
  then show ?thesis
    unfolding unfreeze_remainder_def by (intro elsewhere account_statements position_statements)
qed

abbreviation (input) J :: "engine_state \<Rightarrow> bool" where
  "J s \<equiv> I (eng_db s)"

lemma in_db: "keeps I m \<Longrightarrow> keeps J (in_db m)"
  by (auto simp: keeps_def in_db_def split: prod.splits)

lemma in_book: "keeps J (in_book m a)"
  by (auto simp: keeps_def in_book_run split: prod.splits)

lemma finalize_order:
  assumes "may (ord_user_id ord) (ord_market_id ord)"
  shows "keeps J (finalize_order m ord n)"
  unfolding finalize_order_def order_update_status_def Let_def
  by (intro elsewhere in_db in_book unfreeze_remainder assms)

section \<open>Handlers of the engine\<close>

lemma place_order:
  assumes run: "place_order ord s = (Inr (ord4, trs, nq), s')" and wf: "wf_db (eng_db s)"
    and inv: "ob_inv (book_at (ord_market_id ord) s)"
    and book: "\<And>sd p bo. (sd, p, bo) \<in> resting (book_at (ord_market_id ord) s) \<Longrightarrow> may (bo_user_id bo) (ord_market_id ord)"
    and user: "may (ord_user_id ord) (ord_market_id ord)" and I: "I (eng_db s)"
  shows "I (eng_db s')"
proof -
  let ?m = "ord_market_id ord" and ?d = "eng_db s"
  obtain ord1 d1 row1 ord2 ob2 ms ord3 d2 s5 d7 where
    prep: "prepare_order ord ?d = (Inr ord1, d1)" and
    match: "match_order ord1 (book_at ?m s) = (Inr (ord2, trs), ob2)" and
    clear: "fold_act clear_fill trs (MarketState row1, ord2, 0) d1 = (Inr (ms, ord3, nq), d2)" and
    fin: "finalize_order ?m ord3 0 (s\<lparr>orderbooks := (orderbooks s)(?m \<mapsto> ob2), eng_db := d2\<rparr>) = (Inr ord4, s5)" and
    fl: "flush_market ms (eng_db s5) = (Inr (), d7)" and s': "s' = s5\<lparr>eng_db := d7\<rparr>"
    by (rule place_order_runs [OF run])
  obtain bt bd bp where bp: "1 \<le> bp" "bp \<le> 99" "bd \<in> {BUY, SELL}"
    and o1: "ord1 = ord\<lparr>book_type := bt, book_direction := bd, book_price := bp,
       frozen_amount := frozen_amount ord1, frozen_asset_type := frozen_asset_type ord1\<rparr>"
    by (rule prepare_order_result [OF prep wf]) blast
  have limit: "1 \<le> book_price ord1" "book_price ord1 \<le> 99" "book_direction ord1 \<in> {BUY, SELL}"
    and same1: "ord_user_id ord1 = ord_user_id ord" "ord_market_id ord1 = ?m" using bp by (subst o1, simp)+
  have users: "may_trade ?m t" if "t \<in> set trs" for t
    using match_users [OF inv limit match that] book user same1 by (auto simp: may_trade_def)
  obtain gs r' where "(Inr (ord2, trs) :: exc + _) =
      Inr (filled_by (remaining_quantity ord1 - r') ord1, trades_of (book_direction ord1) ord1 gs)"
    by (rule match_order_cases [OF inv limit match])
  then have same2: "ord_user_id ord2 = ord_user_id ord" "ord_market_id ord2 = ?m"
    using same1 by (simp_all add: filled_by_def)
  then have u3: "may (ord_user_id ord3) (ord_market_id ord3)"
    using clear_fills_id [OF clear] user by (simp add: order_core_def)
  have "I d1" using keepsD [OF prepare_order [OF user] I prep] .
  then have "I d2" using clear_fills [OF clear] users same2 by simp
  then have I5: "I (eng_db s5)" using keepsD [OF finalize_order [OF u3] _ fin] by simp
  have "keeps I (flush_market ms)" unfolding flush_market_def by (intro elsewhere)
  from keepsD [OF this I5 fl] show ?thesis by (simp add: s')
qed

lemma cancel_inline:
  "may (ord_user_id ord) (ord_market_id ord) \<Longrightarrow> keeps J (cancel_inline ord u x)"
  unfolding cancel_inline_def order_update_status_def Let_def
  by (intro elsewhere in_db in_book unfreeze_remainder)

lemma batch_cancel:
  assumes "may u m"
  shows "keeps J (batch_cancel m u scope)"
proof -
  have "keeps J (cancel_in_existing_book m ids)" for m ids
    by (auto simp: keeps_def cancel_in_existing_book_def split: option.splits prod.splits)
  moreover have "U u" "H u m" using assms by (simp_all add: may_def)
  ultimately show ?thesis
    unfolding batch_cancel_def Let_def by (intro elsewhere in_db account_statements position_statements)
qed

lemma postings:
  assumes "U u"
  shows "keeps I (repo_deposit u n)" "keeps I (repo_withdraw u n)"
  unfolding repo_deposit_def repo_withdraw_def insert_ledger_returning_def insufficient_def get_account_sql_def Let_def
  by (intro elsewhere account_statements assms)+

section \<open>Resolving a market\<close>

lemma pay_position:
  assumes "may (pos_user_id p) m"
  shows "keeps I (pay_position m oc p)"
proof -
  have "U (pos_user_id p)" "H (pos_user_id p) m" using assms by (simp_all add: may_def)
  then have "keeps I (clear_position_sql (pos_user_id p) m)" "U (pos_user_id p)"
    unfolding clear_position_sql_def by (auto intro!: on_position simp: zeroed_def pos_key_def)
  then show ?thesis unfolding pay_position_def by (intro elsewhere account_statements)
qed

lemma release_order:
  assumes "may (ord_user_id o1) m"
  shows "keeps I (release_order m o1)"
proof -
  have "U (ord_user_id o1)" "H (ord_user_id o1) m" using assms by (simp_all add: may_def)
  then show ?thesis
    unfolding release_order_def cancel_resolved_sql_def by (intro elsewhere account_statements position_statements)
qed

lemma fold_keeps:
  "fold_act f xs a d = (r, d') \<Longrightarrow> (\<And>x a. x \<in> set xs \<Longrightarrow> keeps I (f x a)) \<Longrightarrow> I d \<Longrightarrow> I d'"
proof (induction xs arbitrary: a d)
  case Nil
  then show ?case by simp
next
  case (Cons x xs)
  obtain q d1 where s1: "f x a d = (q, d1)" by fastforce
  have "I d1" using keepsD [OF Cons.prems(2) _ s1] Cons.prems(3) by simp
  then show ?case
    using Cons.IH [of _ d1] Cons.prems(1,2) s1 by (cases q) (auto simp: bind_act_def)
qed

lemma resolve_market:
  assumes run: "resolve_market m oc d = (Inr x, d')" and wf: "wf_db d"
    and rows: "\<And>p. p \<in> set (market_rows m d) \<Longrightarrow> may (pos_user_id p) m"
    and ords: "\<And>o1. o1 \<in> set (open_orders m d) \<Longrightarrow> may (ord_user_id o1) m" and I: "I d"
  shows "I d'"
proof -
  obtain d1 where rel: "fold_act (\<lambda>o1 _. release_order m o1) (open_orders m d) () d = (Inr (), d1)"
    and settle: "settle_market m oc d1 = (Inr (), d')"
    by (rule resolve_market_runs [OF run])
  have "I d1" by (rule fold_keeps [OF rel _ I]) (rule release_order [OF ords])
  have "pos_keys d1 = pos_keys d" using release_orders_effect [OF rel wf] by simp
  then have users: "pos_user_id ` set (market_rows m d1) = pos_user_id ` set (market_rows m d)"
    by (simp add: market_rows_keys)
  obtain d2 r where pay: "fold_act (\<lambda>p _. pay_position m oc p) (market_rows m d1) () d1 = (Inr (), d2)"
    and close: "settle_market_sql m oc (clock d2) d2 = (Inr r, d')"
    using settle by (auto simp: settle_market_def market_rows_def ok_simps)
  have "may (pos_user_id p) m" if "p \<in> set (market_rows m d1)" for p
  proof -
    have "pos_user_id p \<in> pos_user_id ` set (market_rows m d)" using that by (simp flip: users)
    then show ?thesis using rows by fastforce
  qed
  then have "I d2" using fold_keeps [OF pay _ \<open>I d1\<close>] pay_position by blast
  have "keeps I (settle_market_sql m oc (clock d2))" unfolding settle_market_sql_def by (rule elsewhere)
  from keepsD [OF this \<open>I d2\<close> close] show ?thesis .
qed

end

section \<open>Positions in other markets, and who holds positions\<close>

definition holders :: "db \<Rightarrow> string set" where
  "holders d = pos_user_id ` set (positions d)"

lemma filter_update_where:
  "(\<And>r. P r \<Longrightarrow> \<not> K r \<and> \<not> K (f r)) \<Longrightarrow> filter K (update_where P f rows) = filter K rows"
  by (induction rows) auto

lemma pos_key_parts: "pos_key p = pos_key q \<Longrightarrow> pos_user_id p = pos_user_id q \<and> pos_market_id p = pos_market_id q"
  by (simp add: pos_key_def)

interpretation other_market: untouched "\<lambda>d. market_rows k d = x" "\<lambda>_. True" "\<lambda>_ m. m \<noteq> k" for k x
proof (unfold_locales, goal_cases)
  case (2 u m Q g)
  note g = pos_key_parts [OF 2(3)]
  show ?case by (intro keeps_sql_update)
    (use 2(1,2) g in \<open>auto simp: market_rows_def filter_update_where pos_key_def\<close>)
next
  case (3 u m row Q g)
  note g = pos_key_parts [OF 3(4)]
  show ?case by (intro keeps_sql_upsert)
    (use 3(1-3) g in \<open>auto simp: market_rows_def filter_update_where pos_key_def\<close>)
qed (auto simp: keeps_def sql_update_def sql_insert_def add_balance_sql_def market_rows_def Let_def split: if_splits)

interpretation holding: untouched "\<lambda>d. holders d \<subseteq> X" "\<lambda>_. True" "\<lambda>u _. u \<in> X" for X
proof (unfold_locales, goal_cases)
  case (2 u m Q g)
  note g = pos_key_parts [OF 2(3)]
  show ?case by (intro keeps_sql_update) (use g in \<open>auto simp: holders_def image_update_where\<close>)
next
  case (3 u m row Q g)
  note g = pos_key_parts [OF 3(4)]
  show ?case by (intro keeps_sql_upsert) (use 3(1,2) g in \<open>auto simp: holders_def image_update_where pos_key_def\<close>)
qed (auto simp: keeps_def sql_update_def sql_insert_def add_balance_sql_def holders_def Let_def split: if_splits)

lemma held_rows:
  assumes "market_rows k d' = market_rows k d"
  shows "yes_held k d' = yes_held k d" "no_held k d' = no_held k d" "cost_held k d' = cost_held k d"
  using assms by (simp_all add: yes_held_def no_held_def cost_held_def flip: col_sum_market_rows)

end
