(* ===== verification/Resolution.thy ===== *)
theory Resolution
  imports Frames
begin

text \<open>
  A resolution as one step of the system: the views of the database after it in terms of those
  before it, for the resolved market and for the others.
\<close>

lemma settle_keeps_keys: "keeps (\<lambda>d. pos_keys d = x) (settle_market m oc)"
proof -
  have acc: "keeps (\<lambda>d. pos_keys d = x) (add_balance_sql u n)" for u n
    unfolding add_balance_sql_def by (intro keeps_sql_update) (simp add: pos_keys_def)
  have pos: "keeps (\<lambda>d. pos_keys d = x) (clear_position_sql u m)" for u
    unfolding clear_position_sql_def
    by (intro keeps_sql_update) (simp add: pos_keys_def image_update_where zeroed_def pos_key_def)
  have mkt: "keeps (\<lambda>d. pos_keys d = x) (settle_market_sql m oc now)" for now
    unfolding settle_market_sql_def by (intro keeps_sql_update) (simp add: pos_keys_def)
  show ?thesis
    unfolding settle_market_def pay_position_def
    by (intro keeps_bind keeps_fold_act keeps_reads keeps_ret keeps_when acc pos mkt)
qed

lemma holders_keys: "holders d = fst ` pos_keys d"
  by (simp add: holders_def pos_keys_def image_image pos_key_def)

definition settled_row :: "side \<Rightarrow> int \<Rightarrow> market \<Rightarrow> market" where
  "settled_row oc now r = r\<lparr>mkt_status := SETTLED, reserve_balance := 0, pnl_pool := 0,
     total_yes_shares := 0, total_no_shares := 0,
     resolution_result := Some (if oc = YES then RES_YES else RES_NO), settled_at := Some now\<rparr>"

lemma resolve_market_views:
  assumes run: "resolve_market m oc d = (Inr x, d')" and wf: "wf_db d" and hold: "holders d \<subseteq> account_ids d"
  shows "funds d' = funds d + 100 * (if oc = YES then yes_held m d else no_held m d)"
    and "yes_held m d' = 0" "no_held m d' = 0" "cost_held m d' = 0"
    and "account_ids d' = account_ids d" "holders d' = holders d"
    and "mkt d' k = (if k = m then map_option (settled_row oc (clock d')) (mkt d k) else mkt d k)"
    and "orders d' = update_where (\<lambda>r. ord_id r \<in> ord_id ` set (open_orders m d)) mark_resolved (orders d)"
    and "\<exists>row. mkt d m = Some row"
proof -
  obtain row d1 where row: "mkt d m = Some row"
    and rel: "fold_act (\<lambda>o1 _. release_order m o1) (open_orders m d) () d = (Inr (), d1)"
    and settle: "settle_market m oc d1 = (Inr (), d')"
    by (rule resolve_market_runs [OF run]) blast
  note one = release_orders_effect [OF rel wf]
  have "pos_user_id p \<in> account_ids d1" if "p \<in> set (market_rows m d1)" for p
  proof -
    have "p \<in> set (positions d1)" using that by (simp add: market_rows_def)
    then have "pos_user_id p \<in> holders d1" by (simp add: holders_def)
    also have "holders d1 = holders d" using one by (simp add: holders_keys)
    finally show ?thesis using hold one by auto
  qed
  note two = settle_market_effect [OF settle _ this]
  show "funds d' = funds d + 100 * (if oc = YES then yes_held m d else no_held m d)"
    "yes_held m d' = 0" "no_held m d' = 0" "cost_held m d' = 0" "account_ids d' = account_ids d"
    "orders d' = update_where (\<lambda>r. ord_id r \<in> ord_id ` set (open_orders m d)) mark_resolved (orders d)"
    "\<exists>row. mkt d m = Some row"
    using one two row by auto
  have "pos_keys d' = pos_keys d1" by (rule keepsD [OF settle_keeps_keys _ settle]) simp
  then show "holders d' = holders d" using one by (simp add: holders_keys)
  show "mkt d' k = (if k = m then map_option (settled_row oc (clock d')) (mkt d k) else mkt d k)"
    unfolding mkt_def using one two
    by (simp add: lookup_row_update_key settled_row_def [abs_def])
qed

lemma filter_update_rows:
  "(\<And>r. r \<in> set rows \<Longrightarrow> P r \<Longrightarrow> \<not> K r \<and> \<not> K (f r)) \<Longrightarrow> filter K (update_where P f rows) = filter K rows"
  by (induction rows) auto

text \<open>Other markets: their positions and their open orders.\<close>

lemma resolve_market_others:
  assumes run: "resolve_market m oc d = (Inr x, d')" and wf: "wf_db d" and k: "k \<noteq> m"
  shows "market_rows k d' = market_rows k d"
  using other_market.resolve_market [OF run wf, of k "market_rows k d"] k
  by (simp add: other_market.may_def)

lemma resolve_open_orders:
  assumes wf: "wf_db d"
    and ords: "orders d' = update_where (\<lambda>r. ord_id r \<in> ord_id ` set (open_orders m d)) mark_resolved (orders d)"
  shows "open_orders k d' = (if k = m then [] else open_orders k d)"
proof (cases "k = m")
  case True
  then show ?thesis using open_orders_resolved [OF ords] by simp
next
  case False
  have dist: "distinct (map ord_id (orders d))" using wf by (simp add: wf_db_def)
  have own: "ord_market_id r = m" if "r \<in> set (orders d)" "ord_id r \<in> ord_id ` set (open_orders m d)" for r
  proof -
    from that(2) obtain r' where "r' \<in> set (orders d)" "ord_id r' = ord_id r" "ord_market_id r' = m"
      by (auto simp: open_orders_def)
    then show ?thesis using lookup_row_key [OF dist that(1)] lookup_row_key [OF dist, of r'] by simp
  qed
  show ?thesis
    unfolding open_orders_def [of k] ords using own False
    by (subst filter_update_rows) (auto simp: mark_resolved_def)
qed

end
