(* ===== verification/Conservation.thy ===== *)
theory Conservation
  imports Resolution
begin

text \<open>
  Whole runs of successful requests, resolutions included: in every market that is not settled the
  book stays in step with the database, every market stays solvent, and the money held by the
  accounts and behind the markets differs from the net deposits by a constant. The frame part
  shows that a request in one market leaves the others alone.
\<close>

section \<open>Other markets\<close>

definition elsewhere_same :: "string \<Rightarrow> engine_state \<Rightarrow> engine_state \<Rightarrow> bool" where
  "elsewhere_same m s s' \<longleftrightarrow> (\<forall>k. k \<noteq> m \<longrightarrow> orderbooks s' k = orderbooks s k \<and>
     row_key ` open_view k (order_view (eng_db s')) = row_key ` open_view k (order_view (eng_db s)))"

text \<open>The book of a settled market is left behind in memory; the market has no open orders any more.\<close>

definition settled :: "string \<Rightarrow> db \<Rightarrow> bool" where
  "settled m d \<longleftrightarrow> (\<exists>row. mkt d m = Some row \<and> mkt_status row = SETTLED)"

definition closed :: "string \<Rightarrow> db \<Rightarrow> bool" where
  "closed m d \<longleftrightarrow> settled m d \<and> open_orders m d = []"

text \<open>Every other book shows the open orders of its market, up to the orders \<open>X\<close> that were lost.\<close>

definition books_show :: "string set \<Rightarrow> engine_state \<Rightarrow> bool" where
  "books_show X s \<longleftrightarrow> (\<forall>m. closed m (eng_db s) \<or> shows_but X m (eng_db s) (book_at m s))"

lemma closed_view: "wf_db d \<Longrightarrow> closed m d \<longleftrightarrow> settled m d \<and> row_key ` open_view m (order_view d) = {}"
  by (simp add: closed_def flip: open_orders_view)

lemma row_keys_but:
  assumes "row_key ` A = row_key ` B"
  shows "row_key ` {r \<in> A. ord_id r \<notin> X} = row_key ` {r \<in> B. ord_id r \<notin> X}"
proof -
  have "row_key ` {r \<in> C. ord_id r \<notin> X} = {k \<in> row_key ` C. fst (snd (snd k)) \<notin> X}" for C
    by (auto simp: row_key_def)
  then show ?thesis by (simp add: assms)
qed

lemma elsewhere_shows:
  assumes "books_show X s" and "wf_db (eng_db s)" and "wf_db (eng_db s')"
    and "elsewhere_same m s s'" and "shows_but X m (eng_db s') (book_at m s')"
    and "\<And>k. settled k (eng_db s) \<Longrightarrow> settled k (eng_db s')"
  shows "books_show X s'"
  unfolding books_show_def
proof
  fix k
  show "closed k (eng_db s') \<or> shows_but X k (eng_db s') (book_at k s')"
  proof (cases "k = m")
    case True
    then show ?thesis using assms(5) by simp
  next
    case False
    then have keys: "row_key ` open_view k (order_view (eng_db s')) = row_key ` open_view k (order_view (eng_db s))"
      and book: "book_at k s' = book_at k s" using assms(4) by (simp_all add: elsewhere_same_def book_at_def)
    have "closed k (eng_db s) \<or> shows_but X k (eng_db s) (book_at k s)"
      using assms(1) by (simp add: books_show_def)
    then show ?thesis
      using keys row_keys_but [OF keys, of X] assms(2,3,6)
      by (auto simp: shows_but_view open_view_but closed_view book)
  qed
qed

lemma row_filled_zero:
  "row_filled 0 r r' \<Longrightarrow> row_key r' = row_key r \<and> ord_market_id r' = ord_market_id r \<and> is_active r' = is_active r"
  by (simp add: row_filled_def row_key_def is_active_def)

text \<open>Views that differ, up to rows that are not open in \<open>k\<close>, only in columns the key does not show.\<close>

lemma open_keys_cong:
  assumes "\<And>oid. rel_option (\<lambda>r r'. ord_market_id r = k \<or> ord_market_id r' = k \<longrightarrow> row_filled 0 r r') (v oid) (v' oid)
      \<or> (\<forall>r. v oid = Some r \<or> v' oid = Some r \<longrightarrow> ord_market_id r \<noteq> k)"
  shows "row_key ` open_view k v' = row_key ` open_view k v"
proof (intro set_eqI iffI)
  fix x assume "x \<in> row_key ` open_view k v'"
  then obtain r' where r': "v' (ord_id r') = Some r'" "ord_market_id r' = k" "is_active r'" "x = row_key r'"
    by (auto simp: open_view_def)
  then obtain r where "v (ord_id r') = Some r" "row_filled 0 r r'"
    using assms [of "ord_id r'"] by (auto simp: option_rel_Some2)
  moreover from this(2) have "ord_id r = ord_id r'" by (simp add: row_filled_def)
  ultimately have "r \<in> open_view k v" "row_key r = x"
    using r' row_filled_zero [of r r'] by (simp_all add: open_view_def)
  then show "x \<in> row_key ` open_view k v" by blast
next
  fix x assume "x \<in> row_key ` open_view k v"
  then obtain r where r: "v (ord_id r) = Some r" "ord_market_id r = k" "is_active r" "x = row_key r"
    by (auto simp: open_view_def)
  then obtain r' where "v' (ord_id r) = Some r'" "row_filled 0 r r'"
    using assms [of "ord_id r"] by (auto simp: option_rel_Some1)
  moreover from this(2) have "ord_id r' = ord_id r" by (simp add: row_filled_def)
  ultimately have "r' \<in> open_view k v'" "row_key r' = x"
    using r row_filled_zero [of r r'] by (simp_all add: open_view_def)
  then show "x \<in> row_key ` open_view k v'" by blast
qed

lemma rel_option_refl: "(\<And>x. R x x) \<Longrightarrow> rel_option R y y"
  by (cases y) auto

lemma open_keys_set_row:
  assumes "\<And>r. v (ord_id o1) = Some r \<Longrightarrow> ord_market_id r \<noteq> k"
  shows "row_key ` open_view k (set_row o1 v) = row_key ` open_view k v"
proof (rule open_keys_cong)
  fix oid
  show "rel_option (\<lambda>r r'. ord_market_id r = k \<or> ord_market_id r' = k \<longrightarrow> row_filled 0 r r') (v oid) (set_row o1 v oid)
      \<or> (\<forall>r. v oid = Some r \<or> set_row o1 v oid = Some r \<longrightarrow> ord_market_id r \<noteq> k)"
    using assms by (cases "oid = ord_id o1") (auto simp: set_row_def status_columns_def row_filled_refl intro: rel_option_refl)
qed

lemma open_keys_cancel_rows:
  assumes "\<And>oid r. oid \<in> X \<Longrightarrow> v oid = Some r \<Longrightarrow> ord_market_id r \<noteq> k"
  shows "row_key ` open_view k (cancel_rows X v) = row_key ` open_view k v"
proof (rule open_keys_cong)
  fix oid
  show "rel_option (\<lambda>r r'. ord_market_id r = k \<or> ord_market_id r' = k \<longrightarrow> row_filled 0 r r') (v oid) (cancel_rows X v oid)
      \<or> (\<forall>r. v oid = Some r \<or> cancel_rows X v oid = Some r \<longrightarrow> ord_market_id r \<noteq> k)"
    using assms [of oid] by (cases "oid \<in> X"; cases "v oid")
      (auto simp: cancel_rows_def mark_cancelled_def row_filled_refl)
qed

section \<open>An order leaves the other markets alone\<close>

definition owners :: "(string \<Rightarrow> order option) \<Rightarrow> string set" where
  "owners v = ord_user_id ` ran v"

lemma owners_set_row: "owners (set_row o1 v) \<subseteq> owners v"
  by (force simp: owners_def ran_def set_row_def status_columns_def split: if_splits)

lemma owners_cancel_rows: "owners (cancel_rows X v) \<subseteq> owners v"
  by (force simp: owners_def ran_def cancel_rows_def mark_cancelled_def split: if_splits)

lemma place_order_elsewhere:
  assumes run: "place_order ord s = (Inr (ord4, trs, nq), s')" and wf: "wf_db (eng_db s)"
    and new: "is_new_order ord"
    and sync: "shows_but X (ord_market_id ord) (eng_db s) (book_at (ord_market_id ord) s)"
    and lost: "X \<subseteq> dom (order_view (eng_db s))"
  shows "elsewhere_same (ord_market_id ord) s s' \<and>
    owners (order_view (eng_db s')) \<subseteq> insert (ord_user_id ord) (owners (order_view (eng_db s)))"
proof -
  let ?m = "ord_market_id ord" and ?T = "ord_id ord" and ?v = "order_view (eng_db s)"
  obtain ord1 d1 row ord2 ob2 ms ord3 d2 s5 d7 where
    prep: "prepare_order ord (eng_db s) = (Inr ord1, d1)" and
    match: "match_order ord1 (book_at ?m s) = (Inr (ord2, trs), ob2)" and
    clear: "fold_act clear_fill trs (MarketState row, ord2, 0) d1 = (Inr (ms, ord3, nq), d2)" and
    fin: "finalize_order ?m ord3 0 (s\<lparr>orderbooks := (orderbooks s)(?m \<mapsto> ob2), eng_db := d2\<rparr>) = (Inr ord4, s5)" and
    fl: "flush_market ms (eng_db s5) = (Inr (), d7)" and s': "s' = s5\<lparr>eng_db := d7\<rparr>"
    by (rule place_order_runs [OF run])
  obtain bt bd bp t where
    o1: "ord1 = ord\<lparr>book_type := bt, book_direction := bd, book_price := bp,
       frozen_amount := frozen_amount ord1, frozen_asset_type := frozen_asset_type ord1\<rparr>" and
    bp: "1 \<le> bp" "bp \<le> 99" "bd \<in> {BUY, SELL}" and qty: "1 \<le> quantity ord" and wf1: "wf_db d1" and
    none: "?v ?T = None" and v1: "order_view d1 = ?v(?T \<mapsto> new_order_row t ord1)"
    by (rule prepare_order_result [OF prep wf]) blast
  have id1: "ord_id ord1 = ?T" "ord_market_id ord1 = ?m" "ord_user_id ord1 = ord_user_id ord" by (subst o1, simp)+
  have limit: "1 \<le> book_price ord1" "book_price ord1 \<le> 99" "book_direction ord1 \<in> {BUY, SELL}"
    "0 < remaining_quantity ord1"
    using bp qty new by (subst o1, simp add: is_new_order_def)+
  have inv: "ob_inv (book_at ?m s)" and keys: "entry_key ` resting (book_at ?m s) = row_key ` open_view ?m (?v |` (- X))"
    using sync shows_but_view [OF wf] by simp_all
  have sound0: "ord_id r = oid \<and> 0 \<le> remaining_quantity r" if "?v oid = Some r" for oid r
    using repo.view_sound [OF wf that] by simp
  then have sound: "ord_id r = oid \<and> 0 \<le> remaining_quantity r" if "(?v |` (- X)) oid = Some r" for oid r
    using that by (auto simp: restrict_map_def split: if_splits)
  obtain fs x where o2: "ord2 = filled_by x ord1"
    and trs: "\<forall>t \<in> set trs. 0 < tr_quantity t \<and> maker_order_id t \<in> entry_id ` resting (book_at ?m s)"
    and enough0: "\<forall>oid r. (?v |` (- X)) oid = Some r \<longrightarrow> traded trs oid \<le> remaining_quantity r"
    by (rule match_on_synced [OF inv keys sound limit match])
  note enough = makers_have_enough [OF keys trs enough0 sound0]
  have id2: "ord_id ord2 = ?T" by (simp add: o2 filled_by_def id1)
  have fresh: "?T \<notin> entry_id ` resting (book_at ?m s)" by (rule fresh_id_not_resting [OF keys]) (simp add: restrict_map_def none)
  have cleared: "wf_db d2 \<and> ord3 = (if trs = [] then ord2 else sync_frozen_amount ord2 (remaining_quantity ord2)) \<and>
    (\<forall>oid. oid \<noteq> ord_id ord2 \<longrightarrow> rel_option (row_filled (traded trs oid)) (order_view d1 oid) (order_view d2 oid)) \<and>
    order_view d2 (ord_id ord2) = (if trs = [] then order_view d1 (ord_id ord2)
       else map_option (status_columns ord3) (order_view d1 (ord_id ord2)))"
  proof (rule clear_fills_view [OF clear wf1])
    show "\<forall>t \<in> set trs. 0 < tr_quantity t \<and> maker_order_id t \<noteq> ord_id ord2" using trs fresh id2 by metis
    show "\<And>oid r. oid \<noteq> ord_id ord2 \<Longrightarrow> order_view d1 oid = Some r \<Longrightarrow> traded trs oid \<le> remaining_quantity r"
      using enough id2 by (simp add: v1)
  qed
  have own: "ord_market_id r = ?m" "ord_user_id r = ord_user_id ord" if "order_view d2 ?T = Some r" for r
    using that cleared id1 id2 by (auto simp: v1 new_order_row_def status_columns_def split: if_splits)
  have rel: "rel_option (row_filled (traded trs oid)) (?v oid) (order_view d2 oid)" if "oid \<noteq> ?T" for oid
    using that cleared id2 by (metis fun_upd_other v1)
  have users: "owners (order_view d2) \<subseteq> insert (ord_user_id ord) (owners ?v)"
  proof
    fix u assume "u \<in> owners (order_view d2)"
    then obtain oid r' where r': "order_view d2 oid = Some r'" "u = ord_user_id r'"
      by (auto simp: owners_def ran_def)
    show "u \<in> insert (ord_user_id ord) (owners ?v)"
    proof (cases "oid = ?T")
      case True
      then show ?thesis using r' own by simp
    next
      case False
      then obtain r where "?v oid = Some r" "ord_user_id r' = ord_user_id r"
        using rel [OF False] r'(1) by (auto simp: option_rel_Some2 row_filled_def)
      then show ?thesis using r'(2) by (auto simp: owners_def ran_def)
    qed
  qed
  have other: "row_key ` open_view k (order_view d2) = row_key ` open_view k ?v" if k: "k \<noteq> ?m" for k
  proof (rule open_keys_cong)
    fix oid
    show "rel_option (\<lambda>r r'. ord_market_id r = k \<or> ord_market_id r' = k \<longrightarrow> row_filled 0 r r') (?v oid) (order_view d2 oid)
      \<or> (\<forall>r. ?v oid = Some r \<or> order_view d2 oid = Some r \<longrightarrow> ord_market_id r \<noteq> k)"
    proof (cases "oid = ?T")
      case True
      then show ?thesis using own none k by auto
    next
      case False
      note rel = rel [OF False]
      show ?thesis
      proof (cases "\<exists>t \<in> set trs. maker_order_id t = oid")
        case True
        then have "oid \<in> entry_id ` resting (book_at ?m s)" using trs by auto
        then obtain e where e: "e \<in> resting (book_at ?m s)" "entry_id e = oid" by (elim imageE) simp
        then have "entry_key e \<in> row_key ` open_view ?m (?v |` (- X))" unfolding keys [symmetric] by (intro imageI)
        then have "entry_key e \<in> row_key ` open_view ?m ?v" by (auto simp: open_view_but)
        then obtain r where "?v (ord_id r) = Some r" "ord_market_id r = ?m" "row_key r = entry_key e"
          by (auto simp: open_view_def)
        moreover have "ord_id r = oid"
          using calculation(3) e(2) by (cases e) (simp add: row_key_def entry_key_def entry_id_def)
        ultimately have "?v oid = Some r" "ord_market_id r = ?m" by simp_all
        then show ?thesis using rel k by (auto simp: option_rel_Some1 row_filled_def)
      next
        case none: False
        then have "traded trs oid = 0" by (intro traded_zero) blast
        then have "rel_option (row_filled 0) (?v oid) (order_view d2 oid)" using rel by simp
        then show ?thesis by (cases "?v oid"; cases "order_view d2 oid") auto
      qed
    qed
  qed
  have id3: "ord_id ord3 = ?T" using cleared id2 by auto
  have "orderbooks s' k = orderbooks s k" if "k \<noteq> ?m" for k
  proof -
    have "place_order_inner ord s = (Inr (ord4, trs, nq), s')" using run by (simp add: place_order_ok)
    from keepsD [OF keeps_other_inner _ this, of "orderbooks s"] that show ?thesis by (simp add: other_books_def)
  qed
  moreover have "wf_db (eng_db s5) \<and> owners (order_view (eng_db s5)) \<subseteq> insert (ord_user_id ord) (owners ?v) \<and>
      (\<forall>k. k \<noteq> ?m \<longrightarrow> row_key ` open_view k (order_view (eng_db s5)) = row_key ` open_view k ?v)"
  proof (rule finalize_cases [OF fin], goal_cases)
    case 1
    then show ?case using cleared by simp
  next
    case 2
    then show ?case using other users cleared by simp
  next
    case (3 t ob')
    then show ?case using other users by simp
  next
    case (4 d1')
    have "row_key ` open_view k (set_row ord4 (order_view d2)) = row_key ` open_view k (order_view d2)" if "k \<noteq> ?m" for k
    proof (rule open_keys_set_row)
      fix r assume "order_view d2 (ord_id ord4) = Some r"
      then show "ord_market_id r \<noteq> k" using own that 4(3) id3 by simp
    qed
    moreover have "owners (set_row ord4 (order_view d2)) \<subseteq> insert (ord_user_id ord) (owners ?v)"
      using users owners_set_row by (rule order_trans [rotated])
    ultimately show ?case using 4 other by simp
  qed
  ultimately show ?thesis
    using keeps_view [OF keeps_flush fl] by (simp add: elsewhere_same_def s')
qed

section \<open>So do cancellations\<close>

lemma cancel_inline_elsewhere:
  assumes run: "cancel_inline ord w x s = (Inr ord', s')" and wf: "wf_db (eng_db s)"
    and sync: "shows_but X (ord_market_id ord) (eng_db s) (book_at (ord_market_id ord) s)"
    and row: "order_view (eng_db s) (ord_id ord) = Some ord"
  shows "elsewhere_same (ord_market_id ord) s s' \<and>
    owners (order_view (eng_db s')) \<subseteq> owners (order_view (eng_db s))"
proof -
  note res = cancel_inline_shows [OF run wf sync]
  have "ord_id ord' = ord_id ord" using res by simp
  then have "row_key ` open_view k (set_row ord' (order_view (eng_db s))) = row_key ` open_view k (order_view (eng_db s))"
    if "k \<noteq> ord_market_id ord" for k
    using that row by (intro open_keys_set_row) simp
  moreover have "other_books (ord_market_id ord) (orderbooks s) s'"
    by (rule keepsD [OF keeps_other_cancel_inline _ run]) (simp add: other_books_def)
  ultimately show ?thesis using res owners_set_row by (simp add: elsewhere_same_def other_books_def)
qed

lemma keeps_other_batch: "keeps (other_books m f) (batch_cancel m u scope)"
proof -
  have "keeps (other_books m f) (cancel_in_existing_book m ids)" for ids
    by (auto simp: keeps_def cancel_in_existing_book_def other_books_def split: option.splits prod.splits)
  then show ?thesis
    unfolding batch_cancel_def Let_def
    by (intro keeps_bind keeps_if keeps_when keeps_ret keeps_other_in_db)
qed

lemma batch_cancel_elsewhere:
  assumes run: "batch_cancel m u scope s = (Inr res, s')" and wf: "wf_db (eng_db s)"
    and sync: "shows_but X m (eng_db s) (book_at m s)"
  shows "elsewhere_same m s s' \<and> owners (order_view (eng_db s')) \<subseteq> owners (order_view (eng_db s))"
proof -
  note res = batch_cancel_shows [OF run wf sync]
  let ?X = "ord_id ` set (batch_rows m u scope (eng_db s))"
  have "ord_market_id r = m" if X: "oid \<in> ?X" and r: "order_view (eng_db s) oid = Some r" for oid r
  proof -
    obtain r0 where r0: "r0 \<in> set (orders (eng_db s))" "ord_id r0 = oid" "ord_market_id r0 = m"
      using X by (auto simp: batch_rows_def)
    have "distinct (map ord_id (orders (eng_db s)))" using wf by (simp add: wf_db_def)
    from lookup_row_key [OF this r0(1)] r r0 show ?thesis by (simp add: order_view_def)
  qed
  then have "row_key ` open_view k (cancel_rows ?X (order_view (eng_db s))) = row_key ` open_view k (order_view (eng_db s))"
    if "k \<noteq> m" for k
    using that by (intro open_keys_cancel_rows) metis
  moreover have "other_books m (orderbooks s) s'"
    by (rule keepsD [OF keeps_other_batch _ run]) (simp add: other_books_def)
  ultimately show ?thesis using res owners_cancel_rows by (simp add: elsewhere_same_def other_books_def)
qed

section \<open>The money of the whole system\<close>

definition reserves :: "db \<Rightarrow> int" where
  "reserves d = col_sum reserve_balance (markets d)"

text \<open>What the accounts and the markets hold, less what came in from outside.\<close>

definition gap :: "db \<Rightarrow> int" where
  "gap d = funds d + reserves d - net_deposits d"

lemma col_sum_lookup:
  assumes "distinct (map k rows)"
  shows "col_sum g rows = (\<Sum>x \<in> k ` set rows. g (the (lookup_row (\<lambda>r. k r = x) rows)))"
proof -
  have "g r = g (the (lookup_row (\<lambda>r'. k r' = k r) rows))" if "r \<in> set rows" for r
    using lookup_row_key [OF assms that] by simp
  then have "col_sum g rows = sum_list (map (\<lambda>x. g (the (lookup_row (\<lambda>r. k r = x) rows))) (map k rows))"
    unfolding col_sum_def map_map comp_def by (intro arg_cong [of _ _ sum_list] map_cong refl) blast
  then show ?thesis using sum_list_distinct_conv_sum_set [OF assms] by simp
qed

lemma dom_mkt: "dom (mkt d) = mkt_id ` set (markets d)"
proof -
  have "mkt d k = None \<longleftrightarrow> k \<notin> mkt_id ` set (markets d)" for k
    by (auto simp: mkt_def lookup_row_None_iff)
  then show ?thesis by (auto simp: dom_def)
qed

lemma reserves_change:
  assumes "wf_db d" and "wf_db d'" and "mkt d m = Some row" and "mkt d' m = Some row'"
    and "\<And>k. k \<noteq> m \<Longrightarrow> mkt d' k = mkt d k"
  shows "reserves d' = reserves d - reserve_balance row + reserve_balance row'"
proof -
  have sum: "reserves e = (\<Sum>k \<in> dom (mkt e). reserve_balance (the (mkt e k)))" if "wf_db e" for e
    using that col_sum_lookup [of mkt_id "markets e" reserve_balance]
    by (simp add: reserves_def dom_mkt mkt_def wf_db_def)
  have "k \<in> dom (mkt d') \<longleftrightarrow> k \<in> dom (mkt d)" for k
    using assms(3-5) by (cases "k = m") (simp_all add: dom_def)
  then have dom: "dom (mkt d') = dom (mkt d)" by blast
  have fin: "m \<in> dom (mkt d)" "finite (dom (mkt d))"
    using assms(3) by (simp add: domIff, simp add: dom_mkt)
  have "(\<Sum>k \<in> dom (mkt d) - {m}. reserve_balance (the (mkt d' k))) =
        (\<Sum>k \<in> dom (mkt d) - {m}. reserve_balance (the (mkt d k)))"
    by (rule sum.cong) (auto simp: assms(5))
  then show ?thesis
    unfolding sum [OF assms(1)] sum [OF assms(2)] dom
    using sum.remove [OF fin(2,1), of "\<lambda>k. reserve_balance (the (mkt d' k))"]
      sum.remove [OF fin(2,1), of "\<lambda>k. reserve_balance (the (mkt d k))"]
    by (simp add: assms(3,4))
qed

text \<open>
  A market in order has the fee rate the buffer is computed with, the shares of its totals in the
  hands of users, a hundred cents behind every pair, which is what the holders paid, and no
  profit in its pool: what the invariant checks ask of it.
\<close>

definition market_ok :: "string \<Rightarrow> market \<Rightarrow> db \<Rightarrow> bool" where
  "market_ok k row d \<longleftrightarrow> taker_fee_bps row = 20 \<and> solvent k (MarketState row) d \<and>
     pnl_pool row = 0 \<and> reserve_balance row = cost_held k d"

text \<open>
  A system in order: schema respected, every book in step up to lost orders, every market in
  order, an account for the fees, for every owner of an order and for every holder of a position.
\<close>

definition in_order :: "string set \<Rightarrow> engine_state \<Rightarrow> bool" where
  "in_order X s \<longleftrightarrow> wf_db (eng_db s) \<and> X \<subseteq> dom (order_view (eng_db s)) \<and> books_show X s \<and>
     (\<forall>k row. mkt (eng_db s) k = Some row \<longrightarrow> market_ok k row (eng_db s)) \<and>
     PLATFORM_FEE_USER_ID \<in> account_ids (eng_db s) \<and>
     owners (order_view (eng_db s)) \<subseteq> account_ids (eng_db s) \<and> holders (eng_db s) \<subseteq> account_ids (eng_db s)"

lemma in_order_live:
  assumes "in_order X s"
  shows "mkt (eng_db s) m = Some row \<Longrightarrow> mkt_status row = ACTIVE \<Longrightarrow> shows_but X m (eng_db s) (book_at m s)"
    and "order_view (eng_db s) oid = Some r \<Longrightarrow> is_active r \<Longrightarrow>
      shows_but X (ord_market_id r) (eng_db s) (book_at (ord_market_id r) s)"
proof -
  have live: "closed k (eng_db s) \<or> shows_but X k (eng_db s) (book_at k s)" for k
    using assms by (simp add: in_order_def books_show_def)
  show "mkt (eng_db s) m = Some row \<Longrightarrow> mkt_status row = ACTIVE \<Longrightarrow> shows_but X m (eng_db s) (book_at m s)"
    using live [of m] by (auto simp: closed_def settled_def)
  show "shows_but X (ord_market_id r) (eng_db s) (book_at (ord_market_id r) s)"
    if "order_view (eng_db s) oid = Some r" "is_active r"
  proof -
    have "r \<in> set (open_orders (ord_market_id r) (eng_db s))"
      using that by (auto simp: open_orders_def order_view_def dest: lookup_row_SomeD)
    then have "\<not> closed (ord_market_id r) (eng_db s)" by (auto simp: closed_def)
    then show ?thesis using live by blast
  qed
qed

lemma place_order_active:
  assumes "place_order ord s = (Inr x, s')"
  shows "\<exists>row. mkt (eng_db s) (ord_market_id ord) = Some row \<and> mkt_status row = ACTIVE"
proof -
  obtain ord4 trs nq where "place_order ord s = (Inr (ord4, trs, nq), s')" using assms by (cases x) auto
  then obtain ord1 d1 where "prepare_order ord (eng_db s) = (Inr ord1, d1)" by (rule place_order_runs)
  then show ?thesis by (auto simp: prepare_order_def ok_simps check_market_active_ok)
qed

lemma placed_shows:
  assumes "in_order X s" and "place_order ord s = (Inr x, s')"
  shows "shows_but X (ord_market_id ord) (eng_db s) (book_at (ord_market_id ord) s)"
  using place_order_active [OF assms(2)] in_order_live(1) [OF assms(1)] by blast

lemma cancel_inline_totals:
  assumes run: "cancel_inline ord w x s = (Inr ord', s')" and wf: "wf_db (eng_db s)"
  shows "same_totals (eng_db s) (eng_db s')"
proof (rule cancel_inline_runs [OF run], goal_cases)
  case (1 ob' d1 d2 d3)
  then show ?case
    using effect_same_totals [OF unfreeze_remainder_effect [OF 1(2) wf]] order_update_totals [OF 1(4)]
      same_totals_core [OF write_wal_core [OF 1(5)]] by (auto intro: same_totals_trans)
qed

text \<open>A replacement that succeeds was in a market that is open.\<close>

lemma replaced_shows:
  assumes "in_order X s" and "cancel_inline old w x s = (Inr old1, s1)" and "generate_id (eng_db s1) = (Inr nid, d2)"
    and "place_order ord (s1\<lparr>eng_db := d2\<rparr>) = (Inr y, s')" and "ord_market_id ord = ord_market_id old"
  shows "shows_but X (ord_market_id old) (eng_db s) (book_at (ord_market_id old) s)"
proof -
  have "markets (eng_db s1) = markets (eng_db s)"
    using cancel_inline_totals [OF assms(2)] assms(1) by (simp add: in_order_def same_totals_def)
  moreover have "markets d2 = markets (eng_db s1)" using assms(3) by (auto simp: generate_id_def)
  ultimately have "mkt d2 k = mkt (eng_db s) k" for k by (simp add: mkt_def)
  then show ?thesis
    using place_order_active [OF assms(4)] assms(5) in_order_live(1) [OF assms(1)] by auto
qed

lemma ran_order_view:
  assumes "wf_db d"
  shows "ran (order_view d) = set (orders d)"
proof -
  have "distinct (map ord_id (orders d))" using assms by (simp add: wf_db_def)
  from lookup_row_key [OF this] show ?thesis
    by (force simp: ran_def order_view_def dest: lookup_row_SomeD)
qed

lemma in_order_owners: "in_order X s \<Longrightarrow> owners_have_accounts (eng_db s)"
  by (auto simp: in_order_def owners_have_accounts_def owners_def ran_order_view)

lemma same_totals_gap:
  "same_totals d d' \<Longrightarrow> net_deposits d' = net_deposits d \<Longrightarrow> gap d' = gap d"
  by (simp add: same_totals_def gap_def reserves_def)

text \<open>A handler in one market that changes no total.\<close>

text \<open>No statement takes a stored order away.\<close>

lemma dom_order_view: "dom (order_view d) = ord_id ` set (orders d)"
proof -
  have "order_view d k = None \<longleftrightarrow> k \<notin> ord_id ` set (orders d)" for k
    by (auto simp: order_view_def lookup_row_None_iff)
  then show ?thesis by (auto simp: dom_def)
qed

lemma ids_stay:
  assumes "\<And>c. placed c d \<Longrightarrow> placed c d'"
  shows "dom (order_view d) \<subseteq> dom (order_view d')"
proof -
  have "order_core ` set (orders d) \<subseteq> order_core ` set (orders d')" using assms unfolding placed_def by (rule subsetI)
  then have "fst ` order_core ` set (orders d) \<subseteq> fst ` order_core ` set (orders d')" by (rule image_mono)
  then show ?thesis by (simp add: dom_order_view image_image order_core_def)
qed

lemma in_order_same_totals:
  assumes "in_order X s" and "wf_db (eng_db s')" and "shows_but X m (eng_db s') (book_at m s')"
    and "elsewhere_same m s s' \<and> owners (order_view (eng_db s')) \<subseteq> owners (order_view (eng_db s))"
    and "same_totals (eng_db s) (eng_db s')" and "holders (eng_db s') \<subseteq> account_ids (eng_db s)"
    and "dom (order_view (eng_db s)) \<subseteq> dom (order_view (eng_db s'))"
  shows "in_order X s'"
proof -
  have mkt: "mkt (eng_db s') k = mkt (eng_db s) k" for k
    using assms(5) by (simp add: same_totals_def mkt_def)
  have "books_show X s'"
    by (rule elsewhere_shows [of X s, OF _ _ assms(2) _ assms(3)])
       (use assms(1,4) mkt in \<open>simp_all add: in_order_def settled_def\<close>)
  moreover have "market_ok k row (eng_db s')" if "market_ok k row (eng_db s)" for k row
    using that assms(5) by (simp add: market_ok_def solvent_def same_totals_def)
  moreover have "X \<subseteq> dom (order_view (eng_db s'))" by (rule order_trans [OF _ assms(7)]) (use assms(1) in \<open>simp add: in_order_def\<close>)
  moreover have "owners (order_view (eng_db s')) \<subseteq> account_ids (eng_db s')" "holders (eng_db s') \<subseteq> account_ids (eng_db s')"
    using assms(1,4,5,6) by (auto simp: in_order_def same_totals_def)
  ultimately show ?thesis using assms mkt by (simp add: in_order_def same_totals_def)
qed

lemma books_market_ok:
  assumes "books m (MarketState row') d' = books m (MarketState row) d" and "market_ok m row d"
    and "taker_fee_bps row' = taker_fee_bps row"
    and "pnl_pool row' = pnl_pool row \<or> reserve_balance row' + pnl_pool row' = cost_held m d'"
  shows "market_ok m row' d'"
  using assms by (auto simp: books_def market_ok_def solvent_def MarketState_def)

lemma place_in_order:
  assumes run: "place_order ord s = (Inr (ord4, trs, nq), s')" and ok: "in_order X s"
    and new: "is_new_order ord" and user: "ord_user_id ord \<in> account_ids (eng_db s)"
  shows "in_order X s' \<and> gap (eng_db s') = gap (eng_db s)"
proof -
  let ?m = "ord_market_id ord" and ?X = "account_ids (eng_db s)"
  have wf: "wf_db (eng_db s)" and lost: "X \<subseteq> dom (order_view (eng_db s))" using ok by (simp_all add: in_order_def)
  note sync = placed_shows [OF ok run]
  obtain row where row: "mkt (eng_db s) ?m = Some row" using place_order_active [OF run] by blast
  have mok: "market_ok ?m row (eng_db s)" using ok row by (simp add: in_order_def)
  then have bps: "taker_fee_bps row = 20" by (simp add: market_ok_def)
  obtain row' where row': "mkt (eng_db s') ?m = Some row'" "taker_fee_bps row' = taker_fee_bps row"
      "mkt_status row' = mkt_status row"
    and pnl: "pnl_pool row' = pnl_pool row \<or> reserve_balance row' + pnl_pool row' = cost_held ?m (eng_db s')"
    and acc: "account_ids (eng_db s') = ?X"
    and books: "books ?m (MarketState row') (eng_db s') = books ?m (MarketState row) (eng_db s)"
    and others: "\<And>k. k \<noteq> ?m \<Longrightarrow> mkt (eng_db s') k = mkt (eng_db s) k"
    using place_order_books [OF run wf sync row bps in_order_owners [OF ok] user] by blast
  note sync' = place_order_shows [OF run wf new sync lost]
  note else' = place_order_elsewhere [OF run wf new sync lost]
  have "settled k (eng_db s')" if "settled k (eng_db s)" for k
    using that row row' others [of k] by (cases "k = ?m") (auto simp: settled_def)
  then have "books_show X s'"
    using elsewhere_shows [of X s s' ?m] ok wf sync' else' by (simp add: in_order_def)
  moreover have "market_ok k r (eng_db s')" if k: "mkt (eng_db s') k = Some r" for k r
  proof (cases "k = ?m")
    case True
    then show ?thesis using k row' books_market_ok [OF books mok row'(2) pnl] by simp
  next
    case False
    have "market_rows k (eng_db s') = market_rows k (eng_db s)"
      by (rule other_market.place_order [OF run wf shows_but_inv [OF sync]]) (use False in \<open>simp_all add: other_market.may_def\<close>)
    moreover have "market_ok k r (eng_db s)" using ok k others [OF False] by (simp add: in_order_def)
    ultimately show ?thesis by (simp add: market_ok_def solvent_def held_rows [of k "eng_db s'" "eng_db s"])
  qed
  moreover have "owners (order_view (eng_db s')) \<subseteq> account_ids (eng_db s')"
    using else' ok user acc by (auto simp: in_order_def)
  moreover have "holders (eng_db s') \<subseteq> ?X"
    by (rule holding.place_order [OF run wf shows_but_inv [OF sync]])
       (use book_users [OF sync in_order_owners [OF ok]] user ok in \<open>simp_all add: holding.may_def in_order_def\<close>)
  moreover have "dom (order_view (eng_db s)) \<subseteq> dom (order_view (eng_db s'))"
    by (rule ids_stay) (rule keepsD [OF placed.place_order _ run])
  then have "X \<subseteq> dom (order_view (eng_db s'))" using lost by (rule order_trans [rotated])
  ultimately have "in_order X s'" using sync' ok acc by (simp add: in_order_def)
  moreover have "net_deposits (eng_db s') = net_deposits (eng_db s)"
    using keepsD [OF deposits.place_order [of "net_deposits (eng_db s)"] _ run] by simp
  moreover have "funds (eng_db s') + reserve_balance row' = funds (eng_db s) + reserve_balance row"
    using books by (simp add: books_def MarketState_def)
  ultimately show ?thesis
    using reserves_change [OF wf sync' [THEN conjunct1] row row'(1) others] by (simp add: gap_def)
qed

text \<open>Resolving a market pays out its reserve.\<close>

lemma resolve_in_order:
  assumes run: "resolve_market m oc (eng_db s) = (Inr x, d')" and ok: "in_order X s"
  shows "in_order X (s\<lparr>eng_db := d'\<rparr>) \<and> gap d' = gap (eng_db s)"
proof -
  let ?d = "eng_db s" and ?s = "s\<lparr>eng_db := d'\<rparr>"
  have wf: "wf_db ?d" and hold: "holders ?d \<subseteq> account_ids ?d" using ok by (simp_all add: in_order_def)
  note views = resolve_market_views [OF run wf hold]
  have wf': "wf_db d'" by (rule keepsD [OF wf.resolve_market wf run])
  obtain row where row: "mkt ?d m = Some row" using views(9) by blast
  define row' where "row' = settled_row oc (clock d') row"
  have row': "mkt d' m = Some row'" by (simp add: views(7) row row'_def)
  have mok: "market_ok m row ?d" using ok row by (simp add: in_order_def)
  have "closed k d' \<or> shows_but X k d' (book_at k ?s)" for k
  proof (cases "k = m")
    case True
    then show ?thesis
      using resolve_open_orders [OF wf views(8), of m] row' by (simp add: closed_def settled_def row'_def settled_row_def)
  next
    case False
    then have "open_orders k d' = open_orders k ?d" "mkt d' k = mkt ?d k"
      using resolve_open_orders [OF wf views(8), of k] views(7) by simp_all
    moreover have "closed k ?d \<or> shows_but X k ?d (book_at k s)" using ok by (simp add: in_order_def books_show_def)
    ultimately show ?thesis by (simp add: closed_def settled_def shows_but_def book_at_def)
  qed
  moreover have "market_ok k r d'" if k: "mkt d' k = Some r" for k r
  proof (cases "k = m")
    case True
    then show ?thesis
      using k row' mok views(2-4) by (auto simp: market_ok_def solvent_def MarketState_def row'_def settled_row_def)
  next
    case False
    have "market_ok k r ?d" using ok k False views(7) by (simp add: in_order_def)
    then show ?thesis
      by (simp add: market_ok_def solvent_def held_rows [OF resolve_market_others [OF run wf False]])
  qed
  moreover have "owners (order_view d') \<subseteq> owners (order_view ?d)"
    using wf wf' by (force simp: owners_def ran_order_view views(8) set_update_where mark_resolved_def)
  moreover have stay: "dom (order_view ?d) \<subseteq> dom (order_view d')"
    by (rule ids_stay) (rule keepsD [OF placed.resolve_market _ run])
  have "X \<subseteq> dom (order_view d')"
    by (rule order_trans [OF _ stay]) (use ok in \<open>simp add: in_order_def\<close>)
  ultimately have "in_order X ?s"
    using ok wf' views(5,6) by (auto simp: in_order_def books_show_def)
  moreover have "net_deposits d' = net_deposits ?d"
    using keepsD [OF deposits.resolve_market [of "net_deposits ?d"] _ run] by simp
  moreover have "funds d' = funds ?d + reserve_balance row"
    using views(1) mok by (simp add: market_ok_def solvent_def MarketState_def)
  moreover have "reserves d' = reserves ?d - reserve_balance row + reserve_balance row'"
    by (rule reserves_change [OF wf wf' row row']) (simp add: views(7))
  ultimately show ?thesis by (simp add: gap_def row'_def settled_row_def)
qed

section \<open>Runs of successful requests\<close>

inductive success :: "engine_state \<Rightarrow> engine_state \<Rightarrow> bool" where
  placed_order: "service_place_order req u s = (Inr resp, s') \<Longrightarrow> u \<in> account_ids (eng_db s) \<Longrightarrow> success s s'"
| cancelled: "service_cancel_order oid u s = (Inr cresp, s') \<Longrightarrow> success s s'"
| replaced: "atomic_replace oid req u s = (Inr res, s') \<Longrightarrow> success s s'"
| batch_cancelled: "batch_cancel_endpoint m scope u s = (Inr bres, s') \<Longrightarrow> success s s'"
| deposited: "in_db (account_deposit u n) s = (Inr p, s') \<Longrightarrow> success s s'"
| withdrawn: "in_db (account_withdraw u n) s = (Inr p, s') \<Longrightarrow> success s s'"
| registered: "with_session (register_endpoint hashpw new_id name mail password) s = (Inr rr, s') \<Longrightarrow> success s s'"
| resolved: "in_db (resolve_market m oc) s = (Inr rm, s') \<Longrightarrow> success s s'"
| time_passed: "clock (eng_db s) \<le> t \<Longrightarrow> success s (s\<lparr>eng_db := (eng_db s)\<lparr>clock := t\<rparr>\<rparr>)"

text \<open>What the invariant reads of a state; a change of anything else keeps it.\<close>

lemma in_order_same_tables:
  assumes "in_order X s" and "same_tables (eng_db s) (eng_db s')" and "orderbooks s' = orderbooks s"
  shows "in_order X s' \<and> gap (eng_db s') = gap (eng_db s)"
proof -
  have d: "accounts (eng_db s') = accounts (eng_db s)" "markets (eng_db s') = markets (eng_db s)"
    "orders (eng_db s') = orders (eng_db s)" "ledger_entries (eng_db s') = ledger_entries (eng_db s)"
    "positions (eng_db s') = positions (eng_db s)" "wf_db (eng_db s')"
    using assms(1,2) by (simp_all add: same_tables_def in_order_def wf_db_def)
  have "shows_but X m (eng_db s') (book_at m s') = shows_but X m (eng_db s) (book_at m s)" for m
    using d(3) assms(3) by (simp add: shows_but_def open_orders_def book_at_def)
  moreover have "order_view (eng_db s') = order_view (eng_db s)" by (simp add: order_view_def fun_eq_iff d(3))
  ultimately show ?thesis
    using assms(1) d
    by (simp add: in_order_def books_show_def closed_def settled_def open_orders_def market_ok_def solvent_def
        mkt_def view_defs holders_def gap_def reserves_def net_deposits_def)
qed

lemma posting_in_order:
  assumes "posted balances ledger_entries (eng_db s) d' u da 0 ty da e" and "ty \<in> {DEPOSIT, WITHDRAW}"
    and "wf_db d'" and "markets d' = markets (eng_db s)" and "orders d' = orders (eng_db s)" and "in_order X s"
    and "positions d' = positions (eng_db s)"
  shows "in_order X (s\<lparr>eng_db := d'\<rparr>) \<and> gap d' = gap (eng_db s)"
proof -
  obtain x y where b: "balances (eng_db s) u = Some (x, y)" "balances d' = (balances (eng_db s))(u \<mapsto> (x + da, y + 0))"
    using assms(1) by (auto simp: posted_def)
  then have "dom (balances d') = dom (balances (eng_db s))" by (simp add: insert_absorb domI)
  then have "account_ids d' = account_ids (eng_db s)" by (simp add: dom_balances account_ids_def)
  moreover have "books_show X (s\<lparr>eng_db := d'\<rparr>)"
    using assms(4-6) by (simp add: in_order_def books_show_def closed_def settled_def shows_but_def open_orders_def
        mkt_def book_at_def)
  moreover have "market_ok k row d' = market_ok k row (eng_db s)" for k row
    by (simp add: market_ok_def solvent_def yes_held_def no_held_def cost_held_def assms(7))
  moreover have "order_view d' = order_view (eng_db s)" by (simp add: order_view_def fun_eq_iff assms(5))
  ultimately show ?thesis
    using posted_totals [OF assms(1) _ assms(3)] assms(2-7)
    by (auto simp: in_order_def mkt_def gap_def reserves_def holders_def)
qed

lemma posting_frame:
  "repo_deposit u n d = (Inr x, d') \<Longrightarrow> markets d' = markets d \<and> orders d' = orders d \<and> positions d' = positions d"
  "repo_withdraw u n d = (Inr x, d') \<Longrightarrow> markets d' = markets d \<and> orders d' = orders d \<and> positions d' = positions d"
  by (auto simp: repo_deposit_def repo_withdraw_def deposit_sql_def withdraw_sql_def insufficient_def get_account_sql_def
      insert_ledger_returning_def next_ledger_id_def ok_simps sql_update_ok_iff sql_insert_ok_iff Let_def
      split: list.splits)

text \<open>A registration that succeeds adds one user with an empty account.\<close>

lemma record_append:
  "accounts_update (\<lambda>rows. rows @ xs) d = d\<lparr>accounts := accounts d @ xs\<rparr>"
  "users_update (\<lambda>rows. rows @ us) d = d\<lparr>users := users d @ us\<rparr>"
  by (cases d; simp)+

lemma register_ok:
  assumes "with_session (register_endpoint hashpw new_id name mail password) s = (Inr rr, s')"
  obtains u where "usr_id u = new_id"
    "s' = s\<lparr>eng_db := (eng_db s)\<lparr>users := users (eng_db s) @ [u],
       accounts := accounts (eng_db s) @ [new_account new_id]\<rparr>\<rparr>"
    "new_id \<notin> account_ids (eng_db s)"
proof -
  obtain u d' where run: "register hashpw new_id name mail password (eng_db s) = (Inr u, d')"
    and s': "s' = s\<lparr>eng_db := d'\<rparr>"
    using assms
    by (auto simp: with_session_def register_endpoint_def begin_block_def execute_def bind_act_def
        split: prod.splits sum.splits if_splits)
  from run have "usr_id u = new_id" and d': "d' = (eng_db s)\<lparr>users := users (eng_db s) @ [u],
       accounts := accounts (eng_db s) @ [new_account new_id]\<rparr>" and "new_id \<notin> account_ids (eng_db s)"
    by (auto simp: register_def user_by_def ok_simps sql_insert_ok_iff Let_def list_ex_iff account_clash_def
        account_ids_def new_account_def record_append)
  then show thesis using that s' by blast
qed

lemma register_in_order:
  assumes ok: "in_order X s" and wf: "wf_db (eng_db s')"
    and s': "s' = s\<lparr>eng_db := (eng_db s)\<lparr>users := us, accounts := accounts (eng_db s) @ [new_account new_id]\<rparr>\<rparr>"
  shows "in_order X s' \<and> gap (eng_db s') = gap (eng_db s)"
proof -
  have "books_show X s'"
    using ok by (simp add: s' in_order_def books_show_def closed_def settled_def shows_but_def open_orders_def mkt_def book_at_def)
  moreover have "market_ok k row (eng_db s') = market_ok k row (eng_db s)" for k row
    by (simp add: s' market_ok_def solvent_def yes_held_def no_held_def cost_held_def)
  moreover have "order_view (eng_db s') = order_view (eng_db s)" by (simp add: s' order_view_def fun_eq_iff)
  ultimately show ?thesis
    using ok wf
    by (auto simp: s' in_order_def mkt_def account_ids_def gap_def reserves_def funds_def holders_def
        net_deposits_def new_account_def acc_funds_def)
qed

lemma cancel_in_order:
  assumes run: "cancel_inline ord w x s = (Inr ord', s')" and ok: "in_order X s"
    and row: "order_view (eng_db s) (ord_id ord) = Some ord"
    and sync: "shows_but X (ord_market_id ord) (eng_db s) (book_at (ord_market_id ord) s)"
  shows "in_order X s' \<and> gap (eng_db s') = gap (eng_db s)"
proof -
  have wf: "wf_db (eng_db s)" using ok by (simp add: in_order_def)
  have "ord_user_id ord \<in> account_ids (eng_db s)"
    using ok row by (force simp: in_order_def owners_def ran_def)
  then have hold: "holders (eng_db s') \<subseteq> account_ids (eng_db s)"
    using keepsD [OF holding.cancel_inline _ run] ok by (simp add: holding.may_def in_order_def)
  note res = cancel_inline_shows [OF run wf sync]
  have "net_deposits (eng_db s') = net_deposits (eng_db s)"
    using keepsD [OF deposits.cancel_inline [of "net_deposits (eng_db s)"] _ run] by simp
  moreover have "in_order X s'"
    by (rule in_order_same_totals [OF ok _ _ cancel_inline_elsewhere [OF run wf sync row] _ hold ids_stay])
      (use res keepsD [OF placed.cancel_inline _ run] in simp_all)
  ultimately show ?thesis using res same_totals_gap by blast
qed

lemma batch_cancel_none:
  assumes "batch_cancel m u scope s = (Inr res, s')" and "batch_rows m u scope (eng_db s) = []"
  shows "s' = s"
proof -
  have "in_db (reads (batch_rows m u scope)) s = (Inr [], s)" using assms(2) by (simp add: in_db_def)
  then show ?thesis using assms(1) by (auto simp: batch_cancel_def bind_ok_iff Let_def)
qed

lemma batch_rows_nonempty:
  "batch_rows m u scope d \<noteq> [] \<Longrightarrow> \<exists>r \<in> set (orders d). ord_user_id r = u \<and> ord_market_id r = m \<and> is_active r"
  by (auto simp: batch_rows_def filter_empty_conv)

lemma batch_shows:
  assumes ok: "in_order X s" and rows: "batch_rows m u scope (eng_db s) \<noteq> []"
  shows "shows_but X m (eng_db s) (book_at m s)" and "u \<in> account_ids (eng_db s)"
proof -
  have wf: "wf_db (eng_db s)" using ok by (simp add: in_order_def)
  obtain r where r: "r \<in> set (orders (eng_db s))" "ord_user_id r = u" "ord_market_id r = m" "is_active r"
    using batch_rows_nonempty [OF rows] by blast
  then have "order_view (eng_db s) (ord_id r) = Some r"
    using lookup_row_key [of ord_id "orders (eng_db s)" r] wf by (simp add: order_view_def wf_db_def)
  then show "shows_but X m (eng_db s) (book_at m s)" using in_order_live(2) [OF ok] r by blast
  show "u \<in> account_ids (eng_db s)" using ok r by (auto simp: in_order_def owners_def ran_order_view)
qed

lemma success_keeps_order:
  assumes "success s s'" and ok: "in_order X s"
  shows "in_order X s' \<and> gap (eng_db s') = gap (eng_db s)"
  using assms(1)
proof cases
  case (placed_order req u resp)
  have new: "in_order X (id_taken s) \<and> gap (eng_db (id_taken s)) = gap (eng_db s)"
    by (rule in_order_same_tables [OF ok]) (simp_all add: id_taken_def same_tables_def)
  from service_place_cases [OF placed_order(1)] show ?thesis
  proof (elim disjE bexE exE conjE)
    fix ord trs nq nt assume run: "place_order (next_order req u s) (id_taken s) = (Inr (ord, trs, nq), s')"
    have "in_order X s' \<and> gap (eng_db s') = gap (eng_db (id_taken s))"
      by (rule place_in_order [OF run new [THEN conjunct1]])
         (use placed_order(2) fresh_order_new in
           \<open>simp_all add: next_order_def id_taken_def account_ids_def fresh_order_def order_post_init_def is_new_order_def\<close>)
    then show ?thesis using new by simp
  qed (use ok in simp)
next
  case (cancelled oid u cresp)
  then obtain ord where "cancel_order oid u s = (Inr ord, s')"
    by (auto simp: service_cancel_order_def ok_simps session_transaction_ok)
  then obtain ord0 where "order_view (eng_db s) oid = Some ord0" "is_active ord0" "cancel_inline ord0 u [] s = (Inr ord, s')"
    using cancel_order_runs ok by (metis in_order_def)
  then show ?thesis using cancel_in_order [OF _ ok] order_view_id in_order_live(2) [OF ok] by metis
next
  case (replaced oid req u res)
  then have "replace_order oid req u s = (Inr res, s')" by (simp add: atomic_replace_def session_transaction_ok)
  then obtain old s0 where look: "replace_lookup oid req u s = (Inr old, s0)"
    and lock: "replace_locked req u old s0 = (Inr res, s')" by (auto simp: replace_order_def bind_ok_iff)
  have old: "s0 = s" "order_view (eng_db s) oid = Some old" "ord_user_id old = u" "ord_market_id old = nop_market_id req"
    using replace_lookup_runs [OF look] ok by (simp_all add: in_order_def)
  show ?thesis
  proof (rule replace_locked_runs [OF lock], goal_cases)
    case (1 old1 s1 nid d2 trs nq)
    have row: "order_view (eng_db s) (ord_id old) = Some old" using old(2) order_view_id by blast
    have run1: "cancel_inline old u [(''replace_reason'', JStr ''atomic_replace'')] s = (Inr old1, s1)"
      using 1(1) old(1) by simp
    have sync: "shows_but X (ord_market_id old) (eng_db s) (book_at (ord_market_id old) s)"
      by (rule replaced_shows [OF ok run1 1(2,3)]) (simp add: old(4) fresh_order_new)
    have one: "in_order X s1 \<and> gap (eng_db s1) = gap (eng_db s)"
      by (rule cancel_in_order [OF run1 ok row sync])
    have two: "in_order X (s1\<lparr>eng_db := d2\<rparr>) \<and> gap d2 = gap (eng_db s1)"
      using in_order_same_tables [of X s1 "s1\<lparr>eng_db := d2\<rparr>"] one 1(2)
      by (auto simp: generate_id_def same_tables_def)
    have "ord_user_id old \<in> owners (order_view (eng_db s))" using old(2) by (force simp: owners_def ran_def)
    then have "u \<in> account_ids (eng_db s)" using ok old(3) by (auto simp: in_order_def)
    moreover have "account_ids (eng_db s1) = account_ids (eng_db s)"
      using cancel_inline_totals [OF run1] ok by (simp add: in_order_def same_totals_def)
    moreover have "account_ids d2 = account_ids (eng_db s1)"
      using 1(2) by (auto simp: generate_id_def account_ids_def)
    ultimately have user: "u \<in> account_ids d2" by simp
    have "in_order X s' \<and> gap (eng_db s') = gap (eng_db (s1\<lparr>eng_db := d2\<rparr>))"
      by (rule place_in_order [OF 1(3) two [THEN conjunct1]])
         (use user fresh_order_new in \<open>simp_all add: fresh_order_def order_post_init_def is_new_order_def\<close>)
    then show ?case using one two by simp
  qed
next
  case (batch_cancelled m scope u bres)
  then have run: "batch_cancel m u scope s = (Inr bres, s')"
    by (simp add: batch_cancel_endpoint_def session_transaction_ok)
  have wf: "wf_db (eng_db s)" using ok by (simp add: in_order_def)
  show ?thesis
  proof (cases "batch_rows m u scope (eng_db s) = []")
    case True
    then show ?thesis using batch_cancel_none [OF run] ok by simp
  next
    case False
    note sync = batch_shows(1) [OF ok False]
    have hold: "holders (eng_db s') \<subseteq> account_ids (eng_db s)"
      using keepsD [OF holding.batch_cancel _ run] batch_shows(2) [OF ok False] ok by (simp add: holding.may_def in_order_def)
    note res = batch_cancel_shows [OF run wf sync]
    have "net_deposits (eng_db s') = net_deposits (eng_db s)"
      using keepsD [OF deposits.batch_cancel [of "net_deposits (eng_db s)"] _ run] by simp
    moreover have "in_order X s'"
      by (rule in_order_same_totals [OF ok _ _ batch_cancel_elsewhere [OF run wf sync] _ hold ids_stay])
         (use res keepsD [OF placed.batch_cancel _ run] in simp_all)
    ultimately show ?thesis using res same_totals_gap by blast
  qed
next
  case (deposited u n p)
  then obtain a e d' where run: "repo_deposit u n (eng_db s) = (Inr (a, e), d')" and s': "s' = s\<lparr>eng_db := d'\<rparr>"
    by (auto simp: in_db_ok account_deposit_ok_iff)
  have "wf_db (eng_db s)" using ok by (simp add: in_order_def)
  from posting_in_order [OF acc.deposit_law [OF this run, THEN conjunct2]] acc.deposit_law [OF this run]
    posting_frame(1) [OF run] ok show ?thesis by (simp add: s')
next
  case (withdrawn u n p)
  then obtain a e d' where run: "repo_withdraw u n (eng_db s) = (Inr (a, e), d')" and s': "s' = s\<lparr>eng_db := d'\<rparr>"
    by (auto simp: in_db_ok account_withdraw_ok_iff)
  have "wf_db (eng_db s)" using ok by (simp add: in_order_def)
  from posting_in_order [OF acc.withdraw_law [OF this run, THEN conjunct2]] acc.withdraw_law [OF this run]
    posting_frame(2) [OF run] ok show ?thesis by (simp add: s')
next
  case (registered hashpw new_id name mail password rr)
  have "wf_db (eng_db s')"
    using keepsD [OF wf.register_endpoint _ registered] ok by (simp add: in_order_def)
  then show ?thesis using register_in_order [OF ok] register_ok [OF registered] by metis
next
  case (resolved m oc rm)
  then obtain d' where "resolve_market m oc (eng_db s) = (Inr rm, d')" and s': "s' = s\<lparr>eng_db := d'\<rparr>"
    by (auto simp: in_db_ok)
  from resolve_in_order [OF this(1) ok] show ?thesis by (simp add: s')
next
  case (time_passed t)
  then show ?thesis
    using in_order_same_tables [OF ok, of s'] by (simp add: same_tables_def)
qed

text \<open>Claim C1. Over any run of successful requests (orders, cancellations, replacements, batch
  cancellations, deposits, withdrawals, registrations and resolutions, in any markets and any
  order) the book of every market that is not settled keeps showing exactly its open orders (but
  those \<open>X\<close> that it had lost before), every market stays solvent (a hundred cents behind every pair
  of shares that users hold), and the money of the accounts and the markets' reserves exceeds the
  net deposits by the same amount as at the start: trading and settling create and destroy
  nothing. The markets' fee rate is the 20 basis points of the frozen buffer.\<close>

theorem trading_conserves_money:
  assumes "success\<^sup>*\<^sup>* s s'" and "in_order X s"
  shows "in_order X s' \<and> gap (eng_db s') = gap (eng_db s)"
  using assms by (induction rule: rtranclp_induct) (auto dest: success_keeps_order)

lemma even_in_order: "in_order {} even_engine"
proof -
  have sync: "synced m even_db (book_at m even_engine)" for m
  proof (cases "m = ''M''")
    case True
    then show ?thesis using even_synced by (simp add: even_engine_def book_at_def)
  next
    case False
    then have "open_orders m even_db = []" by (auto simp: exec_samples open_orders_def)
    then show ?thesis using False OrderBook_inv by (simp add: even_engine_def book_at_def synced_def)
  qed
  moreover have "market_ok k row even_db" if "mkt even_db k = Some row" for k row
    using that by (auto simp: exec_samples mkt_def market_ok_def solvent_def MarketState_def yes_held_def no_held_def
        cost_held_def in_market_def col_sum_def split: if_splits)
  moreover have "holders even_db \<subseteq> account_ids even_db" by (simp add: exec_samples account_ids_def holders_def)
  moreover have "PLATFORM_FEE_USER_ID \<in> account_ids even_db" "set (map ord_user_id (orders even_db)) \<subseteq> account_ids even_db"
    by (simp_all add: exec_samples account_ids_def PLATFORM_FEE_USER_ID_def)
  ultimately show ?thesis
    using sync by (simp add: in_order_def books_show_def even_engine_def even_db_wf owners_def ran_order_view synced_shows)
qed

text \<open>Alice's sale on the sample engine: the gap is that of the sample database.\<close>

theorem trading_conserves_money_witness:
  "\<exists>resp s'. service_place_order sale_request ''alice'' even_engine = (Inr resp, s') \<and>
     in_order {} s' \<and> gap (eng_db s') = gap even_db"
proof -
  obtain resp s' where run: "service_place_order sale_request ''alice'' even_engine = (Inr resp, s')"
    using sale_request_runs by blast
  have "''alice'' \<in> account_ids (eng_db even_engine)" by (simp add: exec_samples account_ids_def)
  then have "success\<^sup>*\<^sup>* even_engine s'" using success.placed_order [OF run] by blast
  from trading_conserves_money [OF this even_in_order] run show ?thesis by (auto simp: even_engine_def)
qed

end
