(* ===== verification/Deployment.thy ===== *)
theory Deployment
  imports Conservation
begin

text \<open>
  The data that the migrations insert, \<open>alembic/versions/011_seed_initial_data.py\<close> and
  \<open>014_add_amm_prerequisites.py\<close>, as statements on the tables, with their downgrades. The column
  \<open>auto_netting_enabled\<close> that 014 adds is a field of every account from the start, with the
  column's default; instants are seconds since 1970. Running the migrations on the empty tables
  gives the state in which the program is deployed.
\<close>

section \<open>Statements\<close>

definition market_clash :: "market \<Rightarrow> market \<Rightarrow> bool" where
  "market_clash m m' \<longleftrightarrow> mkt_id m = mkt_id m'"

abbreviation insert_market :: "market \<Rightarrow> (db, unit) act" where
  "insert_market \<equiv> sql_insert ''markets'' ck_market market_clash markets markets_update"

text \<open>\<open>DELETE\<close>: the rows that satisfy the condition go.\<close>

definition sql_delete ::
  "(('r list \<Rightarrow> 'r list) \<Rightarrow> db \<Rightarrow> db) \<Rightarrow> ('r \<Rightarrow> bool) \<Rightarrow> (db, unit) act" where
  "sql_delete put P = modify (put (filter (\<lambda>r. \<not> P r)))"

text \<open>\<open>ON CONFLICT (id) DO NOTHING\<close>: only a row with the same identifier is a reason not to insert.\<close>

definition insert_user_unless_id :: "user \<Rightarrow> (db, unit) act" where
  "insert_user_unless_id row =
     bind_act (reads (\<lambda>d. lookup_row (\<lambda>u. usr_id u = usr_id row) (users d))) (\<lambda>found.
     if found \<noteq> None then ret () else insert_user row)"

section \<open>Migration 011\<close>

definition system_account :: "string \<Rightarrow> account" where
  "system_account u = \<lparr>acc_user_id = u, available_balance = 0, frozen_balance = 0, acc_version = 0,
     auto_netting_enabled = True\<rparr>"

definition seed_market ::
  "int \<Rightarrow> string \<Rightarrow> string \<Rightarrow> string \<Rightarrow> string \<Rightarrow> int \<Rightarrow> market" where
  "seed_market now i ti descr cat resolution =
     \<lparr>mkt_id = i, title = ti, description = Some descr, category = Some cat, mkt_status = ACTIVE,
      min_price_cents = 1, max_price_cents = 99, max_order_quantity = 10000,
      max_position_per_user = 25000, max_order_amount_cents = 1000000, maker_fee_bps = 10,
      taker_fee_bps = 20, reserve_balance = 0, pnl_pool = 0, total_yes_shares = 0,
      total_no_shares = 0, trading_start_at = Some 1767225600, trading_end_at = None,
      resolution_date = Some resolution, resolved_at = None, settled_at = None,
      resolution_result = None, mkt_created_at = now\<rparr>"

definition seed_markets :: "int \<Rightarrow> market list" where
  "seed_markets now =
     [seed_market now ''MKT-BTC-100K-2026'' ''Will BTC exceed $100,000 by end of 2026?''
        ''Resolves YES if Bitcoin price exceeds $100,000 on any major exchange before 2027-01-01 00:00 UTC.''
        ''crypto'' 1798761599,
      seed_market now ''MKT-ETH-10K-2026'' ''Will ETH exceed $10,000 by end of 2026?''
        ''Resolves YES if Ethereum price exceeds $10,000 on any major exchange before 2027-01-01 00:00 UTC.''
        ''crypto'' 1798761599,
      seed_market now ''MKT-FED-RATE-CUT-2026Q2'' ''Will the Fed cut rates in Q2 2026?''
        ''Resolves YES if the Federal Reserve announces a rate cut at any FOMC meeting in April, May, or June 2026.''
        ''economics'' 1782863999]"

definition upgrade_011 :: "(db, unit) act" where
  "upgrade_011 =
     bind_act (insert_account (system_account ''SYSTEM_RESERVE'')) (\<lambda>_.
     bind_act (insert_account (system_account ''PLATFORM_FEE'')) (\<lambda>_.
     bind_act (reads clock) (\<lambda>now.
     fold_act (\<lambda>row _. insert_market row) (seed_markets now) ())))"

definition downgrade_011 :: "(db, unit) act" where
  "downgrade_011 =
     bind_act (sql_delete markets_update
       (\<lambda>m. mkt_id m \<in> {''MKT-BTC-100K-2026'', ''MKT-ETH-10K-2026'', ''MKT-FED-RATE-CUT-2026Q2''})) (\<lambda>_.
     sql_delete accounts_update (\<lambda>a. acc_user_id a \<in> {''SYSTEM_RESERVE'', ''PLATFORM_FEE''}))"

section \<open>Migration 014\<close>

definition amm_user :: user where
  "amm_user =
     \<lparr>usr_id = ''00000000-0000-4000-a000-000000000001'', username = ''amm_market_maker'',
      email = ''amm@system.internal'',
      password_hash = ''$2b$12$AMM.SYSTEM.ACCOUNT.NO.LOGIN.PLACEHOLDER.HASH'', usr_is_active = True\<rparr>"

definition amm_account :: account where
  "amm_account =
     \<lparr>acc_user_id = ''00000000-0000-4000-a000-000000000001'', available_balance = 0,
      frozen_balance = 0, acc_version = 0, auto_netting_enabled = False\<rparr>"

definition upgrade_014 :: "(db, unit) act" where
  "upgrade_014 =
     bind_act (insert_user_unless_id amm_user) (\<lambda>_.
     sql_upsert ''accounts'' ck_account accounts accounts_update
       (\<lambda>a. acc_user_id a = acc_user_id amm_account) amm_account
       (\<lambda>a. a\<lparr>auto_netting_enabled := False\<rparr>))"

definition downgrade_014 :: "(db, unit) act" where
  "downgrade_014 =
     bind_act (sql_delete accounts_update (\<lambda>a. acc_user_id a = ''00000000-0000-4000-a000-000000000001'')) (\<lambda>_.
     sql_delete users_update (\<lambda>u. usr_id u = ''00000000-0000-4000-a000-000000000001''))"

section \<open>The deployed state\<close>

definition empty_db :: "(nat \<Rightarrow> string) \<Rightarrow> int \<Rightarrow> db" where
  "empty_db g now =
     \<lparr>accounts = [], positions = [], markets = [], orders = [], trades = [], ledger_entries = [],
      wal_events = [], users = [], ledger_seq = 0, clock = now, gid = g, gid_next = 0\<rparr>"

definition seeds :: "(db, unit) act" where
  "seeds = bind_act upgrade_011 (\<lambda>_. upgrade_014)"

definition deployed :: "(nat \<Rightarrow> string) \<Rightarrow> int \<Rightarrow> engine_state" where
  "deployed g now = \<lparr>eng_db = snd (seeds (empty_db g now)), orderbooks = Map.empty\<rparr>"

lemmas seed_defs = seeds_def upgrade_011_def upgrade_014_def insert_user_unless_id_def seed_markets_def
  seed_market_def system_account_def amm_user_def amm_account_def empty_db_def market_clash_def
  account_clash_def user_clash_def sql_insert_def sql_upsert_def sql_delete_def bind_act_def

lemma seeds_run:
  "seeds (empty_db g now) = (Inr (), (empty_db g now)\<lparr>
     accounts := [system_account ''SYSTEM_RESERVE'', system_account ''PLATFORM_FEE'', amm_account],
     markets := seed_markets now, users := [amm_user]\<rparr>)"
  by (simp add: seed_defs ck_account_def ck_market_def ck_user_def varchar_def varchar_opt_def
      in_int8_def in_int4_def)

lemma seed_rows_ok:
  "ck_account (system_account ''SYSTEM_RESERVE'')" "ck_account (system_account ''PLATFORM_FEE'')"
  "ck_account amm_account" "ck_user amm_user" "list_all ck_market (seed_markets now)"
  by (simp_all add: seed_defs ck_account_def ck_market_def ck_user_def varchar_def varchar_opt_def
      in_int8_def in_int4_def)

text \<open>The migrations on a database that has other rows already, but none with their keys.\<close>

definition seed_accounts :: "account list" where
  "seed_accounts = [system_account ''SYSTEM_RESERVE'', system_account ''PLATFORM_FEE'', amm_account]"

definition unseeded :: "db \<Rightarrow> bool" where
  "unseeded d \<longleftrightarrow>
     (\<forall>a \<in> set (accounts d). acc_user_id a \<notin> acc_user_id ` set seed_accounts) \<and>
     distinct (map mkt_id (markets d @ seed_markets (clock d))) \<and>
     (\<forall>u \<in> set (users d). usr_id u \<noteq> usr_id amm_user \<and> username u \<noteq> username amm_user \<and> email u \<noteq> email amm_user)"

lemma insert_markets:
  "list_all ck_market rows \<Longrightarrow> distinct (map mkt_id (markets d @ rows)) \<Longrightarrow>
   fold_act (\<lambda>row _. insert_market row) rows () d = (Inr (), d\<lparr>markets := markets d @ rows\<rparr>)"
proof (induction rows arbitrary: d)
  case Nil
  then show ?case by simp
next
  case (Cons row rows)
  have "\<not> list_ex (market_clash row) (markets d)"
    using Cons.prems(2) by (auto simp: list_ex_iff market_clash_def)
  then have "insert_market row d = (Inr (), d\<lparr>markets := markets d @ [row]\<rparr>)"
    using Cons.prems(1) by (simp add: sql_insert_def)
  then show ?case
    using Cons.IH [of "d\<lparr>markets := markets d @ [row]\<rparr>"] Cons.prems by (simp add: insert_commute)
qed

lemma seed_market_keys:
  "map mkt_id (seed_markets now) = [''MKT-BTC-100K-2026'', ''MKT-ETH-10K-2026'', ''MKT-FED-RATE-CUT-2026Q2'']"
  by (simp add: seed_markets_def seed_market_def)

lemma seeds_add:
  assumes "unseeded d"
  shows "seeds d = (Inr (), d\<lparr>accounts := accounts d @ seed_accounts,
    markets := markets d @ seed_markets (clock d), users := users d @ [amm_user]\<rparr>)"
proof -
  have acc: "\<not> list_ex (account_clash (system_account ''SYSTEM_RESERVE'')) (accounts d)"
    "\<not> list_ex (account_clash (system_account ''PLATFORM_FEE'')) (accounts d)"
    "\<not> list_ex (\<lambda>a. acc_user_id a = acc_user_id amm_account) (accounts d)"
    and usr: "\<not> list_ex (user_clash amm_user) (users d)"
    "lookup_row (\<lambda>u. usr_id u = usr_id amm_user) (users d) = None"
    using assms
    by (auto simp: unseeded_def seed_accounts_def list_ex_iff account_clash_def user_clash_def
        system_account_def amm_account_def lookup_row_None_iff)
  have mkts: "fold_act (\<lambda>row _. insert_market row) (seed_markets (clock d)) () d' =
      (Inr (), d'\<lparr>markets := markets d @ seed_markets (clock d)\<rparr>)" if "markets d' = markets d" for d'
    using insert_markets [OF seed_rows_ok(5), of d' "clock d"] assms that by (simp add: unseeded_def)
  have "upgrade_011 d = (Inr (), d\<lparr>accounts := accounts d @ [system_account ''SYSTEM_RESERVE'', system_account ''PLATFORM_FEE''],
      markets := markets d @ seed_markets (clock d)\<rparr>)"
    using acc(1,2) mkts seed_rows_ok(1,2)
    by (simp add: upgrade_011_def bind_act_def sql_insert_def)
       (simp add: account_clash_def system_account_def)
  moreover have "upgrade_014 d' = (Inr (), d'\<lparr>accounts := accounts d' @ [amm_account], users := users d' @ [amm_user]\<rparr>)"
    if "accounts d' = accounts d @ [system_account ''SYSTEM_RESERVE'', system_account ''PLATFORM_FEE'']" "users d' = users d" for d'
    using acc(3) usr that seed_rows_ok(3,4)
    by (simp add: upgrade_014_def insert_user_unless_id_def bind_act_def sql_insert_def sql_upsert_def)
       (simp add: system_account_def amm_account_def)
  ultimately show ?thesis by (simp add: seeds_def bind_act_def seed_accounts_def)
qed

definition unseeds :: "(db, unit) act" where
  "unseeds = bind_act downgrade_014 (\<lambda>_. downgrade_011)"

lemma filter_rest: "(\<And>x. x \<in> set xs \<Longrightarrow> P x) \<Longrightarrow> (\<And>y. y \<in> set ys \<Longrightarrow> \<not> P y) \<Longrightarrow> filter P (xs @ ys) = xs"
  by (simp add: filter_id_conv filter_empty_conv)

text \<open>Migrating up and down again restores the database: on any data without the seeded keys the
  seed migrations 011 and 014 succeed, and their downgrades remove what they added and nothing else.\<close>

theorem seeds_roundtrip:
  assumes "unseeded d"
  shows "bind_act seeds (\<lambda>_. unseeds) d = (Inr (), d)"
proof -
  have acc: "filter (\<lambda>a. acc_user_id a \<noteq> ''00000000-0000-4000-a000-000000000001'' \<and>
      acc_user_id a \<noteq> ''SYSTEM_RESERVE'' \<and> acc_user_id a \<noteq> ''PLATFORM_FEE'') (accounts d @ seed_accounts) = accounts d"
    using assms by (intro filter_rest) (auto simp: unseeded_def seed_accounts_def system_account_def amm_account_def)
  have usr: "filter (\<lambda>u. usr_id u \<noteq> ''00000000-0000-4000-a000-000000000001'') (users d @ [amm_user]) = users d"
    using assms by (intro filter_rest) (auto simp: unseeded_def amm_user_def)
  have mkt: "filter (\<lambda>m. mkt_id m \<notin> {''MKT-BTC-100K-2026'', ''MKT-ETH-10K-2026'', ''MKT-FED-RATE-CUT-2026Q2''})
      (markets d @ seed_markets (clock d)) = markets d"
  proof (rule filter_rest)
    fix m assume "m \<in> set (markets d)"
    then have "mkt_id m \<in> mkt_id ` set (markets d)" by simp
    then show "mkt_id m \<notin> {''MKT-BTC-100K-2026'', ''MKT-ETH-10K-2026'', ''MKT-FED-RATE-CUT-2026Q2''}"
      using assms by (auto simp: unseeded_def seed_market_keys simp del: image_iff)
  qed (auto simp: seed_markets_def seed_market_def)
  show ?thesis
    using acc usr mkt
    by (simp add: bind_act_def seeds_add [OF assms] unseeds_def downgrade_014_def downgrade_011_def sql_delete_def
        del: filter_append)
qed

theorem seeds_roundtrip_witness:
  "bind_act seeds (\<lambda>_. unseeds) (sample_db\<lparr>accounts := [sample_account ''alice'' 10000 0]\<rparr>) =
     (Inr (), sample_db\<lparr>accounts := [sample_account ''alice'' 10000 0]\<rparr>)"
  by (rule seeds_roundtrip) code_simp

lemma deployed_wf: "wf_db (eng_db (deployed g now))"
proof -
  have "wf_db (empty_db g now)" by (simp add: empty_db_def wf_db_def)
  moreover have "unseeded (empty_db g now)" by (simp add: unseeded_def empty_db_def seed_market_keys)
  ultimately show ?thesis
    using seed_rows_ok
    by (simp add: deployed_def seeds_add wf_db_def seed_accounts_def seed_market_keys)
       (simp add: system_account_def amm_account_def empty_db_def)
qed

lemma deployed_db:
  "eng_db (deployed g now) = (empty_db g now)\<lparr>accounts := seed_accounts,
     markets := seed_markets now, users := [amm_user]\<rparr>"
proof -
  have "unseeded (empty_db g now)" by (simp add: unseeded_def empty_db_def seed_market_keys)
  then show ?thesis by (simp add: deployed_def seeds_add empty_db_def)
qed

text \<open>The deployed program is in order, and no money is unaccounted for.\<close>

lemma deployed_in_order: "in_order {} (deployed g now)" "gap (eng_db (deployed g now)) = 0"
proof -
  have empty: "orders (eng_db (deployed g now)) = []" "orderbooks (deployed g now) = Map.empty"
    by (simp_all add: deployed_db empty_db_def) (simp add: deployed_def)
  then have "books_show {} (deployed g now)"
    using OrderBook_inv by (simp add: books_show_def shows_but_def open_orders_def book_at_def)
  moreover have none: "positions (eng_db (deployed g now)) = []" by (simp add: deployed_db empty_db_def)
  have "market_ok k row (eng_db (deployed g now))" if "mkt (eng_db (deployed g now)) k = Some row" for k row
    using lookup_row_SomeD [OF that [unfolded mkt_def]]
    by (auto simp: none market_ok_def solvent_def MarketState_def yes_held_def no_held_def cost_held_def
        deployed_db empty_db_def seed_markets_def seed_market_def)
  moreover have "PLATFORM_FEE_USER_ID \<in> account_ids (eng_db (deployed g now))"
    by (simp add: deployed_db account_ids_def seed_accounts_def system_account_def PLATFORM_FEE_USER_ID_def)
  ultimately show "in_order {} (deployed g now)"
    using deployed_wf empty none by (simp add: in_order_def owners_def ran_def order_view_def holders_def)
  show "gap (eng_db (deployed g now)) = 0"
    by (simp add: deployed_db gap_def reserves_def funds_def net_deposits_def empty_db_def seed_accounts_def
        seed_markets_def seed_market_def system_account_def amm_account_def acc_funds_def)
qed

end
