(* ===== verification/Market_Data.thy ===== *)
theory Market_Data
  imports Order_Service Cursors "HOL-Library.List_Lexorder" "HOL-Library.Char_ord" "HOL-Library.Product_Lexorder"
    "HOL-Library.Multiset"
begin

text \<open>
  The market module, \<open>pm_market\<close>: the repository's queries, the application service over it and
  the responses. Instants stay integers where a response prints them. Parameters stand for the
  parts outside the code: \<open>uuid\<close>, the primary key the database draws for a trade; \<open>dumps\<close> and
  \<open>loads\<close>, the JSON text of a cursor and the reading of a cursor a client sends (\<open>None\<close> when it
  raises); \<open>isoformat\<close> and \<open>fromisoformat\<close>, the ISO 8601 text of an instant and its reading.
\<close>

section \<open>Domain models and responses\<close>

record price_level =
  price_cents :: int
  total_quantity :: int

record orderbook_snapshot =
  snap_market_id :: string
  yes_bids :: "price_level list"
  yes_asks :: "price_level list"
  last_trade_price_cents :: "int option"
  snap_updated_at :: int

record order_side_out =
  side_bids :: "price_level list"
  side_asks :: "price_level list"

record orderbook_response =
  obr_market_id :: string
  obr_yes :: order_side_out
  obr_no :: order_side_out
  obr_last_trade_price_cents :: "int option"
  obr_updated_at :: int

definition dual_level :: "price_level \<Rightarrow> price_level" where
  "dual_level lv = \<lparr>price_cents = 100 - price_cents lv, total_quantity = total_quantity lv\<rparr>"

text \<open>\<open>sorted(..., reverse=True)\<close> keeps the order of equal keys.\<close>

definition sorted_reverse :: "('a \<Rightarrow> 'k::linorder) \<Rightarrow> 'a list \<Rightarrow> 'a list" where
  "sorted_reverse key xs = rev (sort_key key (rev xs))"

definition to_no_view ::
  "price_level list \<Rightarrow> price_level list \<Rightarrow> price_level list \<times> price_level list" where
  "to_no_view y_bids y_asks =
     (sorted_reverse price_cents (map dual_level y_asks), sort_key price_cents (map dual_level y_bids))"

definition from_snapshot :: "orderbook_snapshot \<Rightarrow> orderbook_response" where
  "from_snapshot snap =
     (let (no_bids, no_asks) = to_no_view (yes_bids snap) (yes_asks snap) in
      \<lparr>obr_market_id = snap_market_id snap,
       obr_yes = \<lparr>side_bids = yes_bids snap, side_asks = yes_asks snap\<rparr>,
       obr_no = \<lparr>side_bids = no_bids, side_asks = no_asks\<rparr>,
       obr_last_trade_price_cents = last_trade_price_cents snap,
       obr_updated_at = snap_updated_at snap\<rparr>)"

fun market_status_name :: "market_status \<Rightarrow> string" where
  "market_status_name DRAFT = ''DRAFT''"
| "market_status_name ACTIVE = ''ACTIVE''"
| "market_status_name SUSPENDED = ''SUSPENDED''"
| "market_status_name HALTED = ''HALTED''"
| "market_status_name RESOLVED = ''RESOLVED''"
| "market_status_name SETTLED = ''SETTLED''"
| "market_status_name VOIDED = ''VOIDED''"

record market_list_item =
  mli_id :: string
  mli_title :: string
  mli_description :: "string option"
  mli_category :: "string option"
  mli_status :: string
  mli_min_price_cents :: int
  mli_max_price_cents :: int
  mli_maker_fee_bps :: int
  mli_taker_fee_bps :: int
  mli_reserve_balance_cents :: int
  mli_reserve_balance_display :: string
  mli_total_yes_shares :: int
  mli_total_no_shares :: int
  mli_trading_start_at :: "int option"
  mli_resolution_date :: "int option"

definition market_list_item_of :: "market \<Rightarrow> market_list_item" where
  "market_list_item_of m =
     \<lparr>mli_id = mkt_id m, mli_title = title m, mli_description = description m,
      mli_category = category m, mli_status = market_status_name (mkt_status m),
      mli_min_price_cents = min_price_cents m, mli_max_price_cents = max_price_cents m,
      mli_maker_fee_bps = maker_fee_bps m, mli_taker_fee_bps = taker_fee_bps m,
      mli_reserve_balance_cents = reserve_balance m,
      mli_reserve_balance_display = cents_to_display (reserve_balance m),
      mli_total_yes_shares = total_yes_shares m, mli_total_no_shares = total_no_shares m,
      mli_trading_start_at = trading_start_at m, mli_resolution_date = resolution_date m\<rparr>"

record market_list_response =
  mlr_items :: "market_list_item list"
  mlr_next_cursor :: "string option"
  mlr_has_more :: bool

record market_detail =
  md_id :: string
  md_title :: string
  md_description :: "string option"
  md_category :: "string option"
  md_status :: string
  md_min_price_cents :: int
  md_max_price_cents :: int
  md_max_order_quantity :: int
  md_max_position_per_user :: int
  md_max_order_amount_cents :: int
  md_maker_fee_bps :: int
  md_taker_fee_bps :: int
  md_reserve_balance_cents :: int
  md_reserve_balance_display :: string
  md_pnl_pool_cents :: int
  md_pnl_pool_display :: string
  md_total_yes_shares :: int
  md_total_no_shares :: int
  md_trading_start_at :: "int option"
  md_trading_end_at :: "int option"
  md_resolution_date :: "int option"
  md_resolved_at :: "int option"
  md_settled_at :: "int option"
  md_resolution_result :: "resolution_result option"

definition market_detail_of :: "market \<Rightarrow> market_detail" where
  "market_detail_of m =
     \<lparr>md_id = mkt_id m, md_title = title m, md_description = description m,
      md_category = category m, md_status = market_status_name (mkt_status m),
      md_min_price_cents = min_price_cents m, md_max_price_cents = max_price_cents m,
      md_max_order_quantity = max_order_quantity m,
      md_max_position_per_user = max_position_per_user m,
      md_max_order_amount_cents = max_order_amount_cents m,
      md_maker_fee_bps = maker_fee_bps m, md_taker_fee_bps = taker_fee_bps m,
      md_reserve_balance_cents = reserve_balance m,
      md_reserve_balance_display = cents_to_display (reserve_balance m),
      md_pnl_pool_cents = pnl_pool m, md_pnl_pool_display = cents_to_display (pnl_pool m),
      md_total_yes_shares = total_yes_shares m, md_total_no_shares = total_no_shares m,
      md_trading_start_at = trading_start_at m, md_trading_end_at = trading_end_at m,
      md_resolution_date = resolution_date m, md_resolved_at = resolved_at m,
      md_settled_at = settled_at m, md_resolution_result = resolution_result m\<rparr>"

section \<open>The repository\<close>

definition get_market_by_id :: "string \<Rightarrow> (db, market option) act" where
  "get_market_by_id m = reads (\<lambda>d. mkt d m)"

text \<open>The markets a listing selects, before the cursor.\<close>

definition listed_markets :: "string option \<Rightarrow> string option \<Rightarrow> db \<Rightarrow> market list" where
  "listed_markets status category_filter d =
     filter (\<lambda>m. opt_eq status (market_status_name (mkt_status m)) \<and>
       (case category_filter of None \<Rightarrow> True | Some c \<Rightarrow> category m = Some c)) (markets d)"

definition market_key :: "market \<Rightarrow> int \<times> string" where
  "market_key m = (mkt_created_at m, mkt_id m)"

text \<open>
  The cursor arrives as two optional strings; without a time stamp it filters nothing, and with
  a time stamp but no id only older markets pass.
\<close>

definition repo_list_markets ::
  "(string \<Rightarrow> int option) \<Rightarrow> string option \<Rightarrow> string option \<Rightarrow> string option \<Rightarrow> string option \<Rightarrow> int \<Rightarrow>
   (db, market list) act" where
  "repo_list_markets fromisoformat status category_filter cursor_ts cursor_id limit =
     bind_act (case cursor_ts of
         None \<Rightarrow> ret None
       | Some s \<Rightarrow> (case fromisoformat s of None \<Rightarrow> raise (ValueError s) | Some t \<Rightarrow> ret (Some t))) (\<lambda>ts.
     bind_act (raise_if (limit < 0) (DBError ''markets'')) (\<lambda>_.
     reads (\<lambda>d. take (nat limit) (desc market_key
       (filter (\<lambda>m. case ts of
            None \<Rightarrow> True
          | Some t \<Rightarrow> mkt_created_at m < t \<or>
              mkt_created_at m = t \<and> (case cursor_id of None \<Rightarrow> False | Some i \<Rightarrow> mkt_id m < i))
         (listed_markets status category_filter d))))))"

text \<open>\<open>GROUP BY book_price, book_direction ORDER BY book_price\<close> over the open orders of a market.\<close>

definition aggregate_orders :: "string \<Rightarrow> db \<Rightarrow> (int \<times> direction \<times> int) list" where
  "aggregate_orders market_id d =
     (let rows = open_orders market_id d in
      map (\<lambda>(p, sd). (p, sd, sum_list (map remaining_quantity
             (filter (\<lambda>r. book_price r = p \<and> book_direction r = sd) rows))))
        (sort_key fst (remdups (map (\<lambda>r. (book_price r, book_direction r)) rows))))"

definition last_trade_price :: "(trade_row \<Rightarrow> nat) \<Rightarrow> string \<Rightarrow> db \<Rightarrow> int option" where
  "last_trade_price uuid market_id d =
     (case desc (\<lambda>t. (executed_at t, uuid t)) (filter (\<lambda>t. trow_market_id t = market_id) (trades d)) of
        [] \<Rightarrow> None
      | t # _ \<Rightarrow> Some (trow_price t))"

definition get_orderbook_snapshot ::
  "(trade_row \<Rightarrow> nat) \<Rightarrow> string \<Rightarrow> int \<Rightarrow> (db, orderbook_snapshot) act" where
  "get_orderbook_snapshot uuid market_id levels =
     bind_act (reads (aggregate_orders market_id)) (\<lambda>agg_rows.
     (let level_of = (\<lambda>(p, _, q). \<lparr>price_cents = p, total_quantity = q\<rparr>);
          bid_levels = map level_of (filter (\<lambda>(_, sd, _). sd = BUY) agg_rows);
          ask_levels = map level_of (filter (\<lambda>(_, sd, _). sd \<noteq> BUY) agg_rows) in
      bind_act (reads (last_trade_price uuid market_id)) (\<lambda>last_price.
      bind_act (reads clock) (\<lambda>now.
      ret \<lparr>snap_market_id = market_id,
           yes_bids = py_prefix levels (sorted_reverse price_cents bid_levels),
           yes_asks = py_prefix levels (sort_key price_cents ask_levels),
           last_trade_price_cents = last_price, snap_updated_at = now\<rparr>))))"

section \<open>The application service\<close>

definition market_cursor_encode :: "(string \<times> string \<Rightarrow> string) \<Rightarrow> (int \<Rightarrow> string) \<Rightarrow> market \<Rightarrow> string" where
  "market_cursor_encode dumps isoformat m = b64encode (dumps (isoformat (mkt_created_at m), mkt_id m))"

definition market_cursor_decode ::
  "(string \<Rightarrow> (string \<times> string) option) \<Rightarrow> string option \<Rightarrow> string option \<times> string option" where
  "market_cursor_decode loads cursor =
     (case cursor of
        None \<Rightarrow> (None, None)
      | Some c \<Rightarrow> (case loads c of None \<Rightarrow> (None, None) | Some (ts, i) \<Rightarrow> (Some ts, Some i)))"

text \<open>\<open>None if status == "ALL" else (status or "ACTIVE")\<close>: the empty string is the default too.\<close>

definition sql_status :: "string option \<Rightarrow> string option" where
  "sql_status status =
     (if status = Some ''ALL'' then None
      else case status of None \<Rightarrow> Some ''ACTIVE'' | Some s \<Rightarrow> Some (if s = [] then ''ACTIVE'' else s))"

definition list_markets ::
  "(string \<times> string \<Rightarrow> string) \<Rightarrow> (string \<Rightarrow> (string \<times> string) option) \<Rightarrow> (int \<Rightarrow> string) \<Rightarrow> (string \<Rightarrow> int option) \<Rightarrow>
   string option \<Rightarrow> string option \<Rightarrow> string option \<Rightarrow> int \<Rightarrow> (db, market_list_response) act" where
  "list_markets dumps loads isoformat fromisoformat status category_filter cursor limit =
     (let (cursor_ts, cursor_id) = market_cursor_decode loads cursor in
      bind_act (repo_list_markets fromisoformat (sql_status status) category_filter cursor_ts cursor_id (limit + 1)) (\<lambda>found.
      (let has_more = limit < int (length found);
           page = py_prefix limit found in
       ret \<lparr>mlr_items = map market_list_item_of page,
            mlr_next_cursor =
              (if has_more \<and> page \<noteq> [] then Some (market_cursor_encode dumps isoformat (last page)) else None),
            mlr_has_more = has_more\<rparr>)))"

definition get_market :: "string \<Rightarrow> (db, market_detail) act" where
  "get_market market_id =
     bind_act (get_market_by_id market_id) (\<lambda>row.
     case row of
       None \<Rightarrow> raise (MarketNotFoundError market_id)
     | Some m \<Rightarrow> ret (market_detail_of m))"

definition get_orderbook :: "(trade_row \<Rightarrow> nat) \<Rightarrow> string \<Rightarrow> int \<Rightarrow> (db, orderbook_response) act" where
  "get_orderbook uuid market_id levels =
     bind_act (get_market_by_id market_id) (\<lambda>row.
     case row of
       None \<Rightarrow> raise (MarketNotFoundError market_id)
     | Some m \<Rightarrow>
         if mkt_status m \<noteq> ACTIVE then raise (MarketNotActiveError market_id)
         else bind_act (get_orderbook_snapshot uuid market_id levels) (\<lambda>snap. ret (from_snapshot snap)))"

section \<open>The snapshot shows the book\<close>

text \<open>The depth of one side of the book in memory: the price levels that are not empty, by price.\<close>

definition ticks :: "int list" where
  "ticks = map int [1..<100]"

lemma set_ticks: "set ticks = {p. 0 < p \<and> p < 100}"
proof (intro set_eqI iffI)
  fix p :: int
  assume "p \<in> {p. 0 < p \<and> p < 100}"
  then have "p = int (nat p)" "nat p \<in> {1..<100}" by auto
  then show "p \<in> set ticks" unfolding ticks_def set_map set_upt by (rule image_eqI)
qed (auto simp only: ticks_def set_map set_upt mem_Collect_eq atLeastLessThan_iff)

lemma ticks_increasing: "sorted ticks" "distinct ticks"
  unfolding ticks_def by (simp_all only: sorted_map distinct_map sorted_upt distinct_upt inj_on_of_nat
      of_nat_le_iff sorted_wrt_upt simp_thms)

definition book_depth :: "order_book \<Rightarrow> direction \<Rightarrow> price_level list" where
  "book_depth ob sd =
     map (\<lambda>p. \<lparr>price_cents = p, total_quantity = sum_list (map bo_quantity (level ob sd p))\<rparr>)
       (filter (\<lambda>p. level ob sd p \<noteq> []) ticks)"

text \<open>Keys in strictly increasing order: the sorts that follow an ordered query change nothing.\<close>

lemma sort_key_rev:
  assumes "sorted_wrt (\<lambda>x y. key x < (key y :: 'k::linorder)) xs"
  shows "sort_key key xs = xs" "sort_key key (rev xs) = xs"
proof -
  have strict: "sorted_wrt (<) (map key xs)" using assms by (simp add: sorted_wrt_map)
  then have props: "sorted (map key xs)" "distinct (map key xs)" by (simp_all add: strict_sorted_iff)
  then show "sort_key key xs = xs" by (simp add: sort_key_id_if_sorted)
  have "inj_on key (set (rev xs))" "mset (rev xs) = mset xs" using props(2) by (simp_all add: distinct_map)
  then show "sort_key key (rev xs) = xs" by (intro sort_key_inj_key_eq props(1)) auto
qed

definition grouped :: "order list \<Rightarrow> direction \<Rightarrow> price_level list" where
  "grouped rows sd =
     map (\<lambda>p. \<lparr>price_cents = p, total_quantity = sum_list (map remaining_quantity
            (filter (\<lambda>r. book_price r = p \<and> book_direction r = sd) rows))\<rparr>)
       (sort (remdups (map book_price (filter (\<lambda>r. book_direction r = sd) rows))))"

lemma grouped_increasing: "sorted_wrt (\<lambda>x y. price_cents x < price_cents y) (grouped rows sd)"
proof -
  have "sorted_wrt (<) (sort (remdups (map book_price (filter (\<lambda>r. book_direction r = sd) rows))))"
    by (simp add: strict_sorted_iff)
  then show ?thesis by (simp add: grouped_def sorted_wrt_map)
qed

lemma side_prices:
  "map fst (filter (\<lambda>x. snd x = sd) (sort_key fst (remdups (map (\<lambda>r. (book_price r, book_direction r)) rows)))) =
   sort (remdups (map book_price (filter (\<lambda>r. book_direction r = sd) rows)))"
  (is "map fst ?ys = sort ?ps")
proof (rule sorted_distinct_set_unique)
  let ?ks = "remdups (map (\<lambda>r. (book_price r, book_direction r)) rows)"
  have ys: "?ys = sort_key fst (filter (\<lambda>x. snd x = sd) ?ks)" by (simp add: filter_sort)
  show "sorted (map fst ?ys)" unfolding ys by simp
  have "inj_on fst (set ?ys)" by (auto simp: inj_on_def prod_eq_iff)
  then show "distinct (map fst ?ys)" by (simp add: distinct_map)
qed (auto simp: image_iff)

lemma side_levels:
  "map (\<lambda>(p, _, q). \<lparr>price_cents = p, total_quantity = q\<rparr>)
     (filter (\<lambda>(_, s, _). s = sd) (aggregate_orders m d)) = grouped (open_orders m d) sd"
proof -
  let ?rows = "open_orders m d"
  let ?Q = "\<lambda>p. sum_list (map remaining_quantity (filter (\<lambda>r. book_price r = p \<and> book_direction r = sd) ?rows))"
  let ?ks = "sort_key fst (remdups (map (\<lambda>r. (book_price r, book_direction r)) ?rows))"
  have "map (\<lambda>(p, _, q). \<lparr>price_cents = p, total_quantity = q\<rparr>)
      (filter (\<lambda>(_, s, _). s = sd) (aggregate_orders m d)) =
    map (\<lambda>p. \<lparr>price_cents = p, total_quantity = ?Q p\<rparr>) (map fst (filter (\<lambda>x. snd x = sd) ?ks))"
    by (auto simp: aggregate_orders_def Let_def filter_map comp_def case_prod_beta)
  then show ?thesis by (simp only: side_prices grouped_def)
qed

text \<open>The rows of one price and side and the queue of the book there carry the same quantities.\<close>

lemma synced_level:
  assumes "wf_db d" and "synced m d ob" and "sd \<noteq> UNSET_DIRECTION" and "0 < p" and "p < 100"
  shows "row_key ` {r \<in> set (open_orders m d). book_price r = p \<and> book_direction r = sd} =
    (\<lambda>bo. entry_key (sd, p, bo)) ` set (level ob sd p)"
proof -
  have keys: "entry_key ` resting ob = row_key ` set (open_orders m d)"
    using assms(2) by (simp add: synced_def)
  have "row_key ` {r \<in> set (open_orders m d). book_price r = p \<and> book_direction r = sd} =
      {k \<in> row_key ` set (open_orders m d). fst k = sd \<and> fst (snd k) = p}"
    by (auto simp: row_key_def)
  also have "\<dots> = (\<lambda>bo. entry_key (sd, p, bo)) ` set (level ob sd p)"
    unfolding keys [symmetric] using assms(3-5) by (force simp: resting_def entry_key_def)
  finally show ?thesis .
qed

lemma open_orders_ids: "wf_db d \<Longrightarrow> distinct (map ord_id (open_orders m d))"
  unfolding open_orders_def by (rule distinct_map_filter) (simp add: wf_db_def)

lemma sum_by_keys:
  assumes "distinct (map k rows)" and "distinct (map k' entries)" and "k ` set rows = k' ` set entries"
    and "\<And>r. r \<in> set rows \<Longrightarrow> f r = q (k r)" and "\<And>b. b \<in> set entries \<Longrightarrow> g b = q (k' b)"
  shows "sum_list (map f rows) = (sum_list (map g entries) :: int)"
proof -
  have "sum_list (map f rows) = sum_list (map q (map k rows))"
    using assms(4) by (simp add: comp_def cong: map_cong)
  also have "\<dots> = sum q (k ` set rows)" using assms(1) by (simp only: sum_list_distinct_conv_sum_set set_map)
  also have "\<dots> = sum q (k' ` set entries)" using assms(3) by simp
  also have "\<dots> = sum_list (map q (map k' entries))"
    using assms(2) by (simp only: sum_list_distinct_conv_sum_set set_map)
  also have "\<dots> = sum_list (map g entries)" using assms(5) by (simp add: comp_def cong: map_cong)
  finally show ?thesis .
qed

lemma distinct_map_comp: "distinct (map (\<lambda>x. f (g x)) xs) \<Longrightarrow> distinct (map g xs)"
  by (induction xs) auto

lemma level_quantity:
  assumes "wf_db d" and "synced m d ob" and "sd \<noteq> UNSET_DIRECTION" and "0 < p" and "p < 100"
  shows "sum_list (map remaining_quantity
      (filter (\<lambda>r. book_price r = p \<and> book_direction r = sd) (open_orders m d))) =
    sum_list (map bo_quantity (level ob sd p))"
proof (rule sum_by_keys [where k = row_key and k' = "\<lambda>bo. entry_key (sd, p, bo)" and
      q = "\<lambda>k. snd (snd (snd (snd (snd k))))"])
  let ?rows = "filter (\<lambda>r. book_price r = p \<and> book_direction r = sd) (open_orders m d)"
  have inv: "ob_inv ob" using assms(2) by (simp add: synced_def)
  have "distinct (map ord_id ?rows)" by (rule distinct_map_filter [OF open_orders_ids [OF assms(1)]])
  then have "distinct (map (\<lambda>r. fst (snd (snd (row_key r)))) ?rows)" by (simp add: row_key_def)
  then show "distinct (map row_key ?rows)" by (rule distinct_map_comp)
  have "distinct (map bo_order_id (level ob sd p))" by (rule level_ok(1) [OF inv assms(4,5)])
  then have "distinct (map (\<lambda>bo. fst (snd (snd (entry_key (sd, p, bo))))) (level ob sd p))"
    by (simp add: entry_key_def)
  then show "distinct (map (\<lambda>bo. entry_key (sd, p, bo)) (level ob sd p))" by (rule distinct_map_comp)
  show "row_key ` set ?rows = (\<lambda>bo. entry_key (sd, p, bo)) ` set (level ob sd p)"
    using synced_level [OF assms] by simp
qed (simp_all add: row_key_def entry_key_def)

lemma level_prices:
  assumes "wf_db d" and "synced m d ob" and "sd \<noteq> UNSET_DIRECTION"
  shows "sort (remdups (map book_price (filter (\<lambda>r. book_direction r = sd) (open_orders m d)))) =
    filter (\<lambda>p. level ob sd p \<noteq> []) ticks"
proof (rule sorted_distinct_set_unique)
  have range: "0 < book_price r \<and> book_price r < 100" if "r \<in> set (open_orders m d)" for r
    using open_order_ck(1) [OF assms(1) that] by (simp add: ck_order_def)
  have "p \<in> book_price ` {r \<in> set (open_orders m d). book_direction r = sd} \<longleftrightarrow>
      0 < p \<and> p < 100 \<and> level ob sd p \<noteq> []" for p
  proof (cases "0 < p \<and> p < 100")
    case True
    then have "row_key ` {r \<in> set (open_orders m d). book_price r = p \<and> book_direction r = sd} =
        (\<lambda>bo. entry_key (sd, p, bo)) ` set (level ob sd p)"
      by (intro synced_level [OF assms]) simp_all
    from arg_cong [OF this, of "\<lambda>A. A = {}"]
    have "{r \<in> set (open_orders m d). book_price r = p \<and> book_direction r = sd} = {} \<longleftrightarrow> level ob sd p = []"
      by (simp only: image_is_empty set_empty)
    then show ?thesis using True by blast
  next
    case False
    then have "p \<notin> book_price ` set (open_orders m d)" using range by auto
    with False show ?thesis by auto
  qed
  then show "set (sort (remdups (map book_price (filter (\<lambda>r. book_direction r = sd) (open_orders m d))))) =
    set (filter (\<lambda>p. level ob sd p \<noteq> []) ticks)"
    by (simp add: set_ticks set_eq_iff)
  from ticks_increasing sorted_filter [of "\<lambda>p. p" ticks] show "sorted (filter (\<lambda>p. level ob sd p \<noteq> []) ticks)"
    "distinct (filter (\<lambda>p. level ob sd p \<noteq> []) ticks)" by simp_all
qed simp_all

lemma grouped_book:
  assumes "wf_db d" and "synced m d ob" and "sd \<noteq> UNSET_DIRECTION"
  shows "grouped (open_orders m d) sd = book_depth ob sd"
  unfolding grouped_def book_depth_def level_prices [OF assms]
  by (rule map_cong [OF refl]) (use level_quantity [OF assms] in \<open>simp add: set_ticks\<close>)

section \<open>The two views of the book\<close>

lemma sorted_reverse_decreasing:
  assumes "sorted_wrt (\<lambda>x y. (key y :: 'k::linorder) < key x) xs"
  shows "sorted_reverse key xs = xs" "sorted_reverse key (rev xs) = xs"
proof -
  have up: "sorted_wrt (\<lambda>x y. key x < key y) (rev xs)" using assms by (simp add: sorted_wrt_rev)
  show "sorted_reverse key xs = xs" "sorted_reverse key (rev xs) = xs"
    using sort_key_rev [OF up] by (simp_all add: sorted_reverse_def)
qed

text \<open>Bids by descending and asks by ascending price, one level a price.\<close>

definition two_sided :: "price_level list \<Rightarrow> price_level list \<Rightarrow> bool" where
  "two_sided y_bids y_asks \<longleftrightarrow>
     sorted_wrt (\<lambda>x y. price_cents y < price_cents x) y_bids \<and>
     sorted_wrt (\<lambda>x y. price_cents x < price_cents y) y_asks"

lemma no_view_mirror:
  assumes "two_sided y_bids y_asks"
  shows "to_no_view y_bids y_asks = (map dual_level y_asks, map dual_level y_bids)"
    and "two_sided (map dual_level y_asks) (map dual_level y_bids)"
proof -
  have sides: "sorted_wrt (\<lambda>x y. price_cents y < price_cents x) (map dual_level y_asks)"
    "sorted_wrt (\<lambda>x y. price_cents x < price_cents y) (map dual_level y_bids)"
    using assms by (simp_all add: two_sided_def sorted_wrt_map dual_level_def)
  then show "two_sided (map dual_level y_asks) (map dual_level y_bids)" by (simp add: two_sided_def)
  show "to_no_view y_bids y_asks = (map dual_level y_asks, map dual_level y_bids)"
    by (simp add: to_no_view_def sorted_reverse_decreasing(1) [OF sides(1)] sort_key_rev(1) [OF sides(2)])
qed

lemma dual_level_twice [simp]: "dual_level (dual_level lv) = lv"
  by (simp add: dual_level_def)

text \<open>The NO view of the NO view of a book is the book: the conversion, its sorts included,
  loses no level, no quantity and no order.\<close>

theorem no_view_twice:
  assumes "two_sided y_bids y_asks"
  shows "(case to_no_view y_bids y_asks of (n_bids, n_asks) \<Rightarrow> to_no_view n_bids n_asks) = (y_bids, y_asks)"
  using no_view_mirror [OF assms] no_view_mirror(1) [OF no_view_mirror(2) [OF assms]]
  by (simp add: comp_def)

lemma depth_increasing: "sorted_wrt (\<lambda>x y. price_cents x < price_cents y) (book_depth ob sd)"
proof -
  have "sorted_wrt (<) ticks" using ticks_increasing by (simp add: strict_sorted_iff)
  then show ?thesis by (simp add: book_depth_def sorted_wrt_map sorted_wrt_filter)
qed

lemma depth_two_sided:
  "two_sided (take n (rev (book_depth ob BUY))) (take n (book_depth ob SELL))"
  using depth_increasing by (simp add: two_sided_def sorted_wrt_take sorted_wrt_rev)

lemma snapshot_of_book:
  assumes "wf_db d" and "synced m d ob" and "0 \<le> levels"
  shows "get_orderbook_snapshot uuid m levels d =
    (Inr \<lparr>snap_market_id = m,
          yes_bids = take (nat levels) (rev (book_depth ob BUY)),
          yes_asks = take (nat levels) (book_depth ob SELL),
          last_trade_price_cents = last_trade_price uuid m d, snap_updated_at = clock d\<rparr>, d)"
proof -
  have set: "UNSET_DIRECTION \<noteq> book_direction r" if "r \<in> set (open_orders m d)" for r
    using open_order_ck(1) [OF assms(1) that] unfolding ck_order_def by metis
  have dirs: "sd \<noteq> BUY \<longleftrightarrow> sd = SELL" if "(p, sd, q) \<in> set (aggregate_orders m d)" for p sd q
    using that set by (cases sd) (auto simp: aggregate_orders_def Let_def)
  have asks: "filter (\<lambda>(_, sd, _). sd \<noteq> BUY) (aggregate_orders m d) =
      filter (\<lambda>(_, sd, _). sd = SELL) (aggregate_orders m d)"
    by (rule filter_cong [OF refl]) (use dirs in auto)
  have "sorted_reverse price_cents (book_depth ob BUY) = rev (book_depth ob BUY)"
    using sort_key_rev(2) [OF depth_increasing] by (simp add: sorted_reverse_def)
  moreover have "sort_key price_cents (book_depth ob SELL) = book_depth ob SELL"
    by (rule sort_key_rev(1) [OF depth_increasing])
  ultimately show ?thesis
    using grouped_book [OF assms(1,2)] assms(3)
    by (simp add: get_orderbook_snapshot_def bind_act_def Let_def asks side_levels py_prefix_def)
qed

text \<open>Claim C18. The order book endpoint answers with the book the engine matches on: its YES side is the
  depth of the book in memory, best prices first, cut to the requested number of levels, its NO
  side the same levels mirrored at 100 cents. An unknown market and one that is not active are
  refused. The book and the open orders are in step, as every successful request keeps them.\<close>

theorem get_orderbook_shows_the_book:
  assumes "wf_db d" and "synced m d ob" and "0 \<le> levels"
  shows "fst (get_orderbook uuid m levels d) =
    (case mkt d m of
       None \<Rightarrow> Inl (MarketNotFoundError m)
     | Some row \<Rightarrow>
         if mkt_status row \<noteq> ACTIVE then Inl (MarketNotActiveError m)
         else
           (let y_bids = take (nat levels) (rev (book_depth ob BUY));
                y_asks = take (nat levels) (book_depth ob SELL) in
            Inr \<lparr>obr_market_id = m,
                 obr_yes = \<lparr>side_bids = y_bids, side_asks = y_asks\<rparr>,
                 obr_no = \<lparr>side_bids = map dual_level y_asks, side_asks = map dual_level y_bids\<rparr>,
                 obr_last_trade_price_cents = last_trade_price uuid m d,
                 obr_updated_at = clock d\<rparr>))"
proof -
  note mirror = no_view_mirror(1) [OF depth_two_sided [of "nat levels" ob]]
  show ?thesis
    by (simp add: get_orderbook_def get_market_by_id_def bind_act_def snapshot_of_book [OF assms]
        from_snapshot_def mirror Let_def raise_def ret_def split: option.splits)
qed

theorem no_view_twice_witness:
  "(case to_no_view [\<lparr>price_cents = 45, total_quantity = 7\<rparr>, \<lparr>price_cents = 40, total_quantity = 2\<rparr>]
       [\<lparr>price_cents = 55, total_quantity = 3\<rparr>] of (n_bids, n_asks) \<Rightarrow> to_no_view n_bids n_asks) =
   ([\<lparr>price_cents = 45, total_quantity = 7\<rparr>, \<lparr>price_cents = 40, total_quantity = 2\<rparr>],
    [\<lparr>price_cents = 55, total_quantity = 3\<rparr>])"
  by (rule no_view_twice) (simp add: two_sided_def)

text \<open>The sample market: one bid for two shares at 50 cents, an ask at 50 cents in the other view.\<close>

theorem get_orderbook_shows_the_book_witness:
  "fst (get_orderbook (\<lambda>_. 0) ''M'' 10 even_db) =
     Inr \<lparr>obr_market_id = ''M'',
          obr_yes = \<lparr>side_bids = [\<lparr>price_cents = 50, total_quantity = 2\<rparr>], side_asks = []\<rparr>,
          obr_no = \<lparr>side_bids = [], side_asks = [\<lparr>price_cents = 50, total_quantity = 2\<rparr>]\<rparr>,
          obr_last_trade_price_cents = None, obr_updated_at = 7\<rparr>"
proof -
  have row: "mkt even_db ''M'' = Some sample_market" "mkt_status sample_market = ACTIVE" by code_simp+
  have "rev (book_depth even_book BUY) = [\<lparr>price_cents = 50, total_quantity = 2\<rparr>]"
    "book_depth even_book SELL = []" "last_trade_price (\<lambda>_. 0) ''M'' even_db = None" "clock even_db = 7"
    by code_simp+
  then show ?thesis
    using get_orderbook_shows_the_book [OF even_db_wf even_synced, of 10 "\<lambda>_. 0"]
    by (simp add: row dual_level_def Let_def)
qed

section \<open>Reading all markets page by page\<close>

text \<open>One page by keys, and what a client of the endpoint gets from one request.\<close>

definition market_page ::
  "string option \<times> string option \<Rightarrow> int \<Rightarrow> db \<Rightarrow> (int \<times> string) option \<Rightarrow>
   market_list_item list \<times> (int \<times> string) option" where
  "market_page f limit d c =
     (let found = take (nat (limit + 1)) (desc market_key (filter (below market_key c)
            (listed_markets (sql_status (fst f)) (snd f) d)));
          page = py_prefix limit found in
      (map market_list_item_of page,
       if limit < int (length found) \<and> page \<noteq> [] then Some (market_key (last page)) else None))"

interpretation market_pages: keyset_listing market_key market_list_item_of
  "\<lambda>f. listed_markets (sql_status (fst f)) (snd f)" wf_db market_page
proof (unfold_locales, goal_cases)
  case (1 d f)
  have "distinct (map mkt_id (markets d))" using 1 by (simp add: wf_db_def)
  then have "distinct (map (\<lambda>m. snd (market_key m)) (markets d))" by (simp add: market_key_def)
  then have "distinct (map market_key (markets d))" by (rule distinct_map_comp)
  then show ?case unfolding listed_markets_def by (rule distinct_map_filter)
next
  case (2 limit d f c)
  then show ?case unfolding market_page_def keyset_page [OF 2(1)] by (simp add: Let_def)
qed

definition market_client ::
  "(string \<times> string \<Rightarrow> string) \<Rightarrow> (string \<Rightarrow> (string \<times> string) option) \<Rightarrow> (int \<Rightarrow> string) \<Rightarrow> (string \<Rightarrow> int option) \<Rightarrow>
   string option \<Rightarrow> string option \<Rightarrow> int \<Rightarrow> db \<Rightarrow> string option \<Rightarrow> market_list_item list \<times> string option" where
  "market_client dumps loads isoformat fromisoformat status category_filter limit d c =
     (case fst (list_markets dumps loads isoformat fromisoformat status category_filter c limit d) of
        Inl _ \<Rightarrow> ([], None)
      | Inr r \<Rightarrow> (mlr_items r, mlr_next_cursor r))"

definition cursor_of_key :: "(string \<times> string \<Rightarrow> string) \<Rightarrow> (int \<Rightarrow> string) \<Rightarrow> int \<times> string \<Rightarrow> string" where
  "cursor_of_key dumps isoformat k = b64encode (dumps (isoformat (fst k), snd k))"

lemma market_client_page:
  assumes "\<And>ts i. loads (b64encode (dumps (ts, i))) = Some (ts, i)"
    and "\<And>t. fromisoformat (isoformat t) = Some t" and "0 < limit"
  shows "market_client dumps loads isoformat fromisoformat status category_filter limit d
      (map_option (cursor_of_key dumps isoformat) c) =
    (case market_page (status, category_filter) limit d c of
       (page, nxt) \<Rightarrow> (page, map_option (cursor_of_key dumps isoformat) nxt))"
proof -
  have enc: "market_cursor_encode dumps isoformat m = cursor_of_key dumps isoformat (market_key m)" for m
    by (simp add: market_cursor_encode_def cursor_of_key_def market_key_def)
  have "repo_list_markets fromisoformat st cf (map_option (isoformat \<circ> fst) c) (map_option snd c) (limit + 1) d =
      (Inr (take (nat (limit + 1)) (desc market_key (filter (below market_key c) (listed_markets st cf d)))), d)" for st cf
  proof -
    have "filter (\<lambda>m. case map_option fst c of
            None \<Rightarrow> True
          | Some t \<Rightarrow> mkt_created_at m < t \<or>
              mkt_created_at m = t \<and> (case map_option snd c of None \<Rightarrow> False | Some i \<Rightarrow> mkt_id m < i))
        (listed_markets st cf d) = filter (below market_key c) (listed_markets st cf d)"
      by (rule filter_cong [OF refl]) (cases c; auto simp: below_def market_key_def less_prod_def)
    then show ?thesis
      using assms(2,3) by (cases c) (simp_all add: repo_list_markets_def bind_act_def raise_if_def)
  qed
  moreover have "market_cursor_decode loads (map_option (cursor_of_key dumps isoformat) c) =
      (map_option (isoformat \<circ> fst) c, map_option snd c)"
    using assms(1) by (cases c) (simp_all add: market_cursor_decode_def cursor_of_key_def)
  ultimately show ?thesis
    by (simp add: market_client_def list_markets_def market_page_def bind_act_def Let_def enc)
qed

text \<open>A client that follows the cursors of the market listing sees every market that passes the
  filters exactly once, newest first, and stops after finitely many requests, whatever the page
  size. The JSON reader is assumed to read what the service writes, and an instant to be read
  back from its ISO text.\<close>

theorem market_walk_complete:
  assumes "\<And>ts i. loads (b64encode (dumps (ts, i))) = Some (ts, i)"
    and "\<And>t. fromisoformat (isoformat t) = Some t" and "0 < limit" and "wf_db d"
    and "length (listed_markets (sql_status status) category_filter d) < fuel"
  shows "walk fuel (market_client dumps loads isoformat fromisoformat status category_filter limit d) None =
    Some (map market_list_item_of (desc market_key (listed_markets (sql_status status) category_filter d)))"
proof -
  have "walk fuel (market_client dumps loads isoformat fromisoformat status category_filter limit d)
      (map_option (cursor_of_key dumps isoformat) None) =
    walk fuel (market_page (status, category_filter) limit d) None"
    by (rule walk_encoded) (rule market_client_page [OF assms(1-3)])
  then show ?thesis
    using market_pages.walk_all [OF assms(3,4), of "(status, category_filter)" fuel] assms(5) by simp
qed

definition listing_db :: db where
  "listing_db = sample_db\<lparr>markets :=
     [sample_market, sample_market\<lparr>mkt_id := ''N'', mkt_created_at := 3\<rparr>,
      sample_market\<lparr>mkt_id := ''A'', mkt_created_at := 3\<rparr>]\<rparr>"

theorem market_walk_complete_witness:
  "walk 4 (market_client pair_text (\<lambda>c. Option.bind (b64decode c) read_pair) show_int (Some \<circ> read_int)
      None None 2 listing_db) None =
     Some (map market_list_item_of (desc market_key (listed_markets (sql_status None) None listing_db))) \<and>
   map mkt_id (desc market_key (listed_markets (sql_status None) None listing_db)) = [''N'', ''A'', ''M'']"
proof
  have "wf_db listing_db" "length (listed_markets (sql_status None) None listing_db) < 4"
    unfolding listing_db_def by code_simp+
  then show "walk 4 (market_client pair_text (\<lambda>c. Option.bind (b64decode c) read_pair) show_int (Some \<circ> read_int)
      None None 2 listing_db) None =
     Some (map market_list_item_of (desc market_key (listed_markets (sql_status None) None listing_db)))"
    by (intro market_walk_complete) simp_all
qed (unfold listing_db_def, code_simp)

end
