(* ===== verification/Trade_History.thy ===== *)
theory Trade_History
  imports Account "HOL-Library.Product_Lexorder"
begin

text \<open>
  The listing of a user's trades, \<open>pm_clearing/infrastructure/trades_repository.py\<close> and
  \<open>pm_clearing/api/trades_router.py\<close>: rows by \<open>executed_at DESC, trade_id DESC\<close>, pages cut by
  \<open>trade_id < cursor\<close>. The two orders agree when the identifiers follow the time, and then
  the listing is a keyset listing; otherwise it can lose trades.
\<close>

fun scenario_name :: "trade_scenario \<Rightarrow> string" where
  "scenario_name MINT = ''MINT''"
| "scenario_name TRANSFER_YES = ''TRANSFER_YES''"
| "scenario_name TRANSFER_NO = ''TRANSFER_NO''"
| "scenario_name BURN = ''BURN''"

record trade_view =
  tv_trade_id :: string
  tv_market_id :: string
  tv_scenario :: string
  tv_price :: int
  tv_quantity :: int
  tv_buy_user_id :: string
  tv_sell_user_id :: string
  tv_taker_fee :: int
  tv_buy_realized_pnl :: "int option"
  tv_sell_realized_pnl :: "int option"
  tv_executed_at :: int

record trade_list_response =
  tlr_items :: "trade_view list"
  tlr_has_more :: bool
  tlr_next_cursor :: "string option"

text \<open>\<open>_row_to_dict\<close> with the fields the response keeps.\<close>

definition trade_row_to_view :: "trade_row \<Rightarrow> trade_view" where
  "trade_row_to_view t =
     \<lparr>tv_trade_id = trade_id t, tv_market_id = trow_market_id t,
      tv_scenario = scenario_name (trow_scenario t), tv_price = trow_price t,
      tv_quantity = trow_quantity t, tv_buy_user_id = trow_buy_user_id t,
      tv_sell_user_id = trow_sell_user_id t, tv_taker_fee = taker_fee t,
      tv_buy_realized_pnl = buy_realized_pnl t, tv_sell_realized_pnl = sell_realized_pnl t,
      tv_executed_at = executed_at t\<rparr>"

definition user_trades :: "string \<Rightarrow> string option \<Rightarrow> db \<Rightarrow> trade_row list" where
  "user_trades u market_id d =
     filter (\<lambda>t. (trow_buy_user_id t = u \<or> trow_sell_user_id t = u) \<and> opt_eq market_id (trow_market_id t))
       (trades d)"

definition trades_list_by_user ::
  "string \<Rightarrow> string option \<Rightarrow> int \<Rightarrow> string option \<Rightarrow> (db, trade_row list) act" where
  "trades_list_by_user u market_id limit cursor_id =
     bind_act (raise_if (limit < 0) (DBError ''trades'')) (\<lambda>_.
     reads (\<lambda>d. take (nat limit) (desc (\<lambda>t. (executed_at t, trade_id t))
       (filter (below trade_id cursor_id) (user_trades u market_id d)))))"

definition list_trades ::
  "string \<Rightarrow> string option \<Rightarrow> int \<Rightarrow> string option \<Rightarrow> (db, trade_list_response) act" where
  "list_trades u market_id limit cursor =
     bind_act (trades_list_by_user u market_id (limit + 1) cursor) (\<lambda>found.
     (let has_more = limit < int (length found);
          page = (if has_more then py_prefix limit found else found) in
      ret \<lparr>tlr_items = map trade_row_to_view page, tlr_has_more = has_more,
           tlr_next_cursor = (if has_more \<and> page \<noteq> [] then Some (trade_id (last page)) else None)\<rparr>))"

section \<open>The order of the page and the order of the cursor\<close>

text \<open>Later trades have greater identifiers, compared as the database compares strings.\<close>

definition ids_follow_time :: "db \<Rightarrow> bool" where
  "ids_follow_time d \<longleftrightarrow>
     (\<forall>t \<in> set (trades d). \<forall>t' \<in> set (trades d). executed_at t < executed_at t' \<longrightarrow> trade_id t < trade_id t')"

lemma sort_key_finer:
  assumes "\<And>x y. x \<in> set xs \<Longrightarrow> y \<in> set xs \<Longrightarrow> f x \<le> f y \<longleftrightarrow> g x \<le> g y"
  shows "sort_key f xs = sort_key g xs"
proof -
  have ins: "insort_key f x ys = insort_key g x ys" if "x \<in> set xs" "set ys \<subseteq> set xs" for x ys
    using that assms by (induction ys) auto
  have "sort_key f ys = sort_key g ys" if "set ys \<subseteq> set xs" for ys
    using that ins by (induction ys) auto
  then show ?thesis by blast
qed

lemma desc_by_id:
  assumes "ids_follow_time d" and "set rows \<subseteq> set (trades d)"
  shows "desc (\<lambda>t. (executed_at t, trade_id t)) rows = desc trade_id rows"
proof -
  have "(executed_at x, trade_id x) \<le> (executed_at y, trade_id y) \<longleftrightarrow> trade_id x \<le> trade_id y"
    if "x \<in> set rows" "y \<in> set rows" for x y
  proof -
    have "executed_at x < executed_at y \<Longrightarrow> trade_id x < trade_id y"
      "executed_at y < executed_at x \<Longrightarrow> trade_id y < trade_id x"
      using assms that unfolding ids_follow_time_def by blast+
    then show ?thesis
      by (cases "executed_at x" "executed_at y" rule: linorder_cases) (auto simp: less_eq_prod_def)
  qed
  then show ?thesis unfolding desc_def by (intro arg_cong [of _ _ rev] sort_key_finer)
qed

text \<open>What a client gets from one request, and the cursor it sends with the next.\<close>

definition trade_client ::
  "string \<times> string option \<Rightarrow> int \<Rightarrow> db \<Rightarrow> string option \<Rightarrow> trade_view list \<times> string option" where
  "trade_client f limit d c =
     (case fst (list_trades (fst f) (snd f) limit c d) of
        Inl _ \<Rightarrow> ([], None)
      | Inr r \<Rightarrow> (tlr_items r, tlr_next_cursor r))"

interpretation trade_pages: keyset_listing trade_id trade_row_to_view
  "\<lambda>f. user_trades (fst f) (snd f)" "\<lambda>d. wf_db d \<and> ids_follow_time d" trade_client
proof (unfold_locales, goal_cases)
  case (1 d f)
  then have "distinct (map trade_id (trades d))" by (simp add: wf_db_def)
  then show ?case unfolding user_trades_def by (rule distinct_map_filter)
next
  case (2 limit d f c)
  define found where "found = desc trade_id (filter (below trade_id c) (user_trades (fst f) (snd f) d))"
  have "desc (\<lambda>t. (executed_at t, trade_id t)) (filter (below trade_id c) (user_trades (fst f) (snd f) d)) = found"
    unfolding found_def by (rule desc_by_id [of d]) (use 2 in \<open>auto simp: user_trades_def\<close>)
  then have run: "trades_list_by_user (fst f) (snd f) (limit + 1) c d = (Inr (take (nat (limit + 1)) found), d)"
    using 2(1) by (simp add: trades_list_by_user_def raise_if_def bind_act_def)
  note page = page_of_found [OF 2(1), of found]
  have "trade_client f limit d c = (map trade_row_to_view (take (nat limit) found),
      if limit < int (length found) then Some (trade_id (last (take (nat limit) found))) else None)"
    using page by (cases "limit < int (length found)")
      (simp_all add: trade_client_def list_trades_def bind_act_def run Let_def del: length_take)
  then show ?case by (simp add: found_def Let_def)
qed

text \<open>While later trades have greater identifiers, a client that follows the cursors of the
  trade listing sees every trade of the user exactly once, newest first, and stops after
  finitely many requests, whatever the page size.\<close>

theorem trade_walk_complete:
  assumes "0 < limit" and "wf_db d" and "ids_follow_time d"
    and "length (user_trades u market_id d) < fuel"
  shows "walk fuel (trade_client (u, market_id) limit d) None =
    Some (map trade_row_to_view (desc (\<lambda>t. (executed_at t, trade_id t)) (user_trades u market_id d)))"
proof -
  have "set (user_trades u market_id d) \<subseteq> set (trades d)" by (auto simp: user_trades_def)
  note by_id = desc_by_id [OF assms(3) this]
  show ?thesis
    using trade_pages.walk_all [OF assms(1), of d "(u, market_id)" fuel] assms(2-4) by (simp add: by_id)
qed

definition trade_no :: "string \<Rightarrow> int \<Rightarrow> trade_row" where
  "trade_no tid t =
     \<lparr>trade_id = tid, trow_market_id = ''M'', trow_scenario = TRANSFER_YES,
      trow_buy_order_id = ''o1'', trow_sell_order_id = ''o2'', trow_buy_user_id = ''alice'',
      trow_sell_user_id = ''bob'', trow_buy_book_type = NATIVE_BUY, trow_sell_book_type = NATIVE_SELL,
      trow_price = 50, trow_quantity = 1, trow_maker_order_id = ''o2'', trow_taker_order_id = ''o1'',
      maker_fee = 0, taker_fee = 0, buy_realized_pnl = None, sell_realized_pnl = None, executed_at = t\<rparr>"

definition traded_db :: db where
  "traded_db = sample_db\<lparr>trades := [trade_no ''101'' 1, trade_no ''102'' 1, trade_no ''103'' 2]\<rparr>"

theorem trade_walk_complete_witness:
  "walk 4 (trade_client (''alice'', Some ''M'') 2 traded_db) None =
     Some (map trade_row_to_view
       (desc (\<lambda>t. (executed_at t, trade_id t)) (user_trades ''alice'' (Some ''M'') traded_db))) \<and>
   map trade_id (user_trades ''alice'' (Some ''M'') traded_db) = [''101'', ''102'', ''103'']"
proof
  have "wf_db traded_db" "ids_follow_time traded_db"
    "length (user_trades ''alice'' (Some ''M'') traded_db) < 4"
    unfolding traded_db_def by code_simp+
  then show "walk 4 (trade_client (''alice'', Some ''M'') 2 traded_db) None =
     Some (map trade_row_to_view
       (desc (\<lambda>t. (executed_at t, trade_id t)) (user_trades ''alice'' (Some ''M'') traded_db)))"
    by (intro trade_walk_complete) simp_all
qed (unfold traded_db_def, code_simp)

text \<open>
  Identifiers are decimal strings compared character by character, so a longer one can be
  smaller; a clock that is set back has the same effect on two ids of one length.
\<close>

definition rollover_db :: db where
  "rollover_db = sample_db\<lparr>trades :=
     [trade_no ''999999999999999999'' 1, trade_no ''1000000000000000000'' 2]\<rparr>"

text \<open>When an identifier of nineteen digits follows one of eighteen, the first page of the trade
  listing offers a cursor whose page is empty: of two trades the client sees only the newer.\<close>

theorem trade_walk_loses_a_trade:
  "map trade_id (user_trades ''alice'' None rollover_db) = [''999999999999999999'', ''1000000000000000000''] \<and>
   map_option (map tv_trade_id) (walk 9 (trade_client (''alice'', None) 1 rollover_db) None) =
     Some [''1000000000000000000'']"
  unfolding rollover_db_def by code_simp

end
