(* ===== verification/Mint_Burn.thy ===== *)
theory Mint_Burn
  imports Users
begin

text \<open>
  Privileged minting and burning, \<open>pm_clearing/domain/mint_service.py\<close>,
  \<open>pm_clearing/domain/burn_service.py\<close> and their endpoints. The statements on \<open>ledger_entries\<close>
  and \<open>trades\<close> name columns that the migrations do not create; \<open>names_columns\<close> is what the
  database says to them. The movements of money and shares between the two are definitions of
  their own, \<open>mint_transfer\<close> and \<open>burn_transfer\<close>.
\<close>

section \<open>Columns\<close>

definition schema_columns :: "string \<Rightarrow> string list" where
  "schema_columns table =
     (if table = ''ledger_entries'' then
        [''id'', ''user_id'', ''entry_type'', ''amount'', ''balance_after'', ''reference_type'',
         ''reference_id'', ''description'', ''created_at'']
      else if table = ''trades'' then
        [''id'', ''trade_id'', ''market_id'', ''scenario'', ''buy_order_id'', ''sell_order_id'',
         ''buy_user_id'', ''sell_user_id'', ''buy_book_type'', ''sell_book_type'', ''price'', ''quantity'',
         ''maker_order_id'', ''taker_order_id'', ''maker_fee'', ''taker_fee'', ''buy_realized_pnl'',
         ''sell_realized_pnl'', ''executed_at'', ''created_at'']
      else [])"

definition names_columns :: "string \<Rightarrow> string list \<Rightarrow> (db, unit) act" where
  "names_columns table cols =
     raise_if (\<not> list_all (\<lambda>c. c \<in> set (schema_columns table)) cols) (ProgrammingError table)"

section \<open>What minting and burning share\<close>

datatype 'a privileged_result = Idempotent_Hit string | Done 'a

definition find_reference :: "string \<Rightarrow> string \<Rightarrow> (db, ledger_entry option) act" where
  "find_reference ref_type key =
     bind_act (names_columns ''ledger_entries'' [''amount_cents'', ''reference_id'', ''reference_type'']) (\<lambda>_.
     reads (\<lambda>d. lookup_row (\<lambda>e. reference_type e = Some ref_type \<and> reference_id e = Some key) (ledger_entries d)))"

definition require_active_market :: "string \<Rightarrow> (db, unit) act" where
  "require_active_market market_id =
     bind_act (reads (\<lambda>d. mkt d market_id)) (\<lambda>row.
     case row of
       None \<Rightarrow> raise (AppError 3001 ''Market not found'' 404)
     | Some m \<Rightarrow> raise_if (mkt_status m \<noteq> ACTIVE) (AppError 3002 ''Market is not active'' 422))"

definition insert_reference :: "(db, unit) act" where
  "insert_reference = names_columns ''ledger_entries''
     [''id'', ''user_id'', ''entry_type'', ''amount_cents'', ''reference_type'', ''reference_id'', ''created_at'']"

definition insert_audit_trade :: "(db, unit) act" where
  "insert_audit_trade = names_columns ''trades''
     [''id'', ''market_id'', ''buy_order_id'', ''sell_order_id'', ''buy_user_id'', ''sell_user_id'', ''scenario'',
      ''price_cents'', ''quantity'', ''maker_fee'', ''taker_fee'', ''created_at'']"

section \<open>Minting\<close>

definition COST_PER_SHARE_CENTS :: int where "COST_PER_SHARE_CENTS = 100"

definition INITIAL_FAIR_COST_PER_SHARE :: int where "INITIAL_FAIR_COST_PER_SHARE = 50"

record mint_result =
  mr_market_id :: string
  minted_quantity :: int
  cost_cents :: int
  mr_new_yes_inventory :: int
  mr_new_no_inventory :: int
  mr_remaining_balance_cents :: int

text \<open>Steps 3 to 6: the cost leaves the account for the reserve, the shares go to the position.\<close>

definition mint_transfer :: "string \<Rightarrow> string \<Rightarrow> int \<Rightarrow> (db, unit) act" where
  "mint_transfer user_id market_id qty =
     (let cost = qty * COST_PER_SHARE_CENTS; cost_half = qty * INITIAL_FAIR_COST_PER_SHARE in
      bind_act (reads (\<lambda>d. acct d user_id)) (\<lambda>row.
      let available = (case row of None \<Rightarrow> 0 | Some a \<Rightarrow> available_balance a) in
      bind_act (raise_if (row = None \<or> available < cost)
        (AppError 2001 (''Insufficient balance: need '' @ show_int cost @ '', have '' @ show_int available) 422)) (\<lambda>_.
      bind_act (update_account user_id (\<lambda>a. a\<lparr>available_balance := available_balance a - cost,
                  acc_version := acc_version a + 1\<rparr>)) (\<lambda>_.
      bind_act (update_markets (\<lambda>r. mkt_id r = market_id) (\<lambda>r. r\<lparr>reserve_balance := reserve_balance r + cost,
                  total_yes_shares := total_yes_shares r + qty, total_no_shares := total_no_shares r + qty\<rparr>)) (\<lambda>_.
      upsert_position (\<lambda>p. pos_key p = (user_id, market_id))
        ((empty_position user_id market_id)\<lparr>yes_volume := qty, yes_cost_sum := cost_half,
           no_volume := qty, no_cost_sum := cost_half\<rparr>)
        (\<lambda>p. p\<lparr>yes_volume := yes_volume p + qty, yes_cost_sum := yes_cost_sum p + cost_half,
               no_volume := no_volume p + qty, no_cost_sum := no_cost_sum p + cost_half\<rparr>))))))"

definition execute_privileged_mint ::
  "string \<Rightarrow> string \<Rightarrow> int \<Rightarrow> string \<Rightarrow> (db, mint_result privileged_result) act" where
  "execute_privileged_mint user_id market_id qty idempotency_key =
     bind_act (find_reference ''AMM_MINT'' idempotency_key) (\<lambda>row.
     if row \<noteq> None then ret (Idempotent_Hit idempotency_key)
     else
       bind_act (require_active_market market_id) (\<lambda>_.
       bind_act (mint_transfer user_id market_id qty) (\<lambda>_.
       bind_act insert_reference (\<lambda>_.
       bind_act insert_reference (\<lambda>_.
       bind_act insert_audit_trade (\<lambda>_.
       bind_act (reads (\<lambda>d. posn d user_id market_id)) (\<lambda>pos_row.
       bind_act (reads (\<lambda>d. acct d user_id)) (\<lambda>bal_row.
       ret (Done \<lparr>mr_market_id = market_id, minted_quantity = qty,
         cost_cents = qty * COST_PER_SHARE_CENTS,
         mr_new_yes_inventory = (case pos_row of None \<Rightarrow> qty | Some p \<Rightarrow> yes_volume p),
         mr_new_no_inventory = (case pos_row of None \<Rightarrow> qty | Some p \<Rightarrow> no_volume p),
         mr_remaining_balance_cents = (case bal_row of None \<Rightarrow> 0 | Some a \<Rightarrow> available_balance a)\<rparr>)))))))))"

section \<open>Burning\<close>

definition RECOVERY_PER_SHARE_CENTS :: int where "RECOVERY_PER_SHARE_CENTS = 100"

record burn_result =
  br_market_id :: string
  burned_quantity :: int
  recovered_cents :: int
  br_new_yes_inventory :: int
  br_new_no_inventory :: int
  br_remaining_balance_cents :: int

text \<open>Steps 3 to 6: the shares leave the position, the reserve pays the account.\<close>

definition burn_transfer :: "string \<Rightarrow> string \<Rightarrow> int \<Rightarrow> (db, unit) act" where
  "burn_transfer user_id market_id qty =
     bind_act (reads (\<lambda>d. posn d user_id market_id)) (\<lambda>row.
     case row of
       None \<Rightarrow> raise (AppError 5001 ''No positions found'' 422)
     | Some p \<Rightarrow>
         (let max_burnable = min (yes_volume p - yes_pending_sell p) (no_volume p - no_pending_sell p);
              yes_cost_release = (if 0 < yes_volume p then yes_cost_sum p * qty div yes_volume p else 0);
              no_cost_release = (if 0 < no_volume p then no_cost_sum p * qty div no_volume p else 0);
              recovery = qty * RECOVERY_PER_SHARE_CENTS in
          bind_act (raise_if (max_burnable < qty)
            (AppError 5001 (''Insufficient available shares: can burn max '' @ show_int max_burnable @
               '', requested '' @ show_int qty) 422)) (\<lambda>_.
          bind_act (net_position_sql user_id market_id qty yes_cost_release no_cost_release) (\<lambda>_.
          bind_act (update_markets (\<lambda>r. mkt_id r = market_id)
                      (\<lambda>r. r\<lparr>reserve_balance := reserve_balance r - recovery\<rparr>)) (\<lambda>_.
          bind_act (add_balance_sql user_id recovery) (\<lambda>_. ret ()))))))"

definition execute_privileged_burn ::
  "string \<Rightarrow> string \<Rightarrow> int \<Rightarrow> string \<Rightarrow> (db, burn_result privileged_result) act" where
  "execute_privileged_burn user_id market_id qty idempotency_key =
     bind_act (find_reference ''AMM_BURN'' idempotency_key) (\<lambda>row.
     if row \<noteq> None then ret (Idempotent_Hit idempotency_key)
     else
       bind_act (require_active_market market_id) (\<lambda>_.
       bind_act (burn_transfer user_id market_id qty) (\<lambda>_.
       bind_act insert_reference (\<lambda>_.
       bind_act insert_reference (\<lambda>_.
       bind_act insert_audit_trade (\<lambda>_.
       bind_act (reads (\<lambda>d. posn d user_id market_id)) (\<lambda>pos_row.
       bind_act (reads (\<lambda>d. acct d user_id)) (\<lambda>bal_row.
       ret (Done \<lparr>br_market_id = market_id, burned_quantity = qty,
         recovered_cents = qty * RECOVERY_PER_SHARE_CENTS,
         br_new_yes_inventory = (case pos_row of None \<Rightarrow> 0 | Some p \<Rightarrow> yes_volume p),
         br_new_no_inventory = (case pos_row of None \<Rightarrow> 0 | Some p \<Rightarrow> no_volume p),
         br_remaining_balance_cents = (case bal_row of None \<Rightarrow> 0 | Some a \<Rightarrow> available_balance a)\<rparr>)))))))))"

section \<open>The endpoints\<close>

text \<open>\<open>MintRequest\<close> and \<open>BurnRequest\<close> admit these.\<close>

definition privileged_request_ok :: "int \<Rightarrow> string \<Rightarrow> bool" where
  "privileged_request_ok qty key \<longleftrightarrow> 0 < qty \<and> 1 \<le> length key \<and> length key \<le> 128"

definition privileged_mint ::
  "(int \<Rightarrow> string \<Rightarrow> claims option) \<Rightarrow> (string \<Rightarrow> string option) \<Rightarrow> string \<Rightarrow> string \<Rightarrow> int \<Rightarrow> string \<Rightarrow>
   (session, mint_result privileged_result) act" where
  "privileged_mint dec parse_uuid token market_id qty key =
     bind_act (require_amm_user dec parse_uuid token) (\<lambda>user.
     begin_block (execute (execute_privileged_mint (usr_id user) market_id qty key)))"

definition privileged_burn ::
  "(int \<Rightarrow> string \<Rightarrow> claims option) \<Rightarrow> (string \<Rightarrow> string option) \<Rightarrow> string \<Rightarrow> string \<Rightarrow> int \<Rightarrow> string \<Rightarrow>
   (session, burn_result privileged_result) act" where
  "privileged_burn dec parse_uuid token market_id qty key =
     bind_act (require_amm_user dec parse_uuid token) (\<lambda>user.
     begin_block (execute (execute_privileged_burn (usr_id user) market_id qty key)))"

section \<open>What they do\<close>

lemma find_reference_fails: "find_reference ref_type key d = (Inl (ProgrammingError ''ledger_entries''), d)"
  by (simp add: find_reference_def names_columns_def schema_columns_def bind_act_def raise_if_def)

text \<open>Authentication is a statement: the session it returns from has a transaction.\<close>

lemma get_current_user_begins:
  assumes "get_current_user dec parse_uuid token s = (r, s')"
  shows "ses_db s' = ses_db s \<and> (\<forall>user. r = Inr user \<longrightarrow> in_transaction s')"
  using assms
  by (auto simp: get_current_user_def bind_act_def execute_def user_by_def raise_if_def
      split: sum.splits option.splits if_splits)

lemma require_amm_user_begins:
  assumes "require_amm_user dec parse_uuid token s = (r, s')"
  shows "ses_db s' = ses_db s \<and> (\<forall>user. r = Inr user \<longrightarrow> in_transaction s')"
proof -
  obtain q t where "get_current_user dec parse_uuid token s = (q, t)" by fastforce
  with get_current_user_begins [OF this] assms show ?thesis
    by (cases q) (auto simp: require_amm_user_def bind_act_def raise_if_def split: if_splits)
qed

text \<open>Claim C40. No privileged mint or burn ever happens: an unauthenticated request is refused by the
  authentication; an authenticated one fails because authenticating has begun the session's
  transaction that the endpoint wants to begin; and on a session without a transaction the first
  statement of either service would fail on a column that does not exist. The database is
  unchanged in every case.\<close>

theorem privileged_requests_never_run:
  "(case require_amm_user dec parse_uuid token s of
      (Inl e, s') \<Rightarrow> privileged_mint dec parse_uuid token m qty key s = (Inl e, s') \<and>
        privileged_burn dec parse_uuid token m qty key s = (Inl e, s') \<and> ses_db s' = ses_db s
    | (Inr user, s') \<Rightarrow>
        (let e = InvalidRequestError ''A transaction is already begun on this Session.'' in
         privileged_mint dec parse_uuid token m qty key s = (Inl e, s') \<and>
         privileged_burn dec parse_uuid token m qty key s = (Inl e, s') \<and> ses_db s' = ses_db s)) \<and>
   execute_privileged_mint u m qty key d = (Inl (ProgrammingError ''ledger_entries''), d) \<and>
   execute_privileged_burn u m qty key d = (Inl (ProgrammingError ''ledger_entries''), d)"
proof -
  obtain r s' where run: "require_amm_user dec parse_uuid token s = (r, s')" by fastforce
  from require_amm_user_begins [OF this] run show ?thesis
    by (cases r) (simp_all add: privileged_mint_def privileged_burn_def bind_act_def begin_block_def Let_def
        execute_privileged_mint_def execute_privileged_burn_def find_reference_fails)
qed

section \<open>The movements of money and shares\<close>

lemma mint_transfer_ok:
  assumes "mint_transfer u m qty d = (Inr x, d')"
  obtains a d1 d2 rs ms where "acct d u = Some a" "qty * 100 \<le> available_balance a"
    and "update_account u (\<lambda>a. a\<lparr>available_balance := available_balance a - qty * 100,
           acc_version := acc_version a + 1\<rparr>) d = (Inr rs, d1)"
    and "update_markets (\<lambda>r. mkt_id r = m) (\<lambda>r. r\<lparr>reserve_balance := reserve_balance r + qty * 100,
           total_yes_shares := total_yes_shares r + qty, total_no_shares := total_no_shares r + qty\<rparr>) d1 = (Inr ms, d2)"
    and "upsert_position (\<lambda>p. pos_key p = (u, m))
        ((empty_position u m)\<lparr>yes_volume := qty, yes_cost_sum := qty * 50,
           no_volume := qty, no_cost_sum := qty * 50\<rparr>)
        (\<lambda>p. p\<lparr>yes_volume := yes_volume p + qty, yes_cost_sum := yes_cost_sum p + qty * 50,
               no_volume := no_volume p + qty, no_cost_sum := no_cost_sum p + qty * 50\<rparr>) d2 = (Inr x, d')"
  using assms unfolding mint_transfer_def Let_def COST_PER_SHARE_CENTS_def INITIAL_FAIR_COST_PER_SHARE_def
  by (auto simp only: bind_ok_iff reads_run raise_if_ok_iff Pair_inject sum.inject option.case not_None_eq
      de_Morgan_disj not_less not_not simp_thms)

text \<open>The transfer of a mint keeps the market's books: the cost of 100 cents a pair leaves the
  user's account and enters the market's reserve, the totals of both kinds of shares and the shares
  held rise by the quantity, and the cost basis held by what was paid.\<close>

theorem mint_transfer_keeps_the_books:
  assumes "mint_transfer u m qty d = (Inr x, d')" and "wf_db d" and "mkt d m = Some row"
  shows "wf_db d' \<and> funds d' = funds d - 100 * qty \<and>
    mkt d' m = Some (row\<lparr>reserve_balance := reserve_balance row + 100 * qty,
      total_yes_shares := total_yes_shares row + qty, total_no_shares := total_no_shares row + qty\<rparr>) \<and>
    yes_held m d' = yes_held m d + qty \<and> no_held m d' = no_held m d + qty \<and>
    cost_held m d' = cost_held m d + 100 * qty"
  using assms(1)
proof (rule mint_transfer_ok)
  let ?g = "\<lambda>r. r\<lparr>reserve_balance := reserve_balance r + qty * 100,
      total_yes_shares := total_yes_shares r + qty, total_no_shares := total_no_shares r + qty\<rparr>"
  fix a d1 d2 rs ms
  assume "acct d u = Some a"
    and one: "update_account u (\<lambda>a. a\<lparr>available_balance := available_balance a - qty * 100,
           acc_version := acc_version a + 1\<rparr>) d = (Inr rs, d1)"
    and two: "update_markets (\<lambda>r. mkt_id r = m) ?g d1 = (Inr ms, d2)"
    and three: "upsert_position (\<lambda>p. pos_key p = (u, m))
        ((empty_position u m)\<lparr>yes_volume := qty, yes_cost_sum := qty * 50,
           no_volume := qty, no_cost_sum := qty * 50\<rparr>)
        (\<lambda>p. p\<lparr>yes_volume := yes_volume p + qty, yes_cost_sum := yes_cost_sum p + qty * 50,
               no_volume := no_volume p + qty, no_cost_sum := no_cost_sum p + qty * 50\<rparr>) d2 = (Inr x, d')"
  have e1: "effect m d d1 (- (qty * 100)) 0 0 0"
    by (rule update_account_effect [OF one assms(2) acct_in_ids [OF \<open>acct d u = Some a\<close>]])
       (simp_all add: acc_funds_def)
  then have wf1: "wf_db d1" by (simp add: effect_def)
  have d2: "d2 = d1\<lparr>markets := update_where (\<lambda>r. mkt_id r = m) ?g (markets d1)\<rparr>"
    using two by (simp add: sql_update_ok_iff)
  have wf2: "wf_db d2" using keepsD [OF keeps_wf_update_markets [of ?g "\<lambda>r. mkt_id r = m"] wf1 two] by simp
  have e3: "effect m d2 d' 0 qty qty (qty * 100)"
    by (rule upsert_position_effect [OF three wf2]) (simp_all add: pos_key_def empty_position_def)
  have "mkt d2 m = Some (?g row)"
    using e1 assms(3) by (simp add: d2 mkt_def effect_def lookup_row_update_key)
  with e1 e3 show ?thesis
    by (simp add: effect_def d2 view_defs mkt_def algebra_simps)
qed

text \<open>What a burn would take out of a position is there.\<close>

lemma burn_position_ok:
  assumes "ck_position p" and "0 < qty" and "qty \<le> yes_volume p - yes_pending_sell p"
    and "qty \<le> no_volume p - no_pending_sell p"
  shows "ck_position (p\<lparr>yes_volume := yes_volume p - qty,
      yes_cost_sum := yes_cost_sum p - yes_cost_sum p * qty div yes_volume p,
      no_volume := no_volume p - qty, no_cost_sum := no_cost_sum p - no_cost_sum p * qty div no_volume p\<rparr>)"
proof -
  have share: "0 \<le> c * qty div v \<and> c * qty div v \<le> c" if "0 \<le> c" "qty \<le> v" for c v
  proof
    show "0 \<le> c * qty div v" using that assms(2) by (simp add: pos_imp_zdiv_nonneg_iff)
    have "c * qty \<le> c * v" using that assms(2) by (simp add: mult_left_mono)
    then have "c * qty div v \<le> c * v div v" using that assms(2) by (intro zdiv_mono1) simp_all
    then show "c * qty div v \<le> c" using that assms(2) by simp
  qed
  have "qty \<le> yes_volume p" "qty \<le> no_volume p" "0 \<le> yes_cost_sum p" "0 \<le> no_cost_sum p"
    using assms by (simp_all add: ck_position_def)
  with share [of "yes_cost_sum p" "yes_volume p"] share [of "no_cost_sum p" "no_volume p"]
  show ?thesis using assms by (simp add: ck_position_def in_int4_def in_int8_def)
qed

text \<open>The transfer of a burn never succeeds: it takes 100 cents a pair out of the reserve and
  leaves the totals of the shares as they are, so the table's constraint that the reserve covers
  the shares refuses it whenever the position would have allowed it.\<close>

theorem burn_transfer_is_refused:
  assumes "wf_db d" and "mkt d m = Some row" and "0 < qty"
  shows "fst (burn_transfer u m qty d) =
    Inl (case posn d u m of
           None \<Rightarrow> AppError 5001 ''No positions found'' 422
         | Some p \<Rightarrow>
             (let burnable = min (yes_volume p - yes_pending_sell p) (no_volume p - no_pending_sell p) in
              if burnable < qty
              then AppError 5001 (''Insufficient available shares: can burn max '' @ show_int burnable @
                     '', requested '' @ show_int qty) 422
              else DBError ''markets''))"
proof (cases "posn d u m")
  case None
  then show ?thesis by (simp add: burn_transfer_def bind_act_def)
next
  case (Some p)
  let ?burnable = "min (yes_volume p - yes_pending_sell p) (no_volume p - no_pending_sell p)"
  show ?thesis
  proof (cases "?burnable < qty")
    case True
    with Some show ?thesis by (simp add: burn_transfer_def bind_act_def raise_if_def Let_def)
  next
    case False
    then have room: "qty \<le> yes_volume p - yes_pending_sell p" "qty \<le> no_volume p - no_pending_sell p" by simp_all
    have ck: "ck_position p" by (rule wf_ck_posn [OF assms(1) Some])
    then have pos: "0 < yes_volume p" "0 < no_volume p" using room assms(3) by (simp_all add: ck_position_def)
    let ?f = "\<lambda>r. r\<lparr>yes_volume := yes_volume r - qty,
        yes_cost_sum := yes_cost_sum r - yes_cost_sum p * qty div yes_volume p,
        no_volume := no_volume r - qty, no_cost_sum := no_cost_sum r - no_cost_sum p * qty div no_volume p\<rparr>"
    have only: "filter (\<lambda>r. pos_key r = (u, m)) (positions d) = [p]"
      using filter_key_lookup_all [of pos_key "positions d" "(u, m)"] assms(1) Some by (simp add: wf_db_def posn_def)
    have "ck_position (?f p)" by (rule burn_position_ok [OF ck assms(3) room])
    then have net: "net_position_sql u m qty (yes_cost_sum p * qty div yes_volume p)
        (no_cost_sum p * qty div no_volume p) d =
        (Inr [?f p], d\<lparr>positions := update_where (\<lambda>r. pos_key r = (u, m)) ?f (positions d)\<rparr>)"
      by (simp add: net_position_sql_def sql_update_def only Let_def)
    let ?d1 = "d\<lparr>positions := update_where (\<lambda>r. pos_key r = (u, m)) ?f (positions d)\<rparr>"
    let ?h = "\<lambda>r. r\<lparr>reserve_balance := reserve_balance r - qty * 100\<rparr>"
    have row: "row \<in> set (markets d)" "mkt_id row = m"
      using assms(2) by (auto simp: mkt_def dest: lookup_row_SomeD)
    have "ck_market row" using row(1) assms(1) by (auto simp: wf_db_def list_all_iff)
    then have "\<not> ck_market (?h row)" using assms(3) by (simp add: ck_market_def)
    then have "\<not> list_all ck_market (map ?h (filter (\<lambda>r. mkt_id r = m) (markets d)))"
      using row by (auto simp: list_all_iff)
    then have "update_markets (\<lambda>r. mkt_id r = m) ?h ?d1 = (Inl (DBError ''markets''), ?d1)"
      by (simp add: sql_update_def Let_def)
    then show ?thesis
      using False pos by (simp add: burn_transfer_def bind_act_def raise_if_def Let_def Some net
          RECOVERY_PER_SHARE_CENTS_def)
  qed
qed

theorem mint_transfer_keeps_the_books_witness:
  "\<exists>d'. mint_transfer ''alice'' ''M'' 3 sample_db = (Inr (), d') \<and> wf_db d' \<and>
     funds d' = funds sample_db - 300 \<and> yes_held ''M'' d' = 13"
proof -
  let ?d' = "snd (mint_transfer ''alice'' ''M'' 3 sample_db)"
  have run: "mint_transfer ''alice'' ''M'' 3 sample_db = (Inr (), ?d')"
    by (rule run_of_fst) code_simp
  have "mkt sample_db ''M'' = Some sample_market" "yes_held ''M'' sample_db = 10" by code_simp+
  with mint_transfer_keeps_the_books [OF run sample_db_wf] run show ?thesis by auto
qed

definition paired_db :: db where
  "paired_db = sample_db\<lparr>positions :=
     [(empty_position AMM_USER_ID ''M'')\<lparr>yes_volume := 10, yes_cost_sum := 500, no_volume := 10, no_cost_sum := 500\<rparr>]\<rparr>"

theorem burn_transfer_is_refused_witness:
  "fst (burn_transfer AMM_USER_ID ''M'' 4 paired_db) = Inl (DBError ''markets'')"
proof -
  have "wf_db paired_db" "mkt paired_db ''M'' = Some sample_market" by code_simp+
  then have "fst (burn_transfer AMM_USER_ID ''M'' 4 paired_db) =
    Inl (case posn paired_db AMM_USER_ID ''M'' of
           None \<Rightarrow> AppError 5001 ''No positions found'' 422
         | Some p \<Rightarrow>
             (let burnable = min (yes_volume p - yes_pending_sell p) (no_volume p - no_pending_sell p) in
              if burnable < 4
              then AppError 5001 (''Insufficient available shares: can burn max '' @ show_int burnable @
                     '', requested '' @ show_int 4) 422
              else DBError ''markets''))"
    by (rule burn_transfer_is_refused) simp
  then show ?thesis by (simp add: paired_db_def posn_def empty_position_def pos_key_def)
qed

end
