(* ===== verification/Api.thy ===== *)
theory Api
  imports Deployment Market_Data Trade_History Mint_Burn
begin

text \<open>
  The HTTP surface: \<open>main.py\<close> with its error handler, the envelope of \<open>response.py\<close>, every router,
  and a request from its route to its response. A request is a call with its parameters, already
  of the declared JSON types, and the bearer token if there is one; FastAPI resolves the
  dependencies (the authentication) before it checks the parameters. A response is its status
  and its content; request ids and time stamps of the envelope are left out. \<open>None\<close> for a response
  means that the handler does not return.
\<close>

section \<open>Parameters\<close>

text \<open>
  What the routes take from libraries and from the database: password hashes, signed tokens,
  UUIDs, the key that the database draws for a user, \<open>EmailStr\<close>, the texts of cursors, and the
  order of rows that were executed at the same instant.
\<close>

record platform =
  pf_hashpw :: "string \<Rightarrow> string"
  pf_checkpw :: "string \<Rightarrow> string \<Rightarrow> bool option"
  pf_enc :: "claims \<Rightarrow> string"
  pf_dec :: "int \<Rightarrow> string \<Rightarrow> claims option"
  pf_uuid :: "string \<Rightarrow> string option"
  pf_new_id :: "db \<Rightarrow> string"
  pf_email :: "string \<Rightarrow> string option"
  pf_read_cursor :: "string \<Rightarrow> int option"
  pf_dumps :: "string \<times> string \<Rightarrow> string"
  pf_loads :: "string \<Rightarrow> (string \<times> string) option"
  pf_isoformat :: "int \<Rightarrow> string"
  pf_fromisoformat :: "string \<Rightarrow> int option"
  pf_row_rank :: "trade_row \<Rightarrow> nat"

section \<open>Responses\<close>

datatype payload_data =
    Register_data register_response
  | Login_data login_response
  | Refresh_data string int                          \<comment> \<open>\<open>access_token\<close>, \<open>expires_in\<close>\<close>
  | Balance_data balance_response
  | Posting_data posting_response
  | Ledger_data ledger_response
  | Positions_data "position_view list" int          \<comment> \<open>\<open>items\<close>, \<open>total\<close>\<close>
  | Position_data position_view
  | Markets_data market_list_response
  | Market_data market_detail
  | Orderbook_data orderbook_response
  | Trades_data trade_list_response
  | Resolve_data string side int                     \<comment> \<open>\<open>market_id\<close>, \<open>outcome\<close>, \<open>cancelled_orders\<close>\<close>
  | Stats_data string market_stats
  | Verify_data bool "string list"                   \<comment> \<open>\<open>ok\<close>, \<open>violations\<close>\<close>
  | Mint_data mint_result
  | Burn_data burn_result
  | Idempotent_data string
  | Replace_data replace_result
  | Batch_data batch_result

record api_response =
  api_code :: int
  api_message :: string
  api_data :: "payload_data option"

definition success_response :: "payload_data \<Rightarrow> api_response" where
  "success_response data = \<lparr>api_code = 0, api_message = ''success'', api_data = Some data\<rparr>"

definition error_response :: "int \<Rightarrow> string \<Rightarrow> api_response" where
  "error_response code message = \<lparr>api_code = code, api_message = message, api_data = None\<rparr>"

text \<open>The order routes answer with their models, the framework with details or a plain text.\<close>

datatype content =
    Envelope api_response
  | Place_model place_response
  | Cancel_model cancel_response
  | Orders_model order_list_response
  | Order_model order_response
  | Health_model string string
  | Detail string
  | Validation_errors
  | Internal_Server_Error

datatype http_response = Response int content

fun response_status :: "http_response \<Rightarrow> int" where
  "response_status (Response st c) = st"

text \<open>\<open>app_error_handler\<close>, and what FastAPI does with the exceptions it handles and with all others.\<close>

definition app_error_handler :: "int \<Rightarrow> string \<Rightarrow> int \<Rightarrow> http_response" where
  "app_error_handler code message http_status = Response http_status (Envelope (error_response code message))"

fun error_to_response :: "exc \<Rightarrow> http_response option" where
  "error_to_response (AppError code message http_status) = Some (app_error_handler code message http_status)"
| "error_to_response (HTTPException status detail) = Some (Response status (Detail detail))"
| "error_to_response RequestValidationError = Some (Response 422 Validation_errors)"
| "error_to_response DoesNotReturn = None"
| "error_to_response _ = Some (Response 500 Internal_Server_Error)"

type_synonym 'a handler = "(engine_state, 'a) act"

definition envelope :: "int \<Rightarrow> string \<Rightarrow> payload_data \<Rightarrow> http_response handler" where
  "envelope st message data = ret (Response st (Envelope ((success_response data)\<lparr>api_message := message\<rparr>)))"

definition answer :: "payload_data \<Rightarrow> http_response handler" where
  "answer data = envelope 200 ''success'' data"

section \<open>Dependencies\<close>

text \<open>\<open>OAuth2PasswordBearer\<close> asks for a token; the rest is \<open>get_current_user\<close> on the request's session.\<close>

definition oauth2_scheme :: "string option \<Rightarrow> (session, string) act" where
  "oauth2_scheme token =
     (case token of None \<Rightarrow> raise (HTTPException 401 ''Not authenticated'') | Some t \<Rightarrow> ret t)"

definition current_user :: "platform \<Rightarrow> string option \<Rightarrow> (session, user) act" where
  "current_user p token = bind_act (oauth2_scheme token) (get_current_user (pf_dec p) (pf_uuid p))"

definition amm_current_user :: "platform \<Rightarrow> string option \<Rightarrow> (session, user) act" where
  "amm_current_user p token = bind_act (oauth2_scheme token) (require_amm_user (pf_dec p) (pf_uuid p))"

text \<open>
  An endpoint behind a dependency: the dependency only reads, so the endpoint's statements see
  the database as it was; the parameters are checked once the dependency has returned.
\<close>

definition endpoint :: "(session, user) act \<Rightarrow> bool \<Rightarrow> (string \<Rightarrow> http_response handler) \<Rightarrow> http_response handler" where
  "endpoint dependency valid body =
     bind_act (with_session dependency) (\<lambda>user.
     bind_act (raise_if (\<not> valid) RequestValidationError) (\<lambda>_.
     body (usr_id user)))"

definition page_limit_ok :: "int \<Rightarrow> bool" where
  "page_limit_ok limit \<longleftrightarrow> 1 \<le> limit \<and> limit \<le> 100"

text \<open>\<open>PlaceOrderRequest\<close>: the identifier without white space, the direction one of the two.\<close>

definition place_request_ok :: "new_order_params \<Rightarrow> bool" where
  "place_request_ok req \<longleftrightarrow> no_whitespace (nop_client_order_id req) \<and> nop_direction req \<in> {BUY, SELL}"

definition levels_ok :: "int \<Rightarrow> bool" where
  "levels_ok levels \<longleftrightarrow> 1 \<le> levels \<and> levels \<le> 99"

section \<open>Users\<close>

definition post_register :: "platform \<Rightarrow> string \<Rightarrow> string \<Rightarrow> string \<Rightarrow> http_response handler" where
  "post_register p name mail password =
     (case pf_email p mail of
        None \<Rightarrow> raise RequestValidationError
      | Some address \<Rightarrow>
          bind_act (raise_if (\<not> register_request_ok name password) RequestValidationError) (\<lambda>_.
          bind_act (in_db (reads (pf_new_id p))) (\<lambda>new_id.
          bind_act (with_session (register_endpoint (pf_hashpw p) new_id name address password)) (\<lambda>data.
          envelope 201 ''User registered successfully'' (Register_data data)))))"

definition post_login :: "platform \<Rightarrow> string \<Rightarrow> string \<Rightarrow> http_response handler" where
  "post_login p name password =
     bind_act (with_session (login_endpoint (pf_checkpw p) (pf_enc p) name password)) (\<lambda>data.
     envelope 200 ''Login successful'' (Login_data data))"

definition post_refresh :: "platform \<Rightarrow> string \<Rightarrow> http_response handler" where
  "post_refresh p token =
     bind_act (in_db (refresh (pf_enc p) (pf_dec p) token)) (\<lambda>new_access_token.
     envelope 200 ''Token refreshed'' (Refresh_data new_access_token access_expire))"

section \<open>Accounts and positions\<close>

definition get_balance_route :: "string \<Rightarrow> http_response handler" where
  "get_balance_route u = bind_act (in_db (get_balance u)) (\<lambda>data. answer (Balance_data data))"

definition post_deposit :: "int \<Rightarrow> string \<Rightarrow> http_response handler" where
  "post_deposit amount_cents u =
     bind_act (in_db (account_deposit u amount_cents)) (\<lambda>data. answer (Posting_data data))"

definition post_withdraw :: "int \<Rightarrow> string \<Rightarrow> http_response handler" where
  "post_withdraw amount_cents u =
     bind_act (in_db (account_withdraw u amount_cents)) (\<lambda>data. answer (Posting_data data))"

definition get_ledger ::
  "platform \<Rightarrow> string option \<Rightarrow> int \<Rightarrow> string option \<Rightarrow> string \<Rightarrow> http_response handler" where
  "get_ledger p cursor limit ty u =
     bind_act (in_db (list_ledger (pf_read_cursor p) u cursor limit ty)) (\<lambda>data. answer (Ledger_data data))"

definition get_positions :: "string \<Rightarrow> http_response handler" where
  "get_positions u =
     bind_act (in_db (list_positions u)) (\<lambda>items. answer (Positions_data items (int (length items))))"

definition get_position_route :: "string \<Rightarrow> string \<Rightarrow> http_response handler" where
  "get_position_route market_id u =
     bind_act (in_db (get_position u market_id)) (\<lambda>pos. answer (Position_data pos))"

section \<open>Markets and trades\<close>

definition get_markets ::
  "platform \<Rightarrow> string option \<Rightarrow> string option \<Rightarrow> int \<Rightarrow> string option \<Rightarrow> http_response handler" where
  "get_markets p status cat limit cursor =
     bind_act (in_db (list_markets (pf_dumps p) (pf_loads p) (pf_isoformat p) (pf_fromisoformat p)
       status cat cursor limit)) (\<lambda>result. answer (Markets_data result))"

definition get_market_route :: "string \<Rightarrow> http_response handler" where
  "get_market_route market_id = bind_act (in_db (get_market market_id)) (\<lambda>result. answer (Market_data result))"

definition get_orderbook_route :: "platform \<Rightarrow> string \<Rightarrow> int \<Rightarrow> http_response handler" where
  "get_orderbook_route p market_id levels =
     bind_act (in_db (get_orderbook (pf_row_rank p) market_id levels)) (\<lambda>result. answer (Orderbook_data result))"

definition get_trades :: "string option \<Rightarrow> int \<Rightarrow> string option \<Rightarrow> string \<Rightarrow> http_response handler" where
  "get_trades market_id limit cursor u =
     bind_act (in_db (list_trades u market_id limit cursor)) (\<lambda>data. answer (Trades_data data))"

section \<open>Orders\<close>

definition post_order :: "new_order_params \<Rightarrow> string \<Rightarrow> http_response handler" where
  "post_order req u = bind_act (service_place_order req u) (\<lambda>r. ret (Response 201 (Place_model r)))"

definition post_cancel :: "string \<Rightarrow> string \<Rightarrow> http_response handler" where
  "post_cancel oid u = bind_act (service_cancel_order oid u) (\<lambda>r. ret (Response 200 (Cancel_model r)))"

definition get_orders ::
  "string option \<Rightarrow> string option \<Rightarrow> string option \<Rightarrow> string option \<Rightarrow> int \<Rightarrow> string option \<Rightarrow> string \<Rightarrow>
   http_response handler" where
  "get_orders market_id status sd dir limit cursor u =
     bind_act (service_list_orders u market_id status sd dir limit cursor) (\<lambda>r. ret (Response 200 (Orders_model r)))"

definition get_order_route :: "string \<Rightarrow> string \<Rightarrow> http_response handler" where
  "get_order_route oid u = bind_act (service_get_order oid u) (\<lambda>r. ret (Response 200 (Order_model r)))"

definition post_replace :: "string \<Rightarrow> new_order_params \<Rightarrow> string \<Rightarrow> http_response handler" where
  "post_replace oid req u =
     bind_act (atomic_replace oid req u) (\<lambda>result. envelope 200 ''Order replaced successfully'' (Replace_data result))"

definition post_batch_cancel :: "string \<Rightarrow> cancel_scope \<Rightarrow> string \<Rightarrow> http_response handler" where
  "post_batch_cancel market_id scope u =
     bind_act (batch_cancel_endpoint market_id scope u) (\<lambda>result. envelope 200 ''Batch cancel completed'' (Batch_data result))"

section \<open>Administration\<close>

definition post_resolve :: "string \<Rightarrow> side \<Rightarrow> http_response handler" where
  "post_resolve market_id outcome =
     bind_act (in_db (resolve_market market_id outcome)) (\<lambda>(m, oc, n). answer (Resolve_data m oc n))"

definition get_stats :: "string \<Rightarrow> http_response handler" where
  "get_stats market_id =
     bind_act (in_db (get_market_stats market_id)) (\<lambda>result. answer (Stats_data market_id result))"

definition post_verify :: "http_response handler" where
  "post_verify = bind_act (in_db verify_all_invariants) (\<lambda>(ok, vs). answer (Verify_data ok vs))"

section \<open>Privileged mint and burn\<close>

text \<open>These two open their transaction on the session of the authentication.\<close>

definition post_mint :: "platform \<Rightarrow> string option \<Rightarrow> string \<Rightarrow> int \<Rightarrow> string \<Rightarrow> http_response handler" where
  "post_mint p token market_id qty key =
     bind_act (with_session
       (bind_act (amm_current_user p token) (\<lambda>user.
        bind_act (raise_if (\<not> privileged_request_ok qty key) RequestValidationError) (\<lambda>_.
        begin_block (execute (execute_privileged_mint (usr_id user) market_id qty key)))))) (\<lambda>result.
     case result of
       Idempotent_Hit k \<Rightarrow> envelope 201 ''Mint already processed (idempotent)'' (Idempotent_data k)
     | Done r \<Rightarrow> envelope 201 ''Shares minted successfully'' (Mint_data r))"

definition post_burn :: "platform \<Rightarrow> string option \<Rightarrow> string \<Rightarrow> int \<Rightarrow> string \<Rightarrow> http_response handler" where
  "post_burn p token market_id qty key =
     bind_act (with_session
       (bind_act (amm_current_user p token) (\<lambda>user.
        bind_act (raise_if (\<not> privileged_request_ok qty key) RequestValidationError) (\<lambda>_.
        begin_block (execute (execute_privileged_burn (usr_id user) market_id qty key)))))) (\<lambda>result.
     case result of
       Idempotent_Hit k \<Rightarrow> envelope 200 ''Burn already processed (idempotent)'' (Idempotent_data k)
     | Done r \<Rightarrow> envelope 200 ''Shares burned (auto-merge) successfully'' (Burn_data r))"

section \<open>Routes\<close>

datatype call =
    GET_health
  | POST_register string string string               \<comment> \<open>username, email, password\<close>
  | POST_login string string
  | POST_refresh string
  | GET_balance
  | POST_deposit int
  | POST_withdraw int
  | GET_ledger "string option" int "string option"   \<comment> \<open>cursor, limit, entry type\<close>
  | GET_positions
  | GET_position string
  | GET_markets "string option" "string option" int "string option"
  | GET_market string
  | GET_orderbook string int
  | GET_trades "string option" int "string option"
  | POST_order new_order_params
  | POST_cancel string
  | GET_orders "string option" "string option" "string option" "string option" int "string option"
  | GET_order string
  | POST_replace string new_order_params
  | POST_batch_cancel string cancel_scope
  | POST_resolve string side
  | GET_stats string
  | POST_verify
  | POST_mint string int string
  | POST_burn string int string

record request =
  req_token :: "string option"
  req_call :: call

fun route :: "platform \<Rightarrow> string option \<Rightarrow> call \<Rightarrow> http_response handler" where
  "route p tok GET_health = ret (Response 200 (Health_model ''ok'' ''0.1.0''))"
| "route p tok (POST_register name mail password) = post_register p name mail password"
| "route p tok (POST_login name password) = post_login p name password"
| "route p tok (POST_refresh token) = post_refresh p token"
| "route p tok GET_balance = endpoint (current_user p tok) True get_balance_route"
| "route p tok (POST_deposit n) = endpoint (current_user p tok) (valid_amount n) (post_deposit n)"
| "route p tok (POST_withdraw n) = endpoint (current_user p tok) (valid_amount n) (post_withdraw n)"
| "route p tok (GET_ledger cursor limit ty) =
     endpoint (current_user p tok) (page_limit_ok limit) (get_ledger p cursor limit ty)"
| "route p tok GET_positions = endpoint (current_user p tok) True get_positions"
| "route p tok (GET_position m) = endpoint (current_user p tok) True (get_position_route m)"
| "route p tok (GET_markets status cat limit cursor) =
     endpoint (current_user p tok) (page_limit_ok limit) (\<lambda>_. get_markets p status cat limit cursor)"
| "route p tok (GET_market m) = endpoint (current_user p tok) True (\<lambda>_. get_market_route m)"
| "route p tok (GET_orderbook m levels) =
     endpoint (current_user p tok) (levels_ok levels) (\<lambda>_. get_orderbook_route p m levels)"
| "route p tok (GET_trades m limit cursor) =
     endpoint (current_user p tok) (page_limit_ok limit) (get_trades m limit cursor)"
| "route p tok (POST_order req) =
     endpoint (current_user p tok) (place_request_ok req) (post_order req)"
| "route p tok (POST_cancel oid) = endpoint (current_user p tok) True (post_cancel oid)"
| "route p tok (GET_orders m status sd dir limit cursor) =
     endpoint (current_user p tok) (page_limit_ok limit) (get_orders m status sd dir limit cursor)"
| "route p tok (GET_order oid) = endpoint (current_user p tok) True (get_order_route oid)"
| "route p tok (POST_replace oid req) =
     endpoint (amm_current_user p tok) (place_request_ok req) (post_replace oid req)"
| "route p tok (POST_batch_cancel m scope) = endpoint (amm_current_user p tok) True (post_batch_cancel m scope)"
| "route p tok (POST_resolve m outcome) = endpoint (current_user p tok) True (\<lambda>_. post_resolve m outcome)"
| "route p tok (GET_stats m) = endpoint (current_user p tok) True (\<lambda>_. get_stats m)"
| "route p tok POST_verify = endpoint (current_user p tok) True (\<lambda>_. post_verify)"
| "route p tok (POST_mint m qty key) = post_mint p tok m qty key"
| "route p tok (POST_burn m qty key) = post_burn p tok m qty key"

definition handle :: "platform \<Rightarrow> request \<Rightarrow> engine_state \<Rightarrow> http_response option \<times> engine_state" where
  "handle p req s =
     (case route p (req_token req) (req_call req) s of
        (Inl e, s') \<Rightarrow> (error_to_response e, s')
      | (Inr resp, s') \<Rightarrow> (Some resp, s'))"

section \<open>Who may call what\<close>

text \<open>The active user that a token names, if it names one.\<close>

definition token_user :: "platform \<Rightarrow> db \<Rightarrow> string option \<Rightarrow> user option" where
  "token_user p d tok =
     Option.bind tok (\<lambda>t.
     case decode_token (pf_dec p) (clock d) t ''access'' of
       Inl _ \<Rightarrow> None
     | Inr c \<Rightarrow>
         Option.bind (clm_sub c) (\<lambda>i. if i = [] then None else
         Option.bind (pf_uuid p i) (\<lambda>uuid.
         Option.bind (lookup_row (\<lambda>u. usr_id u = uuid) (users d)) (\<lambda>u.
         if usr_is_active u then Some u else None))))"

lemma token_user_SomeD: "token_user p d tok = Some u \<Longrightarrow> u \<in> set (users d) \<and> usr_is_active u"
  by (cases tok; simp add: token_user_def split: sum.splits)
     (auto simp: bind_eq_Some_conv dest!: lookup_row_SomeD split: if_splits)

lemmas dependency_defs = current_user_def amm_current_user_def oauth2_scheme_def require_amm_user_def
  get_current_user_def execute_def user_by_def bind_act_def raise_if_def token_user_def

definition refusals :: "exc set" where
  "refusals = {HTTPException 401 ''Not authenticated'', credentials_exception, AccountDisabledError}"

lemma current_user_run:
  assumes "ses_db t = d"
  shows "\<exists>r t'. current_user p tok t = (r, t') \<and> ses_db t' = d \<and>
    (case token_user p d tok of
       Some u \<Rightarrow> r = Inr u \<and> in_transaction t'
     | None \<Rightarrow> \<exists>e \<in> refusals. r = Inl e)"
proof (cases tok)
  case None
  then show ?thesis using assms by (simp add: dependency_defs refusals_def)
next
  case (Some w)
  show ?thesis
  proof (cases "decode_token (pf_dec p) (clock d) w ''access''")
    case (Inl e)
    then show ?thesis using Some assms by (simp add: dependency_defs refusals_def)
  next
    case (Inr c)
    note reads = Some Inr assms
    show ?thesis
    proof (cases "clm_sub c")
      case None
      then show ?thesis using reads by (simp add: dependency_defs refusals_def)
    next
      case sub: (Some i)
      show ?thesis
      proof (cases "i = [] \<or> pf_uuid p i = None")
        case True
        then show ?thesis using reads sub by (auto simp: dependency_defs refusals_def)
      next
        case False
        then obtain uuid where "i \<noteq> []" "pf_uuid p i = Some uuid" by auto
        then show ?thesis
          using reads sub
          by (cases "lookup_row (\<lambda>u. usr_id u = uuid) (users d)") (auto simp: dependency_defs refusals_def)
      qed
    qed
  qed
qed

definition amm_required :: exc where
  "amm_required = HTTPException 403 ''AMM system account required''"

lemma amm_current_user_run:
  assumes "ses_db t = d"
  shows "\<exists>r t'. amm_current_user p tok t = (r, t') \<and> ses_db t' = d \<and>
    (case token_user p d tok of
       Some u \<Rightarrow> r = (if usr_id u = AMM_USER_ID then Inr u else Inl amm_required) \<and> in_transaction t'
     | None \<Rightarrow> \<exists>e \<in> refusals. r = Inl e)"
proof -
  have "amm_current_user p tok = bind_act (current_user p tok) (\<lambda>user.
      bind_act (raise_if (usr_id user \<noteq> AMM_USER_ID) amm_required) (\<lambda>_. ret user))"
    by (simp add: amm_current_user_def current_user_def require_amm_user_def [abs_def] bind_assoc amm_required_def)
  moreover obtain r t' where "current_user p tok t = (r, t')" "ses_db t' = d"
    "case token_user p d tok of Some u \<Rightarrow> r = Inr u \<and> in_transaction t' | None \<Rightarrow> \<exists>e \<in> refusals. r = Inl e"
    using current_user_run [OF assms, of p tok] by blast
  ultimately show ?thesis
    by (cases "token_user p d tok") (auto simp: bind_act_def raise_if_def)
qed

lemma dependency_run:
  "\<exists>r. with_session (current_user p tok) s = (r, s) \<and>
     (case token_user p (eng_db s) tok of Some u \<Rightarrow> r = Inr u | None \<Rightarrow> \<exists>e \<in> refusals. r = Inl e)"
  "\<exists>r. with_session (amm_current_user p tok) s = (r, s) \<and>
     (case token_user p (eng_db s) tok of
        Some u \<Rightarrow> r = (if usr_id u = AMM_USER_ID then Inr u else Inl amm_required)
      | None \<Rightarrow> \<exists>e \<in> refusals. r = Inl e)"
proof -
  let ?t = "\<lparr>ses_db = eng_db s, in_transaction = False\<rparr>"
  show "\<exists>r. with_session (current_user p tok) s = (r, s) \<and>
     (case token_user p (eng_db s) tok of Some u \<Rightarrow> r = Inr u | None \<Rightarrow> \<exists>e \<in> refusals. r = Inl e)"
  proof -
    obtain r t' where "current_user p tok ?t = (r, t')" "ses_db t' = eng_db s"
      "case token_user p (eng_db s) tok of Some u \<Rightarrow> r = Inr u \<and> in_transaction t' | None \<Rightarrow> \<exists>e \<in> refusals. r = Inl e"
      using current_user_run [of ?t "eng_db s" p tok] by auto
    then show ?thesis by (cases "token_user p (eng_db s) tok") (auto simp: with_session_def)
  qed
  show "\<exists>r. with_session (amm_current_user p tok) s = (r, s) \<and>
     (case token_user p (eng_db s) tok of
        Some u \<Rightarrow> r = (if usr_id u = AMM_USER_ID then Inr u else Inl amm_required)
      | None \<Rightarrow> \<exists>e \<in> refusals. r = Inl e)"
  proof -
    obtain r t' where "amm_current_user p tok ?t = (r, t')" "ses_db t' = eng_db s"
      "case token_user p (eng_db s) tok of
         Some u \<Rightarrow> r = (if usr_id u = AMM_USER_ID then Inr u else Inl amm_required) \<and> in_transaction t'
       | None \<Rightarrow> \<exists>e \<in> refusals. r = Inl e"
      using amm_current_user_run [of ?t "eng_db s" p tok] by auto
    then show ?thesis by (cases "token_user p (eng_db s) tok") (auto simp: with_session_def)
  qed
qed

lemma endpoint_cases:
  assumes "endpoint (current_user p tok) valid body s = (r, s')"
  obtains (refused) e where "r = Inl e" "e \<in> insert RequestValidationError refusals" "s' = s"
  | (runs) u where "token_user p (eng_db s) tok = Some u" "valid" "body (usr_id u) s = (r, s')"
  using assms dependency_run(1) [of p tok s]
  by (auto simp: endpoint_def bind_act_def raise_if_def split: option.splits if_splits)

lemma amm_endpoint_cases:
  assumes "endpoint (amm_current_user p tok) valid body s = (r, s')"
  obtains (refused) e where "r = Inl e" "e \<in> {RequestValidationError, amm_required} \<union> refusals" "s' = s"
  | (runs) u where "token_user p (eng_db s) tok = Some u" "usr_id u = AMM_USER_ID" "valid"
      "body AMM_USER_ID s = (r, s')"
proof -
  obtain q where dep: "with_session (amm_current_user p tok) s = (q, s)"
    and q: "case token_user p (eng_db s) tok of
        Some u \<Rightarrow> q = (if usr_id u = AMM_USER_ID then Inr u else Inl amm_required)
      | None \<Rightarrow> \<exists>e \<in> refusals. q = Inl e"
    using dependency_run(2) [of p tok s] by blast
  show thesis
  proof (cases q)
    case (Inl e)
    then show thesis
      using assms dep q refused by (auto simp: endpoint_def bind_act_def split: option.splits if_splits)
  next
    case (Inr u)
    then have "token_user p (eng_db s) tok = Some u" "usr_id u = AMM_USER_ID"
      using q by (auto split: option.splits if_splits)
    then show thesis
      using assms dep Inr refused runs by (cases valid) (auto simp: endpoint_def bind_act_def raise_if_def)
  qed
qed

text \<open>Minting and burning always end on an error, with nothing changed.\<close>

lemma privileged_refused:
  fixes run :: "string \<Rightarrow> (db, 'a) act"
  shows "\<exists>e. with_session (bind_act (amm_current_user p tok) (\<lambda>user.
      bind_act (raise_if (\<not> ok) RequestValidationError) (\<lambda>_. begin_block (execute (run (usr_id user)))))) s = (Inl e, s) \<and>
    (case token_user p (eng_db s) tok of
       Some u \<Rightarrow> (if usr_id u \<noteq> AMM_USER_ID then e = amm_required
                  else e \<in> {RequestValidationError, InvalidRequestError ''A transaction is already begun on this Session.''})
     | None \<Rightarrow> e \<in> refusals)"
proof -
  let ?t = "\<lparr>ses_db = eng_db s, in_transaction = False\<rparr>"
  obtain r t' where "amm_current_user p tok ?t = (r, t')" "ses_db t' = eng_db s"
    "case token_user p (eng_db s) tok of
       Some u \<Rightarrow> r = (if usr_id u = AMM_USER_ID then Inr u else Inl amm_required) \<and> in_transaction t'
     | None \<Rightarrow> \<exists>e \<in> refusals. r = Inl e"
    using amm_current_user_run [of ?t "eng_db s" p tok] by auto
  then show ?thesis
    by (auto simp: with_session_def bind_act_def raise_if_def begin_block_def split: option.splits if_splits)
qed

fun open_call :: "call \<Rightarrow> bool" where
  "open_call GET_health = True"
| "open_call (POST_register _ _ _) = True"
| "open_call (POST_login _ _) = True"
| "open_call (POST_refresh _) = True"
| "open_call _ = False"

fun amm_call :: "call \<Rightarrow> bool" where
  "amm_call (POST_replace _ _) = True"
| "amm_call (POST_batch_cancel _ _) = True"
| "amm_call (POST_mint _ _ _) = True"
| "amm_call (POST_burn _ _ _) = True"
| "amm_call _ = False"

lemma endpoint_refused:
  assumes "token_user p (eng_db s) tok = None"
  shows "\<exists>e \<in> refusals. endpoint (current_user p tok) valid body s = (Inl e, s)"
    and "\<exists>e \<in> refusals. endpoint (amm_current_user p tok) valid body s = (Inl e, s)"
  using dependency_run [of p tok s] assms by (auto simp: endpoint_def bind_act_def)

lemma endpoint_forbidden:
  assumes "token_user p (eng_db s) tok = Some u" and "usr_id u \<noteq> AMM_USER_ID"
  shows "endpoint (amm_current_user p tok) valid body s = (Inl amm_required, s)"
  using dependency_run(2) [of p tok s] assms by (auto simp: endpoint_def bind_act_def)

lemma privileged_run:
  assumes "c = POST_mint m qty key \<or> c = POST_burn m qty key"
  shows "\<exists>e. route p tok c s = (Inl e, s) \<and>
    (case token_user p (eng_db s) tok of
       Some u \<Rightarrow> (if usr_id u \<noteq> AMM_USER_ID then e = amm_required
                  else e \<in> {RequestValidationError, InvalidRequestError ''A transaction is already begun on this Session.''})
     | None \<Rightarrow> e \<in> refusals)"
    (is "\<exists>e. _ \<and> ?res e")
proof -
  have "\<exists>e. route p tok (POST_mint m qty key) s = (Inl e, s) \<and> ?res e"
    using privileged_refused [of p tok "privileged_request_ok qty key" "\<lambda>u. execute_privileged_mint u m qty key" s]
      bind_Inl by (fastforce simp: post_mint_def)
  moreover have "\<exists>e. route p tok (POST_burn m qty key) s = (Inl e, s) \<and> ?res e"
    using privileged_refused [of p tok "privileged_request_ok qty key" "\<lambda>u. execute_privileged_burn u m qty key" s]
      bind_Inl by (fastforce simp: post_burn_def)
  ultimately show ?thesis using assms by blast
qed

lemma refusal_response:
  "e \<in> refusals \<Longrightarrow> \<exists>resp. error_to_response e = Some resp \<and> response_status resp \<in> {401, 422}"
  by (auto simp: refusals_def credentials_exception_def AccountDisabledError_def app_error_handler_def)

lemma protected_route:
  assumes "\<not> open_call c" and "token_user p (eng_db s) tok = None"
  shows "\<exists>e \<in> refusals. route p tok c s = (Inl e, s)"
  using assms endpoint_refused [OF assms(2)] privileged_run [of c _ _ _ p tok s] by (cases c) auto

lemma reserved_route:
  assumes "amm_call c" and "token_user p (eng_db s) tok = Some u" and "usr_id u \<noteq> AMM_USER_ID"
  shows "route p tok c s = (Inl amm_required, s)"
  using assms endpoint_forbidden [OF assms(2,3)] privileged_run [of c _ _ _ p tok s] by (cases c) auto

text \<open>Claim C14. Access control: a request to any route but registration, login, refresh and health,
  without the valid access token of an active user, is answered 401 or 422 and changes nothing;
  the routes of the market maker answer every other user 403 and change nothing.\<close>

theorem access_is_controlled:
  assumes "\<not> open_call (req_call req)"
  shows "(token_user p (eng_db s) (req_token req) = None \<longrightarrow>
      (\<exists>resp. handle p req s = (Some resp, s) \<and> response_status resp \<in> {401, 422})) \<and>
    (\<forall>u. token_user p (eng_db s) (req_token req) = Some u \<and> usr_id u \<noteq> AMM_USER_ID \<and> amm_call (req_call req) \<longrightarrow>
      handle p req s = (Some (Response 403 (Detail ''AMM system account required'')), s))"
  using protected_route [OF assms, of p s "req_token req"] refusal_response
    reserved_route [of "req_call req" p s "req_token req"]
  by (fastforce simp: handle_def amm_required_def)

section \<open>Requests that only read\<close>

fun reading_call :: "call \<Rightarrow> bool" where
  "reading_call (POST_register _ _ _) = False"
| "reading_call (POST_deposit _) = False"
| "reading_call (POST_withdraw _) = False"
| "reading_call (POST_order _) = False"
| "reading_call (POST_cancel _) = False"
| "reading_call (POST_replace _ _) = False"
| "reading_call (POST_batch_cancel _ _) = False"
| "reading_call (POST_resolve _ _) = False"
| "reading_call _ = True"

lemma keeps_in_db: "keeps (\<lambda>d. d = eng_db s0) m \<Longrightarrow> keeps (\<lambda>s. s = s0) (in_db m)"
  by (fastforce simp: keeps_def in_db_def split: prod.splits)

lemma keeps_case_sum:
  "(\<And>x. keeps I (f x)) \<Longrightarrow> (\<And>y. keeps I (g y)) \<Longrightarrow> keeps I (case z of Inl x \<Rightarrow> f x | Inr y \<Rightarrow> g y)"
  by (cases z) auto

lemmas reading_intros = keeps_case_sum keeps_ret keeps_raise keeps_reads keeps_raise_if keeps_bind keeps_if keeps_case_prod
  keeps_case_option keeps_fold_act keeps_in_db

lemma keeps_reading_queries:
  "keeps (\<lambda>d. d = d0) (get_balance u)"
  "keeps (\<lambda>d. d = d0) (list_ledger dec u cursor limit ty)"
  "keeps (\<lambda>d. d = d0) (list_positions u)"
  "keeps (\<lambda>d. d = d0) (get_position u m)"
  "keeps (\<lambda>d. d = d0) (list_markets du lo isof fi status cat cursor limit)"
  "keeps (\<lambda>d. d = d0) (get_market m)"
  "keeps (\<lambda>d. d = d0) (get_orderbook rank m levels)"
  "keeps (\<lambda>d. d = d0) (list_trades u mo limit cursor)"
  "keeps (\<lambda>d. d = d0) (get_market_stats m)"
  "keeps (\<lambda>d. d = d0) (refresh en de tok)"
  unfolding get_balance_def get_account_by_user_id_def get_account_sql_def list_ledger_def list_ledger_entries_def list_positions_def
    get_position_def list_markets_def repo_list_markets_def get_market_def get_market_by_id_def get_orderbook_def
    get_orderbook_snapshot_def list_trades_def trades_list_by_user_def get_market_stats_def refresh_def Let_def
  by (intro reading_intros | simp)+

lemma keeps_reading_verify: "keeps (\<lambda>d. d = d0) verify_all_invariants"
proof -
  have "snd (verify_invariants_after_trade ms d) = d" for ms d
    by (simp add: verify_invariants_after_trade_def bind_act_def raise_if_def Let_def)
  then have "\<exists>r. verify_invariants_after_trade ms d = (r, d)" for ms d by (metis prod.collapse)
  then have run: "\<exists>r. market_violation row d = (r, d)" for row d
  proof -
    obtain r where "verify_invariants_after_trade (MarketState row) d = (r, d)"
      using \<open>\<And>ms d. \<exists>r. verify_invariants_after_trade ms d = (r, d)\<close> by blast
    then show ?thesis by (cases r) (auto simp: market_violation_def split: exc.splits)
  qed
  have "keeps (\<lambda>d. d = d0) (market_violation row)" for row
    unfolding keeps_def using run [of row] by (metis prod.inject)
  moreover have "keeps (\<lambda>d. d = d0) verify_global_invariants"
    unfolding verify_global_invariants_def Let_def by (intro reading_intros)
  ultimately show ?thesis
    unfolding verify_all_invariants_def by (intro reading_intros) auto
qed

lemma keeps_reading_login: "keeps (\<lambda>s. s = s0) (with_session (login_endpoint ck en name password))"
proof -
  have "\<exists>r. login ck en name password d = (r, d)" for d
    by (auto simp: login_def user_by_def bind_act_def raise_if_def split: option.splits)
  then have "\<exists>r t. login_endpoint ck en name password \<lparr>ses_db = d, in_transaction = False\<rparr> = (r, t) \<and> ses_db t = d" for d
  proof -
    obtain r where "login ck en name password d = (r, d)" using \<open>\<And>d. \<exists>r. login ck en name password d = (r, d)\<close> by blast
    then show ?thesis by (cases r) (auto simp: login_endpoint_def execute_def bind_act_def)
  qed
  then have "\<exists>r. with_session (login_endpoint ck en name password) s = (r, s)" for s :: engine_state
  proof -
    obtain r t where "login_endpoint ck en name password \<lparr>ses_db = eng_db s, in_transaction = False\<rparr> = (r, t)" "ses_db t = eng_db s"
      using \<open>\<And>d. \<exists>r t. login_endpoint ck en name password \<lparr>ses_db = d, in_transaction = False\<rparr> = (r, t) \<and> ses_db t = d\<close>
      by blast
    then show ?thesis by (simp add: with_session_def)
  qed
  then show ?thesis unfolding keeps_def by (metis prod.inject)
qed

lemma keeps_reading_engine:
  "keeps (\<lambda>s. s = s0) (service_get_order oid u)"
  "keeps (\<lambda>s. s = s0) (service_list_orders u m status sd dir limit cursor)"
  unfolding service_get_order_def service_list_orders_def order_get_by_id_def order_list_by_user_def Let_def
  by (intro reading_intros)+

lemma keeps_endpoint:
  assumes "\<And>u. keeps (\<lambda>s. s = s0) (body u)"
  shows "keeps (\<lambda>s. s = s0) (endpoint (current_user p tok) valid body)"
    and "keeps (\<lambda>s. s = s0) (endpoint (amm_current_user p tok) valid body)"
  by (intro keepsI; elim endpoint_cases amm_endpoint_cases; use keepsD [OF assms] in blast)+

lemma keeps_answer: "keeps I (answer x)" "keeps I (envelope st msg x)"
  by (simp_all add: answer_def envelope_def keeps_ret)

lemma keeps_reading_answer:
  assumes "\<And>d. keeps (\<lambda>d'. d' = d) m"
  shows "keeps (\<lambda>s. s = s0) (bind_act (in_db m) (\<lambda>x. answer (f x)))"
    "keeps (\<lambda>s. s = s0) (bind_act (in_db m) (\<lambda>x. envelope st msg (f x)))"
  by (intro keeps_bind keeps_in_db assms keeps_answer)+

lemma keeps_reading_ret:
  "keeps (\<lambda>s. s = s0) m \<Longrightarrow> keeps (\<lambda>s. s = s0) (bind_act m (\<lambda>x. ret (f x)))"
  "keeps (\<lambda>s. s = s0) m \<Longrightarrow> keeps (\<lambda>s. s = s0) (bind_act m (\<lambda>x. envelope st msg (f x)))"
  by (intro keeps_bind keeps_ret keeps_answer; assumption)+

lemma keeps_reading_rest:
  "keeps (\<lambda>s. s = s0) (get_orders mo status sd dir limit cursor u)"
  "keeps (\<lambda>s. s = s0) (get_order_route oid u)"
  "keeps (\<lambda>s. s = s0) post_verify"
proof -
  show "keeps (\<lambda>s. s = s0) (get_orders mo status sd dir limit cursor u)"
    unfolding get_orders_def by (intro keeps_bind keeps_ret keeps_reading_engine)
  show "keeps (\<lambda>s. s = s0) (get_order_route oid u)"
    unfolding get_order_route_def by (intro keeps_bind keeps_ret keeps_reading_engine)
  show "keeps (\<lambda>s. s = s0) post_verify"
    unfolding post_verify_def by (intro keeps_bind keeps_in_db keeps_reading_verify keeps_case_prod keeps_answer)
qed

lemma reading_route:
  assumes "reading_call c"
  shows "keeps (\<lambda>s. s = s0) (route p tok c)"
proof (cases "\<exists>m qty key. c = POST_mint m qty key \<or> c = POST_burn m qty key")
  case True
  then have "\<exists>e. route p tok c s = (Inl e, s)" for s using privileged_run [of c _ _ _ p tok s] by blast
  then show ?thesis unfolding keeps_def by (metis prod.inject)
next
  case False
  note routes = get_balance_route_def get_ledger_def get_positions_def get_position_route_def get_markets_def
    get_market_route_def get_orderbook_route_def get_trades_def get_stats_def
    post_login_def post_refresh_def
  show ?thesis
    using assms False
    by (cases c) (simp_all add: routes keeps_ret keeps_endpoint keeps_reading_queries
        keeps_reading_login keeps_reading_rest keeps_reading_answer keeps_reading_ret)
qed

text \<open>Requests that only read change nothing at all: every GET route, login, refresh and the
  invariant report leave the database and the books as they were, whatever they answer; so do the
  mint and burn routes, which never run.\<close>

theorem reading_requests_change_nothing:
  assumes "reading_call (req_call req)"
  shows "snd (handle p req s) = s"
  using keepsD [OF reading_route [OF assms, of s p "req_token req"]]
  by (auto simp: handle_def split: prod.splits sum.splits)

section \<open>Requests as runs of the system\<close>

text \<open>
  What a route that writes does when it is not refused: it runs its service for the user of the
  token and wraps the value.
\<close>

abbreviation wrapped :: "('a \<Rightarrow> http_response) \<Rightarrow> exc + 'a \<Rightarrow> exc + http_response" where
  "wrapped f \<equiv> map_sum id f"

inductive served :: "platform \<Rightarrow> string option \<Rightarrow> engine_state \<Rightarrow> call \<Rightarrow> exc + http_response \<Rightarrow> engine_state \<Rightarrow> bool"
  for p tok s where
  register: "with_session (register_endpoint (pf_hashpw p) (pf_new_id p (eng_db s)) name address password) s = (q, s') \<Longrightarrow>
    r = wrapped (\<lambda>x. Response 201 (f x)) q \<Longrightarrow> served p tok s (POST_register name mail password) r s'"
| deposit: "token_user p (eng_db s) tok = Some u \<Longrightarrow> in_db (account_deposit (usr_id u) n) s = (q, s') \<Longrightarrow>
    r = wrapped (\<lambda>x. Response 200 (f x)) q \<Longrightarrow> served p tok s (POST_deposit n) r s'"
| withdraw: "token_user p (eng_db s) tok = Some u \<Longrightarrow> in_db (account_withdraw (usr_id u) n) s = (q, s') \<Longrightarrow>
    r = wrapped (\<lambda>x. Response 200 (f x)) q \<Longrightarrow> served p tok s (POST_withdraw n) r s'"
| place: "token_user p (eng_db s) tok = Some u \<Longrightarrow> place_request_ok req \<Longrightarrow>
    service_place_order req (usr_id u) s = (q, s') \<Longrightarrow>
    r = wrapped (\<lambda>x. Response 201 (f x)) q \<Longrightarrow> served p tok s (POST_order req) r s'"
| cancel: "token_user p (eng_db s) tok = Some u \<Longrightarrow> service_cancel_order oid (usr_id u) s = (q, s') \<Longrightarrow>
    r = wrapped (\<lambda>x. Response 200 (f x)) q \<Longrightarrow> served p tok s (POST_cancel oid) r s'"
| replace: "token_user p (eng_db s) tok = Some u \<Longrightarrow> usr_id u = AMM_USER_ID \<Longrightarrow> place_request_ok req \<Longrightarrow>
    atomic_replace oid req (usr_id u) s = (q, s') \<Longrightarrow>
    r = wrapped (\<lambda>x. Response 200 (f x)) q \<Longrightarrow> served p tok s (POST_replace oid req) r s'"
| batch: "token_user p (eng_db s) tok = Some u \<Longrightarrow> usr_id u = AMM_USER_ID \<Longrightarrow>
    batch_cancel_endpoint m scope (usr_id u) s = (q, s') \<Longrightarrow>
    r = wrapped (\<lambda>x. Response 200 (f x)) q \<Longrightarrow> served p tok s (POST_batch_cancel m scope) r s'"
| resolve: "token_user p (eng_db s) tok = Some u \<Longrightarrow> in_db (resolve_market m oc) s = (q, s') \<Longrightarrow>
    r = wrapped (\<lambda>x. Response 200 (f x)) q \<Longrightarrow> served p tok s (POST_resolve m oc) r s'"

lemma bind_wrapped:
  assumes "bind_act m (\<lambda>x. ret (Response st (g x))) s = (r, s')"
  shows "\<exists>q f. m s = (q, s') \<and> r = wrapped (\<lambda>x. Response st (f x)) q"
  using assms by (cases "m s"; cases "fst (m s)") (auto simp: bind_act_def intro!: exI [of _ g])

lemma wrapped_routes:
  "post_deposit n u s = (r, s') \<Longrightarrow> \<exists>q f. in_db (account_deposit u n) s = (q, s') \<and> r = wrapped (\<lambda>x. Response 200 (f x)) q"
  "post_withdraw n u s = (r, s') \<Longrightarrow> \<exists>q f. in_db (account_withdraw u n) s = (q, s') \<and> r = wrapped (\<lambda>x. Response 200 (f x)) q"
  "post_order req u s = (r, s') \<Longrightarrow> \<exists>q f. service_place_order req u s = (q, s') \<and> r = wrapped (\<lambda>x. Response 201 (f x)) q"
  "post_cancel oid u s = (r, s') \<Longrightarrow> \<exists>q f. service_cancel_order oid u s = (q, s') \<and> r = wrapped (\<lambda>x. Response 200 (f x)) q"
  "post_replace oid req u s = (r, s') \<Longrightarrow> \<exists>q f. atomic_replace oid req u s = (q, s') \<and> r = wrapped (\<lambda>x. Response 200 (f x)) q"
  "post_batch_cancel m sc u s = (r, s') \<Longrightarrow> \<exists>q f. batch_cancel_endpoint m sc u s = (q, s') \<and> r = wrapped (\<lambda>x. Response 200 (f x)) q"
  "post_resolve m oc s = (r, s') \<Longrightarrow> \<exists>q f. in_db (resolve_market m oc) s = (q, s') \<and> r = wrapped (\<lambda>x. Response 200 (f x)) q"
  unfolding post_deposit_def post_withdraw_def post_order_def post_cancel_def post_replace_def post_batch_cancel_def
    post_resolve_def answer_def envelope_def case_prod_beta
  by (drule bind_wrapped, assumption)+

lemma register_served:
  assumes "post_register p name mail password s = (r, s')"
  shows "s' = s \<and> r = Inl RequestValidationError \<or> served p tok s (POST_register name mail password) r s'"
proof (cases "pf_email p mail")
  case None
  then show ?thesis using assms by (simp add: post_register_def)
next
  case (Some address)
  show ?thesis
  proof (cases "register_request_ok name password")
    case False
    then show ?thesis using assms Some by (simp add: post_register_def raise_if_def)
  next
    case True
    have "bind_act (with_session (register_endpoint (pf_hashpw p) (pf_new_id p (eng_db s)) name address password))
      (\<lambda>data. envelope 201 ''User registered successfully'' (Register_data data)) s = (r, s')"
      using assms Some True by (simp add: post_register_def raise_if_def in_db_def)
    from bind_wrapped [OF this [unfolded envelope_def]] show ?thesis by (auto intro: served.register)
  qed
qed

lemma writing_route:
  assumes "\<not> reading_call c" and "route p tok c s = (r, s')"
  shows "s' = s \<and> (\<exists>e \<in> {RequestValidationError, amm_required} \<union> refusals. r = Inl e) \<or> served p tok s c r s'"
proof (cases "\<exists>name mail password. c = POST_register name mail password")
  case True
  then show ?thesis using assms(2) register_served by fastforce
next
  case False
  then show ?thesis
    using assms
    by (cases c)
       (simp_all, (elim endpoint_cases amm_endpoint_cases; auto dest!: wrapped_routes intro: served.intros)+)
qed

lemma served_step: "served p tok s c r s' \<Longrightarrow> step s s'"
  by (erule served.cases) (blast intro: step.intros)+

lemma handle_step: "handle p req s = (resp, s') \<Longrightarrow> s' = s \<or> step s s'"
proof -
  assume run: "handle p req s = (resp, s')"
  then obtain r where r: "route p (req_token req) (req_call req) s = (r, s')"
    by (auto simp: handle_def split: prod.splits sum.splits)
  show "s' = s \<or> step s s'"
  proof (cases "reading_call (req_call req)")
    case True
    then show ?thesis using keepsD [OF reading_route [OF True] _ r] by blast
  next
    case False
    then show ?thesis using writing_route [OF False r] served_step by blast
  qed
qed

text \<open>What the program meets: requests, restarts of the process, the passing of time.\<close>

datatype event = Request request | Restart | Tick int

fun meet :: "platform \<Rightarrow> event \<Rightarrow> engine_state \<Rightarrow> engine_state" where
  "meet p (Request req) s = snd (handle p req s)"
| "meet p Restart s = s\<lparr>orderbooks := Map.empty\<rparr>"
| "meet p (Tick n) s = s\<lparr>eng_db := (eng_db s)\<lparr>clock := clock (eng_db s) + max 0 n\<rparr>\<rparr>"

definition serve :: "platform \<Rightarrow> event list \<Rightarrow> engine_state \<Rightarrow> engine_state" where
  "serve p evs s = fold (meet p) evs s"

lemma meet_step: "meet p ev s = s \<or> step s (meet p ev s)"
proof (cases ev)
  case (Request req)
  then show ?thesis using handle_step [of p req s] by (cases "handle p req s") auto
next
  case Restart
  then show ?thesis by (simp add: step.restart)
next
  case (Tick n)
  then show ?thesis using step.time [of s "clock (eng_db s) + max 0 n"] by simp
qed

lemma serve_reachable: "reachable s (serve p evs s)"
proof (induction evs rule: rev_induct)
  case Nil
  then show ?case by (simp add: serve_def reachable.start)
next
  case (snoc ev evs)
  have "serve p (evs @ [ev]) s = meet p ev (serve p evs s)" by (simp add: serve_def)
  then show ?case using snoc meet_step [of p ev "serve p evs s"] by (auto intro: reachable.further)
qed

text \<open>The HTTP surface adds no behaviour: whatever requests the deployed program meets, with
  whatever tokens and parameters, restarts and time between them, its state is one that the
  system of the services reaches, and the database satisfies every range, key and constraint of
  the schema.\<close>

theorem served_states_are_well_typed:
  "reachable (deployed g now) (serve p evs (deployed g now)) \<and> wf_db (eng_db (serve p evs (deployed g now)))"
  using wf.reachable [OF serve_reachable deployed_wf] serve_reachable by blast

section \<open>Requests that fail\<close>

lemma same_tables_refl: "same_tables d d"
  by (simp add: same_tables_def)

lemma session_transaction_failed: "session_transaction m s = (Inl e, s') \<Longrightarrow> same_tables (eng_db s) (eng_db s')"
  by (auto simp: session_transaction_def on_error_def split: prod.splits sum.splits)

lemma commit_or_rollback_failed: "commit_or_rollback m d = (Inl e, d') \<Longrightarrow> same_tables d d'"
  by (auto simp: commit_or_rollback_def on_error_def split: prod.splits sum.splits)

lemma bind_ret_failed:
  "bind_act m (\<lambda>x. ret (f x)) s = (Inl e, s') \<Longrightarrow> m s = (Inl e, s')"
  by (auto simp: bind_act_def split: prod.splits sum.splits)

lemma posting_failed:
  assumes "bind_act (commit_or_rollback m) (\<lambda>(a, e). ret (f a e)) d = (Inl e, d')"
  shows "same_tables d d'"
  using assms by (cases "commit_or_rollback m d") (auto simp: bind_act_def dest: commit_or_rollback_failed split: sum.splits)

lemma services_failed:
  "service_place_order req u s = (Inl e, s') \<Longrightarrow> same_tables (eng_db s) (eng_db s')"
  "service_cancel_order oid u s = (Inl e, s') \<Longrightarrow> same_tables (eng_db s) (eng_db s')"
  "atomic_replace oid req u s = (Inl e, s') \<Longrightarrow> same_tables (eng_db s) (eng_db s')"
  "batch_cancel_endpoint m sc u s = (Inl e, s') \<Longrightarrow> same_tables (eng_db s) (eng_db s')"
  "in_db (account_deposit u n) s = (Inl e, s') \<Longrightarrow> same_tables (eng_db s) (eng_db s')"
  "in_db (account_withdraw u n) s = (Inl e, s') \<Longrightarrow> same_tables (eng_db s) (eng_db s')"
  "in_db (resolve_market m oc) s = (Inl e, s') \<Longrightarrow> same_tables (eng_db s) (eng_db s')"
proof -
  have taken: "same_tables (eng_db (id_taken s)) d' = same_tables (eng_db s) d'" for d'
    by (simp add: same_tables_def id_taken_def)
  show "service_place_order req u s = (Inl e, s') \<Longrightarrow> same_tables (eng_db s) (eng_db s')"
    unfolding service_place_run
    by (auto simp: taken same_tables_refl dest!: session_transaction_failed
        split: option.splits prod.splits sum.splits if_splits)
  show "service_cancel_order oid u s = (Inl e, s') \<Longrightarrow> same_tables (eng_db s) (eng_db s')"
    unfolding service_cancel_order_def by (drule bind_ret_failed, rule session_transaction_failed)
  show "atomic_replace oid req u s = (Inl e, s') \<Longrightarrow> same_tables (eng_db s) (eng_db s')"
    unfolding atomic_replace_def by (rule session_transaction_failed)
  show "batch_cancel_endpoint m sc u s = (Inl e, s') \<Longrightarrow> same_tables (eng_db s) (eng_db s')"
    unfolding batch_cancel_endpoint_def by (rule session_transaction_failed)
  show "in_db (account_deposit u n) s = (Inl e, s') \<Longrightarrow> same_tables (eng_db s) (eng_db s')"
    unfolding account_deposit_def by (auto simp: in_db_def dest!: posting_failed split: prod.splits)
  show "in_db (account_withdraw u n) s = (Inl e, s') \<Longrightarrow> same_tables (eng_db s) (eng_db s')"
    unfolding account_withdraw_def by (auto simp: in_db_def dest!: posting_failed split: prod.splits)
  show "in_db (resolve_market m oc) s = (Inl e, s') \<Longrightarrow> same_tables (eng_db s) (eng_db s')"
    by (auto simp: in_db_def resolve_market_def bind_act_def same_tables_refl dest!: commit_or_rollback_failed
        split: prod.splits option.splits if_splits)
qed

lemma register_failed:
  "with_session (register_endpoint hashpw new_id name mail password) s = (Inl e, s') \<Longrightarrow> same_tables (eng_db s) (eng_db s')"
  by (auto simp: with_session_def register_endpoint_def begin_block_def execute_def bind_act_def
      split: prod.splits sum.splits if_splits)

lemma wrapped_Inl: "Inl e = wrapped f q \<longleftrightarrow> q = Inl e"
  by (cases q) auto

lemma served_failed: "served p tok s c (Inl e) s' \<Longrightarrow> same_tables (eng_db s) (eng_db s')"
  by (erule served.cases) (auto simp only: wrapped_Inl intro: services_failed register_failed)

lemma wrapped_Inr: "Inr resp = wrapped (\<lambda>x. Response st (f x)) q \<Longrightarrow> response_status resp = st"
  by (cases q) auto

lemma served_ok: "served p tok s c (Inr resp) s' \<Longrightarrow> response_status resp \<in> {200, 201}"
  by (erule served.cases) (auto dest: wrapped_Inr)

text \<open>Claim C15. Failure is atomic on the whole surface: a request that is answered with any status but 200
  and 201, or not at all, leaves every table as it was, whichever route it took and however far
  its handler got.\<close>

theorem failed_requests_change_no_table:
  assumes "handle p req s = (resp, s')"
    and "\<And>r. resp = Some r \<Longrightarrow> response_status r \<notin> {200, 201}"
  shows "same_tables (eng_db s) (eng_db s')"
proof -
  obtain r where r: "route p (req_token req) (req_call req) s = (r, s')"
    and resp: "resp = (case r of Inl e \<Rightarrow> error_to_response e | Inr x \<Rightarrow> Some x)"
    using assms(1) by (auto simp: handle_def split: prod.splits sum.splits)
  show ?thesis
  proof (cases "reading_call (req_call req)")
    case True
    then show ?thesis using keepsD [OF reading_route [OF True] _ r] same_tables_refl by blast
  next
    case False
    from writing_route [OF False r] show ?thesis
    proof (elim disjE)
      assume "served p (req_token req) s (req_call req) r s'"
      then show ?thesis using served_failed served_ok resp assms(2) by (cases r) fastforce+
    qed (simp add: same_tables_refl)
  qed
qed

end
