(* ===== verification/Bystanders.thy ===== *)
theory Bystanders
  imports Conservation
begin

text \<open>
  What a request leaves alone, continued from \<open>Frames\<close> to the services. In the locale \<open>untouched\<close>,
  every successful request keeps the property if the user who makes it and all users with open
  orders may act without being noticed. It is interpreted on everything that a user holds, for
  users without open orders, and on the frozen balance of the platform's account.
\<close>

section \<open>Who has open orders\<close>

definition active_owners :: "db \<Rightarrow> (string \<times> string) set" where
  "active_owners d = (\<lambda>r. (ord_user_id r, ord_market_id r)) ` {r \<in> set (orders d). is_active r}"

text \<open>No open order of the user in any market.\<close>

definition idle :: "string \<Rightarrow> db \<Rightarrow> bool" where
  "idle k d \<longleftrightarrow> (\<forall>r \<in> set (orders d). is_active r \<longrightarrow> ord_user_id r \<noteq> k)"

lemma active_owners_idle: "(\<forall>(u, m) \<in> active_owners d. u \<noteq> k) \<longleftrightarrow> idle k d"
  by (auto simp: active_owners_def idle_def)

lemma book_owners:
  assumes "shows_but X m d ob" and "(sd, p, bo) \<in> resting ob"
  shows "(bo_user_id bo, m) \<in> active_owners d"
  by (rule shows_but_entry [OF assms]) (force simp: open_orders_def entry_key_def row_key_def active_owners_def)

lemma cancel_inline_active:
  assumes "cancel_inline ord w x s = (Inr ord', s')" and "wf_db (eng_db s)"
    and "shows_but X (ord_market_id ord) (eng_db s) (book_at (ord_market_id ord) s)"
    and "order_view (eng_db s) (ord_id ord) = Some ord"
  shows "active_owners (eng_db s') \<subseteq> active_owners (eng_db s)"
proof -
  note res = cancel_inline_shows [OF assms(1-3)]
  have "r \<in> ran (order_view (eng_db s))" if row: "r \<in> ran (order_view (eng_db s'))" "is_active r" for r
  proof -
    obtain oid where r: "set_row ord' (order_view (eng_db s)) oid = Some r" using row res by (auto simp: ran_def)
    have "oid \<noteq> ord_id ord'"
      using r res assms(4) row(2) by (auto simp: set_row_def status_columns_def is_active_def)
    then show ?thesis using r by (auto simp: set_row_def ran_def)
  qed
  moreover have "wf_db (eng_db s')" using res by simp
  ultimately show ?thesis using assms(2) by (auto simp: active_owners_def simp flip: ran_order_view)
qed

section \<open>Requests of other users\<close>

context untouched
begin

definition quiet :: "db \<Rightarrow> bool" where
  "quiet d \<longleftrightarrow> (\<forall>(u, m) \<in> active_owners d. may u m)"

lemma place_quiet:
  assumes run: "place_order ord s = (Inr x, s')" and ok: "in_order X s" and quiet: "quiet (eng_db s)"
    and user: "may (ord_user_id ord) (ord_market_id ord)" and I: "I (eng_db s)"
  shows "I (eng_db s')"
proof -
  obtain ord4 trs nq where run': "place_order ord s = (Inr (ord4, trs, nq), s')" using run by (cases x) auto
  have wf: "wf_db (eng_db s)" using ok by (simp add: in_order_def)
  note sync = placed_shows [OF ok run]
  show ?thesis
    by (rule place_order [OF run' wf shows_but_inv [OF sync] _ user I]) (use book_owners [OF sync] quiet in \<open>fastforce simp: quiet_def\<close>)
qed

lemma service_place_order:
  assumes run: "service_place_order req u s = (Inr resp, s')" and ok: "in_order X s"
    and "quiet (eng_db s)" and user: "\<And>m. may u m" and "I (eng_db s)"
  shows "I (eng_db s')"
  using service_place_cases [OF run]
proof (elim disjE bexE exE conjE)
  fix ord trs nq nt assume "place_order (next_order req u s) (id_taken s) = (Inr (ord, trs, nq), s')"
  moreover have "in_order X (id_taken s)"
    using in_order_same_tables [OF ok, of "id_taken s"] by (simp add: id_taken_def same_tables_def)
  moreover have "I (eng_db (id_taken s))" by (rule on_others [OF _ _ assms(5)]) (simp_all add: id_taken_def)
  moreover have "quiet (eng_db (id_taken s))" using assms(3) by (simp add: quiet_def active_owners_def id_taken_def)
  ultimately show ?thesis
    using place_quiet [of "next_order req u s" "id_taken s" _ s'] user
    by (simp add: next_order_def fresh_order_def order_post_init_def)
qed (use assms in simp)

lemma service_cancel_order:
  assumes run: "service_cancel_order oid u s = (Inr resp, s')" and ok: "in_order X s"
    and user: "\<And>m. may u m" and "I (eng_db s)"
  shows "I (eng_db s')"
proof -
  obtain ord where "cancel_order oid u s = (Inr ord, s')"
    using run by (auto simp: service_cancel_order_def ok_simps session_transaction_ok)
  then obtain ord0 where "ord_user_id ord0 = u" and inl: "cancel_inline ord0 u [] s = (Inr ord, s')"
    using cancel_order_runs ok by (metis in_order_def)
  then show ?thesis using keepsD [OF cancel_inline _ inl] assms(4) user by simp
qed

lemma atomic_replace:
  assumes run: "atomic_replace oid req u s = (Inr res, s')" and ok: "in_order X s"
    and quiet: "quiet (eng_db s)" and user: "\<And>m. may u m" and I: "I (eng_db s)"
  shows "I (eng_db s')"
proof -
  have "replace_order oid req u s = (Inr res, s')" using run by (simp add: atomic_replace_def session_transaction_ok)
  then obtain old s0 where look: "replace_lookup oid req u s = (Inr old, s0)"
    and lock: "replace_locked req u old s0 = (Inr res, s')" by (auto simp: replace_order_def bind_ok_iff)
  have old: "s0 = s" "order_view (eng_db s) oid = Some old" "ord_user_id old = u" "ord_market_id old = nop_market_id req"
    using replace_lookup_runs [OF look] ok by (simp_all add: in_order_def)
  have row: "order_view (eng_db s) (ord_id old) = Some old" using old(2) order_view_id by blast
  show ?thesis
  proof (rule replace_locked_runs [OF lock], goal_cases)
    case (1 old1 s1 nid d2 trs nq)
    let ?s2 = "s1\<lparr>eng_db := d2\<rparr>"
    have run1: "cancel_inline old u [(''replace_reason'', JStr ''atomic_replace'')] s = (Inr old1, s1)"
      using 1(1) old(1) by simp
    have d2: "same_tables (eng_db s1) d2" using 1(2) by (auto simp: generate_id_def same_tables_def)
    have sync: "shows_but X (ord_market_id old) (eng_db s) (book_at (ord_market_id old) s)"
      by (rule replaced_shows [OF ok run1 1(2,3)]) (simp add: old(4) fresh_order_new)
    have "in_order X s1" using cancel_in_order [OF run1 ok row sync] by simp
    then have ok2: "in_order X ?s2" using in_order_same_tables [of X s1 ?s2] d2 by simp
    have "I (eng_db s1)" using keepsD [OF cancel_inline _ run1] old(3) user I by simp
    then have I2: "I (eng_db ?s2)" using d2 by (auto simp: same_tables_def intro: on_others)
    have "wf_db (eng_db s)" using ok by (simp add: in_order_def)
    from cancel_inline_active [OF run1 this sync row] have "quiet (eng_db ?s2)"
      using d2 quiet by (auto simp: quiet_def active_owners_def same_tables_def)
    then show ?case
      using place_quiet [OF 1(3) ok2] user I2 by (simp add: fresh_order_def order_post_init_def)
  qed
qed

lemma batch_cancel_endpoint:
  assumes "batch_cancel_endpoint m scope u s = (Inr res, s')" and "may u m" and "I (eng_db s)"
  shows "I (eng_db s')"
proof -
  have "batch_cancel m u scope s = (Inr res, s')"
    using assms(1) by (simp add: batch_cancel_endpoint_def session_transaction_ok)
  from keepsD [OF batch_cancel _ this] assms(2,3) show ?thesis by simp
qed

lemma account_deposit:
  assumes "in_db (account_deposit u n) s = (Inr x, s')" and "U u" and "I (eng_db s)"
  shows "I (eng_db s')"
  using assms keepsD [OF postings(1)] by (fastforce simp: in_db_ok account_deposit_ok_iff)

lemma account_withdraw:
  assumes "in_db (account_withdraw u n) s = (Inr x, s')" and "U u" and "I (eng_db s)"
  shows "I (eng_db s')"
  using assms keepsD [OF postings(2)] by (fastforce simp: in_db_ok account_withdraw_ok_iff)

lemma resolution:
  assumes run: "in_db (resolve_market m oc) s = (Inr x, s')" and ok: "in_order X s"
    and quiet: "quiet (eng_db s)" and rows: "\<And>p. p \<in> set (market_rows m (eng_db s)) \<Longrightarrow> may (pos_user_id p) m"
    and I: "I (eng_db s)"
  shows "I (eng_db s')"
proof -
  obtain d' where res: "resolve_market m oc (eng_db s) = (Inr x, d')" and s': "s' = s\<lparr>eng_db := d'\<rparr>"
    using run by (auto simp: in_db_ok)
  have "may (ord_user_id o1) m" if "o1 \<in> set (open_orders m (eng_db s))" for o1
    using that quiet by (auto simp: open_orders_def quiet_def active_owners_def)
  moreover have "wf_db (eng_db s)" using ok by (simp add: in_order_def)
  ultimately show ?thesis using resolve_market [OF res _ rows] I by (simp add: s')
qed

lemma register_endpoint:
  assumes "with_session (register_endpoint hashpw new_id name mail password) s = (Inr x, s')" and "I (eng_db s)"
  shows "I (eng_db s')"
proof -
  have "keeps I (register hashpw new_id name mail password)"
    unfolding register_def user_by_def Let_def by (intro elsewhere on_new_account)
  moreover obtain u d' where "register hashpw new_id name mail password (eng_db s) = (Inr u, d')" "s' = s\<lparr>eng_db := d'\<rparr>"
    using assms(1)
    by (auto simp: with_session_def register_endpoint_def begin_block_def execute_def bind_act_def
        split: prod.splits sum.splits if_splits)
  ultimately show ?thesis using keepsD assms(2) by fastforce
qed

end

section \<open>What is left alone\<close>

text \<open>Everything a user holds: the row of the account and the positions.\<close>

definition holdings :: "string \<Rightarrow> db \<Rightarrow> account list \<times> position list" where
  "holdings k d = (filter (\<lambda>a. acc_user_id a = k) (accounts d), filter (\<lambda>p. pos_user_id p = k) (positions d))"

definition fee_frozen :: "db \<Rightarrow> int list" where
  "fee_frozen d = map frozen_balance (filter (\<lambda>a. acc_user_id a = PLATFORM_FEE_USER_ID) (accounts d))"

interpretation bystander: untouched "\<lambda>d. k = PLATFORM_FEE_USER_ID \<or> fst x \<noteq> [] \<and> holdings k d = x"
    "\<lambda>u. u \<noteq> k" "\<lambda>u _. u \<noteq> k" for k x
proof (unfold_locales, goal_cases)
  case (1 u P f)
  then show ?case by (intro keeps_sql_update) (auto simp: holdings_def filter_update_where)
next
  case (2 u m Q g)
  note g = pos_key_parts [OF 2(3)]
  show ?case by (intro keeps_sql_update) (use 2(1,2) g in \<open>auto simp: holdings_def filter_update_where pos_key_def\<close>)
next
  case (3 u m row Q g)
  note g = pos_key_parts [OF 3(4)]
  show ?case by (intro keeps_sql_upsert) (use 3(1-3) g in \<open>auto simp: holdings_def filter_update_where pos_key_def\<close>)
next
  case (4 n)
  then show ?case unfolding add_balance_sql_def
    by (intro keeps_sql_update) (auto simp: holdings_def filter_update_where)
next
  case (5 a1)
  then show ?case
    by (intro keeps_sql_insert) (force simp: holdings_def account_clash_def list_ex_iff filter_empty_conv)
qed (auto simp: holdings_def)

interpretation fees: untouched "\<lambda>d. z \<noteq> [] \<and> fee_frozen d = z"
    "\<lambda>u. u \<noteq> PLATFORM_FEE_USER_ID" "\<lambda>_ _. True" for z
proof (unfold_locales, goal_cases)
  case (1 u P f)
  then show ?case by (intro keeps_sql_update) (auto simp: fee_frozen_def filter_update_where)
next
  case (4 n)
  have "map frozen_balance (filter K (update_where K f rows)) = map frozen_balance (filter K rows)"
    if "\<And>a. frozen_balance (f a) = frozen_balance a" "\<And>a. K (f a) = K a" for K f and rows :: "account list"
    using that by (induction rows) auto
  then show ?case unfolding add_balance_sql_def
    by (intro keeps_sql_update) (simp add: fee_frozen_def)
next
  case (5 a1)
  then show ?case
    by (intro keeps_sql_insert) (force simp: fee_frozen_def account_clash_def list_ex_iff filter_empty_conv)
qed (auto simp: fee_frozen_def keeps_def sql_update_def sql_upsert_def Let_def split: if_splits)

section \<open>Whose orders there are\<close>

abbreviation order_owners :: "engine_state \<Rightarrow> string set" where
  "order_owners s \<equiv> owners (order_view (eng_db s))"

lemma idle_no_owner: "wf_db (eng_db s) \<Longrightarrow> k \<notin> order_owners s \<Longrightarrow> idle k (eng_db s)"
  by (auto simp: owners_def ran_order_view idle_def)

lemma same_tables_owners: "same_tables d d' \<Longrightarrow> order_view d' = order_view d"
  by (simp add: same_tables_def order_view_def fun_eq_iff)

lemma place_owners:
  assumes "service_place_order req u s = (Inr resp, s')" and ok: "in_order X s"
  shows "order_owners s' \<subseteq> insert u (order_owners s)"
  using service_place_cases [OF assms(1)]
proof (elim disjE bexE exE conjE)
  fix ord trs nq nt assume run: "place_order (next_order req u s) (id_taken s) = (Inr (ord, trs, nq), s')"
  have same: "same_tables (eng_db s) (eng_db (id_taken s))" by (simp add: id_taken_def same_tables_def)
  have ok2: "in_order X (id_taken s)"
    using in_order_same_tables [OF ok same] by (simp add: id_taken_def)
  have "order_owners s' \<subseteq> insert (ord_user_id (next_order req u s)) (order_owners (id_taken s))"
    using place_order_elsewhere [OF run _ _ placed_shows [OF ok2 run]] ok2 fresh_order_new
    by (simp add: in_order_def next_order_def)
  then show ?thesis
    using same_tables_owners [OF same] by (simp add: next_order_def fresh_order_def order_post_init_def)
qed auto

lemma cancel_owners:
  assumes "service_cancel_order oid u s = (Inr resp, s')" and ok: "in_order X s"
  shows "order_owners s' \<subseteq> order_owners s"
proof -
  obtain ord where "cancel_order oid u s = (Inr ord, s')"
    using assms(1) by (auto simp: service_cancel_order_def ok_simps session_transaction_ok)
  then obtain ord0 where ord0: "order_view (eng_db s) oid = Some ord0" "is_active ord0"
    and "cancel_inline ord0 u [] s = (Inr ord, s')"
    using cancel_order_runs ok by (metis in_order_def)
  then show ?thesis
    using cancel_inline_elsewhere [of ord0 u "[]" s ord s'] order_view_id [of "eng_db s" oid ord0]
      in_order_live(2) [OF ok ord0] ok by (simp add: in_order_def)
qed

lemma batch_owners:
  assumes "batch_cancel_endpoint m scope u s = (Inr res, s')" and ok: "in_order X s"
  shows "order_owners s' \<subseteq> order_owners s"
proof -
  have run: "batch_cancel m u scope s = (Inr res, s')"
    using assms(1) by (simp add: batch_cancel_endpoint_def session_transaction_ok)
  have wf: "wf_db (eng_db s)" using ok by (simp add: in_order_def)
  show ?thesis
  proof (cases "batch_rows m u scope (eng_db s) = []")
    case True
    then show ?thesis using batch_cancel_none [OF run] by simp
  next
    case False
    then show ?thesis using batch_cancel_elsewhere [OF run wf batch_shows(1) [OF ok False]] by simp
  qed
qed

lemma replace_owners:
  assumes "atomic_replace oid req u s = (Inr res, s')" and ok: "in_order X s"
  shows "order_owners s' \<subseteq> insert u (order_owners s)"
proof -
  have "replace_order oid req u s = (Inr res, s')" using assms(1) by (simp add: atomic_replace_def session_transaction_ok)
  then obtain old s0 where look: "replace_lookup oid req u s = (Inr old, s0)"
    and lock: "replace_locked req u old s0 = (Inr res, s')" by (auto simp: replace_order_def bind_ok_iff)
  have old: "s0 = s" "order_view (eng_db s) oid = Some old" "ord_market_id old = nop_market_id req"
    using replace_lookup_runs [OF look] ok by (simp_all add: in_order_def)
  have row: "order_view (eng_db s) (ord_id old) = Some old" using old(2) order_view_id by blast
  show ?thesis
  proof (rule replace_locked_runs [OF lock], goal_cases)
    case (1 old1 s1 nid d2 trs nq)
    let ?s2 = "s1\<lparr>eng_db := d2\<rparr>"
    have run1: "cancel_inline old u [(''replace_reason'', JStr ''atomic_replace'')] s = (Inr old1, s1)"
      using 1(1) old(1) by simp
    have d2: "same_tables (eng_db s1) d2" using 1(2) by (auto simp: generate_id_def same_tables_def)
    have sync: "shows_but X (ord_market_id old) (eng_db s) (book_at (ord_market_id old) s)"
      by (rule replaced_shows [OF ok run1 1(2,3)]) (simp add: old(3) fresh_order_new)
    have ok1: "in_order X s1" using cancel_in_order [OF run1 ok row sync] by simp
    then have ok2: "in_order X ?s2" using in_order_same_tables [of X s1 ?s2] d2 by simp
    then have "order_owners s' \<subseteq> insert u (order_owners ?s2)"
      using place_order_elsewhere [OF 1(3) _ _ placed_shows [OF ok2 1(3)]] fresh_order_new
      by (simp add: in_order_def) (simp add: fresh_order_def order_post_init_def)
    moreover have "order_owners s1 \<subseteq> order_owners s"
      using cancel_inline_elsewhere [OF run1 _ sync row] ok by (simp add: in_order_def)
    ultimately show ?case using same_tables_owners [OF d2] by auto
  qed
qed

end
