(* ===== verification/Failures.thy ===== *)
theory Failures
  imports Conservation
begin

text \<open>
  What a request that fails does to a system in order. The tables are rolled back, but the
  in-memory book of the market is evicted or has lost entries; so does a restart with all books. The
  orders that are missing afterwards join the lost ones, and with them the system is in order
  again: no failure costs or creates money. A replacement that a check refuses keeps its book, without
  the old order.
\<close>

section \<open>After matching, no error is one of the application\<close>

lemma no_app_error_control:
  "\<not> is_app_error e \<Longrightarrow> no_app_error (raise e)"
  "\<not> (b \<and> is_app_error e) \<Longrightarrow> no_app_error (raise_if b e)"
  "no_app_error m \<Longrightarrow> no_app_error (when_act b m)"
  "(\<And>x y. no_app_error (f x y)) \<Longrightarrow> no_app_error (case p of (x, y) \<Rightarrow> f x y)"
  "(\<And>x y. no_app_error (g2 x y z)) \<Longrightarrow> no_app_error ((case p2 of (x, y) \<Rightarrow> g2 x y) z)"
  "no_app_error n \<Longrightarrow> (\<And>x. no_app_error (g x)) \<Longrightarrow> no_app_error (case q of None \<Rightarrow> n | Some x \<Rightarrow> g x)"
  "no_app_error (sql_upsert name ck tab put K row h)"
  by (auto simp: no_app_error_def raise_if_run when_act_run sql_upsert_def is_app_error_def
      split: prod.splits option.splits if_splits)

lemma no_app_error_fold: "(\<And>x b. no_app_error (f x b)) \<Longrightarrow> no_app_error (fold_act f xs b)"
  by (induction xs arbitrary: b) (simp_all add: no_app_error_base no_app_error_bind)

lemma not_app_errors:
  "\<not> is_app_error (RuntimeError t)" "\<not> is_app_error (AssertionError t)" "\<not> is_app_error IndexError"
  "\<not> is_app_error AttributeError" "\<not> is_app_error (DBError t)" "\<not> is_app_error DoesNotReturn"
  by (simp_all add: is_app_error_def)

lemmas never_app_errors = no_app_errors no_app_error_control no_app_error_fold

text \<open>The loops of the matching algorithm: a price outside the lists, or a loop that does not end.\<close>

lemma match_buy_error:
  assumes "match_buy inc trs ob = Some r"
  shows "\<forall>e. fst r = Inl e \<longrightarrow> e = IndexError"
  by (rule match_buy.raw_induct [where P = "\<lambda>_ _ _ r. \<forall>e. fst r = Inl e \<longrightarrow> e = IndexError", OF _ assms])
     (auto simp: Let_def split: if_splits option.splits prod.splits)

lemma match_sell_error:
  assumes "match_sell inc trs ob = Some r"
  shows "\<forall>e. fst r = Inl e \<longrightarrow> e = IndexError"
  by (rule match_sell.raw_induct [where P = "\<lambda>_ _ _ r. \<forall>e. fst r = Inl e \<longrightarrow> e = IndexError", OF _ assms])
     (auto simp: Let_def split: if_splits option.splits prod.splits)

lemma no_app_error_match: "no_app_error (match_order inc)"
  by (auto simp: no_app_error_def match_order_def is_app_error_def split: option.splits if_splits
      dest!: match_buy_error match_sell_error)

lemma no_app_error_book: "no_app_error (add_order bo p sd)"
  by (auto simp: no_app_error_def add_order_def is_app_error_def Let_def split: option.splits prod.splits if_splits)

lemma no_app_error_settle: "no_app_error (settle_trade tr ms)"
  unfolding clearing_defs
  by (cases "determine_scenario (buy_book_type tr) (sell_book_type tr)")
     (simp_all, (intro never_app_errors; simp add: not_app_errors)+)

lemma no_app_error_fee: "no_app_error (collect_fee tr bps)"
  unfolding collect_fee_def collect_fee_from_frozen_def collect_fee_from_proceeds_def add_balance_sql_def Let_def
  by (intro never_app_errors)

lemma no_app_error_netting: "no_app_error (execute_netting_if_needed u m ms)"
  unfolding execute_netting_if_needed_def do_netting_def net_position_sql_def add_balance_sql_def Let_def
  by (intro never_app_errors)

lemma no_app_error_records:
  "no_app_error (write_trade tr sc k fee bp sp)" "no_app_error (order_update_status o1)"
  "no_app_error (update_maker_status tr)" "no_app_error (write_wal_event ty oid m u extra)"
  "no_app_error (write_ledger u lt n bal rt ri)"
  unfolding write_trade_def generate_id_def update_maker_status_def order_get_by_id_def order_update_status_def
    write_wal_event_def write_ledger_def
  by (intro never_app_errors; simp add: no_app_error_def)+

lemma no_app_error_fill: "no_app_error (clear_fill tr acc)"
  unfolding clear_fill_def Let_def
  by (intro never_app_errors no_app_error_settle no_app_error_fee no_app_error_netting no_app_error_records)

lemma no_app_error_finalize: "no_app_error (finalize_order m ord 0)"
  unfolding finalize_order_def unfreeze_remainder_def unfreeze_funds_sql_def unfreeze_yes_sql_def
    unfreeze_no_sql_def write_ledger_def write_wal_event_def order_update_status_def Let_def
  by (intro never_app_errors no_app_error_book; simp)

lemma no_app_error_checks: "no_app_error (verify_invariants_after_trade ms)" "no_app_error (flush_market ms)"
  "no_app_error (load_market m)"
  unfolding verify_invariants_after_trade_def flush_market_def load_market_def Let_def
  by (intro never_app_errors; simp add: not_app_errors)+

text \<open>So an error of the application comes from the checks before the book is touched.\<close>

lemma in_db_books: "in_db m s = (r, s1) \<Longrightarrow> orderbooks s1 = orderbooks s"
  by (auto simp: in_db_def split: prod.splits)

lemma place_inner_app_error:
  assumes run: "place_order_inner ord s = (Inl e, s')" and e: "is_app_error e"
  shows "orderbooks s' = orderbooks s"
proof (cases "fst (in_db (prepare_order ord) s)")
  case (Inl e')
  then have "in_db (prepare_order ord) s = (Inl e', snd (in_db (prepare_order ord) s))" by (rule run_of_fst)
  then show ?thesis using run in_db_books by (simp add: place_order_inner_def)
next
  case (Inr ord1)
  then have prep: "in_db (prepare_order ord) s = (Inr ord1, snd (in_db (prepare_order ord) s))" by (rule run_of_fst)
  let ?rest = "bind_act (in_db (load_market (ord_market_id ord1))) (\<lambda>market.
    bind_act (in_book (ord_market_id ord1) (match_order ord1)) (\<lambda>(ord2, trade_results).
    bind_act (in_db (fold_act clear_fill trade_results (market, ord2, 0))) (\<lambda>(market1, ord3, netting_qty).
    bind_act (finalize_order (ord_market_id ord1) ord3 0) (\<lambda>ord4.
    bind_act (when_act (trade_results \<noteq> []) (in_db (verify_invariants_after_trade market1))) (\<lambda>_.
    bind_act (in_db (flush_market market1)) (\<lambda>_.
    ret (ord4, trade_results, netting_qty)))))))"
  have "no_app_error ?rest"
    by (intro never_app_errors no_app_error_match no_app_error_fill no_app_error_finalize no_app_error_checks)
  moreover have "?rest (snd (in_db (prepare_order ord) s)) = (Inl e, s')"
    using run prep by (simp add: place_order_inner_def)
  ultimately show ?thesis using e unfolding no_app_error_def by blast
qed

section \<open>A refused replacement\<close>

text \<open>Claim C39. A replacement whose new order is refused by one of the checks undoes the cancellation in
  the database but not in the book, which is kept: no table changes, so that the old order is
  stored as before, but its entry has left the book of its market and all other entries are still there. When
  the old order is open, book and database have come apart: it is open and cannot trade.\<close>

theorem refused_replace_splits_book_and_database:
  assumes run: "replace_order oid ps u s = (Inl e, s')" and app: "is_app_error e"
    and look: "replace_lookup oid ps u s = (Inr old, s)" and wf: "wf_db (eng_db s)"
    and inv: "ob_inv (book_at (nop_market_id ps) s)"
  shows "same_tables (eng_db s) (eng_db s') \<and> order_view (eng_db s') oid = Some old \<and>
    orderbooks s' (nop_market_id ps) \<noteq> None \<and>
    resting (book_at (nop_market_id ps) s') = {x \<in> resting (book_at (nop_market_id ps) s). entry_id x \<noteq> oid} \<and>
    (is_active old \<longrightarrow> \<not> synced (nop_market_id ps) (eng_db s') (book_at (nop_market_id ps) s'))"
proof -
  let ?m = "nop_market_id ps" and ?x = "[(''replace_reason'', JStr ''atomic_replace'')]"
  note old = replace_lookup_runs [OF look wf]
  have id: "ord_id old = oid" using old order_view_id by blast
  obtain s1 where inner: "bind_act (cancel_inline old u ?x) (\<lambda>old1. bind_act (in_db generate_id) (\<lambda>nid.
        bind_act (in_db (reads clock)) (\<lambda>now. bind_act (place_order_inner (fresh_order nid ps u now)) (\<lambda>(new_order, trs, netting_qty).
        ret \<lparr>rr_old_order_id = ord_id old, rr_old_filled_quantity = filled_quantity old1,
             rr_old_original_quantity = quantity old1, rr_new_order = new_order, rr_trades = trs\<rparr>)))) s = (Inl e, s1)"
    and s': "s' = s1\<lparr>eng_db := rollback_to (eng_db s) (eng_db s1)\<rparr>"
    using run look app
    by (auto simp: replace_order_def replace_locked_def nested_def on_error_def bind_run evict_unless_app_error_def
        split: prod.splits sum.splits)
  obtain old1 s2 where c: "cancel_inline old u ?x s = (Inr old1, s2)"
    using inner app no_app_error_cancel_inline [of old u ?x] unfolding no_app_error_def
    by (cases "cancel_inline old u ?x s") (auto simp: bind_run split: sum.splits)
  obtain nid d3 where g: "generate_id (eng_db s2) = (Inr nid, d3)" by (auto simp: generate_id_def)
  have "place_order_inner (fresh_order nid ps u (clock d3)) (s2\<lparr>eng_db := d3\<rparr>) = (Inl e, s1)"
    using inner c g by (auto simp: bind_run in_db_def split: prod.splits sum.splits)
  then have books: "orderbooks s1 = orderbooks s2" using place_inner_app_error app by fastforce
  have tables: "same_tables (eng_db s) (eng_db s')" by (simp add: s')
  then have view: "order_view (eng_db s') oid = Some old" using old by (simp add: same_tables_def order_view_def)
  have rest: "orderbooks s2 ?m \<noteq> None \<and>
    resting (book_at ?m s2) = {x \<in> resting (book_at ?m s). entry_id x \<noteq> oid}"
  proof (rule cancel_inline_runs [OF c], goal_cases)
    case (1 ob' d1 d2 d3)
    obtain ob2 where "book_cancel (ord_id old) (book_at ?m s) = (Inr (), ob2)"
      "resting ob2 = {x \<in> resting (book_at ?m s). entry_id x \<noteq> ord_id old}"
      by (rule book_cancel_ok [OF inv])
    then show ?case using 1(1,6) old id by simp
  qed
  have at: "book_at ?m s' = book_at ?m s2" using books by (simp add: book_at_def s')
  have "\<not> synced ?m (eng_db s') (book_at ?m s')" if "is_active old"
  proof
    assume sync: "synced ?m (eng_db s') (book_at ?m s')"
    have "old \<in> set (open_orders ?m (eng_db s'))"
      using view old that by (auto simp: open_orders_def order_view_def is_active_def dest: lookup_row_SomeD)
    then obtain x where "x \<in> resting (book_at ?m s')" "entry_key x = row_key old"
      using sync unfolding synced_def by (metis (no_types, lifting) imageE image_eqI)
    then have "entry_id x = oid" "x \<in> resting (book_at ?m s2)"
      using id at by (cases x; simp add: entry_key_def row_key_def entry_id_def)+
    then show False using rest by simp
  qed
  then show ?thesis using tables view rest at books by (simp add: s')
qed

theorem refused_replace_splits_book_and_database_witness:
  "\<exists>s'. replace_order ''r1'' (new_bid 100) ''carol'' even_engine = (Inl (PriceOutOfRangeError 100), s') \<and>
     order_view (eng_db s') ''r1'' = Some sample_open \<and> \<not> synced ''M'' (eng_db s') (book_at ''M'' s')"
proof -
  from run_exists [OF refused_replace_runs] obtain s' where
    run: "replace_order ''r1'' (new_bid 100) ''carol'' even_engine = (Inl (PriceOutOfRangeError 100), s')" ..
  have app: "is_app_error (PriceOutOfRangeError 100)" by code_simp
  have row: "order_view (eng_db even_engine) ''r1'' = Some sample_open" by code_simp
  have look: "replace_lookup ''r1'' (new_bid 100) ''carol'' even_engine = (Inr sample_open, even_engine)"
    by (simp add: exec_defs exec_samples new_bid_def cong: exec_congs)
  have m: "nop_market_id (new_bid 100) = ''M''" by (simp add: new_bid_def)
  have inv: "ob_inv (book_at (nop_market_id (new_bid 100)) even_engine)" using even_engine_ok(2) by (simp add: m synced_def)
  have "is_active sample_open" by code_simp
  then show ?thesis
    using refused_replace_splits_book_and_database [OF run app look even_engine_ok(1) inv] run by (simp add: m)
qed

section \<open>Books that lose entries\<close>

definition thinner :: "engine_state \<Rightarrow> engine_state \<Rightarrow> bool" where
  "thinner s s' \<longleftrightarrow> (\<forall>m. ob_inv (book_at m s) \<longrightarrow>
     ob_inv (book_at m s') \<and> resting (book_at m s') \<subseteq> resting (book_at m s))"

lemma thinner_refl: "orderbooks s' = orderbooks s \<Longrightarrow> thinner s s'"
  by (simp add: thinner_def book_at_def)

lemma thinner_trans: "thinner s s1 \<Longrightarrow> thinner s1 s2 \<Longrightarrow> thinner s s2"
  by (auto simp: thinner_def)

lemma thinner_evicted:
  assumes "\<And>k. k \<noteq> m \<Longrightarrow> orderbooks s' k = orderbooks s k" and "orderbooks s' m = None"
  shows "thinner s s'"
proof -
  have "book_at k s' = (if k = m then OrderBook m else book_at k s)" for k
    using assms by (simp add: book_at_def)
  then show ?thesis by (simp add: thinner_def OrderBook_inv)
qed

lemma thinner_restart: "thinner s (s\<lparr>orderbooks := Map.empty\<rparr>)"
  by (simp add: thinner_def book_at_def OrderBook_inv)

text \<open>Cancelling in the books makes them thinner, whether or not the handler goes on to fail.\<close>

lemma keeps_thinner_in_db [pres_intros]: "keeps (thinner s0) (in_db a)"
  by (rule keepsI) (use thinner_trans thinner_refl in_db_books in blast)

lemma keeps_thinner_cancel: "keeps (thinner s0) (in_book m (book_cancel oid))"
proof (rule keepsI)
  fix s r s' assume thin: "thinner s0 s" and run: "in_book m (book_cancel oid) s = (r, s')"
  have "thinner s s'"
    unfolding thinner_def
  proof (intro allI impI)
    fix k assume inv: "ob_inv (book_at k s)"
    show "ob_inv (book_at k s') \<and> resting (book_at k s') \<subseteq> resting (book_at k s)"
    proof (cases "k = m")
      case True
      obtain ob' where "book_cancel oid (book_at m s) = (Inr (), ob')" "ob_inv ob'"
        "resting ob' = {e \<in> resting (book_at m s). entry_id e \<noteq> oid}"
        by (rule book_cancel_ok [OF inv [unfolded True]])
      then have "book_at m s' = ob'" using run by (auto simp: in_book_run)
      then show ?thesis using \<open>ob_inv ob'\<close> \<open>resting ob' = _\<close> True by simp
    next
      case False
      then show ?thesis
        using keepsD [OF keeps_other_in_book [of m "orderbooks s"] _ run] inv by (simp add: other_books_def book_at_def)
    qed
  qed
  with thin show "thinner s0 s'" by (rule thinner_trans)
qed

lemma keeps_thinner_existing: "keeps (thinner s0) (cancel_in_existing_book m ids)"
proof (rule keepsI)
  fix s r s' assume thin: "thinner s0 s" and run: "cancel_in_existing_book m ids s = (r, s')"
  have "thinner s s'"
  proof (cases "orderbooks s m")
    case None
    then show ?thesis using run by (simp add: cancel_in_existing_book_def thinner_refl)
  next
    case (Some ob)
    have "ob_inv (book_at k s') \<and> resting (book_at k s') \<subseteq> resting (book_at k s)" if inv: "ob_inv (book_at k s)" for k
    proof (cases "k = m")
      case True
      then obtain ob' where "fold_act (\<lambda>oid _. book_cancel oid) ids () ob = (Inr (), ob')" "ob_inv ob'"
        "resting ob' = {e \<in> resting ob. entry_id e \<notin> set ids}"
        using ob.cancel_all [of ob ids] inv Some by (auto simp: book_at_def)
      moreover from this(1) have "s' = s\<lparr>orderbooks := (orderbooks s)(m \<mapsto> ob')\<rparr>"
        using run Some by (simp add: cancel_in_existing_book_def)
      ultimately show ?thesis using True Some by (simp add: book_at_def)
    next
      case False
      then show ?thesis using run Some inv
        by (auto simp: cancel_in_existing_book_def book_at_def split: prod.splits)
    qed
    then show ?thesis by (simp add: thinner_def)
  qed
  with thin show "thinner s0 s'" by (rule thinner_trans)
qed

lemma keeps_thinner_handlers:
  "keeps (thinner s0) (cancel_inline ord w x)" "keeps (thinner s0) (batch_cancel m u scope)"
  unfolding cancel_inline_def batch_cancel_def Let_def
  by (intro pres_intros keeps_thinner_cancel keeps_thinner_existing)+

section \<open>Each failure leaves thinner books\<close>

lemma session_failed_books:
  assumes "session_transaction m s = (Inl e, s')"
  obtains s1 where "m s = (Inl e, s1)" "orderbooks s' = orderbooks s1"
  using assms by (auto simp: session_transaction_def on_error_def split: prod.splits sum.splits)

lemma nested_failed_books:
  assumes "on_error (nested m) h s = (Inl e, s')"
  obtains s1 s2 where "m s = (Inl e, s1)" "orderbooks s2 = orderbooks s1" "s' = h e s2"
proof -
  obtain s1 where run: "m s = (Inl e, s1)" and s': "s' = h e (s1\<lparr>eng_db := rollback_to (eng_db s) (eng_db s1)\<rparr>)"
    using assms by (auto simp: nested_def on_error_def split: prod.splits sum.splits)
  show thesis by (rule that [OF run _ s']) simp
qed

lemma place_failed_thinner:
  assumes "place_order ord s = (Inl e, s')"
  shows "thinner s s'"
proof -
  obtain s1 s2 where run: "place_order_inner ord s = (Inl e, s1)" and s2: "orderbooks s2 = orderbooks s1"
    and s': "s' = evict (ord_market_id ord) s2"
    using assms unfolding place_order_def by (rule nested_failed_books)
  have "other_books (ord_market_id ord) (orderbooks s) s1"
    using keepsD [OF keeps_other_inner _ run] by (simp add: other_books_def)
  then show ?thesis by (intro thinner_evicted) (auto simp: s' s2 evict_def other_books_def)
qed

lemma service_place_failed:
  assumes "service_place_order req u s = (Inl e, s')"
  shows "thinner s s'"
proof (cases "lookup_row (\<lambda>r. ord_client_key r = (nop_client_order_id req, u)) (orders (eng_db s))")
  case (Some r)
  then show ?thesis using assms by (auto simp: service_place_run intro: thinner_refl split: if_splits)
next
  case None
  then have "session_transaction (place_order (next_order req u s)) (id_taken s) = (Inl e, s')"
    using assms by (simp add: service_place_run split: prod.splits sum.splits)
  then obtain s1 where "place_order (next_order req u s) (id_taken s) = (Inl e, s1)" "orderbooks s' = orderbooks s1"
    by (rule session_failed_books)
  then have "thinner (id_taken s) s'" using place_failed_thinner thinner_trans thinner_refl by blast
  moreover have "thinner s (id_taken s)" by (intro thinner_refl) (simp add: id_taken_def)
  ultimately show ?thesis using thinner_trans by blast
qed

lemma service_cancel_failed:
  assumes "service_cancel_order oid u s = (Inl e, s')" and "wf_db (eng_db s)"
  shows "thinner s s'"
proof -
  have "session_transaction (cancel_order oid u) s = (Inl e, s')"
    using assms(1) by (auto simp: service_cancel_order_def bind_act_def split: prod.splits sum.splits)
  then obtain s1 where run: "cancel_order oid u s = (Inl e, s1)" and s': "orderbooks s' = orderbooks s1"
    by (rule session_failed_books)
  have "s1 = s \<or> (\<exists>m. orderbooks s1 = (orderbooks s)(m := None))"
    using cancel_order_failure [OF run assms(2)] by (auto split: if_splits)
  then show ?thesis by (elim disjE exE) (auto simp: s' intro: thinner_refl thinner_evicted)
qed

lemma batch_failed:
  assumes "batch_cancel_endpoint m scope u s = (Inl e, s')"
  shows "thinner s s'"
proof -
  obtain s1 where run: "batch_cancel m u scope s = (Inl e, s1)" and s': "orderbooks s' = orderbooks s1"
    using assms unfolding batch_cancel_endpoint_def by (rule session_failed_books)
  show ?thesis
    using keepsD [OF keeps_thinner_handlers(2) _ run] thinner_refl [of s s] thinner_trans thinner_refl [OF s'] by blast
qed

lemma replace_failed:
  assumes "atomic_replace oid req u s = (Inl e, s')" and "wf_db (eng_db s)"
  shows "thinner s s'"
proof -
  obtain t where run: "replace_order oid req u s = (Inl e, t)" and s': "orderbooks s' = orderbooks t"
    using assms(1) unfolding atomic_replace_def by (rule session_failed_books)
  have "thinner s t"
  proof (cases "fst (replace_lookup oid req u s)")
    case (Inl e')
    then have look: "replace_lookup oid req u s = (Inl e', snd (replace_lookup oid req u s))" by (rule run_of_fst)
    have "keeps (thinner s) (replace_lookup oid req u)"
      unfolding replace_lookup_def by (intro pres_intros keeps_case_option)
    from keepsD [OF this thinner_refl [OF refl] look] have "thinner s (snd (replace_lookup oid req u s))" .
    then show ?thesis using run look by (simp add: replace_order_def)
  next
    case (Inr old)
    then have look: "replace_lookup oid req u s = (Inr old, snd (replace_lookup oid req u s))" by (rule run_of_fst)
    then have at: "snd (replace_lookup oid req u s) = s" and m: "ord_market_id old = nop_market_id req"
      using replace_lookup_runs [OF look assms(2)] by simp_all
    let ?m = "ord_market_id old"
    let ?place = "\<lambda>nid now. place_order_inner (fresh_order nid req u now)"
    let ?inner = "bind_act (cancel_inline old u [(''replace_reason'', JStr ''atomic_replace'')]) (\<lambda>old1.
        bind_act (in_db generate_id) (\<lambda>nid. bind_act (in_db (reads clock)) (\<lambda>now.
        bind_act (?place nid now) (\<lambda>(new_order, trs, netting_qty).
        ret \<lparr>rr_old_order_id = ord_id old, rr_old_filled_quantity = filled_quantity old1,
             rr_old_original_quantity = quantity old1, rr_new_order = new_order, rr_trades = trs\<rparr>))))"
    have "replace_locked req u old s = (Inl e, t)" using run look at by (simp add: replace_order_def)
    then obtain s1 s2 where inner: "?inner s = (Inl e, s1)"
      and s2: "orderbooks s2 = orderbooks s1" and t: "t = evict_unless_app_error ?m e s2"
      unfolding replace_locked_def by (rule nested_failed_books)
    show ?thesis
    proof (cases "is_app_error e")
      case False
      have placing: "keeps (other_books ?m (orderbooks s)) (?place nid now)" for nid now
        using keeps_other_inner [of "fresh_order nid req u now" "orderbooks s"] m fresh_order_new by simp
      have "keeps (other_books ?m (orderbooks s)) ?inner"
        by (intro pres_intros keeps_case_prod keeps_other_cancel_inline placing)
      from keepsD [OF this _ inner] have "other_books ?m (orderbooks s) s1" by (simp add: other_books_def)
      then show ?thesis
        using False by (intro thinner_evicted [of ?m]) (auto simp: t s2 evict_unless_app_error_def evict_def other_books_def)
    next
      case True
      obtain old1 c where c: "cancel_inline old u [(''replace_reason'', JStr ''atomic_replace'')] s = (Inr old1, c)"
        using inner True no_app_error_cancel_inline [of old u "[(''replace_reason'', JStr ''atomic_replace'')]"]
        unfolding no_app_error_def by (auto simp: bind_run split: prod.splits sum.splits)
      obtain nid d where g: "in_db generate_id c = (Inr nid, d)" and d: "orderbooks d = orderbooks c"
        by (cases "in_db generate_id c") (auto simp: in_db_def generate_id_def)
      have "in_db (reads clock) d = (Inr (clock (eng_db d)), d)" by (simp add: in_db_def)
      then have "?place nid (clock (eng_db d)) d = (Inl e, s1)"
        using inner by (auto simp: bind_run c g split: prod.splits sum.splits)
      then have "orderbooks s1 = orderbooks d" using place_inner_app_error True by blast
      then have "orderbooks t = orderbooks c" using True d by (simp add: t s2 evict_unless_app_error_def)
      moreover have "thinner s c" using keepsD [OF keeps_thinner_handlers(1) _ c] thinner_refl by blast
      ultimately show ?thesis using thinner_trans thinner_refl by blast
    qed
  qed
  then show ?thesis using thinner_trans thinner_refl [OF s'] by blast
qed

section \<open>In order with more orders lost\<close>

text \<open>The stored orders that the book of their market lacks.\<close>

definition missing :: "engine_state \<Rightarrow> string set" where
  "missing s = {oid. \<exists>r. order_view (eng_db s) oid = Some r \<and> oid \<notin> entry_id ` resting (book_at (ord_market_id r) s)}"

lemma key_ids: "fst (snd (snd (entry_key e))) = entry_id e" "fst (snd (snd (row_key r))) = ord_id r"
  by (cases e) (simp_all add: entry_key_def entry_id_def row_key_def)

lemma thinner_shows:
  assumes wf: "wf_db (eng_db s)" and view: "order_view (eng_db s') = order_view (eng_db s)" and wf': "wf_db (eng_db s')"
    and sync: "shows_but X k (eng_db s) (book_at k s)" and thin: "thinner s s'"
  shows "shows_but (X \<union> missing s') k (eng_db s') (book_at k s')"
proof -
  let ?v = "order_view (eng_db s)"
  have inv: "ob_inv (book_at k s')" and sub: "resting (book_at k s') \<subseteq> resting (book_at k s)"
    using thin shows_but_inv [OF sync] by (simp_all add: thinner_def)
  have keys: "entry_key ` resting (book_at k s) = row_key ` open_view k (?v |` (- X))"
    using sync shows_but_view [OF wf] by simp
  have "entry_key ` resting (book_at k s') = row_key ` open_view k (?v |` (- (X \<union> missing s')))"
  proof (intro subset_antisym subsetI)
    fix x assume "x \<in> entry_key ` resting (book_at k s')"
    then obtain e where e: "x = entry_key e" "e \<in> resting (book_at k s')" by blast
    then have "entry_key e \<in> row_key ` open_view k (?v |` (- X))" using sub keys by blast
    then obtain r where r: "r \<in> open_view k (?v |` (- X))" "row_key r = entry_key e" by auto
    have "ord_id r = entry_id e" using r(2) key_ids by metis
    then have "ord_id r \<in> entry_id ` resting (book_at k s')" using e(2) by simp
    then have "ord_id r \<notin> missing s'" using r(1) by (auto simp: missing_def view open_view_but) (auto simp: open_view_def)
    then have "r \<in> open_view k (?v |` (- (X \<union> missing s')))" using r(1) unfolding open_view_but by simp
    then show "x \<in> row_key ` open_view k (?v |` (- (X \<union> missing s')))" using r(2) e(1) by (metis image_eqI)
  next
    fix x assume "x \<in> row_key ` open_view k (?v |` (- (X \<union> missing s')))"
    then obtain r where r: "x = row_key r" "r \<in> open_view k ?v" "ord_id r \<notin> X" "ord_id r \<notin> missing s'"
      unfolding open_view_but by blast
    then have v: "?v (ord_id r) = Some r" "ord_market_id r = k" by (auto simp: open_view_def)
    then obtain e where e: "e \<in> resting (book_at k s')" "entry_id e = ord_id r"
      using r(4) by (auto simp: missing_def view)
    then have "entry_key e \<in> row_key ` open_view k (?v |` (- X))" using sub keys by blast
    then obtain r2 where r2: "r2 \<in> open_view k (?v |` (- X))" "row_key r2 = entry_key e" by auto
    then have "ord_id r2 = ord_id r" using e(2) key_ids by metis
    moreover have "?v (ord_id r2) = Some r2" using r2(1) unfolding open_view_but by (simp add: open_view_def)
    ultimately have "r2 = r" using v(1) by (metis option.inject)
    then have "x = entry_key e" using r(1) r2(2) by blast
    then show "x \<in> entry_key ` resting (book_at k s')" using e(1) by blast
  qed
  with inv show ?thesis unfolding shows_but_view [OF wf'] view by blast
qed

lemma failure_in_order:
  assumes ok: "in_order X s" and same: "same_tables (eng_db s) (eng_db s')" and thin: "thinner s s'"
  shows "in_order (X \<union> missing s') s' \<and> gap (eng_db s') = gap (eng_db s)"
proof -
  let ?t = "s\<lparr>eng_db := eng_db s'\<rparr>"
  have t: "in_order X ?t" "gap (eng_db s') = gap (eng_db s)" using in_order_same_tables [OF ok, of ?t] same by simp_all
  have view: "order_view (eng_db s') = order_view (eng_db s)" using same by (simp add: same_tables_def order_view_def fun_eq_iff)
  have wf: "wf_db (eng_db s)" "wf_db (eng_db s')" using ok t(1) by (simp_all add: in_order_def)
  have "closed k (eng_db s') \<longleftrightarrow> closed k (eng_db s)" for k
    using same by (simp add: closed_def settled_def open_orders_def mkt_def same_tables_def)
  then have "books_show (X \<union> missing s') s'"
    using ok thinner_shows [OF wf(1) view wf(2) _ thin] by (auto simp: in_order_def books_show_def)
  moreover have "missing s' \<subseteq> dom (order_view (eng_db s'))" by (auto simp: missing_def)
  ultimately show ?thesis using t by (simp add: in_order_def)
qed

end
