(* ===== verification/Api_Safety.thy ===== *)
theory Api_Safety
  imports Api Bystanders Failures
begin

text \<open>
  What the HTTP surface guarantees over whole runs: a user who has no open orders is left alone by
  the requests of others, the audit of a deployed system stays clean whatever requests, failures
  and restarts it meets, and nobody logs in as the market maker.
\<close>

section \<open>Requests of others\<close>

context untouched
begin

lemma served:
  assumes "served p tok s c (Inr resp) s'" and "in_order X s" and "quiet (eng_db s)"
    and user: "\<And>u m. token_user p (eng_db s) tok = Some u \<Longrightarrow> may (usr_id u) m"
    and rows: "\<And>m oc q. c = POST_resolve m oc \<Longrightarrow> q \<in> set (market_rows m (eng_db s)) \<Longrightarrow> may (pos_user_id q) m"
    and I: "I (eng_db s)"
  shows "I (eng_db s')"
  using assms(1)
proof cases
  case (register name address password q f mail)
  then show ?thesis using register_endpoint I by (cases q) auto
next
  case (deposit u n q f)
  then have "U (usr_id u)" using user by (simp add: may_def)
  then show ?thesis using deposit account_deposit I by (cases q) auto
next
  case (withdraw u n q f)
  then have "U (usr_id u)" using user by (simp add: may_def)
  then show ?thesis using withdraw account_withdraw I by (cases q) auto
next
  case (place u req q f)
  then show ?thesis using service_place_order user assms(2,3) I by (cases q) auto
next
  case (cancel u oid q f)
  then show ?thesis using service_cancel_order user assms(2) I by (cases q) auto
next
  case (replace u req oid q f)
  then obtain x where run: "atomic_replace oid req (usr_id u) s = (Inr x, s')" by (cases q) auto
  show ?thesis by (rule atomic_replace [OF run assms(2,3) user I]) (rule replace(2))
next
  case (batch u m scope q f)
  then obtain x where run: "batch_cancel_endpoint m scope (usr_id u) s = (Inr x, s')" by (cases q) auto
  show ?thesis by (rule batch_cancel_endpoint [OF run user I]) (rule batch(2))
next
  case (resolve u m oc q f)
  then obtain x where run: "in_db (resolve_market m oc) s = (Inr x, s')" by (cases q) auto
  show ?thesis by (rule resolution [OF run assms(2,3) rows I]) (rule resolve(1))
qed

end

text \<open>The rows a user holds are all that the account and the positions show.\<close>

lemma lookup_filter: "(\<And>r. P r \<Longrightarrow> Q r) \<Longrightarrow> lookup_row P rows = lookup_row P (filter Q rows)"
  by (induction rows) auto

lemma holdings_same:
  assumes "holdings k d' = holdings k d"
  shows "acct d' k = acct d k" and "posn d' k m = posn d k m"
proof -
  show "acct d' k = acct d k"
    using assms lookup_filter [of "\<lambda>a. acc_user_id a = k" "\<lambda>a. acc_user_id a = k" "accounts d"]
      lookup_filter [of "\<lambda>a. acc_user_id a = k" "\<lambda>a. acc_user_id a = k" "accounts d'"]
    by (simp add: acct_def holdings_def)
  show "posn d' k m = posn d k m"
    using assms lookup_filter [of "\<lambda>p. pos_key p = (k, m)" "\<lambda>p. pos_user_id p = k" "positions d"]
      lookup_filter [of "\<lambda>p. pos_key p = (k, m)" "\<lambda>p. pos_user_id p = k" "positions d'"]
    by (simp add: posn_def holdings_def pos_key_def)
qed

lemma handle_cases:
  assumes "handle p req s = (resp, s')"
  obtains (failed) "same_tables (eng_db s) (eng_db s')"
  | (read) "s' = s"
  | (served) x where "served p (req_token req) s (req_call req) (Inr x) s'"
proof -
  obtain r where r: "route p (req_token req) (req_call req) s = (r, s')"
    using assms by (auto simp: handle_def split: prod.splits sum.splits)
  show thesis
  proof (cases "reading_call (req_call req)")
    case True
    then show thesis using read keepsD [OF reading_route [OF True] _ r] by blast
  next
    case False
    from writing_route [OF False r] show thesis
    proof (elim disjE)
      assume run: "served p (req_token req) s (req_call req) r s'"
      show thesis
      proof (cases r)
        case (Inl e)
        then show thesis using failed served_failed run by blast
      next
        case (Inr x)
        then show thesis using served run by blast
      qed
    qed (use read in blast)
  qed
qed

text \<open>Claim C8. A user's money and shares change only by the user's own requests or through open orders:
  whatever another user requests and whatever the answer, the account and the positions of a user
  without open orders stay exactly as they are, unless a market is resolved in which the user
  holds shares. The books are in step with the database but for lost orders \<open>X\<close>, and the
  platform's fee account is excepted.\<close>

theorem requests_leave_others_alone:
  assumes "handle p req s = (resp, s')" and "in_order X s"
    and "\<And>m oc. req_call req = POST_resolve m oc \<Longrightarrow> posn (eng_db s) k m = None"
    and "k \<in> account_ids (eng_db s)" and "k \<noteq> PLATFORM_FEE_USER_ID" and "idle k (eng_db s)"
    and "\<And>u. token_user p (eng_db s) (req_token req) = Some u \<Longrightarrow> usr_id u \<noteq> k"
  shows "acct (eng_db s') k = acct (eng_db s) k \<and> posn (eng_db s') k m = posn (eng_db s) k m"
proof -
  have some: "fst (holdings k (eng_db s)) \<noteq> []"
    using assms(4) by (auto simp: holdings_def account_ids_def filter_empty_conv)
  have rows: "pos_user_id q \<noteq> k" if "req_call req = POST_resolve m oc" "q \<in> set (market_rows m (eng_db s))" for m oc q
    using assms(3) [OF that(1)] that(2) by (auto simp: market_rows_def posn_def lookup_row_None_iff pos_key_def)
  have "holdings k (eng_db s') = holdings k (eng_db s)"
    using assms(1)
  proof (cases rule: handle_cases)
    case (served x)
    have "k = PLATFORM_FEE_USER_ID \<or> fst (holdings k (eng_db s)) \<noteq> [] \<and> holdings k (eng_db s') = holdings k (eng_db s)"
      by (rule bystander.served [OF served assms(2)])
         (use assms(6,7) rows some in \<open>auto simp: bystander.quiet_def bystander.may_def active_owners_idle\<close>)
    then show ?thesis using assms(5) by simp
  qed (simp_all add: same_tables_def holdings_def)
  then show ?thesis using holdings_same by blast
qed

section \<open>The state of a deployed system\<close>

text \<open>Trading changes no user, and no statement takes an account away.\<close>

interpretation same_users: trading_invariant "\<lambda>d. users d = x" for x
  by unfold_locales
     (auto simp: keeps_def sql_update_def sql_upsert_def sql_insert_def generate_id_def write_ledger_def
       bind_act_def next_ledger_id_def rollback_to_def Let_def split: if_splits)

interpretation has_accounts: stored_invariant "\<lambda>d. x \<subseteq> account_ids d" for x
proof (unfold_locales, goal_cases)
  case (1 fa Pa)
  then show ?case by (intro keeps_sql_update) (simp add: account_ids_def image_update_where)
qed (auto simp: keeps_def sql_update_def sql_upsert_def sql_insert_def generate_id_def write_ledger_def
       bind_act_def next_ledger_id_def rollback_to_def account_ids_def Let_def split: if_splits)

text \<open>The market maker's user, as the migration made it.\<close>

interpretation amm_row: stored_invariant "\<lambda>d. amm_user \<in> set (users d)"
  by unfold_locales
     (auto simp: keeps_def sql_update_def sql_upsert_def sql_insert_def generate_id_def write_ledger_def
       bind_act_def next_ledger_id_def rollback_to_def Let_def split: if_splits)

definition SYSTEM_RESERVE :: string where
  "SYSTEM_RESERVE = ''SYSTEM_RESERVE''"

abbreviation user_ids :: "engine_state \<Rightarrow> string set" where
  "user_ids s \<equiv> usr_id ` set (users (eng_db s))"

text \<open>
  In order, every order and every position is of a user, every user has an account, and the two
  accounts of the system are nobody's; the reserve account is empty, and so is the frozen part of the fee account.
\<close>

definition orderly :: "engine_state \<Rightarrow> bool" where
  "orderly s \<longleftrightarrow> (\<exists>X. in_order X s) \<and> order_owners s \<subseteq> user_ids s \<and> holders (eng_db s) \<subseteq> user_ids s \<and>
     user_ids s \<subseteq> account_ids (eng_db s) \<and>
     {SYSTEM_RESERVE, PLATFORM_FEE_USER_ID} \<subseteq> account_ids (eng_db s) - user_ids s \<and>
     holdings SYSTEM_RESERVE (eng_db s) = ([system_account SYSTEM_RESERVE], []) \<and> fee_frozen (eng_db s) = [0]"

lemma deployed_orderly: "orderly (deployed g now)"
proof -
  have "order_owners (deployed g now) = {}"
    by (simp add: owners_def ran_def order_view_def deployed_db empty_db_def)
  moreover have "\<exists>X. in_order X (deployed g now)" using deployed_in_order(1) by blast
  ultimately show ?thesis
    by (simp add: orderly_def deployed_db holdings_def holders_def fee_frozen_def seed_accounts_def system_account_def
        amm_account_def amm_user_def account_ids_def empty_db_def SYSTEM_RESERVE_def PLATFORM_FEE_USER_ID_def)
qed

lemma wrapped_Inr_ok: "Inr resp = wrapped f q \<Longrightarrow> \<exists>x. q = Inr x"
  by (cases q) auto

text \<open>What a served request is to the runs of successful requests.\<close>

lemma served_success:
  assumes "served p tok s c (Inr resp) s'"
    and "\<And>u. token_user p (eng_db s) tok = Some u \<Longrightarrow> usr_id u \<in> account_ids (eng_db s)"
  shows "success s s'"
  using assms(1)
proof cases
  case (register name address password q f mail)
  then show ?thesis using success.registered wrapped_Inr_ok by metis
next
  case (deposit u n q f)
  then show ?thesis using success.deposited wrapped_Inr_ok by metis
next
  case (withdraw u n q f)
  then show ?thesis using success.withdrawn wrapped_Inr_ok by metis
next
  case (place u req q f)
  then show ?thesis using success.placed_order assms(2) wrapped_Inr_ok by metis
next
  case (cancel u oid q f)
  then show ?thesis using success.cancelled wrapped_Inr_ok by metis
next
  case (replace u req oid q f)
  then show ?thesis using success.replaced wrapped_Inr_ok by metis
next
  case (batch u m scope q f)
  then show ?thesis using success.batch_cancelled wrapped_Inr_ok by metis
next
  case (resolve u m oc q f)
  then show ?thesis using success.resolved wrapped_Inr_ok by metis
qed

lemma posting_users:
  "in_db (account_deposit u n) s = (Inr x, s') \<Longrightarrow> users (eng_db s') = users (eng_db s) \<and> order_view (eng_db s') = order_view (eng_db s)"
  "in_db (account_withdraw u n) s = (Inr x, s') \<Longrightarrow> users (eng_db s') = users (eng_db s) \<and> order_view (eng_db s') = order_view (eng_db s)"
  by (auto simp: in_db_ok account_deposit_ok_iff account_withdraw_ok_iff repo_deposit_def repo_withdraw_def
      deposit_sql_def withdraw_sql_def insufficient_def get_account_sql_def insert_ledger_returning_def next_ledger_id_def ok_simps
      sql_update_ok_iff sql_insert_ok_iff Let_def order_view_def fun_eq_iff split: list.splits)

text \<open>Users and the owners of orders, request by request.\<close>

lemma served_users:
  assumes "served p tok s c (Inr resp) s'" and ok: "in_order X s"
  shows "(user_ids s' = user_ids s \<or> (\<exists>i. i \<notin> account_ids (eng_db s) \<and> user_ids s' = insert i (user_ids s) \<and>
      i \<in> account_ids (eng_db s'))) \<and>
    (order_owners s' \<subseteq> order_owners s \<or>
      (\<exists>u. token_user p (eng_db s) tok = Some u \<and> order_owners s' \<subseteq> insert (usr_id u) (order_owners s)))"
  using assms(1)
proof cases
  case (register name address password q f mail)
  then obtain x where "with_session (register_endpoint (pf_hashpw p) (pf_new_id p (eng_db s)) name address password) s = (Inr x, s')"
    using wrapped_Inr_ok by metis
  then show ?thesis
    by (rule register_ok) (auto simp: account_ids_def new_account_def owners_def ran_def order_view_def)
next
  case (deposit u n q f)
  then obtain x where "in_db (account_deposit (usr_id u) n) s = (Inr x, s')" using wrapped_Inr_ok by metis
  from posting_users(1) [OF this] show ?thesis by simp
next
  case (withdraw u n q f)
  then obtain x where "in_db (account_withdraw (usr_id u) n) s = (Inr x, s')" using wrapped_Inr_ok by metis
  from posting_users(2) [OF this] show ?thesis by simp
next
  case (place u req q f)
  then obtain x where "service_place_order req (usr_id u) s = (Inr x, s')" using wrapped_Inr_ok by metis
  then show ?thesis
    using place_owners [OF _ ok] keepsD [OF same_users.service_place_order [where x = "users (eng_db s)"]] place(2) by metis
next
  case (cancel u oid q f)
  then obtain x where "service_cancel_order oid (usr_id u) s = (Inr x, s')" using wrapped_Inr_ok by metis
  then show ?thesis
    using cancel_owners [OF _ ok] keepsD [OF same_users.service_cancel_order [where x = "users (eng_db s)"]] by metis
next
  case (replace u req oid q f)
  then obtain x where "atomic_replace oid req (usr_id u) s = (Inr x, s')" using wrapped_Inr_ok by metis
  then show ?thesis
    using replace_owners [OF _ ok] keepsD [OF same_users.atomic_replace [where x = "users (eng_db s)"]] replace(2) by metis
next
  case (batch u m scope q f)
  then obtain x where "batch_cancel_endpoint m scope (usr_id u) s = (Inr x, s')" using wrapped_Inr_ok by metis
  then show ?thesis
    using batch_owners [OF _ ok] keepsD [OF same_users.batch_cancel_endpoint [where x = "users (eng_db s)"]] by metis
next
  case (resolve u m oc q f)
  then obtain x where "in_db (resolve_market m oc) s = (Inr x, s')" using wrapped_Inr_ok by metis
  then obtain d' where run: "resolve_market m oc (eng_db s) = (Inr x, d')" and s': "s' = s\<lparr>eng_db := d'\<rparr>"
    by (auto simp: in_db_ok)
  have wf: "wf_db (eng_db s)" and hold: "holders (eng_db s) \<subseteq> account_ids (eng_db s)"
    using ok by (simp_all add: in_order_def)
  have "wf_db d'" by (rule keepsD [OF wf.resolve_market wf run])
  then have "order_owners s' \<subseteq> order_owners s"
    using wf by (force simp: s' owners_def ran_order_view resolve_market_views(8) [OF run wf hold]
        set_update_where mark_resolved_def)
  then show ?thesis
    using keepsD [OF same_users.resolve_market [where x = "users (eng_db s)"] _ run] by (simp add: s')
qed

lemma grown_ids:
  assumes "U' = U \<or> (\<exists>i. i \<notin> A \<and> U' = insert i U \<and> i \<in> A')" and "U \<subseteq> A" and "A \<subseteq> A'"
  shows "U \<subseteq> U'" and "U' \<subseteq> A'" and "X \<subseteq> A - U \<Longrightarrow> X \<subseteq> A' - U'"
  using assms by auto

lemma served_keeps_orderly:
  assumes run: "served p tok s c (Inr resp) s'" and ok: "orderly s"
  shows "orderly s' \<and> gap (eng_db s') = gap (eng_db s)"
proof -
  obtain X where order: "in_order X s" using ok by (auto simp: orderly_def)
  have owners: "order_owners s \<subseteq> user_ids s" and ids: "user_ids s \<subseteq> account_ids (eng_db s)"
    and hold: "holders (eng_db s) \<subseteq> user_ids s"
    and system: "{SYSTEM_RESERVE, PLATFORM_FEE_USER_ID} \<subseteq> account_ids (eng_db s) - user_ids s"
    and reserve: "holdings SYSTEM_RESERVE (eng_db s) = ([system_account SYSTEM_RESERVE], [])"
    and fee: "fee_frozen (eng_db s) = [0]"
    using ok by (auto simp: orderly_def)
  have user: "usr_id u \<in> user_ids s" if "token_user p (eng_db s) tok = Some u" for u
    using token_user_SomeD [OF that] by blast
  then have suc: "success s s'" using served_success [OF run] ids by blast
  have wf: "wf_db (eng_db s)" using order by (simp add: in_order_def)
  have step: "step s s'" using served_step [OF run] .
  have accounts: "account_ids (eng_db s) \<subseteq> account_ids (eng_db s')"
    using has_accounts.step [OF step, of "account_ids (eng_db s)"] by simp
  have active: "u \<in> user_ids s" if "(u, m) \<in> active_owners (eng_db s)" for u m
    using that owners wf by (auto simp: active_owners_def owners_def ran_order_view)
  have holder: "pos_user_id q \<in> user_ids s" if "q \<in> set (market_rows m (eng_db s))" for m q
    using that hold by (auto simp: market_rows_def holders_def)
  have others: "u \<in> user_ids s \<Longrightarrow> u \<noteq> SYSTEM_RESERVE" "u \<in> user_ids s \<Longrightarrow> u \<noteq> PLATFORM_FEE_USER_ID" for u
    using system by blast+
  note users = served_users [OF run order]
  note grown = grown_ids(1) [OF users [THEN conjunct1] ids accounts]
  have "order_owners s' \<subseteq> user_ids s"
    using users [THEN conjunct2] by (metis owners user insert_subsetI subset_trans)
  then have "order_owners s' \<subseteq> user_ids s'" using grown by (rule subset_trans)
  moreover have "holders (eng_db s') \<subseteq> user_ids s"
    by (rule holding.served [OF run order])
       (use hold user active holder in \<open>auto simp: holding.quiet_def holding.may_def\<close>)
  then have "holders (eng_db s') \<subseteq> user_ids s'" using grown by (rule subset_trans)
  moreover have "user_ids s' \<subseteq> account_ids (eng_db s')" by (rule grown_ids(2) [OF users [THEN conjunct1] ids accounts])
  moreover have "{SYSTEM_RESERVE, PLATFORM_FEE_USER_ID} \<subseteq> account_ids (eng_db s') - user_ids s'"
    by (rule grown_ids(3) [OF users [THEN conjunct1] ids accounts system])
  moreover have "SYSTEM_RESERVE = PLATFORM_FEE_USER_ID \<or> fst (holdings SYSTEM_RESERVE (eng_db s)) \<noteq> [] \<and>
      holdings SYSTEM_RESERVE (eng_db s') = holdings SYSTEM_RESERVE (eng_db s)"
  proof (rule bystander.served [OF run order], goal_cases)
    case 1
    then show ?case using active others(1) by (fastforce simp: bystander.quiet_def bystander.may_def)
  next
    case (2 u m)
    then show ?case using user others(1) by (simp add: bystander.may_def)
  next
    case (3 m oc q)
    then show ?case using holder others(1) by (simp add: bystander.may_def)
  qed (simp add: reserve)
  then have "holdings SYSTEM_RESERVE (eng_db s') = ([system_account SYSTEM_RESERVE], [])"
    using reserve by (simp add: SYSTEM_RESERVE_def PLATFORM_FEE_USER_ID_def)
  moreover have "fee_frozen (eng_db s) \<noteq> [] \<and> fee_frozen (eng_db s') = fee_frozen (eng_db s)"
  proof (rule fees.served [OF run order], goal_cases)
    case 1
    then show ?case using active others(2) by (fastforce simp: fees.quiet_def fees.may_def)
  next
    case (2 u m)
    then show ?case using user others(2) by (simp add: fees.may_def)
  next
    case (3 m oc q)
    then show ?case using holder others(2) by (simp add: fees.may_def)
  qed (simp add: fee)
  then have "fee_frozen (eng_db s') = [0]" using fee by simp
  ultimately show ?thesis
    using success_keeps_order [OF suc order] by (auto simp: orderly_def)
qed

text \<open>The other answers leave the tables alone and the books at most thinner.\<close>

lemma served_failed_thinner:
  assumes "served p tok s c (Inl e) s'" and "wf_db (eng_db s)"
  shows "thinner s s'"
  using assms(1)
proof cases
  case (register name address password q f mail)
  then show ?thesis by (auto simp: with_session_def intro: thinner_refl split: prod.splits)
next
  case (place u req q f)
  then have "service_place_order req (usr_id u) s = (Inl e, s')" by (cases q) auto
  then show ?thesis by (rule service_place_failed)
next
  case (cancel u oid q f)
  then have "service_cancel_order oid (usr_id u) s = (Inl e, s')" by (cases q) auto
  then show ?thesis using assms(2) by (rule service_cancel_failed)
next
  case (replace u req oid q f)
  then have "atomic_replace oid req (usr_id u) s = (Inl e, s')" by (cases q) auto
  then show ?thesis using assms(2) by (rule replace_failed)
next
  case (batch u m scope q f)
  then have "batch_cancel_endpoint m scope (usr_id u) s = (Inl e, s')" by (cases q) auto
  then show ?thesis by (rule batch_failed)
qed (auto intro: thinner_refl in_db_books)

lemma failure_orderly:
  assumes ok: "orderly s" and same: "same_tables (eng_db s) (eng_db s')" and thin: "thinner s s'"
  shows "orderly s' \<and> gap (eng_db s') = gap (eng_db s)"
proof -
  obtain X where "in_order X s" using ok by (auto simp: orderly_def)
  from failure_in_order [OF this same thin] have "in_order (X \<union> missing s') s'" "gap (eng_db s') = gap (eng_db s)" by simp_all
  moreover have "holdings k (eng_db s') = holdings k (eng_db s)" "fee_frozen (eng_db s') = fee_frozen (eng_db s)"
    "holders (eng_db s') = holders (eng_db s)" "account_ids (eng_db s') = account_ids (eng_db s)"
    "users (eng_db s') = users (eng_db s)" for k
    using same by (simp_all add: same_tables_def holdings_def fee_frozen_def holders_def account_ids_def)
  ultimately show ?thesis using ok same_tables_owners [OF same] by (auto simp: orderly_def)
qed

lemma request_orderly:
  assumes "handle p req s = (resp, s')" and ok: "orderly s"
  shows "orderly s' \<and> gap (eng_db s') = gap (eng_db s)"
proof -
  obtain r where r: "route p (req_token req) (req_call req) s = (r, s')"
    using assms(1) by (auto simp: handle_def split: prod.splits sum.splits)
  have wf: "wf_db (eng_db s)" using ok by (auto simp: orderly_def in_order_def)
  show ?thesis
  proof (cases "reading_call (req_call req)")
    case True
    then show ?thesis using keepsD [OF reading_route [OF True] _ r] ok by blast
  next
    case False
    from writing_route [OF False r] show ?thesis
    proof (elim disjE)
      assume run: "served p (req_token req) s (req_call req) r s'"
      show ?thesis
      proof (cases r)
        case (Inl e)
        then show ?thesis using failure_orderly [OF ok] served_failed served_failed_thinner wf run by blast
      next
        case (Inr x)
        then show ?thesis using served_keeps_orderly [OF _ ok] run by blast
      qed
    qed (use ok in simp)
  qed
qed

lemma meet_orderly: "orderly s \<Longrightarrow> orderly (meet p ev s) \<and> gap (eng_db (meet p ev s)) = gap (eng_db s)"
proof (cases ev)
  case (Request req)
  assume "orderly s"
  then show ?thesis using request_orderly [of p req s] Request by (cases "handle p req s") simp
next
  case Restart
  assume "orderly s"
  then show ?thesis using failure_orderly [OF _ _ thinner_restart] Restart by (simp add: same_tables_def)
next
  case (Tick n)
  assume "orderly s"
  then show ?thesis using failure_orderly [of s "meet p ev s"] Tick by (simp add: same_tables_def thinner_refl)
qed

lemma serve_orderly: "orderly s \<Longrightarrow> orderly (serve p evs s) \<and> gap (eng_db (serve p evs s)) = gap (eng_db s)"
proof (induction evs rule: rev_induct)
  case (snoc ev evs)
  have "serve p (evs @ [ev]) s = meet p ev (serve p evs s)" by (simp add: serve_def)
  then show ?case using snoc meet_orderly by metis
qed (simp add: serve_def)

text \<open>Claim C9. No table refers to an account that is not there, although no foreign key enforces it: from
  the seeded database on, after whatever requests, failures and restarts, every order was placed by and every
  position belongs to a registered user, every registered user has an account, and the two
  accounts of the system exist, belong to no user and so never trade: the reserve account has
  the single row it was seeded with and no position, and nothing of the collected fees is frozen.\<close>

theorem served_rows_have_owners:
  "let d = eng_db (serve p evs (deployed g now)); registered = usr_id ` set (users d) in
     owners (order_view d) \<union> holders d \<subseteq> registered \<and> registered \<subseteq> account_ids d \<and>
     {SYSTEM_RESERVE, PLATFORM_FEE_USER_ID} \<subseteq> account_ids d - registered \<and>
     holdings SYSTEM_RESERVE d = ([system_account SYSTEM_RESERVE], []) \<and> fee_frozen d = [0]"
  using serve_orderly [OF deployed_orderly [of g now], of p evs] by (simp add: Let_def orderly_def)

section \<open>The audit\<close>

lemma col_sum_split:
  "a \<noteq> b \<Longrightarrow> col_sum acc_funds rows = col_sum acc_funds (filter (\<lambda>r. acc_user_id r \<notin> {a, b}) rows) +
     col_sum acc_funds (filter (\<lambda>r. acc_user_id r = a) rows) + col_sum acc_funds (filter (\<lambda>r. acc_user_id r = b) rows)"
  by (induction rows) (auto simp: col_sum_def)

lemma global_audit:
  assumes "orderly s" and "gap (eng_db s) = 0"
  shows "verify_global_invariants (eng_db s) = (Inr [], eng_db s)"
proof -
  let ?d = "eng_db s"
  obtain a where fee: "filter (\<lambda>r. acc_user_id r = PLATFORM_FEE_USER_ID) (accounts ?d) = [a]" "frozen_balance a = 0"
    using assms(1) by (auto simp: orderly_def fee_frozen_def map_eq_Cons_conv)
  have reserve: "filter (\<lambda>r. acc_user_id r = SYSTEM_RESERVE) (accounts ?d) = [system_account SYSTEM_RESERVE]"
    using assms(1) by (simp add: orderly_def holdings_def)
  have "acct ?d PLATFORM_FEE_USER_ID = Some a"
    using lookup_filter [of "\<lambda>r. acc_user_id r = PLATFORM_FEE_USER_ID" "\<lambda>r. acc_user_id r = PLATFORM_FEE_USER_ID" "accounts ?d"] fee
    by (auto simp: acct_def filter_eq_Cons_iff)
  then have row: "acct ?d ''PLATFORM_FEE'' = Some a" by (simp add: PLATFORM_FEE_USER_ID_def)
  have "funds ?d = user_balances ?d + available_balance a"
    using col_sum_split [of SYSTEM_RESERVE PLATFORM_FEE_USER_ID "accounts ?d"] fee reserve
    by (simp add: funds_def user_balances_def SYSTEM_RESERVE_def PLATFORM_FEE_USER_ID_def acc_funds_def system_account_def)
  then have "user_balances ?d + col_sum reserve_balance (markets ?d) + available_balance a = net_deposits ?d"
    using assms(2) by (simp add: gap_def reserves_def)
  then show ?thesis
    by (simp add: verify_global_invariants_def bind_act_def row Let_def)
qed

text \<open>Each market passes its own checks, so the report has nothing to say.\<close>

lemma market_rows_ok:
  assumes "in_order X s" and "row \<in> set (markets (eng_db s))"
  shows "market_ok (mkt_id row) row (eng_db s)"
proof -
  have "mkt (eng_db s) (mkt_id row) = Some row"
    using assms lookup_row_key [of mkt_id "markets (eng_db s)" row] by (simp add: mkt_def in_order_def wf_db_def)
  then show ?thesis using assms(1) by (simp add: in_order_def)
qed

lemma market_ok_passes: "market_ok (mkt_id row) row d \<Longrightarrow> market_violation row d = (Inr [], d)"
proof -
  assume "market_ok (mkt_id row) row d"
  then have "verify_invariants_after_trade (MarketState row) d = (Inr (), d)"
    by (simp add: market_ok_def solvent_def MarketState_def verify_invariants_ok)
  then show ?thesis by (simp add: market_violation_def)
qed

lemma markets_pass:
  "\<forall>row \<in> set rows. market_ok (mkt_id row) row d \<Longrightarrow>
   fold_act (\<lambda>row vs. bind_act (market_violation row) (\<lambda>v. ret (vs @ v))) rows vs d = (Inr vs, d)"
  by (induction rows) (simp_all add: bind_act_def market_ok_passes)

lemma orderly_audit:
  assumes "orderly s" and "gap (eng_db s) = 0"
  shows "verify_all_invariants (eng_db s) = (Inr (True, []), eng_db s)"
proof -
  obtain X where "in_order X s" using assms(1) by (auto simp: orderly_def)
  then have "\<forall>row \<in> set (filter (\<lambda>m. mkt_status m = ACTIVE) (markets (eng_db s))). market_ok (mkt_id row) row (eng_db s)"
    using market_rows_ok by simp
  from markets_pass [OF this] global_audit [OF assms] show ?thesis
    by (simp add: verify_all_invariants_def bind_act_def)
qed

text \<open>Claim C6. The audit of a deployed system stays clean: from the seeded database on, after whatever requests
  of whatever users, answered or failed at any step, after restarts of the process and as time
  passes, the invariant report of the administration finds no violation in any market nor in the
  whole, and behind every market lie a hundred cents for every share that would win, whichever
  side does.\<close>

theorem audit_stays_clean:
  assumes s: "s = serve p evs (deployed g now)"
  shows "verify_all_invariants (eng_db s) = (Inr (True, []), eng_db s) \<and>
    list_all (\<lambda>r. reserve_balance r = 100 * yes_held (mkt_id r) (eng_db s) \<and>
      reserve_balance r = 100 * no_held (mkt_id r) (eng_db s)) (markets (eng_db s))"
proof -
  have ok: "orderly s" "gap (eng_db s) = 0"
    using serve_orderly [OF deployed_orderly] deployed_in_order(2) by (simp_all add: s)
  then obtain X where "in_order X s" by (auto simp: orderly_def)
  then have "market_ok (mkt_id r) r (eng_db s)" if "r \<in> set (markets (eng_db s))" for r
    using market_rows_ok that by blast
  then show ?thesis
    using orderly_audit [OF ok] by (auto simp: list_all_iff market_ok_def solvent_def MarketState_def)
qed

section \<open>The market maker's account\<close>

lemma error_carries_no_data: "error_to_response e = Some (Response st (Envelope r)) \<Longrightarrow> api_data r = None"
  by (cases e) (auto simp: app_error_handler_def error_response_def)

lemma login_route:
  assumes "route p tok (POST_login name password) s = (Inr (Response st (Envelope r)), s')"
  obtains u where "u \<in> set (users (eng_db s))" "username u = name" "usr_is_active u"
    "pf_checkpw p password (password_hash u) = Some True"
    "\<And>l. api_data r = Some (Login_data l) \<Longrightarrow> lgr_user_id l = usr_id u"
proof -
  obtain u a f where login: "login (pf_checkpw p) (pf_enc p) name password (eng_db s) = (Inr (u, a, f), eng_db s)"
    and l: "\<And>l. api_data r = Some (Login_data l) \<Longrightarrow> lgr_user_id l = usr_id u"
    using assms
    by (auto simp: post_login_def with_session_def login_endpoint_def execute_def envelope_def success_response_def
        login_def user_by_def bind_act_def raise_if_def split: prod.splits sum.splits option.splits if_splits)
  then have "lookup_row (\<lambda>u. username u = name) (users (eng_db s)) = Some u" "usr_is_active u"
    "pf_checkpw p password (password_hash u) = Some True"
    by (auto simp: login_def user_by_def bind_act_def raise_if_def split: option.splits if_splits)
  then show thesis using that l by (auto dest: lookup_row_SomeD)
qed

text \<open>
  The route that resolves a market asks for a user, not for an administrator: every two users have
  the same power over the outcome of a market.
\<close>

lemma resolve_route_ignores_the_user:
  assumes "token_user p (eng_db s) tok1 = Some u1" and "token_user p (eng_db s) tok2 = Some u2"
  shows "handle p \<lparr>req_token = tok1, req_call = POST_resolve m oc\<rparr> s =
    handle p \<lparr>req_token = tok2, req_call = POST_resolve m oc\<rparr> s"
  using assms dependency_run(1) [of p tok1 s] dependency_run(1) [of p tok2 s]
  by (auto simp: handle_def endpoint_def bind_act_def raise_if_def)

text \<open>Nobody logs in as the market maker: in whatever state the deployed program is, after whatever
  requests and restarts, no login answers with the market maker's name or identifier, since the
  hash that the migration stored is not one that bcrypt verifies (all of those have 60
  characters). A token for the routes of the market maker has to come from elsewhere.\<close>

theorem market_maker_cannot_log_in:
  assumes "\<And>password h. pf_checkpw p password h = Some True \<Longrightarrow> length h = 60"
    and "s = serve p evs (deployed g now)"
    and "handle p \<lparr>req_token = tok, req_call = POST_login name password\<rparr> s = (Some (Response st (Envelope r)), s')"
    and "api_data r = Some (Login_data l)"
  shows "name \<noteq> ''amm_market_maker'' \<and> lgr_user_id l \<noteq> AMM_USER_ID"
proof -
  have "amm_user \<in> set (users (eng_db (deployed g now)))" by (simp add: deployed_db)
  from amm_row.reachable [OF serve_reachable this] have amm: "amm_user \<in> set (users (eng_db s))"
    by (simp add: assms(2))
  have "wf_db (eng_db s)" using wf.reachable [OF serve_reachable deployed_wf] assms(2) by blast
  then have dist: "distinct (map usr_id (users (eng_db s)))" "distinct (map username (users (eng_db s)))"
    by (simp_all add: wf_db_def)
  have "route p tok (POST_login name password) s = (Inr (Response st (Envelope r)), s')"
    using assms(3,4) error_carries_no_data
    by (fastforce simp: handle_def split: prod.splits sum.splits)
  then obtain u where u: "u \<in> set (users (eng_db s))" "username u = name"
    "pf_checkpw p password (password_hash u) = Some True" "lgr_user_id l = usr_id u"
    by (rule login_route) (use assms(4) in blast)
  have "length (password_hash u) = 60" using assms(1) u(3) by blast
  moreover have "length (password_hash amm_user) = 51" by (simp add: amm_user_def)
  ultimately have "u \<noteq> amm_user" by auto
  then have "usr_id u \<noteq> usr_id amm_user" "username u \<noteq> username amm_user"
    using dist u(1) amm by (auto simp: distinct_map dest: inj_onD)
  then show ?thesis using u by (simp add: amm_user_def AMM_USER_ID_def)
qed

section \<open>The properties at work\<close>

text \<open>A platform with hashes of 60 characters and the plain tokens of the theory Users.\<close>

definition sealed :: "string \<Rightarrow> string" where
  "sealed password = take 60 (password @ replicate 60 (CHR ''#''))"

definition sample_platform :: platform where
  "sample_platform =
     \<lparr>pf_hashpw = sealed,
      pf_checkpw = (\<lambda>password h. if length h = 60 then Some (h = sealed password) else None),
      pf_enc = plain_enc, pf_dec = plain_dec, pf_uuid = Some,
      pf_new_id = (\<lambda>d. replicate (length (users d)) (CHR ''u'')), pf_email = Some,
      pf_read_cursor = (\<lambda>_. None), pf_dumps = pair_text, pf_loads = read_pair,
      pf_isoformat = show_int, pf_fromisoformat = (\<lambda>s. Some (read_int s)), pf_row_rank = (\<lambda>_. 0)\<rparr>"

definition sample_start :: engine_state where
  "sample_start = deployed (\<lambda>n. replicate n (CHR ''g'')) 7"

definition register_call :: request where
  "register_call = \<lparr>req_token = None, req_call = POST_register ''new_user1'' ''n@x'' ''Passw0rd''\<rparr>"

definition new_user :: user where
  "new_user = \<lparr>usr_id = ''u'', username = ''new_user1'', email = ''n@x'', password_hash = sealed ''Passw0rd'',
     usr_is_active = True\<rparr>"

definition sample_joined :: engine_state where
  "sample_joined = sample_start\<lparr>eng_db := (eng_db sample_start)\<lparr>users := [amm_user, new_user],
     accounts := seed_accounts @ [new_account ''u'']\<rparr>\<rparr>"

lemma start_db: "eng_db sample_start = (empty_db (\<lambda>n. replicate n (CHR ''g'')) 7)\<lparr>accounts := seed_accounts,
     markets := seed_markets 7, users := [amm_user]\<rparr>"
  by (simp add: sample_start_def deployed_db)

lemma start_parts:
  "accounts (eng_db sample_start) = seed_accounts" "users (eng_db sample_start) = [amm_user]"
  "clock (eng_db sample_start) = 7"
  by (simp_all add: start_db empty_db_def)

lemma sample_register:
  "handle sample_platform register_call sample_start =
     (Some (Response 201 (Envelope \<lparr>api_code = 0, api_message = ''User registered successfully'',
        api_data = Some (Register_data \<lparr>rgr_user_id = ''u'', rgr_username = ''new_user1'', rgr_email = ''n@x'',
          rgr_created_at = 7\<rparr>)\<rparr>)), sample_joined)"
proof -
  let ?t = "\<lparr>ses_db = eng_db sample_start, in_transaction = False\<rparr>"
  have ok: "register_request_ok ''new_user1'' ''Passw0rd''" by code_simp
  have "storable sealed ''u'' ''n@x'' ''Passw0rd'' (ses_db ?t)"
    by (simp add: storable_def start_parts amm_user_def seed_accounts_def system_account_def amm_account_def sealed_def)
  from register_endpoint_runs [OF ok this] show ?thesis
    by (simp add: handle_def register_call_def post_register_def sample_platform_def bind_act_def raise_if_def in_db_def
        ok with_session_def envelope_def success_response_def Let_def start_parts sample_joined_def new_user_def)
       (simp add: amm_user_def)
qed

definition user_token :: "string option" where
  "user_token = Some (create_access_token plain_enc 7 ''u'')"

lemma joined_parts:
  "users (eng_db sample_joined) = [amm_user, new_user]" "clock (eng_db sample_joined) = 7"
  "accounts (eng_db sample_joined) = seed_accounts @ [new_account ''u'']" "orders (eng_db sample_joined) = []"
  by (simp_all add: sample_joined_def start_db empty_db_def)

lemma user_token_names: "token_user sample_platform (eng_db sample_joined) user_token = Some new_user"
proof -
  have "lookup_row (\<lambda>u. usr_id u = ''u'') (users (eng_db sample_joined)) = Some new_user"
    by (simp add: joined_parts amm_user_def new_user_def)
  then show ?thesis
    by (simp add: token_user_def user_token_def sample_platform_def joined_parts(2) decode_issued [OF plain_dec_enc]
        access_expire_def) (simp add: new_user_def)
qed

lemma joined_served: "serve sample_platform [Request register_call] sample_start = sample_joined"
  by (simp add: serve_def sample_register)

lemma joined_orderly: "orderly sample_joined"
  unfolding joined_served [symmetric] sample_start_def using serve_orderly [OF deployed_orderly] by blast

theorem access_is_controlled_witness:
  "(\<exists>resp. handle sample_platform \<lparr>req_token = None, req_call = GET_balance\<rparr> sample_joined = (Some resp, sample_joined) \<and>
     response_status resp \<in> {401, 422}) \<and>
   fst (handle sample_platform \<lparr>req_token = user_token, req_call = POST_batch_cancel ''M'' SCOPE_ALL\<rparr> sample_joined) =
     Some (Response 403 (Detail ''AMM system account required''))"
  using access_is_controlled [of "\<lparr>req_token = None, req_call = GET_balance\<rparr>" sample_platform sample_joined]
    access_is_controlled [of "\<lparr>req_token = user_token, req_call = POST_batch_cancel ''M'' SCOPE_ALL\<rparr>" sample_platform sample_joined]
    user_token_names
  by (simp_all add: token_user_def new_user_def AMM_USER_ID_def)

theorem reading_requests_change_nothing_witness:
  "snd (handle sample_platform \<lparr>req_token = user_token, req_call = GET_balance\<rparr> sample_joined) = sample_joined"
  by (rule reading_requests_change_nothing) simp

text \<open>The same registration again.\<close>

theorem failed_requests_change_no_table_witness:
  "\<exists>s'. handle sample_platform register_call sample_joined =
     (Some (Response 409 (Envelope (error_response 1001 ''Username already exists''))), s') \<and>
   same_tables (eng_db sample_joined) (eng_db s')"
proof -
  let ?t = "\<lparr>ses_db = eng_db sample_joined, in_transaction = False\<rparr>"
  have ok: "register_request_ok ''new_user1'' ''Passw0rd''" by code_simp
  have "storable sealed ''uu'' ''n@x'' ''Passw0rd'' (ses_db ?t)"
    by (simp add: storable_def joined_parts amm_user_def new_user_def seed_accounts_def system_account_def
        amm_account_def new_account_def sealed_def)
  from register_endpoint_runs [OF ok this] obtain s' where run: "handle sample_platform register_call sample_joined =
     (Some (Response 409 (Envelope (error_response 1001 ''Username already exists''))), s')"
    by (simp add: handle_def register_call_def post_register_def sample_platform_def bind_act_def raise_if_def in_db_def
        ok with_session_def Let_def joined_parts)
       (simp add: amm_user_def new_user_def UsernameExistsError_def app_error_handler_def)
  then show ?thesis using failed_requests_change_no_table [OF run] by simp
qed

text \<open>A deposit of the new user, seen from the market maker's account.\<close>

definition deposit_call :: request where
  "deposit_call = \<lparr>req_token = user_token, req_call = POST_deposit 500\<rparr>"

theorem requests_leave_others_alone_witness:
  "acct (eng_db (snd (handle sample_platform deposit_call sample_joined))) AMM_USER_ID = acct (eng_db sample_joined) AMM_USER_ID"
proof -
  obtain X where order: "in_order X sample_joined" using joined_orderly by (auto simp: orderly_def)
  have "handle sample_platform deposit_call sample_joined =
      (fst (handle sample_platform deposit_call sample_joined), snd (handle sample_platform deposit_call sample_joined))"
    by simp
  from requests_leave_others_alone [OF this order, of AMM_USER_ID] show ?thesis
    using user_token_names
    by (simp add: deposit_call_def joined_parts account_ids_def idle_def AMM_USER_ID_def
        PLATFORM_FEE_USER_ID_def seed_accounts_def amm_account_def new_user_def)
qed

lemma sample_deposit:
  "\<exists>x s'. handle sample_platform deposit_call sample_joined = (Some (Response 200 (Envelope \<lparr>api_code = 0,
      api_message = ''success'', api_data = Some (Posting_data x)\<rparr>)), s') \<and> net_deposits (eng_db s') = 500"
proof -
  have "with_session (current_user sample_platform user_token) sample_joined = (Inr new_user, sample_joined)"
    using dependency_run(1) [of sample_platform user_token sample_joined] user_token_names by simp
  moreover have "valid_amount 500" by (simp add: valid_amount_def)
  moreover have "usr_id new_user = ''u''" by (simp add: new_user_def)
  moreover have "\<exists>x d. account_deposit ''u'' 500 (eng_db sample_joined) = (Inr x, d) \<and> net_deposits d = 500"
    by (simp add: account_deposit_def commit_or_rollback_def on_error_def repo_deposit_def deposit_sql_def bind_act_def
        insert_ledger_returning_def next_ledger_id_def sql_update_def sql_insert_def net_deposits_def
        sample_joined_def start_db empty_db_def seed_accounts_def system_account_def amm_account_def new_account_def
        ck_account_def ck_ledger_def varchar_def varchar_opt_def in_int8_def Let_def)
  ultimately show ?thesis
    by (auto simp: handle_def deposit_call_def endpoint_def bind_act_def raise_if_def post_deposit_def in_db_def
        answer_def envelope_def success_response_def)
qed

text \<open>A registration and a deposit.\<close>

theorem audit_stays_clean_witness:
  "\<exists>s :: engine_state. net_deposits (eng_db s) = 500 \<and> verify_all_invariants (eng_db s) = (Inr (True, []), eng_db s)"
proof -
  obtain x s where run: "handle sample_platform deposit_call sample_joined = (Some (Response 200 (Envelope \<lparr>api_code = 0,
      api_message = ''success'', api_data = Some (Posting_data x)\<rparr>)), s)" and net: "net_deposits (eng_db s) = 500"
    using sample_deposit by blast
  have "serve sample_platform [Request register_call, Request deposit_call] sample_start = s"
    by (simp add: serve_def sample_register run)
  then show ?thesis
    using audit_stays_clean [of s sample_platform "[Request register_call, Request deposit_call]"] net
    unfolding sample_start_def by blast
qed

lemma sample_login:
  "\<exists>r l s'. handle sample_platform \<lparr>req_token = None, req_call = POST_login ''new_user1'' ''Passw0rd''\<rparr> sample_joined =
     (Some (Response 200 (Envelope r)), s') \<and> api_data r = Some (Login_data l)"
proof -
  have "lookup_row (\<lambda>u. username u = ''new_user1'') (users (eng_db sample_joined)) = Some new_user"
    by (simp add: joined_parts amm_user_def new_user_def)
  moreover have "pf_checkpw sample_platform ''Passw0rd'' (password_hash new_user) = Some True"
    by (simp add: sample_platform_def new_user_def sealed_def)
  moreover have "usr_is_active new_user" by (simp add: new_user_def)
  ultimately show ?thesis
    by (simp add: handle_def post_login_def with_session_def login_endpoint_def execute_def login_def user_by_def
        bind_act_def raise_if_def envelope_def success_response_def)
qed

theorem market_maker_cannot_log_in_witness:
  "\<exists>r l s'. handle sample_platform \<lparr>req_token = None, req_call = POST_login ''new_user1'' ''Passw0rd''\<rparr>
      (serve sample_platform [Request register_call] sample_start) = (Some (Response 200 (Envelope r)), s') \<and>
    api_data r = Some (Login_data l) \<and> lgr_user_id l \<noteq> AMM_USER_ID"
proof -
  note s = joined_served
  obtain r l s' where run: "handle sample_platform \<lparr>req_token = None, req_call = POST_login ''new_user1'' ''Passw0rd''\<rparr> sample_joined =
     (Some (Response 200 (Envelope r)), s')" and data: "api_data r = Some (Login_data l)"
    using sample_login by blast
  have "pf_checkpw sample_platform password h = Some True \<Longrightarrow> length h = 60" for password h
    by (simp add: sample_platform_def split: if_splits)
  from market_maker_cannot_log_in [OF this s [symmetric, unfolded sample_start_def] run data]
  show ?thesis using s run data by auto
qed

end
