(* ===== verification/Order_Life.thy ===== *)
theory Order_Life
  imports Engine_Money Account
begin

text \<open>
  The life of an order that meets nobody: placed, resting in the book, cancelled. What placing
  froze, cancelling releases to the last cent and share, and nothing else is left behind but the
  order's own row and the log.
\<close>

section \<open>Freezing and releasing\<close>

definition purse :: "account \<Rightarrow> string \<times> int \<times> int" where
  "purse a = (acc_user_id a, available_balance a, frozen_balance a)"

lemma purse_lookup:
  "map_option purse (lookup_row (\<lambda>a. acc_user_id a = u) rows) = lookup_row (\<lambda>q. fst q = u) (map purse rows)"
  by (induction rows) (auto simp: purse_def)

lemma purse_balances:
  assumes "map purse (accounts d') = map purse (accounts d)"
  shows "balances d' = balances d"
proof -
  have "balances e u = map_option snd (lookup_row (\<lambda>q. fst q = u) (map purse (accounts e)))" for e u
    by (simp add: balances_def acct_def option.map_comp comp_def purse_def flip: purse_lookup)
  then show ?thesis using assms by (simp add: fun_eq_iff)
qed

text \<open>A guarded update that finds its row is an update of the key, and a second one undoes it.\<close>

lemma update_there_and_back:
  assumes "distinct (map k rows)" and "filter (\<lambda>r. k r = x \<and> Q r) rows \<noteq> []"
    and "\<And>r. k (f r) = k r" and "\<And>r. h (g (f r)) = h r"
  shows "map h (update_where (\<lambda>r. k r = x) g (update_where (\<lambda>r. k r = x \<and> Q r) f rows)) = map h rows"
proof -
  obtain r0 where r0: "r0 \<in> set rows" "k r0 = x" "Q r0" using assms(2) by (auto simp: filter_empty_conv)
  have "Q r" if "r \<in> set rows" "k r = x" for r
    using assms(1) that r0 by (auto simp: distinct_map dest: inj_onD)
  then show ?thesis using assms(3,4) by (auto simp: update_where_def)
qed

lemma freeze_then_release:
  assumes fz: "check_and_freeze ord d = (Inr ord1, d1)" and wf: "wf_db d"
    and rel: "unfreeze_remainder o2 d2 = (Inr u, d3)"
    and same: "accounts d2 = accounts d1" "positions d2 = positions d1"
    and o2: "ord_user_id o2 = ord_user_id ord" "ord_market_id o2 = ord_market_id ord"
      "frozen_amount o2 = frozen_amount ord1" "frozen_asset_type o2 = frozen_asset_type ord1"
      "remaining_quantity o2 = quantity ord"
  shows "map purse (accounts d3) = map purse (accounts d) \<and> positions d3 = positions d"
proof -
  note ord1 = check_and_freeze_order [OF fz]
  have keys: "distinct (map acc_user_id (accounts d))" "distinct (map pos_key (positions d))"
    using wf by (simp_all add: wf_db_def)
  show ?thesis
  proof (cases "book_type ord \<in> {NATIVE_BUY, SYNTHETIC_SELL}")
    case True
    let ?n = "freeze_amount_of ord"
    have asset: "frozen_asset_type o2 = FUNDS" "frozen_amount o2 = ?n"
      using True ord1 o2 by (simp_all add: freeze_asset_of_def)
    from fz True obtain rows da where s: "freeze_funds_sql (ord_user_id ord) ?n d = (Inr rows, da)" "rows \<noteq> []"
      and l: "write_ledger (ord_user_id ord) ORDER_FREEZE (- ?n) 0 ''ORDER'' (ord_id ord) da = (Inr (), d1)"
      by (auto simp: check_and_freeze_def ok_simps Let_def freeze_amount_of_def split: if_splits)
    from rel asset o2(1) obtain rows2 db where s2: "unfreeze_funds_sql (ord_user_id ord) ?n d2 = (Inr rows2, db)"
      and l2: "write_ledger (ord_user_id ord) ORDER_UNFREEZE ?n 0 ''ORDER'' (ord_id o2) db = (Inr (), d3)"
      by (auto simp: unfreeze_remainder_def ok_simps)
    note core = write_ledger_core [OF l] write_ledger_core [OF l2]
    let ?f = "\<lambda>a. a\<lparr>available_balance := available_balance a - ?n, frozen_balance := frozen_balance a + ?n,
      acc_version := acc_version a + 1\<rparr>"
    let ?g = "\<lambda>a. a\<lparr>available_balance := available_balance a + ?n, frozen_balance := frozen_balance a - ?n,
      acc_version := acc_version a + 1\<rparr>"
    have "accounts d3 = update_where (\<lambda>a. acc_user_id a = ord_user_id ord) ?g
        (update_where (\<lambda>a. acc_user_id a = ord_user_id ord \<and> ?n \<le> available_balance a) ?f (accounts d))"
      "filter (\<lambda>a. acc_user_id a = ord_user_id ord \<and> ?n \<le> available_balance a) (accounts d) \<noteq> []"
      "positions d3 = positions d"
      using s s2 core same by (auto simp: freeze_funds_sql_def unfreeze_funds_sql_def sql_update_ok_iff same_core_def)
    then show ?thesis
      using update_there_and_back [OF keys(1), of "ord_user_id ord" "\<lambda>a. ?n \<le> available_balance a" ?f purse ?g]
      by (simp add: purse_def)
  next
    case False
    then have n: "frozen_asset_type o2 = (if book_type ord = NATIVE_SELL then YES_SHARES else NO_SHARES)"
      using ord1 o2 by (auto simp: freeze_asset_of_def)
    let ?key = "(ord_user_id ord, ord_market_id ord)" and ?q = "quantity ord"
    have "positions d3 = positions d \<and> accounts d3 = accounts d"
    proof (cases "book_type ord = NATIVE_SELL")
      case True
      let ?f = "\<lambda>p. p\<lparr>yes_pending_sell := yes_pending_sell p + ?q\<rparr>"
      let ?g = "\<lambda>p. p\<lparr>yes_pending_sell := yes_pending_sell p - ?q\<rparr>"
      have "positions d3 = update_where (\<lambda>p. pos_key p = ?key) ?g
          (update_where (\<lambda>p. pos_key p = ?key \<and> ?q \<le> yes_volume p - yes_pending_sell p) ?f (positions d))"
        "filter (\<lambda>p. pos_key p = ?key \<and> ?q \<le> yes_volume p - yes_pending_sell p) (positions d) \<noteq> []"
        "accounts d3 = accounts d"
        using fz rel True n o2 same
        by (auto simp: check_and_freeze_def unfreeze_remainder_def freeze_yes_sql_def unfreeze_yes_sql_def ok_simps
            sql_update_ok_iff split: if_splits)
      then show ?thesis
        using update_there_and_back [OF keys(2), of ?key "\<lambda>p. ?q \<le> yes_volume p - yes_pending_sell p" ?f id ?g]
        by (simp add: pos_key_def)
    next
      case neither: False
      let ?f = "\<lambda>p. p\<lparr>no_pending_sell := no_pending_sell p + ?q\<rparr>"
      let ?g = "\<lambda>p. p\<lparr>no_pending_sell := no_pending_sell p - ?q\<rparr>"
      have "positions d3 = update_where (\<lambda>p. pos_key p = ?key) ?g
          (update_where (\<lambda>p. pos_key p = ?key \<and> ?q \<le> no_volume p - no_pending_sell p) ?f (positions d))"
        "filter (\<lambda>p. pos_key p = ?key \<and> ?q \<le> no_volume p - no_pending_sell p) (positions d) \<noteq> []"
        "accounts d3 = accounts d"
        using fz rel False neither n o2 same
        by (auto simp: check_and_freeze_def unfreeze_remainder_def freeze_no_sql_def unfreeze_no_sql_def ok_simps
            sql_update_ok_iff split: if_splits)
      then show ?thesis
        using update_there_and_back [OF keys(2), of ?key "\<lambda>p. ?q \<le> no_volume p - no_pending_sell p" ?f id ?g]
        by (simp add: pos_key_def)
    qed
    then show ?thesis by simp
  qed
qed

section \<open>Placing without a match\<close>

text \<open>An order that trades with nobody and may rest leaves its row, its entry and its freeze.\<close>

lemma unmatched_order:
  assumes ob: "ob_inv ob" and limit: "1 \<le> book_price inc" "book_price inc \<le> 99" "book_direction inc \<in> {BUY, SELL}"
    and match: "match_order inc ob = (Inr (inc', []), ob')"
  shows "inc' = inc \<and> ob_inv ob' \<and> resting ob' = resting ob"
proof -
  obtain gs r' where pass: "levels_pass (ord_user_id inc) (remaining_quantity inc)
      (ladder (book_direction inc) (book_price inc) ob) = (gs, r')"
    and res: "(Inr (inc', []) :: exc + _) = Inr (filled_by (remaining_quantity inc - r') inc, trades_of (book_direction inc) inc gs)"
    and after: "book_after (map snd gs) ob ob'"
    by (rule match_order_cases [OF ob limit match])
  have "gs = []" using res by (simp add: trades_of_def)
  then have "remaining_quantity inc - r' = 0" using levels_pass_total [OF pass] by simp
  then show ?thesis
    using res after \<open>gs = []\<close> resting_after_Nil [OF ob] by (simp add: filled_by_def book_after_def)
qed

lemma flush_unchanged:
  assumes "flush_market (MarketState row) d = (Inr u, d')" and "wf_db d" and "mkt d m = Some row"
  shows "mkt d' = mkt d \<and> accounts d' = accounts d \<and> positions d' = positions d"
proof -
  have id: "mkt_id row = m" using assms(3) by (auto simp: mkt_def dest!: lookup_row_SomeD)
  have "mkt d' k = mkt d k" for k
    using flush_market_result [OF assms] id assms(3) by (cases "k = m") (simp_all add: MarketState_def)
  moreover have "accounts d' = accounts d \<and> positions d' = positions d"
    using assms(1) by (auto simp: flush_market_def ok_simps sql_update_ok_iff)
  ultimately show ?thesis by (simp add: fun_eq_iff)
qed

lemma place_unmatched:
  assumes run: "place_order ord s = (Inr (ord1, [], nq), s1)" and gtc: "time_in_force ord = GTC" and new: "is_new_order ord"
    and wf: "wf_db (eng_db s)" and ob: "ob_inv (book_at (ord_market_id ord) s)"
    and fresh: "ord_id ord \<notin> entry_id ` resting (book_at (ord_market_id ord) s)"
  obtains o0 o2 da t e where "check_and_freeze o0 (eng_db s) = (Inr o2, da)" "quantity o0 = quantity ord"
    "ord_user_id o0 = ord_user_id ord" "ord_market_id o0 = ord_market_id ord"
    "accounts (eng_db s1) = accounts da" "positions (eng_db s1) = positions da" "mkt (eng_db s1) = mkt (eng_db s)"
    "wf_db (eng_db s1)" "order_view (eng_db s) (ord_id ord) = None"
    "order_view (eng_db s1) = (order_view (eng_db s))(ord_id ord \<mapsto> new_order_row t o2)"
    "ob_inv (book_at (ord_market_id ord) s1)" "entry_id e = ord_id ord"
    "resting (book_at (ord_market_id ord) s1) = insert e (resting (book_at (ord_market_id ord) s))"
proof -
  let ?m = "ord_market_id ord"
  obtain o2 d1 row ord2 ob2 ms ord3 d2 s5 d7 where
    prep: "prepare_order ord (eng_db s) = (Inr o2, d1)" and row: "mkt d1 ?m = Some row" and
    match: "match_order o2 (book_at ?m s) = (Inr (ord2, []), ob2)" and
    clear: "fold_act clear_fill [] (MarketState row, ord2, 0) d1 = (Inr (ms, ord3, nq), d2)" and
    fin: "finalize_order ?m ord3 0 (s\<lparr>orderbooks := (orderbooks s)(?m \<mapsto> ob2), eng_db := d2\<rparr>) = (Inr ord1, s5)" and
    fl: "flush_market ms (eng_db s5) = (Inr (), d7)" and s1: "s1 = s5\<lparr>eng_db := d7\<rparr>"
    by (rule place_order_runs [OF run])
  from prep obtain o0 da dc where fz: "check_and_freeze o0 (eng_db s) = (Inr o2, da)"
    and o0: "quantity o0 = quantity ord" "ord_user_id o0 = ord_user_id ord" "ord_market_id o0 = ?m" "time_in_force o0 = GTC"
    and sv: "order_save o2 da = (Inr (), dc)"
    and wal: "write_wal_event ORDER_ACCEPTED (ord_id o2) (ord_market_id o2) (ord_user_id o2) [] dc = (Inr (), d1)"
    using gtc by (auto simp: prepare_order_def ok_simps check_market_active_ok check_price_range_ok check_order_limit_ok
        split: prod.splits)
  have core: "accounts d1 = accounts da" "positions d1 = positions da" "markets d1 = markets (eng_db s)"
    using write_wal_core [OF wal] order_save_state [OF sv] check_and_freeze_views(2) [OF fz] by (auto simp: same_core_def)
  obtain bt bd bp t where
    o2: "o2 = ord\<lparr>book_type := bt, book_direction := bd, book_price := bp,
       frozen_amount := frozen_amount o2, frozen_asset_type := frozen_asset_type o2\<rparr>" and
    bp: "1 \<le> bp" "bp \<le> 99" "bd \<in> {BUY, SELL}" and qty: "1 \<le> quantity ord" and wf1: "wf_db d1" and
    none: "order_view (eng_db s) (ord_id ord) = None" and
    v1: "order_view d1 = (order_view (eng_db s))(ord_id ord \<mapsto> new_order_row t o2)"
    by (rule prepare_order_result [OF prep wf]) blast
  have limit: "1 \<le> book_price o2" "book_price o2 \<le> 99" "book_direction o2 \<in> {BUY, SELL}"
    using bp by (subst o2; simp)+
  have parts: "ord_id o2 = ord_id ord" "remaining_quantity o2 = quantity ord" "time_in_force o2 = GTC"
    using new gtc by (subst o2; simp add: is_new_order_def)+
  have m2: "ord2 = o2" "ob_inv ob2" "resting ob2 = resting (book_at ?m s)"
    using unmatched_order [OF ob limit match] by simp_all
  have cl: "ms = MarketState row" "ord3 = o2" "d2 = d1" using clear m2 by simp_all
  let ?s4 = "s\<lparr>orderbooks := (orderbooks s)(?m \<mapsto> ob2), eng_db := d2\<rparr>"
  have "wf_db (eng_db ?s4)" using wf1 cl by simp
  from fin this obtain u ob' where
    add: "add_order (remainder_entry o2 u) (book_price o2) (book_direction o2) ob2 = (Inr (), ob')"
    and b5: "book_at ?m s5 = ob'" and v5: "order_view (eng_db s5) = order_view d1" and wf5: "wf_db (eng_db s5)"
    and core5: "same_core d1 (eng_db s5)"
    by (rule finalize_cases) (use cl parts qty in auto)
  let ?e = "(book_direction o2, book_price o2, remainder_entry o2 u)"
  obtain ob3 where "add_order (remainder_entry o2 u) (book_price o2) (book_direction o2) ob2 = (Inr (), ob3)" "ob_inv ob3"
    "resting ob3 = insert ?e (resting ob2)"
    by (rule add_order_ok [OF m2(2), of "book_price o2" "book_direction o2" "remainder_entry o2 u"])
       (use limit fresh m2(3) parts qty in \<open>simp_all add: remainder_entry_def\<close>)
  then have book: "ob_inv (book_at ?m s1)" "resting (book_at ?m s1) = insert ?e (resting (book_at ?m s))"
    using add b5 m2(3) by (simp_all add: s1)
  have "mkt (eng_db s5) ?m = Some row" using core5 row by (simp add: same_core_def mkt_def)
  note flushed = flush_unchanged [OF fl [unfolded cl(1)] wf5 this] keeps_view [OF keeps_flush fl wf5]
  have "entry_id ?e = ord_id ord" by (simp add: entry_id_def remainder_entry_def parts)
  moreover have "mkt (eng_db s1) = mkt (eng_db s)" "accounts (eng_db s1) = accounts da" "positions (eng_db s1) = positions da"
    using flushed core core5 by (simp_all add: s1 same_core_def mkt_def fun_eq_iff)
  moreover have "wf_db (eng_db s1)" "order_view (eng_db s1) = (order_view (eng_db s))(ord_id ord \<mapsto> new_order_row t o2)"
    using flushed v5 v1 by (simp_all add: s1)
  ultimately show thesis using that [OF fz o0(1-3)] none book by blast
qed

section \<open>Taking an order back\<close>

text \<open>What a cancelled order leaves: the release of what it had frozen, and its entry gone.\<close>

lemma cancel_inline_leaves:
  assumes run: "cancel_inline r u [] s1 = (Inr ord2, s2)" and wf: "wf_db (eng_db s1)"
    and stored: "order_view (eng_db s1) (ord_id r) = Some r" and inv: "ob_inv (book_at (ord_market_id r) s1)"
  obtains d1 where "unfreeze_remainder r (eng_db s1) = (Inr (), d1)"
    and "accounts (eng_db s2) = accounts d1" and "positions (eng_db s2) = positions d1"
    and "mkt (eng_db s2) = mkt (eng_db s1)" and "ord_status ord2 = CANCELLED"
    and "order_view (eng_db s2) = (order_view (eng_db s1))(ord_id r \<mapsto> ord2)"
    and "resting (book_at (ord_market_id r) s2) = {x \<in> resting (book_at (ord_market_id r) s1). entry_id x \<noteq> ord_id r}"
proof (rule cancel_inline_runs [OF run], goal_cases)
  case (1 ob' d1 d2 d3)
  note v2 = keeps_view [OF keeps_orders_unfreeze_remainder keeps_wf_unfreeze_remainder 1(3) wf]
  note v3 = repo.update_law [OF v2 [THEN conjunct2, THEN conjunct2] 1(5)]
  note v4 = keeps_view [OF keeps_orders_write_wal keeps_wf_write_wal 1(6) v3 [THEN conjunct1]]
  note core = write_wal_core [OF 1(6)] order_update_state [OF 1(5)]
  have same: "accounts d3 = accounts d1" "positions d3 = positions d1" "markets d3 = markets d1"
    using core by (simp_all add: same_core_def)
  have "markets d1 = markets (eng_db s1)"
    using effect_same_totals [OF unfreeze_remainder_effect [OF 1(3) wf]] by (simp add: same_totals_def)
  then have market: "mkt (eng_db s2) = mkt (eng_db s1)" using same(3) by (simp add: 1(7) mkt_def fun_eq_iff)
  obtain ob2 where ob2: "book_cancel (ord_id r) (book_at (ord_market_id r) s1) = (Inr (), ob2)"
    "resting ob2 = {x \<in> resting (book_at (ord_market_id r) s1). entry_id x \<noteq> ord_id r}"
    by (rule book_cancel_ok [OF inv])
  have book: "book_at (ord_market_id r) s2 = ob2" using 1(2) ob2(1) by (simp add: 1(7))
  have "status_columns ord2 r = ord2" by (simp add: 1(4) status_columns_def)
  then have "order_view (eng_db s2) = (order_view (eng_db s1))(ord_id r \<mapsto> ord2)"
    using v2 v3 v4 stored 1(4) by (simp add: 1(7))
  with 1(3) same market book ob2(2) show ?case by (intro that) (simp_all add: 1(4,7))
qed

section \<open>There and back\<close>

text \<open>Claim C11. An order that meets nobody can be taken back without a trace on anybody's holdings: when
  it rests unmatched and its owner cancels it, every account has the available and the frozen
  balance it had before the order, every position is what it was, to the frozen shares, no market
  has changed, and the book has the same entries as before; the orders differ by the
  cancelled order alone.\<close>

theorem place_then_cancel_restores:
  assumes place: "place_order ord s = (Inr (ord1, [], nq), s1)" and cancel: "cancel_order (ord_id ord) u s1 = (Inr ord2, s2)"
    and gtc: "time_in_force ord = GTC" and new: "is_new_order ord" and wf: "wf_db (eng_db s)"
    and sync: "shows_but X (ord_market_id ord) (eng_db s) (book_at (ord_market_id ord) s)"
    and lost: "X \<subseteq> dom (order_view (eng_db s))"
  shows "balances (eng_db s2) = balances (eng_db s) \<and> positions (eng_db s2) = positions (eng_db s) \<and>
    mkt (eng_db s2) = mkt (eng_db s) \<and>
    resting (book_at (ord_market_id ord) s2) = resting (book_at (ord_market_id ord) s) \<and>
    order_view (eng_db s2) = (order_view (eng_db s))(ord_id ord \<mapsto> ord2) \<and> ord_status ord2 = CANCELLED"
proof -
  let ?m = "ord_market_id ord" and ?T = "ord_id ord"
  have inv: "ob_inv (book_at ?m s)" using sync by (rule shows_but_inv)
  have none: "order_view (eng_db s) ?T = None"
    using place_order_runs [OF place] prepare_order_result [OF _ wf] by metis
  then have fresh: "?T \<notin> entry_id ` resting (book_at ?m s)"
    using fresh_id_not_resting [of "book_at ?m s" ?m "order_view (eng_db s) |` (- X)"] sync shows_but_view [OF wf]
    by (simp add: restrict_map_def)
  obtain o0 o2 da t e where fz: "check_and_freeze o0 (eng_db s) = (Inr o2, da)"
    and o0: "quantity o0 = quantity ord" "ord_user_id o0 = ord_user_id ord" "ord_market_id o0 = ?m"
    and s1: "accounts (eng_db s1) = accounts da" "positions (eng_db s1) = positions da" "mkt (eng_db s1) = mkt (eng_db s)"
    and wf1: "wf_db (eng_db s1)" and v1: "order_view (eng_db s1) = (order_view (eng_db s))(?T \<mapsto> new_order_row t o2)"
    and b1: "ob_inv (book_at ?m s1)" "entry_id e = ?T" "resting (book_at ?m s1) = insert e (resting (book_at ?m s))"
    by (rule place_unmatched [OF place gtc new wf inv fresh])
  let ?r = "new_order_row t o2"
  have r: "ord_user_id ?r = ord_user_id o0" "ord_market_id ?r = ?m" "frozen_amount ?r = frozen_amount o2"
    "frozen_asset_type ?r = frozen_asset_type o2" "remaining_quantity ?r = quantity o0"
    using check_and_freeze_order [OF fz] o0 by (simp_all add: new_order_row_def)
  obtain ord0 where "order_view (eng_db s1) ?T = Some ord0" and inl0: "cancel_inline ord0 u [] s1 = (Inr ord2, s2)"
    by (rule cancel_order_runs [OF cancel wf1])
  then have inl: "cancel_inline ?r u [] s1 = (Inr ord2, s2)" using v1 by simp
  have id: "ord_id ?r = ?T" using order_view_id [of "eng_db s1" ?T ?r] v1 by simp
  have at_m: "order_view (eng_db s1) (ord_id ?r) = Some ?r" "ob_inv (book_at (ord_market_id ?r) s1)"
    using v1 id b1(1) r(2) by simp_all
  obtain d1 where rel: "unfreeze_remainder ?r (eng_db s1) = (Inr (), d1)"
    and s2: "accounts (eng_db s2) = accounts d1" "positions (eng_db s2) = positions d1" "mkt (eng_db s2) = mkt (eng_db s1)"
      "ord_status ord2 = CANCELLED" "order_view (eng_db s2) = (order_view (eng_db s1))(?T \<mapsto> ord2)"
      "resting (book_at ?m s2) = {x \<in> resting (book_at ?m s1). entry_id x \<noteq> ?T}"
    by (rule cancel_inline_leaves [OF inl wf1 at_m]) (simp only: id r(2))
  have "map purse (accounts d1) = map purse (accounts (eng_db s)) \<and> positions d1 = positions (eng_db s)"
    by (rule freeze_then_release [OF fz wf rel]) (use s1 r o0 in simp_all)
  then have "balances (eng_db s2) = balances (eng_db s)" "positions (eng_db s2) = positions (eng_db s)"
    using purse_balances [of "eng_db s2" "eng_db s"] s2(1,2) by simp_all
  moreover have "{x \<in> insert e (resting (book_at ?m s)). entry_id x \<noteq> ?T} = resting (book_at ?m s)"
    using b1(2) fresh by (auto simp: image_iff)
  ultimately show ?thesis using s2 s1(3) v1 b1(3) by simp
qed

text \<open>Bob bids 30 for two shares below carol's bid, and takes the bid back.\<close>

definition low_bid :: order where
  "low_bid = sample_order ''t1'' ''bob'' YES BUY 30 2"

lemma low_bid_runs:
  "case fst (bind_act (place_order low_bid) (\<lambda>(o1, trs, nq).
      bind_act (cancel_order ''t1'' ''bob'') (\<lambda>o2. ret (trs, frozen_amount o2))) even_engine) of
     Inr (trs, n) \<Rightarrow> trs = [] \<and> n = 61 | Inl _ \<Rightarrow> False"
  by (simp add: exec_defs exec_samples low_bid_def cong: exec_congs)

theorem place_then_cancel_restores_witness:
  "\<exists>o1 nq s1 o2 s2. place_order low_bid even_engine = (Inr (o1, [], nq), s1) \<and>
     cancel_order ''t1'' ''bob'' s1 = (Inr o2, s2) \<and> frozen_amount o2 = 61 \<and>
     balances (eng_db s2) = balances (eng_db even_engine) \<and>
     resting (book_at ''M'' s2) = resting (book_at ''M'' even_engine)"
proof -
  obtain o1 nq s1 o2 s2 where place: "place_order low_bid even_engine = (Inr (o1, [], nq), s1)"
    and cancel: "cancel_order ''t1'' ''bob'' s1 = (Inr o2, s2)" "frozen_amount o2 = 61"
    using low_bid_runs by (auto simp: bind_run split: prod.splits sum.splits)
  have parts: "ord_id low_bid = ''t1''" "ord_market_id low_bid = ''M''" "time_in_force low_bid = GTC" "is_new_order low_bid"
    by (simp_all add: low_bid_def sample_order_def is_new_order_def)
  from place_then_cancel_restores [OF place, unfolded parts, OF cancel(1) refl _ even_engine_ok(1), of "{}"]
    even_engine_ok(2) place cancel parts(4)
  show ?thesis by (auto simp: synced_shows)
qed

end
