(* ===== verification/Book_Safety.thy ===== *)
theory Book_Safety
  imports Api_Safety Order_Life
begin

text \<open>
  The books of the deployed program over whole runs: whatever fails and however often the process
  restarts, no book shows an order that is not open, so nothing trades with an order that was
  filled, cancelled or is another's. The sample run brings a first order into a book through the
  HTTP surface.
\<close>

section \<open>No book shows more than the open orders\<close>

lemma shows_but_subset: "shows_but X m d ob \<Longrightarrow> ob_inv ob \<and> entry_key ` resting ob \<subseteq> row_key ` set (open_orders m d)"
  by (auto simp: shows_but_def)

text \<open>Claim C7. The in-memory books of the deployed program are never ahead of the database: after whatever
  requests, failures and restarts, the book of a market that is not settled satisfies its
  structural invariant, and each of its entries is an open order of the market in the
  database, on the same side, at the same price, of the same user and with the remaining quantity
  of the order's row.\<close>

theorem books_show_only_open_orders:
  assumes "s = serve p evs (deployed g now)" and "\<not> settled m (eng_db s)"
  shows "ob_inv (book_at m s) \<and> entry_key ` resting (book_at m s) \<subseteq> row_key ` set (open_orders m (eng_db s))"
proof -
  have "orderly s" using serve_orderly [OF deployed_orderly] assms(1) by simp
  then obtain X where "in_order X s" by (auto simp: orderly_def)
  then have "shows_but X m (eng_db s) (book_at m s)"
    using assms(2) by (auto simp: in_order_def books_show_def closed_def)
  then show ?thesis by (rule shows_but_subset)
qed

section \<open>A first order\<close>

text \<open>The new user deposits 500 cents and bids for two YES shares of a seeded market at 30 cents.\<close>

definition funded_account :: account where
  "funded_account = (new_account ''u'')\<lparr>available_balance := 500, acc_version := 1\<rparr>"

definition first_request :: new_order_params where
  "first_request = \<lparr>nop_client_order_id = ''c1'', nop_market_id = ''MKT-BTC-100K-2026'', nop_side = YES,
     nop_direction = BUY, nop_price_cents = 30, nop_quantity = 2, nop_time_in_force = GTC\<rparr>"

definition funded :: "engine_state \<Rightarrow> bool" where
  "funded s \<longleftrightarrow> orderbooks s = Map.empty \<and> accounts (eng_db s) = seed_accounts @ [funded_account] \<and>
     markets (eng_db s) = seed_markets 7 \<and> positions (eng_db s) = [] \<and> orders (eng_db s) = [] \<and>
     users (eng_db s) = [amm_user, new_user] \<and> clock (eng_db s) = 7 \<and> ledger_seq (eng_db s) = 1 \<and>
     map le_id (ledger_entries (eng_db s)) = [1] \<and> gid_next (eng_db s) = 0 \<and>
     gid (eng_db s) = (\<lambda>n. replicate n (CHR ''g''))"

lemma joined_books: "orderbooks sample_joined = Map.empty"
  by (simp add: sample_joined_def sample_start_def deployed_def)

lemma joined_db:
  "eng_db sample_joined = (eng_db sample_start)\<lparr>users := [amm_user, new_user], accounts := seed_accounts @ [new_account ''u'']\<rparr>"
  by (simp add: sample_joined_def)

lemma deposit_run:
  "\<exists>x d. account_deposit ''u'' 500 (eng_db sample_joined) = (Inr x, d) \<and> funded (sample_joined\<lparr>eng_db := d\<rparr>)"
  by (simp add: account_deposit_def commit_or_rollback_def on_error_def repo_deposit_def deposit_sql_def bind_act_def
      insert_ledger_returning_def next_ledger_id_def sql_update_def sql_insert_def funded_def joined_books
      joined_db start_db empty_db_def seed_accounts_def system_account_def amm_account_def new_account_def
      funded_account_def ck_account_def ck_ledger_def varchar_def varchar_opt_def in_int8_def Let_def)

lemma first_order_runs:
  assumes "funded s"
  shows "case fst (place_order (next_order first_request ''u'' s) (id_taken s)) of
     Inr (o1, trs, nq) \<Rightarrow> trs = [] | Inl _ \<Rightarrow> False"
proof -
  obtain e where "ledger_entries (eng_db s) = [e]" "le_id e = 1"
    using assms by (auto simp: funded_def map_eq_Cons_conv)
  moreover have "\<not> list_ex (\<lambda>_. False) rows" for rows :: "wal_event list" by (simp add: list_ex_iff)
  ultimately show ?thesis
    using assms
    by (simp add: funded_def next_order_def id_taken_def first_request_def exec_defs seed_accounts_def system_account_def
        amm_account_def new_account_def funded_account_def seed_markets_def seed_market_def cong: exec_congs)
qed

text \<open>The two requests, as the routes serve them.\<close>

definition order_call :: request where
  "order_call = \<lparr>req_token = user_token, req_call = POST_order first_request\<rparr>"

lemma user_session:
  assumes "users (eng_db s) = [amm_user, new_user]" and "clock (eng_db s) = 7"
  shows "with_session (current_user sample_platform user_token) s = (Inr new_user, s)"
proof -
  have "lookup_row (\<lambda>u. usr_id u = ''u'') (users (eng_db s)) = Some new_user"
    by (simp add: assms(1) amm_user_def new_user_def)
  then have "token_user sample_platform (eng_db s) user_token = Some new_user"
    by (simp add: token_user_def user_token_def sample_platform_def assms(2) decode_issued [OF plain_dec_enc]
        access_expire_def) (simp add: new_user_def)
  then show ?thesis using dependency_run(1) [of sample_platform user_token s] by simp
qed

lemma deposit_served:
  obtains resp s where "handle sample_platform deposit_call sample_joined = (Some resp, s)" "funded s"
proof -
  obtain x d where run: "account_deposit ''u'' 500 (eng_db sample_joined) = (Inr x, d)"
    and ok: "funded (sample_joined\<lparr>eng_db := d\<rparr>)"
    using deposit_run by blast
  have "valid_amount 500" "usr_id new_user = ''u''" by (simp_all add: valid_amount_def new_user_def)
  then have "\<exists>resp. handle sample_platform deposit_call sample_joined = (Some resp, sample_joined\<lparr>eng_db := d\<rparr>)"
    using run user_session [of sample_joined] joined_parts
    by (simp add: handle_def deposit_call_def endpoint_def bind_act_def raise_if_def post_deposit_def in_db_def
        answer_def envelope_def success_response_def)
  then show thesis using that ok by blast
qed

lemma order_served:
  assumes "funded s" and "wf_db (eng_db s)"
  obtains resp s' where "handle sample_platform order_call s = (Some (Response 201 resp), s')"
    "resting (book_at ''MKT-BTC-100K-2026'' s') \<noteq> {}" "mkt (eng_db s') = mkt (eng_db s)"
proof -
  let ?o = "next_order first_request ''u'' s"
  have m: "ord_market_id ?o = ''MKT-BTC-100K-2026''" "time_in_force ?o = GTC" "is_new_order ?o"
    by (simp_all add: next_order_def fresh_order_def order_post_init_def first_request_def is_new_order_def)
  obtain o1 nq s1 where run: "place_order ?o (id_taken s) = (Inr (o1, [], nq), s1)"
    using first_order_runs [OF assms(1)] by (cases "place_order ?o (id_taken s)") (auto split: sum.splits)
  have empty: "book_at k (id_taken s) = OrderBook k" for k
    using assms(1) by (simp add: funded_def id_taken_def book_at_def)
  have "wf_db (eng_db (id_taken s))" using assms(2) by (simp add: id_taken_def wf_db_def)
  from place_unmatched [OF run m(2,3) this, unfolded m(1) empty]
  have "resting (book_at ''MKT-BTC-100K-2026'' s1) \<noteq> {}" "mkt (eng_db s1) = mkt (eng_db (id_taken s))"
    by (simp_all add: OrderBook_inv) (metis insert_not_empty)+
  moreover have "session_transaction (place_order ?o) (id_taken s) = (Inr (o1, [], nq), s1)"
    using run by (simp add: session_transaction_ok)
  then have "\<exists>resp. service_place_order first_request ''u'' s = (Inr resp, s1)"
    using assms(1) by (simp add: service_place_run funded_def)
  then obtain resp where "service_place_order first_request ''u'' s = (Inr resp, s1)" by blast
  moreover have "with_session (current_user sample_platform user_token) s = (Inr new_user, s)"
    by (rule user_session) (use assms(1) in \<open>simp_all add: funded_def\<close>)
  moreover have "place_request_ok first_request" by code_simp
  moreover have "usr_id new_user = ''u''" by (simp add: new_user_def)
  moreover have "mkt (eng_db (id_taken s)) = mkt (eng_db s)" by (simp add: id_taken_def mkt_def fun_eq_iff)
  ultimately show thesis
    using that [of "Place_model resp" s1]
    by (simp add: handle_def order_call_def endpoint_def bind_act_def raise_if_def post_order_def)
qed

theorem books_show_only_open_orders_witness:
  "\<exists>s. resting (book_at ''MKT-BTC-100K-2026'' s) \<noteq> {} \<and>
     entry_key ` resting (book_at ''MKT-BTC-100K-2026'' s) \<subseteq> row_key ` set (open_orders ''MKT-BTC-100K-2026'' (eng_db s))"
proof -
  obtain dr s1 where dep: "handle sample_platform deposit_call sample_joined = (Some dr, s1)" and funded: "funded s1"
    by (rule deposit_served)
  have s1: "s1 = serve sample_platform [Request register_call, Request deposit_call] sample_start"
    using dep by (simp add: serve_def sample_register)
  then have "wf_db (eng_db s1)" using wf.reachable [OF serve_reachable deployed_wf] by (simp add: sample_start_def)
  from order_served [OF funded this] obtain resp s2
    where run: "handle sample_platform order_call s1 = (Some (Response 201 resp), s2)"
      and rest: "resting (book_at ''MKT-BTC-100K-2026'' s2) \<noteq> {}" and mkts: "mkt (eng_db s2) = mkt (eng_db s1)" .
  have s2: "s2 = serve sample_platform [Request register_call, Request deposit_call, Request order_call] (deployed (\<lambda>n. replicate n (CHR ''g'')) 7)"
    using run s1 by (simp add: serve_def sample_start_def)
  have "\<not> settled ''MKT-BTC-100K-2026'' (eng_db s2)"
    using funded by (simp add: settled_def mkts funded_def mkt_def seed_markets_def seed_market_def)
  from books_show_only_open_orders [OF s2 this] rest show ?thesis by blast
qed

end
