(* ===== verification/Tables.thy ===== *)
theory Tables
  imports Trade_History Market_Data
begin

text \<open>
  The tables as data: the text of every \<open>CREATE TABLE\<close> of \<open>alembic/versions\<close> with its columns,
  types, defaults, keys and \<open>CHECK\<close> conditions, and the ORM classes of the modules in the same
  form. Conditions have SQL's three truth values: a \<open>CHECK\<close> refuses a row only when it is false,
  not when it is unknown. The constraints \<open>ck_account\<close>, \<open>ck_order\<close>, ... that every statement of the
  model tests are shown to be exactly what these texts say of a row.
\<close>

section \<open>Types, values, conditions\<close>

datatype sql_type =
    UUID | VARCHAR nat | TEXT | SMALLINT | INTEGER | BIGINT | BOOLEAN | TIMESTAMPTZ | TIMESTAMP | JSONB

datatype sql_value =
    SQL_NULL | UuidV string | TextV string | IntV int | BoolV bool | TimeV int
  | JsonV "(string \<times> json) list"

fun fits :: "sql_type \<Rightarrow> sql_value \<Rightarrow> bool" where
  "fits UUID v = (case v of UuidV u \<Rightarrow> True | _ \<Rightarrow> False)"
| "fits (VARCHAR n) v = (case v of TextV s \<Rightarrow> varchar n s | _ \<Rightarrow> False)"
| "fits TEXT v = (case v of TextV s \<Rightarrow> True | _ \<Rightarrow> False)"
| "fits SMALLINT v = (case v of IntV i \<Rightarrow> in_int2 i | _ \<Rightarrow> False)"
| "fits INTEGER v = (case v of IntV i \<Rightarrow> in_int4 i | _ \<Rightarrow> False)"
| "fits BIGINT v = (case v of IntV i \<Rightarrow> in_int8 i | _ \<Rightarrow> False)"
| "fits BOOLEAN v = (case v of BoolV b \<Rightarrow> True | _ \<Rightarrow> False)"
| "fits TIMESTAMPTZ v = (case v of TimeV t \<Rightarrow> True | _ \<Rightarrow> False)"
| "fits TIMESTAMP v = (case v of TimeV t \<Rightarrow> True | _ \<Rightarrow> False)"
| "fits JSONB v = (case v of JsonV j \<Rightarrow> True | _ \<Rightarrow> False)"

datatype sql_expr =
    Column string | Value sql_value | LENGTH sql_expr | TIMES sql_expr int | PLUS sql_expr sql_expr

datatype comparison = GE | LE | GT | LT | EQ | NE

datatype condition =
    Compare comparison sql_expr sql_expr | BETWEEN sql_expr int int | IN sql_expr "string list"
  | IS_NULL sql_expr | Conj condition condition | Disj condition condition

text \<open>A row of cells; a column that is not among them is null.\<close>

type_synonym cells = "(string \<times> sql_value) list"

definition cell :: "cells \<Rightarrow> string \<Rightarrow> sql_value" where
  "cell row c = (case map_of row c of Some v \<Rightarrow> v | None \<Rightarrow> SQL_NULL)"

fun arith :: "(int \<Rightarrow> int \<Rightarrow> int) \<Rightarrow> sql_value \<Rightarrow> sql_value \<Rightarrow> sql_value" where
  "arith f (IntV i) (IntV j) = IntV (f i j)"
| "arith f _ _ = SQL_NULL"

fun text_length :: "sql_value \<Rightarrow> sql_value" where
  "text_length (TextV s) = IntV (int (length s))"
| "text_length _ = SQL_NULL"

fun sql_eval :: "cells \<Rightarrow> sql_expr \<Rightarrow> sql_value" where
  "sql_eval row (Column c) = cell row c"
| "sql_eval row (Value v) = v"
| "sql_eval row (LENGTH e) = text_length (sql_eval row e)"
| "sql_eval row (TIMES e n) = arith (*) (sql_eval row e) (IntV n)"
| "sql_eval row (PLUS e e') = arith (+) (sql_eval row e) (sql_eval row e')"

fun compare_int :: "comparison \<Rightarrow> int \<Rightarrow> int \<Rightarrow> bool" where
  "compare_int GE i j \<longleftrightarrow> j \<le> i"
| "compare_int LE i j \<longleftrightarrow> i \<le> j"
| "compare_int GT i j \<longleftrightarrow> j < i"
| "compare_int LT i j \<longleftrightarrow> i < j"
| "compare_int EQ i j \<longleftrightarrow> i = j"
| "compare_int NE i j \<longleftrightarrow> i \<noteq> j"

fun comparing :: "comparison \<Rightarrow> sql_value \<Rightarrow> sql_value \<Rightarrow> bool option" where
  "comparing r (IntV i) w = (case w of IntV j \<Rightarrow> Some (compare_int r i j) | _ \<Rightarrow> None)"
| "comparing r (TextV s) w = (case w of TextV t \<Rightarrow>
     (case r of EQ \<Rightarrow> Some (s = t) | NE \<Rightarrow> Some (s \<noteq> t) | _ \<Rightarrow> None) | _ \<Rightarrow> None)"
| "comparing r _ w = None"

fun among :: "sql_value \<Rightarrow> string list \<Rightarrow> bool option" where
  "among (TextV s) ss = Some (s \<in> set ss)"
| "among _ _ = None"

fun and3 :: "bool option \<Rightarrow> bool option \<Rightarrow> bool option" where
  "and3 (Some p) (Some q) = Some (p \<and> q)"
| "and3 (Some False) None = Some False"
| "and3 None (Some False) = Some False"
| "and3 _ _ = None"

fun or3 :: "bool option \<Rightarrow> bool option \<Rightarrow> bool option" where
  "or3 (Some p) (Some q) = Some (p \<or> q)"
| "or3 (Some True) None = Some True"
| "or3 None (Some True) = Some True"
| "or3 _ _ = None"

fun truth :: "cells \<Rightarrow> condition \<Rightarrow> bool option" where
  "truth row (Compare r e e') = comparing r (sql_eval row e) (sql_eval row e')"
| "truth row (BETWEEN e i j) =
     and3 (comparing GE (sql_eval row e) (IntV i)) (comparing LE (sql_eval row e) (IntV j))"
| "truth row (IN e ss) = among (sql_eval row e) ss"
| "truth row (IS_NULL e) = Some (sql_eval row e = SQL_NULL)"
| "truth row (Conj p q) = and3 (truth row p) (truth row q)"
| "truth row (Disj p q) = or3 (truth row p) (truth row q)"

section \<open>Tables\<close>

datatype nullability = NOT_NULL | NULLABLE

datatype column_default =
    No_Default | Random_UUID | Now | Next_Value | DEFAULT sql_value

datatype column = Col (col_name: string) (col_type: sql_type) (col_null: nullability) (col_default: column_default)

record table =
  tbl_name :: string
  columns :: "column list"
  primary_key :: string
  unique_keys :: "(string \<times> string list) list"
  checks :: "(string \<times> condition) list"

definition column_names :: "table \<Rightarrow> string list" where
  "column_names t = map col_name (columns t)"

text \<open>What the table says of one row, and which two rows it refuses to hold together.\<close>

fun column_takes :: "column \<Rightarrow> sql_value \<Rightarrow> bool" where
  "column_takes (Col n ty nl df) v \<longleftrightarrow> (if v = SQL_NULL then nl = NULLABLE else fits ty v)"

definition row_accepted :: "table \<Rightarrow> cells \<Rightarrow> bool" where
  "row_accepted t row \<longleftrightarrow>
     list_all (\<lambda>c. column_takes c (cell row (col_name c))) (columns t) \<and>
     list_all (\<lambda>(n, p). truth row p \<noteq> Some False) (checks t)"

definition same_key :: "cells \<Rightarrow> cells \<Rightarrow> string list \<Rightarrow> bool" where
  "same_key row row' cols \<longleftrightarrow> list_all (\<lambda>c. cell row c \<noteq> SQL_NULL \<and> cell row c = cell row' c) cols"

definition rows_clash :: "table \<Rightarrow> cells \<Rightarrow> cells \<Rightarrow> bool" where
  "rows_clash t row row' \<longleftrightarrow>
     same_key row row' [primary_key t] \<or> list_ex (\<lambda>(n, cols). same_key row row' cols) (unique_keys t)"

section \<open>The tables as they are created\<close>

definition create_users :: table where
  "create_users =
     \<lparr>tbl_name = ''users'',
      columns =
       [Col ''id'' UUID NOT_NULL Random_UUID,
        Col ''username'' (VARCHAR 64) NOT_NULL No_Default,
        Col ''email'' (VARCHAR 255) NOT_NULL No_Default,
        Col ''password_hash'' (VARCHAR 255) NOT_NULL No_Default,
        Col ''is_active'' BOOLEAN NOT_NULL (DEFAULT (BoolV True)),
        Col ''created_at'' TIMESTAMPTZ NOT_NULL Now,
        Col ''updated_at'' TIMESTAMPTZ NOT_NULL Now],
      primary_key = ''id'',
      unique_keys = [(''uq_users_username'', [''username'']),
        (''uq_users_email'', [''email''])],
      checks =
       [(''ck_users_username_len'', Compare GE (LENGTH (Column ''username'')) (Value (IntV 3)))]\<rparr>"

definition create_accounts :: table where
  "create_accounts =
     \<lparr>tbl_name = ''accounts'',
      columns =
       [Col ''id'' UUID NOT_NULL Random_UUID,
        Col ''user_id'' (VARCHAR 64) NOT_NULL No_Default,
        Col ''available_balance'' BIGINT NOT_NULL (DEFAULT (IntV 0)),
        Col ''frozen_balance'' BIGINT NOT_NULL (DEFAULT (IntV 0)),
        Col ''version'' BIGINT NOT_NULL (DEFAULT (IntV 0)),
        Col ''created_at'' TIMESTAMPTZ NOT_NULL Now,
        Col ''updated_at'' TIMESTAMPTZ NOT_NULL Now],
      primary_key = ''id'',
      unique_keys = [(''uq_accounts_user_id'', [''user_id''])],
      checks =
       [(''ck_accounts_available_gte_0'', Compare GE (Column ''available_balance'') (Value (IntV 0))),
        (''ck_accounts_frozen_gte_0'', Compare GE (Column ''frozen_balance'') (Value (IntV 0)))]\<rparr>"

definition create_markets :: table where
  "create_markets =
     \<lparr>tbl_name = ''markets'',
      columns =
       [Col ''id'' (VARCHAR 64) NOT_NULL No_Default,
        Col ''title'' (VARCHAR 500) NOT_NULL No_Default,
        Col ''description'' TEXT NULLABLE No_Default,
        Col ''category'' (VARCHAR 64) NULLABLE No_Default,
        Col ''status'' (VARCHAR 20) NOT_NULL (DEFAULT (TextV ''DRAFT'')),
        Col ''min_price_cents'' SMALLINT NOT_NULL (DEFAULT (IntV 1)),
        Col ''max_price_cents'' SMALLINT NOT_NULL (DEFAULT (IntV 99)),
        Col ''max_order_quantity'' INTEGER NOT_NULL (DEFAULT (IntV 10000)),
        Col ''max_position_per_user'' INTEGER NOT_NULL (DEFAULT (IntV 25000)),
        Col ''max_order_amount_cents'' BIGINT NOT_NULL (DEFAULT (IntV 1000000)),
        Col ''maker_fee_bps'' SMALLINT NOT_NULL (DEFAULT (IntV 10)),
        Col ''taker_fee_bps'' SMALLINT NOT_NULL (DEFAULT (IntV 20)),
        Col ''trading_start_at'' TIMESTAMPTZ NULLABLE No_Default,
        Col ''trading_end_at'' TIMESTAMPTZ NULLABLE No_Default,
        Col ''resolution_date'' TIMESTAMPTZ NULLABLE No_Default,
        Col ''resolved_at'' TIMESTAMPTZ NULLABLE No_Default,
        Col ''settled_at'' TIMESTAMPTZ NULLABLE No_Default,
        Col ''resolution_result'' (VARCHAR 10) NULLABLE No_Default,
        Col ''reserve_balance'' BIGINT NOT_NULL (DEFAULT (IntV 0)),
        Col ''pnl_pool'' BIGINT NOT_NULL (DEFAULT (IntV 0)),
        Col ''total_yes_shares'' BIGINT NOT_NULL (DEFAULT (IntV 0)),
        Col ''total_no_shares'' BIGINT NOT_NULL (DEFAULT (IntV 0)),
        Col ''created_at'' TIMESTAMPTZ NOT_NULL Now,
        Col ''updated_at'' TIMESTAMPTZ NOT_NULL Now],
      primary_key = ''id'',
      unique_keys = [],
      checks =
       [(''ck_markets_reserve_gte_0'', Compare GE (Column ''reserve_balance'') (Value (IntV 0))),
        (''ck_markets_yes_shares_gte_0'', Compare GE (Column ''total_yes_shares'') (Value (IntV 0))),
        (''ck_markets_no_shares_gte_0'', Compare GE (Column ''total_no_shares'') (Value (IntV 0))),
        (''ck_markets_shares_balanced'', Compare EQ (Column ''total_yes_shares'') (Column ''total_no_shares'')),
        (''ck_markets_reserve_consistency'', Compare EQ (Column ''reserve_balance'') (TIMES
          (Column ''total_yes_shares'') 100)),
        (''ck_markets_status'', IN (Column ''status'') [''DRAFT'', ''ACTIVE'', ''SUSPENDED'', ''HALTED'',
          ''RESOLVED'', ''SETTLED'', ''VOIDED'']),
        (''ck_markets_price_range'', Conj (Conj (Compare GE (Column ''min_price_cents'') (Value (IntV 1)))
          (Compare LE (Column ''max_price_cents'') (Value (IntV 99)))) (Compare LT (Column ''min_price_cents'')
            (Column ''max_price_cents''))),
        (''ck_markets_fee'', Conj (Conj (Conj (Compare GE (Column ''maker_fee_bps'') (Value (IntV 0)))
          (Compare LE (Column ''maker_fee_bps'') (Value (IntV 1000)))) (Compare GE (Column ''taker_fee_bps'')
            (Value (IntV 0)))) (Compare LE (Column ''taker_fee_bps'') (Value (IntV 1000)))),
        (''ck_markets_resolution'', Disj (IS_NULL (Column ''resolution_result'')) (IN
          (Column ''resolution_result'') [''YES'', ''NO'', ''VOID'']))]\<rparr>"

definition create_orders :: table where
  "create_orders =
     \<lparr>tbl_name = ''orders'',
      columns =
       [Col ''id'' UUID NOT_NULL Random_UUID,
        Col ''client_order_id'' (VARCHAR 64) NOT_NULL No_Default,
        Col ''market_id'' (VARCHAR 64) NOT_NULL No_Default,
        Col ''user_id'' (VARCHAR 64) NOT_NULL No_Default,
        Col ''original_side'' (VARCHAR 10) NOT_NULL No_Default,
        Col ''original_direction'' (VARCHAR 10) NOT_NULL No_Default,
        Col ''original_price'' SMALLINT NOT_NULL No_Default,
        Col ''book_type'' (VARCHAR 20) NOT_NULL No_Default,
        Col ''book_direction'' (VARCHAR 10) NOT_NULL No_Default,
        Col ''book_price'' SMALLINT NOT_NULL No_Default,
        Col ''price_type'' (VARCHAR 20) NOT_NULL (DEFAULT (TextV ''LIMIT'')),
        Col ''time_in_force'' (VARCHAR 10) NOT_NULL (DEFAULT (TextV ''GTC'')),
        Col ''quantity'' INTEGER NOT_NULL No_Default,
        Col ''filled_quantity'' INTEGER NOT_NULL (DEFAULT (IntV 0)),
        Col ''remaining_quantity'' INTEGER NOT_NULL No_Default,
        Col ''frozen_amount'' BIGINT NOT_NULL (DEFAULT (IntV 0)),
        Col ''frozen_asset_type'' (VARCHAR 20) NOT_NULL No_Default,
        Col ''status'' (VARCHAR 20) NOT_NULL (DEFAULT (TextV ''NEW'')),
        Col ''cancel_reason'' (VARCHAR 100) NULLABLE No_Default,
        Col ''created_at'' TIMESTAMPTZ NOT_NULL Now,
        Col ''updated_at'' TIMESTAMPTZ NOT_NULL Now],
      primary_key = ''id'',
      unique_keys = [(''uq_orders_client_order_id'', [''client_order_id'', ''user_id''])],
      checks =
       [(''ck_orders_original_side'', IN (Column ''original_side'') [''YES'', ''NO'']),
        (''ck_orders_original_direction'', IN (Column ''original_direction'') [''BUY'', ''SELL'']),
        (''ck_orders_original_price'', BETWEEN (Column ''original_price'') 1 99),
        (''ck_orders_book_type'', IN (Column ''book_type'') [''NATIVE_BUY'', ''NATIVE_SELL'',
          ''SYNTHETIC_BUY'', ''SYNTHETIC_SELL'']),
        (''ck_orders_book_direction'', IN (Column ''book_direction'') [''BUY'', ''SELL'']),
        (''ck_orders_book_price'', BETWEEN (Column ''book_price'') 1 99),
        (''ck_orders_price_type'', IN (Column ''price_type'') [''LIMIT'']),
        (''ck_orders_tif'', IN (Column ''time_in_force'') [''GTC'', ''IOC'']),
        (''ck_orders_quantity'', Compare GT (Column ''quantity'') (Value (IntV 0))),
        (''ck_orders_filled'', Conj (Compare GE (Column ''filled_quantity'') (Value (IntV 0))) (Compare LE
          (Column ''filled_quantity'') (Column ''quantity''))),
        (''ck_orders_remaining'', Conj (Compare GE (Column ''remaining_quantity'') (Value (IntV 0)))
          (Compare LE (Column ''remaining_quantity'') (Column ''quantity''))),
        (''ck_orders_fill_consistency'', Compare EQ (PLUS (Column ''filled_quantity'')
          (Column ''remaining_quantity'')) (Column ''quantity'')),
        (''ck_orders_frozen_amount_gte_0'', Compare GE (Column ''frozen_amount'') (Value (IntV 0))),
        (''ck_orders_frozen_asset_type'', IN (Column ''frozen_asset_type'') [''FUNDS'', ''YES_SHARES'',
          ''NO_SHARES'']),
        (''ck_orders_book_type_dir_match'', Disj (Conj (IN (Column ''book_type'') [''NATIVE_BUY'',
          ''SYNTHETIC_BUY'']) (Compare EQ (Column ''book_direction'') (Value (TextV ''BUY'')))) (Conj (IN
            (Column ''book_type'') [''NATIVE_SELL'', ''SYNTHETIC_SELL'']) (Compare EQ
              (Column ''book_direction'') (Value (TextV ''SELL''))))),
        (''ck_orders_status'', IN (Column ''status'') [''NEW'', ''OPEN'', ''PARTIALLY_FILLED'', ''FILLED'',
          ''CANCELLED'', ''REJECTED''])]\<rparr>"

definition create_trades :: table where
  "create_trades =
     \<lparr>tbl_name = ''trades'',
      columns =
       [Col ''id'' UUID NOT_NULL Random_UUID,
        Col ''trade_id'' (VARCHAR 64) NOT_NULL No_Default,
        Col ''market_id'' (VARCHAR 64) NOT_NULL No_Default,
        Col ''scenario'' (VARCHAR 20) NOT_NULL No_Default,
        Col ''buy_order_id'' UUID NOT_NULL No_Default,
        Col ''sell_order_id'' UUID NOT_NULL No_Default,
        Col ''buy_user_id'' (VARCHAR 64) NOT_NULL No_Default,
        Col ''sell_user_id'' (VARCHAR 64) NOT_NULL No_Default,
        Col ''buy_book_type'' (VARCHAR 20) NOT_NULL No_Default,
        Col ''sell_book_type'' (VARCHAR 20) NOT_NULL No_Default,
        Col ''price'' SMALLINT NOT_NULL No_Default,
        Col ''quantity'' INTEGER NOT_NULL No_Default,
        Col ''maker_order_id'' UUID NOT_NULL No_Default,
        Col ''taker_order_id'' UUID NOT_NULL No_Default,
        Col ''maker_fee'' BIGINT NOT_NULL (DEFAULT (IntV 0)),
        Col ''taker_fee'' BIGINT NOT_NULL (DEFAULT (IntV 0)),
        Col ''buy_realized_pnl'' BIGINT NULLABLE (DEFAULT SQL_NULL),
        Col ''sell_realized_pnl'' BIGINT NULLABLE (DEFAULT SQL_NULL),
        Col ''executed_at'' TIMESTAMPTZ NOT_NULL No_Default,
        Col ''created_at'' TIMESTAMPTZ NOT_NULL Now],
      primary_key = ''id'',
      unique_keys = [(''uq_trades_trade_id'', [''trade_id''])],
      checks =
       [(''ck_trades_scenario'', IN (Column ''scenario'') [''MINT'', ''TRANSFER_YES'', ''TRANSFER_NO'',
         ''BURN'']),
        (''ck_trades_buy_book_type'', IN (Column ''buy_book_type'') [''NATIVE_BUY'', ''SYNTHETIC_BUY'']),
        (''ck_trades_sell_book_type'', IN (Column ''sell_book_type'') [''NATIVE_SELL'', ''SYNTHETIC_SELL'']),
        (''ck_trades_price'', BETWEEN (Column ''price'') 1 99),
        (''ck_trades_quantity'', Compare GT (Column ''quantity'') (Value (IntV 0))),
        (''ck_trades_fee_gte_0'', Conj (Compare GE (Column ''maker_fee'') (Value (IntV 0))) (Compare GE
          (Column ''taker_fee'') (Value (IntV 0)))),
        (''ck_trades_diff_users'', Compare NE (Column ''buy_user_id'') (Column ''sell_user_id''))]\<rparr>"

definition create_positions :: table where
  "create_positions =
     \<lparr>tbl_name = ''positions'',
      columns =
       [Col ''id'' UUID NOT_NULL Random_UUID,
        Col ''user_id'' (VARCHAR 64) NOT_NULL No_Default,
        Col ''market_id'' (VARCHAR 64) NOT_NULL No_Default,
        Col ''yes_volume'' INTEGER NOT_NULL (DEFAULT (IntV 0)),
        Col ''yes_cost_sum'' BIGINT NOT_NULL (DEFAULT (IntV 0)),
        Col ''yes_pending_sell'' INTEGER NOT_NULL (DEFAULT (IntV 0)),
        Col ''no_volume'' INTEGER NOT_NULL (DEFAULT (IntV 0)),
        Col ''no_cost_sum'' BIGINT NOT_NULL (DEFAULT (IntV 0)),
        Col ''no_pending_sell'' INTEGER NOT_NULL (DEFAULT (IntV 0)),
        Col ''created_at'' TIMESTAMPTZ NOT_NULL Now,
        Col ''updated_at'' TIMESTAMPTZ NOT_NULL Now],
      primary_key = ''id'',
      unique_keys = [(''uq_positions_user_market'', [''user_id'', ''market_id''])],
      checks =
       [(''ck_positions_yes_volume_gte_0'', Compare GE (Column ''yes_volume'') (Value (IntV 0))),
        (''ck_positions_yes_cost_gte_0'', Compare GE (Column ''yes_cost_sum'') (Value (IntV 0))),
        (''ck_positions_yes_pending_gte_0'', Compare GE (Column ''yes_pending_sell'') (Value (IntV 0))),
        (''ck_positions_yes_pending_lte_vol'', Compare LE (Column ''yes_pending_sell'')
          (Column ''yes_volume'')),
        (''ck_positions_no_volume_gte_0'', Compare GE (Column ''no_volume'') (Value (IntV 0))),
        (''ck_positions_no_cost_gte_0'', Compare GE (Column ''no_cost_sum'') (Value (IntV 0))),
        (''ck_positions_no_pending_gte_0'', Compare GE (Column ''no_pending_sell'') (Value (IntV 0))),
        (''ck_positions_no_pending_lte_vol'', Compare LE (Column ''no_pending_sell'')
          (Column ''no_volume''))]\<rparr>"

definition create_ledger_entries :: table where
  "create_ledger_entries =
     \<lparr>tbl_name = ''ledger_entries'',
      columns =
       [Col ''id'' BIGINT NOT_NULL Next_Value,
        Col ''user_id'' (VARCHAR 64) NOT_NULL No_Default,
        Col ''entry_type'' (VARCHAR 30) NOT_NULL No_Default,
        Col ''amount'' BIGINT NOT_NULL No_Default,
        Col ''balance_after'' BIGINT NOT_NULL No_Default,
        Col ''reference_type'' (VARCHAR 30) NULLABLE No_Default,
        Col ''reference_id'' (VARCHAR 64) NULLABLE No_Default,
        Col ''description'' (VARCHAR 500) NULLABLE No_Default,
        Col ''created_at'' TIMESTAMPTZ NOT_NULL Now],
      primary_key = ''id'',
      unique_keys = [],
      checks =
       [(''ck_ledger_entry_type'', IN (Column ''entry_type'') [''DEPOSIT'', ''WITHDRAW'', ''ORDER_FREEZE'',
         ''ORDER_UNFREEZE'', ''MINT_COST'', ''MINT_RESERVE_IN'', ''BURN_REVENUE'', ''BURN_RESERVE_OUT'',
           ''TRANSFER_PAYMENT'', ''TRANSFER_RECEIPT'', ''NETTING'', ''NETTING_RESERVE_OUT'', ''FEE'',
             ''FEE_REVENUE'', ''SETTLEMENT_PAYOUT'', ''SETTLEMENT_VOID'']),
        (''ck_ledger_balance_gte_0'', Compare GE (Column ''balance_after'') (Value (IntV 0)))]\<rparr>"

definition create_wal_events :: table where
  "create_wal_events =
     \<lparr>tbl_name = ''wal_events'',
      columns =
       [Col ''id'' BIGINT NOT_NULL Next_Value,
        Col ''market_id'' (VARCHAR 64) NOT_NULL No_Default,
        Col ''event_type'' (VARCHAR 30) NOT_NULL No_Default,
        Col ''payload'' JSONB NOT_NULL No_Default,
        Col ''created_at'' TIMESTAMPTZ NOT_NULL Now],
      primary_key = ''id'',
      unique_keys = [],
      checks =
       [(''ck_wal_event_type'', IN (Column ''event_type'') [''ORDER_ACCEPTED'', ''ORDER_MATCHED'',
         ''ORDER_PARTIALLY_FILLED'', ''ORDER_CANCELLED'', ''ORDER_EXPIRED''])]\<rparr>"

definition create_circuit_breaker_events :: table where
  "create_circuit_breaker_events =
     \<lparr>tbl_name = ''circuit_breaker_events'',
      columns =
       [Col ''id'' BIGINT NOT_NULL Next_Value,
        Col ''market_id'' (VARCHAR 64) NOT_NULL No_Default,
        Col ''trigger_reason'' (VARCHAR 50) NOT_NULL No_Default,
        Col ''context'' JSONB NOT_NULL (DEFAULT (JsonV [])),
        Col ''resolved_at'' TIMESTAMPTZ NULLABLE No_Default,
        Col ''resolved_by'' (VARCHAR 50) NULLABLE No_Default,
        Col ''resolution_note'' TEXT NULLABLE No_Default,
        Col ''triggered_at'' TIMESTAMPTZ NOT_NULL Now],
      primary_key = ''id'',
      unique_keys = [],
      checks =
       []\<rparr>"

section \<open>Altering a table\<close>

definition set_type :: "string \<Rightarrow> sql_type \<Rightarrow> table \<Rightarrow> table" where
  "set_type c ty t =
     t\<lparr>columns := map (\<lambda>x. if col_name x = c then Col c ty (col_null x) (col_default x) else x) (columns t)\<rparr>"

definition with_column :: "column \<Rightarrow> table \<Rightarrow> table" where
  "with_column x t = t\<lparr>columns := columns t @ [x]\<rparr>"

definition without_column :: "string \<Rightarrow> table \<Rightarrow> table" where
  "without_column c t = t\<lparr>columns := filter (\<lambda>x. col_name x \<noteq> c) (columns t)\<rparr>"

text \<open>The tables that the later migrations alter, as those leave them.\<close>

definition netting_column :: column where
  "netting_column = Col ''auto_netting_enabled'' BOOLEAN NOT_NULL (DEFAULT (BoolV True))"

definition accounts_table :: table where
  "accounts_table = with_column netting_column create_accounts"

definition orders_table :: table where
  "orders_table = set_type ''id'' (VARCHAR 64) create_orders"

definition trades_table :: table where
  "trades_table = fold (\<lambda>c. set_type c (VARCHAR 64))
     [''buy_order_id'', ''sell_order_id'', ''maker_order_id'', ''taker_order_id''] create_trades"

lemmas create_defs = create_users_def create_accounts_def create_markets_def create_orders_def create_trades_def
  create_positions_def create_ledger_entries_def create_wal_events_def create_circuit_breaker_events_def

lemmas table_defs = create_defs accounts_table_def orders_table_def trades_table_def with_column_def
  netting_column_def set_type_def

end
