(* ===== verification/Rows.thy ===== *)
theory Rows
  imports Tables
begin

text \<open>
  The rows of the model as rows of the tables of \<open>Tables\<close>, column by column: a row satisfies the
  model's constraint exactly when its table accepts it, and two rows clash in the model exactly when
  they share a key. Columns that the model leaves out (random primary keys, audit times) are
  arguments.
\<close>

section \<open>Names of enumeration values\<close>

fun book_type_name :: "book_type \<Rightarrow> string" where
  "book_type_name NATIVE_BUY = ''NATIVE_BUY''"
| "book_type_name NATIVE_SELL = ''NATIVE_SELL''"
| "book_type_name SYNTHETIC_BUY = ''SYNTHETIC_BUY''"
| "book_type_name SYNTHETIC_SELL = ''SYNTHETIC_SELL''"
| "book_type_name UNSET_BOOK_TYPE = ''''"

fun frozen_asset_name :: "frozen_asset \<Rightarrow> string" where
  "frozen_asset_name FUNDS = ''FUNDS''"
| "frozen_asset_name YES_SHARES = ''YES_SHARES''"
| "frozen_asset_name NO_SHARES = ''NO_SHARES''"
| "frozen_asset_name UNSET_ASSET = ''''"

fun time_in_force_name :: "time_in_force \<Rightarrow> string" where
  "time_in_force_name GTC = ''GTC''"
| "time_in_force_name IOC = ''IOC''"

fun resolution_name :: "resolution_result \<Rightarrow> string" where
  "resolution_name RES_YES = ''YES''"
| "resolution_name RES_NO = ''NO''"
| "resolution_name RES_VOID = ''VOID''"

fun wal_event_name :: "wal_event_type \<Rightarrow> string" where
  "wal_event_name ORDER_ACCEPTED = ''ORDER_ACCEPTED''"
| "wal_event_name ORDER_MATCHED = ''ORDER_MATCHED''"
| "wal_event_name ORDER_PARTIALLY_FILLED = ''ORDER_PARTIALLY_FILLED''"
| "wal_event_name ORDER_CANCELLED = ''ORDER_CANCELLED''"
| "wal_event_name ORDER_EXPIRED = ''ORDER_EXPIRED''"

section \<open>Rows as cells\<close>

definition nullable :: "('a \<Rightarrow> sql_value) \<Rightarrow> 'a option \<Rightarrow> sql_value" where
  "nullable f v = (case v of None \<Rightarrow> SQL_NULL | Some x \<Rightarrow> f x)"

definition user_cells :: "int \<Rightarrow> int \<Rightarrow> user \<Rightarrow> cells" where
  "user_cells created updated u =
     [(''id'', UuidV (usr_id u)), (''username'', TextV (username u)), (''email'', TextV (email u)),
      (''password_hash'', TextV (password_hash u)), (''is_active'', BoolV (usr_is_active u)),
      (''created_at'', TimeV created), (''updated_at'', TimeV updated)]"

definition account_cells :: "string \<Rightarrow> int \<Rightarrow> int \<Rightarrow> account \<Rightarrow> cells" where
  "account_cells i created updated a =
     [(''id'', UuidV i), (''user_id'', TextV (acc_user_id a)),
      (''available_balance'', IntV (available_balance a)), (''frozen_balance'', IntV (frozen_balance a)),
      (''version'', IntV (acc_version a)), (''created_at'', TimeV created), (''updated_at'', TimeV updated),
      (''auto_netting_enabled'', BoolV (auto_netting_enabled a))]"

definition market_cells :: "int \<Rightarrow> market \<Rightarrow> cells" where
  "market_cells updated m =
     [(''id'', TextV (mkt_id m)), (''title'', TextV (title m)),
      (''description'', nullable TextV (description m)), (''category'', nullable TextV (category m)),
      (''status'', TextV (market_status_name (mkt_status m))),
      (''min_price_cents'', IntV (min_price_cents m)), (''max_price_cents'', IntV (max_price_cents m)),
      (''max_order_quantity'', IntV (max_order_quantity m)),
      (''max_position_per_user'', IntV (max_position_per_user m)),
      (''max_order_amount_cents'', IntV (max_order_amount_cents m)),
      (''maker_fee_bps'', IntV (maker_fee_bps m)), (''taker_fee_bps'', IntV (taker_fee_bps m)),
      (''trading_start_at'', nullable TimeV (trading_start_at m)),
      (''trading_end_at'', nullable TimeV (trading_end_at m)),
      (''resolution_date'', nullable TimeV (resolution_date m)),
      (''resolved_at'', nullable TimeV (resolved_at m)), (''settled_at'', nullable TimeV (settled_at m)),
      (''resolution_result'', nullable (\<lambda>r. TextV (resolution_name r)) (resolution_result m)),
      (''reserve_balance'', IntV (reserve_balance m)), (''pnl_pool'', IntV (pnl_pool m)),
      (''total_yes_shares'', IntV (total_yes_shares m)), (''total_no_shares'', IntV (total_no_shares m)),
      (''created_at'', TimeV (mkt_created_at m)), (''updated_at'', TimeV updated)]"

text \<open>
  The dates of a stored order are those of its insertion or update; \<open>None\<close> is the object's before it
  is stored, for which the column's default stands.
\<close>

definition order_cells :: "int \<Rightarrow> order \<Rightarrow> cells" where
  "order_cells now o1 =
     [(''id'', TextV (ord_id o1)), (''client_order_id'', TextV (client_order_id o1)),
      (''market_id'', TextV (ord_market_id o1)), (''user_id'', TextV (ord_user_id o1)),
      (''original_side'', TextV (side_name (original_side o1))),
      (''original_direction'', TextV (direction_name (original_direction o1))),
      (''original_price'', IntV (original_price o1)), (''book_type'', TextV (book_type_name (book_type o1))),
      (''book_direction'', TextV (direction_name (book_direction o1))), (''book_price'', IntV (book_price o1)),
      (''price_type'', TextV ''LIMIT''), (''time_in_force'', TextV (time_in_force_name (time_in_force o1))),
      (''quantity'', IntV (quantity o1)), (''filled_quantity'', IntV (filled_quantity o1)),
      (''remaining_quantity'', IntV (remaining_quantity o1)), (''frozen_amount'', IntV (frozen_amount o1)),
      (''frozen_asset_type'', TextV (frozen_asset_name (frozen_asset_type o1))),
      (''status'', TextV (order_status_name (ord_status o1))),
      (''cancel_reason'', nullable TextV (cancel_reason o1)),
      (''created_at'', TimeV (case ord_created_at o1 of Some t \<Rightarrow> t | None \<Rightarrow> now)),
      (''updated_at'', TimeV (case ord_updated_at o1 of Some t \<Rightarrow> t | None \<Rightarrow> now))]"

definition trade_cells :: "string \<Rightarrow> int \<Rightarrow> trade_row \<Rightarrow> cells" where
  "trade_cells i created t =
     [(''id'', UuidV i), (''trade_id'', TextV (trade_id t)), (''market_id'', TextV (trow_market_id t)),
      (''scenario'', TextV (scenario_name (trow_scenario t))),
      (''buy_order_id'', TextV (trow_buy_order_id t)), (''sell_order_id'', TextV (trow_sell_order_id t)),
      (''buy_user_id'', TextV (trow_buy_user_id t)), (''sell_user_id'', TextV (trow_sell_user_id t)),
      (''buy_book_type'', TextV (book_type_name (trow_buy_book_type t))),
      (''sell_book_type'', TextV (book_type_name (trow_sell_book_type t))),
      (''price'', IntV (trow_price t)), (''quantity'', IntV (trow_quantity t)),
      (''maker_order_id'', TextV (trow_maker_order_id t)), (''taker_order_id'', TextV (trow_taker_order_id t)),
      (''maker_fee'', IntV (maker_fee t)), (''taker_fee'', IntV (taker_fee t)),
      (''buy_realized_pnl'', nullable IntV (buy_realized_pnl t)),
      (''sell_realized_pnl'', nullable IntV (sell_realized_pnl t)),
      (''executed_at'', TimeV (executed_at t)), (''created_at'', TimeV created)]"

definition position_cells :: "string \<Rightarrow> int \<Rightarrow> int \<Rightarrow> position \<Rightarrow> cells" where
  "position_cells i created updated p =
     [(''id'', UuidV i), (''user_id'', TextV (pos_user_id p)), (''market_id'', TextV (pos_market_id p)),
      (''yes_volume'', IntV (yes_volume p)), (''yes_cost_sum'', IntV (yes_cost_sum p)),
      (''yes_pending_sell'', IntV (yes_pending_sell p)),
      (''no_volume'', IntV (no_volume p)), (''no_cost_sum'', IntV (no_cost_sum p)),
      (''no_pending_sell'', IntV (no_pending_sell p)),
      (''created_at'', TimeV created), (''updated_at'', TimeV updated)]"

definition ledger_cells :: "ledger_entry \<Rightarrow> cells" where
  "ledger_cells e =
     [(''id'', IntV (le_id e)), (''user_id'', TextV (le_user_id e)),
      (''entry_type'', TextV (ledger_type_name (entry_type e))), (''amount'', IntV (le_amount e)),
      (''balance_after'', IntV (balance_after e)), (''reference_type'', nullable TextV (reference_type e)),
      (''reference_id'', nullable TextV (reference_id e)),
      (''description'', nullable TextV (le_description e)), (''created_at'', TimeV (le_created_at e))]"

definition wal_cells :: "int \<Rightarrow> int \<Rightarrow> wal_event \<Rightarrow> cells" where
  "wal_cells i created w =
     [(''id'', IntV i), (''market_id'', TextV (wal_market_id w)),
      (''event_type'', TextV (wal_event_name (event_type w))), (''payload'', JsonV (payload w)),
      (''created_at'', TimeV created)]"

section \<open>Constraints\<close>

text \<open>What a column takes of each kind of cell.\<close>

declare column_takes.simps [simp del] among.simps [simp del]

lemma takes_present [simp]:
  "column_takes (Col c ty nl df) (UuidV u) \<longleftrightarrow> fits ty (UuidV u)"
  "column_takes (Col c ty nl df) (TextV s) \<longleftrightarrow> fits ty (TextV s)"
  "column_takes (Col c ty nl df) (IntV i) \<longleftrightarrow> fits ty (IntV i)"
  "column_takes (Col c ty nl df) (BoolV b) \<longleftrightarrow> fits ty (BoolV b)"
  "column_takes (Col c ty nl df) (TimeV n) \<longleftrightarrow> fits ty (TimeV n)"
  "column_takes (Col c ty nl df) (JsonV j) \<longleftrightarrow> fits ty (JsonV j)"
  by (simp_all add: column_takes.simps)

lemma takes_nullable [simp]:
  "column_takes (Col c (VARCHAR n) NULLABLE df) (nullable TextV s) \<longleftrightarrow> varchar_opt n s"
  "column_takes (Col c TEXT NULLABLE df) (nullable TextV s)"
  "column_takes (Col c TIMESTAMPTZ NULLABLE df) (nullable TimeV t)"
  "column_takes (Col c TIMESTAMPTZ NOT_NULL df) (nullable TimeV t) \<longleftrightarrow> t \<noteq> None"
  "column_takes (Col c BIGINT NULLABLE df) (nullable IntV i) \<longleftrightarrow> (case i of None \<Rightarrow> True | Some v \<Rightarrow> in_int8 v)"
  by (auto simp: column_takes.simps nullable_def varchar_opt_def split: option.splits)

text \<open>The names of an enumeration fit their column and are the names that its constraint lists.\<close>

lemma among_text: "among (TextV s) ss = Some (s \<in> set ss)"
  by (simp add: among.simps)

lemma side_named [simp]:
  "varchar 10 (side_name x)" "among (TextV (side_name x)) [''YES'', ''NO''] = Some True"
  by (cases x; simp add: varchar_def among_text)+

lemma direction_named [simp]:
  "varchar 10 (direction_name x)" "direction_name x = ''BUY'' \<longleftrightarrow> x = BUY" "direction_name x = ''SELL'' \<longleftrightarrow> x = SELL"
  "among (TextV (direction_name x)) [''BUY'', ''SELL''] = Some (x \<noteq> UNSET_DIRECTION)"
  by (cases x; simp add: varchar_def among_text)+

lemma book_type_named [simp]:
  "varchar 20 (book_type_name x)"
  "among (TextV (book_type_name x)) [''NATIVE_BUY'', ''NATIVE_SELL'', ''SYNTHETIC_BUY'', ''SYNTHETIC_SELL''] =
     Some (x \<noteq> UNSET_BOOK_TYPE)"
  "among (TextV (book_type_name x)) [''NATIVE_BUY'', ''SYNTHETIC_BUY''] = Some (x \<in> {NATIVE_BUY, SYNTHETIC_BUY})"
  "among (TextV (book_type_name x)) [''NATIVE_SELL'', ''SYNTHETIC_SELL''] = Some (x \<in> {NATIVE_SELL, SYNTHETIC_SELL})"
  by (cases x; simp add: varchar_def among_text)+

lemma price_type_named [simp]: "varchar 20 ''LIMIT''" "among (TextV ''LIMIT'') [''LIMIT''] = Some True"
  by (simp_all add: varchar_def among_text)

lemma time_in_force_named [simp]:
  "varchar 10 (time_in_force_name x)" "among (TextV (time_in_force_name x)) [''GTC'', ''IOC''] = Some True"
  by (cases x; simp add: varchar_def among_text)+

lemma frozen_asset_named [simp]:
  "varchar 20 (frozen_asset_name x)"
  "among (TextV (frozen_asset_name x)) [''FUNDS'', ''YES_SHARES'', ''NO_SHARES''] = Some (x \<noteq> UNSET_ASSET)"
  by (cases x; simp add: varchar_def among_text)+

lemma order_status_named [simp]:
  "varchar 20 (order_status_name x)"
  "among (TextV (order_status_name x)) [''NEW'', ''OPEN'', ''PARTIALLY_FILLED'', ''FILLED'', ''CANCELLED'',
     ''REJECTED''] = Some True"
  by (cases x; simp add: varchar_def among_text)+

lemma scenario_named [simp]:
  "varchar 20 (scenario_name x)"
  "among (TextV (scenario_name x)) [''MINT'', ''TRANSFER_YES'', ''TRANSFER_NO'', ''BURN''] = Some True"
  by (cases x; simp add: varchar_def among_text)+

lemma market_status_named [simp]:
  "varchar 20 (market_status_name x)"
  "among (TextV (market_status_name x)) [''DRAFT'', ''ACTIVE'', ''SUSPENDED'', ''HALTED'', ''RESOLVED'', ''SETTLED'',
     ''VOIDED''] = Some True"
  by (cases x; simp add: varchar_def among_text)+

lemma ledger_type_named [simp]:
  "varchar 30 (ledger_type_name x)"
  "among (TextV (ledger_type_name x)) [''DEPOSIT'', ''WITHDRAW'', ''ORDER_FREEZE'', ''ORDER_UNFREEZE'', ''MINT_COST'',
     ''MINT_RESERVE_IN'', ''BURN_REVENUE'', ''BURN_RESERVE_OUT'', ''TRANSFER_PAYMENT'', ''TRANSFER_RECEIPT'',
     ''NETTING'', ''NETTING_RESERVE_OUT'', ''FEE'', ''FEE_REVENUE'', ''SETTLEMENT_PAYOUT'', ''SETTLEMENT_VOID''] = Some True"
  by (cases x; simp add: varchar_def among_text)+

lemma wal_event_named [simp]:
  "varchar 30 (wal_event_name x)"
  "among (TextV (wal_event_name x)) [''ORDER_ACCEPTED'', ''ORDER_MATCHED'', ''ORDER_PARTIALLY_FILLED'',
     ''ORDER_CANCELLED'', ''ORDER_EXPIRED''] = Some True"
  by (cases x; simp add: varchar_def among_text)+

lemma resolution_text [simp]: "varchar 10 (resolution_name r)" "resolution_name r \<in> {''YES'', ''NO'', ''VOID''}"
  by (cases r; simp add: varchar_def)+

lemma resolution_named [simp]:
  "column_takes (Col c (VARCHAR 10) NULLABLE df) (nullable (\<lambda>r. TextV (resolution_name r)) x)"
  "or3 (Some (nullable (\<lambda>r. TextV (resolution_name r)) x = SQL_NULL))
     (among (nullable (\<lambda>r. TextV (resolution_name r)) x) [''YES'', ''NO'', ''VOID'']) \<noteq> Some False"
  using resolution_text by (auto simp: nullable_def among_text column_takes.simps among.simps split: option.splits)

lemmas row_defs = row_accepted_def table_defs cell_def

lemma accounts_accept: "row_accepted accounts_table (account_cells i t t' a) \<longleftrightarrow> ck_account a"
  by (auto simp: row_defs account_cells_def ck_account_def)

lemma users_accept: "row_accepted create_users (user_cells t t' u) \<longleftrightarrow> ck_user u"
  by (auto simp: row_defs user_cells_def ck_user_def)

lemma positions_accept: "row_accepted create_positions (position_cells i t t' p) \<longleftrightarrow> ck_position p"
  by (auto simp: row_defs position_cells_def ck_position_def)

lemma ledger_accepts: "row_accepted create_ledger_entries (ledger_cells e) \<longleftrightarrow> ck_ledger e"
  by (auto simp: row_defs ledger_cells_def ck_ledger_def)

lemma wal_accepts: "row_accepted create_wal_events (wal_cells i t w) \<longleftrightarrow> in_int8 i \<and> ck_wal w"
  by (auto simp: row_defs wal_cells_def ck_wal_def)

lemma trades_accept: "row_accepted trades_table (trade_cells i created t) \<longleftrightarrow> ck_trade t"
  by (auto simp: row_defs trade_cells_def ck_trade_def in_int2_def)

lemma orders_accept: "row_accepted orders_table (order_cells now o1) \<longleftrightarrow> ck_order o1"
  by (auto simp: row_defs order_cells_def ck_order_def in_int2_def in_int4_def)

lemma markets_accept: "row_accepted create_markets (market_cells t m) \<longleftrightarrow> ck_market m"
  by (auto simp: row_defs market_cells_def ck_market_def in_int2_def)

section \<open>Keys\<close>

lemmas key_defs = rows_clash_def same_key_def table_defs cell_def

lemma users_clash: "rows_clash create_users (user_cells t t' u) (user_cells r r' v) \<longleftrightarrow> user_clash u v"
  by (auto simp: key_defs user_cells_def user_clash_def)

lemma orders_clash: "rows_clash orders_table (order_cells now o1) (order_cells now' o2) \<longleftrightarrow> order_clash o1 o2"
  by (auto simp: key_defs order_cells_def order_clash_def ord_client_key_def)

lemma ledger_clashes: "rows_clash create_ledger_entries (ledger_cells e) (ledger_cells e') \<longleftrightarrow> ledger_clash e e'"
  by (auto simp: key_defs ledger_cells_def ledger_clash_def)

lemma markets_clash: "rows_clash create_markets (market_cells t m) (market_cells t' m') \<longleftrightarrow> mkt_id m = mkt_id m'"
  by (auto simp: key_defs market_cells_def)

lemma accounts_clash:
  "i \<noteq> j \<Longrightarrow> rows_clash accounts_table (account_cells i t t' a) (account_cells j r r' b) \<longleftrightarrow> account_clash a b"
  by (auto simp: key_defs account_cells_def account_clash_def)

lemma positions_clash:
  "i \<noteq> j \<Longrightarrow> rows_clash create_positions (position_cells i t t' p) (position_cells j r r' q) \<longleftrightarrow> pos_key p = pos_key q"
  by (auto simp: key_defs position_cells_def pos_key_def)

lemma trades_clash:
  "i \<noteq> j \<Longrightarrow> rows_clash trades_table (trade_cells i t a) (trade_cells j r b) \<longleftrightarrow> trade_clash a b"
  by (auto simp: key_defs trade_cells_def trade_clash_def)

lemma wal_clashes: "i \<noteq> j \<Longrightarrow> \<not> rows_clash create_wal_events (wal_cells i t w) (wal_cells j r w')"
  by (auto simp: key_defs wal_cells_def)

section \<open>The database as the contents of its tables\<close>

text \<open>The columns that the model leaves out: the random and the serial keys of the rows, and audit times.\<close>

record hidden_columns =
  random_id :: "nat \<Rightarrow> string"
  serial_id :: "nat \<Rightarrow> int"
  audit_time :: "nat \<Rightarrow> int"

definition numbered :: "(nat \<Rightarrow> 'r \<Rightarrow> cells) \<Rightarrow> 'r list \<Rightarrow> cells list" where
  "numbered f rs = map (\<lambda>(n, r). f n r) (enumerate 0 rs)"

definition rows_of :: "hidden_columns \<Rightarrow> db \<Rightarrow> string \<Rightarrow> cells list" where
  "rows_of h d name =
     (if name = ''users'' then numbered (\<lambda>n. user_cells (audit_time h n) (audit_time h n)) (users d)
      else if name = ''accounts'' then
        numbered (\<lambda>n. account_cells (random_id h n) (audit_time h n) (audit_time h n)) (accounts d)
      else if name = ''markets'' then numbered (\<lambda>n. market_cells (audit_time h n)) (markets d)
      else if name = ''orders'' then numbered (\<lambda>n. order_cells (audit_time h n)) (orders d)
      else if name = ''trades'' then numbered (\<lambda>n. trade_cells (random_id h n) (audit_time h n)) (trades d)
      else if name = ''positions'' then
        numbered (\<lambda>n. position_cells (random_id h n) (audit_time h n) (audit_time h n)) (positions d)
      else if name = ''ledger_entries'' then numbered (\<lambda>n. ledger_cells) (ledger_entries d)
      else if name = ''wal_events'' then numbered (\<lambda>n. wal_cells (serial_id h n) (audit_time h n)) (wal_events d)
      else [])"

definition table_holds :: "table \<Rightarrow> cells list \<Rightarrow> bool" where
  "table_holds t rows \<longleftrightarrow>
     list_all (row_accepted t) rows \<and> sorted_wrt (\<lambda>r r'. \<not> rows_clash t r r') rows"

lemma numbered_nth [simp]: "n < length rs \<Longrightarrow> numbered f rs ! n = f n (rs ! n)" "length (numbered f rs) = length rs"
  by (simp_all add: numbered_def nth_enumerate_eq)

lemma table_holds_numbered:
  assumes "\<And>n r. n < length rs \<Longrightarrow> row_accepted t (f n r) \<longleftrightarrow> P r"
    and "\<And>n n' r r'. n < n' \<Longrightarrow> n' < length rs \<Longrightarrow> rows_clash t (f n r) (f n' r') \<longleftrightarrow> K r r'"
  shows "table_holds t (numbered f rs) \<longleftrightarrow> list_all P rs \<and> sorted_wrt (\<lambda>r r'. \<not> K r r') rs"
  using assms by (auto simp: table_holds_def list_all_length sorted_wrt_iff_nth_less)

lemma sorted_wrt_distinct: "sorted_wrt (\<lambda>r r'. f r \<noteq> f r') rs \<longleftrightarrow> distinct (map f rs)"
  by (induction rs) auto

lemma sorted_wrt_both: "sorted_wrt (\<lambda>r r'. P r r' \<and> Q r r') rs \<longleftrightarrow> sorted_wrt P rs \<and> sorted_wrt Q rs"
  by (induction rs) auto

definition schema :: "table list" where
  "schema = [create_users, accounts_table, create_markets, orders_table, trades_table, create_positions,
     create_ledger_entries, create_wal_events, create_circuit_breaker_events]"

definition stored_in :: "hidden_columns \<Rightarrow> table list \<Rightarrow> db \<Rightarrow> bool" where
  "stored_in h ts d \<longleftrightarrow> list_all (\<lambda>t. table_holds t (rows_of h d (tbl_name t))) ts"

text \<open>The hidden keys that the database drew for its rows: random ones differ, the sequence has not run out.\<close>

definition keys_drawn :: "hidden_columns \<Rightarrow> db \<Rightarrow> bool" where
  "keys_drawn h d \<longleftrightarrow> inj (random_id h) \<and> inj_on (serial_id h) {..<length (wal_events d)} \<and>
     (\<forall>n < length (wal_events d). in_int8 (serial_id h n))"

lemma stored_iff_wf:
  assumes "keys_drawn h d"
  shows "stored_in h schema d \<longleftrightarrow> wf_db d"
proof -
  have names: "tbl_name create_users = ''users''" "tbl_name accounts_table = ''accounts''"
      "tbl_name create_markets = ''markets''" "tbl_name orders_table = ''orders''"
      "tbl_name trades_table = ''trades''" "tbl_name create_positions = ''positions''"
      "tbl_name create_ledger_entries = ''ledger_entries''" "tbl_name create_wal_events = ''wal_events''"
      "tbl_name create_circuit_breaker_events = ''circuit_breaker_events''"
    by (simp_all add: table_defs)
  have u: "table_holds create_users (rows_of h d ''users'') \<longleftrightarrow>
      list_all ck_user (users d) \<and> sorted_wrt (\<lambda>r r'. \<not> user_clash r r') (users d)"
    by (simp add: rows_of_def table_holds_numbered [of _ _ _ ck_user user_clash] users_accept users_clash)
  have a: "table_holds accounts_table (rows_of h d ''accounts'') \<longleftrightarrow>
      list_all ck_account (accounts d) \<and> sorted_wrt (\<lambda>r r'. \<not> account_clash r r') (accounts d)"
    using assms
    by (simp add: keys_drawn_def rows_of_def table_holds_numbered [of _ _ _ ck_account account_clash] accounts_accept accounts_clash inj_eq)
  have m: "table_holds create_markets (rows_of h d ''markets'') \<longleftrightarrow>
      list_all ck_market (markets d) \<and> sorted_wrt (\<lambda>r r'. mkt_id r \<noteq> mkt_id r') (markets d)"
    by (simp add: rows_of_def table_holds_numbered [of _ _ _ ck_market "\<lambda>r r'. mkt_id r = mkt_id r'"] markets_accept markets_clash)
  have o1: "table_holds orders_table (rows_of h d ''orders'') \<longleftrightarrow>
      list_all ck_order (orders d) \<and> sorted_wrt (\<lambda>r r'. \<not> order_clash r r') (orders d)"
    by (simp add: rows_of_def table_holds_numbered [of _ _ _ ck_order order_clash] orders_accept orders_clash)
  have t: "table_holds trades_table (rows_of h d ''trades'') \<longleftrightarrow>
      list_all ck_trade (trades d) \<and> sorted_wrt (\<lambda>r r'. \<not> trade_clash r r') (trades d)"
    using assms
    by (simp add: keys_drawn_def rows_of_def table_holds_numbered [of _ _ _ ck_trade trade_clash] trades_accept trades_clash inj_eq)
  have p: "table_holds create_positions (rows_of h d ''positions'') \<longleftrightarrow>
      list_all ck_position (positions d) \<and> sorted_wrt (\<lambda>r r'. pos_key r \<noteq> pos_key r') (positions d)"
    using assms
    by (simp add: keys_drawn_def rows_of_def table_holds_numbered [of _ _ _ ck_position "\<lambda>r r'. pos_key r = pos_key r'"] positions_accept positions_clash inj_eq)
  have l: "table_holds create_ledger_entries (rows_of h d ''ledger_entries'') \<longleftrightarrow>
      list_all ck_ledger (ledger_entries d) \<and> sorted_wrt (\<lambda>r r'. \<not> ledger_clash r r') (ledger_entries d)"
    by (simp add: rows_of_def table_holds_numbered [of _ _ _ ck_ledger ledger_clash] ledger_accepts ledger_clashes)
  have w: "table_holds create_wal_events (rows_of h d ''wal_events'') \<longleftrightarrow>
      list_all ck_wal (wal_events d) \<and> sorted_wrt (\<lambda>r r'. True) (wal_events d)"
  proof -
    have "serial_id h n \<noteq> serial_id h n'" if "n < n'" "n' < length (wal_events d)" for n n'
      using assms that by (auto simp: keys_drawn_def inj_on_def)
    then show ?thesis
      using assms
      by (simp add: keys_drawn_def rows_of_def table_holds_numbered [of _ _ _ ck_wal "\<lambda>r r'. False"] wal_accepts wal_clashes)
  qed
  have c: "table_holds create_circuit_breaker_events (rows_of h d ''circuit_breaker_events'')"
    by (simp add: rows_of_def table_holds_def)
  show ?thesis
    unfolding stored_in_def schema_def list.pred_inject names u a m o1 t p l w
    by (auto simp: c wf_db_def user_clash_def account_clash_def order_clash_def trade_clash_def ledger_clash_def
        sorted_wrt_both sorted_wrt_distinct)
qed

end
