(* ===== verification/Migrations.thy ===== *)
theory Migrations
  imports Rows Api
begin

text \<open>
  The migrations of \<open>alembic/versions\<close> with their downgrades, as statements on a database with
  its catalogue, in the order of their \<open>down_revision\<close>, and what \<open>alembic/env.py\<close> makes of them:
  all of them in one transaction. The data of 011 and 014 are those of \<open>Deployment\<close>. The tables
  that the migrations build are the ones of \<open>Rows\<close>, so the database of the model is the database
  that the program is deployed on.
\<close>

section \<open>The catalogue\<close>

record index =
  idx_name :: string
  idx_table :: string
  idx_columns :: "string list"

record trigger =
  trg_name :: string
  trg_table :: string
  trg_function :: string

record store =
  tables :: "table list"
  indexes :: "index list"
  triggers :: "trigger list"
  routines :: "string list"
  version_num :: "string option"
  data :: db

definition has_table :: "string \<Rightarrow> store \<Rightarrow> bool" where
  "has_table name s \<longleftrightarrow> list_ex (\<lambda>t. tbl_name t = name) (tables s)"

definition has_columns :: "string \<Rightarrow> string list \<Rightarrow> store \<Rightarrow> bool" where
  "has_columns name cols s \<longleftrightarrow>
     list_ex (\<lambda>t. tbl_name t = name \<and> list_all (\<lambda>c. c \<in> set (column_names t)) cols) (tables s)"

definition needs :: "(store \<Rightarrow> bool) \<Rightarrow> string \<Rightarrow> (store \<Rightarrow> store) \<Rightarrow> (store, unit) act" where
  "needs ok what f = (\<lambda>s. if ok s then (Inr (), f s) else (Inl (ProgrammingError what), s))"

definition change_table :: "string \<Rightarrow> (table \<Rightarrow> table) \<Rightarrow> store \<Rightarrow> store" where
  "change_table name f s = s\<lparr>tables := map (\<lambda>t. if tbl_name t = name then f t else t) (tables s)\<rparr>"

text \<open>The rows of a table that is dropped go with it.\<close>

definition without_rows :: "string \<Rightarrow> db \<Rightarrow> db" where
  "without_rows name d =
     (if name = ''users'' then d\<lparr>users := []\<rparr>
      else if name = ''accounts'' then d\<lparr>accounts := []\<rparr>
      else if name = ''markets'' then d\<lparr>markets := []\<rparr>
      else if name = ''orders'' then d\<lparr>orders := []\<rparr>
      else if name = ''trades'' then d\<lparr>trades := []\<rparr>
      else if name = ''positions'' then d\<lparr>positions := []\<rparr>
      else if name = ''ledger_entries'' then d\<lparr>ledger_entries := [], ledger_seq := 0\<rparr>
      else if name = ''wal_events'' then d\<lparr>wal_events := []\<rparr>
      else d)"

section \<open>Statements\<close>

definition create_function :: "string \<Rightarrow> (store, unit) act" where
  "create_function f = modify (\<lambda>s. s\<lparr>routines := List.insert f (routines s)\<rparr>)"

definition drop_function :: "string \<Rightarrow> (store, unit) act" where
  "drop_function f =
     needs (\<lambda>s. \<not> list_ex (\<lambda>g. trg_function g = f) (triggers s)) f (\<lambda>s. s\<lparr>routines := removeAll f (routines s)\<rparr>)"

definition create_table :: "table \<Rightarrow> (store, unit) act" where
  "create_table t = needs (\<lambda>s. \<not> has_table (tbl_name t) s) (tbl_name t) (\<lambda>s. s\<lparr>tables := tables s @ [t]\<rparr>)"

definition create_index :: "string \<Rightarrow> string \<Rightarrow> string list \<Rightarrow> (store, unit) act" where
  "create_index i name cols =
     needs (\<lambda>s. has_columns name cols s \<and> \<not> list_ex (\<lambda>x. idx_name x = i) (indexes s)) i
       (\<lambda>s. s\<lparr>indexes := indexes s @ [\<lparr>idx_name = i, idx_table = name, idx_columns = cols\<rparr>]\<rparr>)"

definition create_trigger :: "string \<Rightarrow> string \<Rightarrow> string \<Rightarrow> (store, unit) act" where
  "create_trigger g name f =
     needs (\<lambda>s. has_table name s \<and> f \<in> set (routines s) \<and>
         \<not> list_ex (\<lambda>x. trg_name x = g \<and> trg_table x = name) (triggers s)) g
       (\<lambda>s. s\<lparr>triggers := triggers s @ [\<lparr>trg_name = g, trg_table = name, trg_function = f\<rparr>]\<rparr>)"

definition comment_on_table :: "string \<Rightarrow> (store, unit) act" where
  "comment_on_table name = needs (has_table name) name (\<lambda>s. s)"

text \<open>\<open>DROP TABLE IF EXISTS ... CASCADE\<close>.\<close>

definition drop_table :: "string \<Rightarrow> (store, unit) act" where
  "drop_table name = modify (\<lambda>s. if has_table name s then s\<lparr>
     tables := filter (\<lambda>t. tbl_name t \<noteq> name) (tables s),
     indexes := filter (\<lambda>i. idx_table i \<noteq> name) (indexes s),
     triggers := filter (\<lambda>g. trg_table g \<noteq> name) (triggers s),
     data := without_rows name (data s)\<rparr> else s)"

text \<open>
  \<open>ALTER COLUMN ... TYPE ... USING c::type\<close> converts every value of the column, or fails on the
  first that has no such form; which texts PostgreSQL reads as a UUID is the parameter \<open>is_uuid\<close>.
\<close>

definition castable :: "(string \<Rightarrow> bool) \<Rightarrow> sql_type \<Rightarrow> sql_value \<Rightarrow> bool" where
  "castable is_uuid ty v = (case ty of UUID \<Rightarrow> (case v of TextV s \<Rightarrow> is_uuid s | _ \<Rightarrow> True) | _ \<Rightarrow> True)"

definition alter_type :: "(string \<Rightarrow> bool) \<Rightarrow> hidden_columns \<Rightarrow> string \<Rightarrow> string \<Rightarrow> sql_type \<Rightarrow> (store, unit) act" where
  "alter_type is_uuid h name c ty =
     bind_act (needs (has_columns name [c]) c id) (\<lambda>_ s.
     if list_all (\<lambda>row. castable is_uuid ty (cell row c)) (rows_of h (data s) name)
     then (Inr (), change_table name (set_type c ty) s)
     else (Inl (DBError name), s))"

definition in_data :: "(db, 'a) act \<Rightarrow> (store, 'a) act" where
  "in_data m = (\<lambda>s. case m (data s) of (r, d) \<Rightarrow> (r, s\<lparr>data := d\<rparr>))"

section \<open>The migrations\<close>

definition ddl_001 :: "(store, unit) act" where
  "ddl_001 = create_function ''fn_update_timestamp''"

definition undo_001 :: "(store, unit) act" where
  "undo_001 = drop_function ''fn_update_timestamp''"

definition ddl_002 :: "(store, unit) act" where
  "ddl_002 =
     bind_act (create_table create_users) (\<lambda>_.
     bind_act (create_index ''idx_users_email'' ''users'' [''email'']) (\<lambda>_.
     bind_act (create_trigger ''trg_users_updated_at'' ''users'' ''fn_update_timestamp'') (\<lambda>_.
     comment_on_table ''users'')))"

definition undo_002 :: "(store, unit) act" where
  "undo_002 = drop_table ''users''"

definition ddl_003 :: "(store, unit) act" where
  "ddl_003 =
     bind_act (create_table create_accounts) (\<lambda>_.
     bind_act (create_trigger ''trg_accounts_updated_at'' ''accounts'' ''fn_update_timestamp'') (\<lambda>_.
     comment_on_table ''accounts''))"

definition undo_003 :: "(store, unit) act" where
  "undo_003 = drop_table ''accounts''"

definition ddl_004 :: "(store, unit) act" where
  "ddl_004 =
     bind_act (create_table create_markets) (\<lambda>_.
     bind_act (create_index ''idx_markets_status'' ''markets'' [''status'']) (\<lambda>_.
     bind_act (create_trigger ''trg_markets_updated_at'' ''markets'' ''fn_update_timestamp'') (\<lambda>_.
     comment_on_table ''markets'')))"

definition undo_004 :: "(store, unit) act" where
  "undo_004 = drop_table ''markets''"

definition ddl_005 :: "(store, unit) act" where
  "ddl_005 =
     bind_act (create_table create_orders) (\<lambda>_.
     bind_act (create_index ''idx_orders_user_status'' ''orders'' [''user_id'', ''status'', ''created_at'']) (\<lambda>_.
     bind_act (create_index ''idx_orders_market_active'' ''orders'' [''market_id'', ''created_at'']) (\<lambda>_.
     bind_act (create_index ''idx_orders_self_trade'' ''orders'' [''market_id'', ''user_id'', ''book_direction'']) (\<lambda>_.
     bind_act (create_trigger ''trg_orders_updated_at'' ''orders'' ''fn_update_timestamp'') (\<lambda>_.
     comment_on_table ''orders'')))))"

definition undo_005 :: "(store, unit) act" where
  "undo_005 = drop_table ''orders''"

definition ddl_006 :: "(store, unit) act" where
  "ddl_006 =
     bind_act (create_table create_trades) (\<lambda>_.
     bind_act (create_index ''idx_trades_buy_user'' ''trades'' [''buy_user_id'', ''executed_at'']) (\<lambda>_.
     bind_act (create_index ''idx_trades_sell_user'' ''trades'' [''sell_user_id'', ''executed_at'']) (\<lambda>_.
     bind_act (create_index ''idx_trades_market_time'' ''trades'' [''market_id'', ''executed_at'']) (\<lambda>_.
     bind_act (create_index ''idx_trades_scenario'' ''trades'' [''market_id'', ''scenario'']) (\<lambda>_.
     comment_on_table ''trades'')))))"

definition undo_006 :: "(store, unit) act" where
  "undo_006 = drop_table ''trades''"

definition ddl_007 :: "(store, unit) act" where
  "ddl_007 =
     bind_act (create_table create_positions) (\<lambda>_.
     bind_act (create_index ''idx_positions_user'' ''positions'' [''user_id'']) (\<lambda>_.
     bind_act (create_trigger ''trg_positions_updated_at'' ''positions'' ''fn_update_timestamp'') (\<lambda>_.
     comment_on_table ''positions'')))"

definition undo_007 :: "(store, unit) act" where
  "undo_007 = drop_table ''positions''"

definition ddl_008 :: "(store, unit) act" where
  "ddl_008 =
     bind_act (create_table create_ledger_entries) (\<lambda>_.
     bind_act (create_index ''idx_ledger_user_time'' ''ledger_entries'' [''user_id'', ''created_at'']) (\<lambda>_.
     bind_act (create_index ''idx_ledger_reference'' ''ledger_entries'' [''reference_type'', ''reference_id'']) (\<lambda>_.
     bind_act (create_index ''idx_ledger_type'' ''ledger_entries'' [''entry_type'', ''created_at'']) (\<lambda>_.
     comment_on_table ''ledger_entries''))))"

definition undo_008 :: "(store, unit) act" where
  "undo_008 = drop_table ''ledger_entries''"

definition ddl_009 :: "(store, unit) act" where
  "ddl_009 =
     bind_act (create_table create_wal_events) (\<lambda>_.
     bind_act (create_index ''idx_wal_market_time'' ''wal_events'' [''market_id'', ''created_at'']) (\<lambda>_.
     bind_act (create_index ''idx_wal_order_id'' ''wal_events'' [''payload'']) (\<lambda>_.
     comment_on_table ''wal_events'')))"

definition undo_009 :: "(store, unit) act" where
  "undo_009 = drop_table ''wal_events''"

definition ddl_010 :: "(store, unit) act" where
  "ddl_010 =
     bind_act (create_table create_circuit_breaker_events) (\<lambda>_.
     bind_act (create_index ''idx_cb_market'' ''circuit_breaker_events'' [''market_id'', ''triggered_at'']) (\<lambda>_.
     comment_on_table ''circuit_breaker_events''))"

definition undo_010 :: "(store, unit) act" where
  "undo_010 = drop_table ''circuit_breaker_events''"

definition ddl_012 :: "(string \<Rightarrow> bool) \<Rightarrow> hidden_columns \<Rightarrow> (store, unit) act" where
  "ddl_012 is_uuid h = alter_type is_uuid h ''orders'' ''id'' (VARCHAR 64)"

definition undo_012 :: "(string \<Rightarrow> bool) \<Rightarrow> hidden_columns \<Rightarrow> (store, unit) act" where
  "undo_012 is_uuid h = alter_type is_uuid h ''orders'' ''id'' UUID"

definition order_id_columns :: "string list" where
  "order_id_columns = [''buy_order_id'', ''sell_order_id'', ''maker_order_id'', ''taker_order_id'']"

definition ddl_013 :: "(string \<Rightarrow> bool) \<Rightarrow> hidden_columns \<Rightarrow> (store, unit) act" where
  "ddl_013 is_uuid h = fold_act (\<lambda>c _. alter_type is_uuid h ''trades'' c (VARCHAR 64)) order_id_columns ()"

definition undo_013 :: "(string \<Rightarrow> bool) \<Rightarrow> hidden_columns \<Rightarrow> (store, unit) act" where
  "undo_013 is_uuid h = fold_act (\<lambda>c _. alter_type is_uuid h ''trades'' c UUID) order_id_columns ()"

text \<open>Every account there is gets the default of the new column.\<close>

definition add_netting_column :: "(store, unit) act" where
  "add_netting_column =
     needs (\<lambda>s. has_table ''accounts'' s \<and> \<not> has_columns ''accounts'' [''auto_netting_enabled''] s) ''accounts''
       (\<lambda>s. (change_table ''accounts'' (with_column netting_column) s)
          \<lparr>data := (data s)\<lparr>accounts := map (auto_netting_enabled_update (\<lambda>_. True)) (accounts (data s))\<rparr>\<rparr>)"

definition drop_netting_column :: "(store, unit) act" where
  "drop_netting_column =
     needs (has_columns ''accounts'' [''auto_netting_enabled'']) ''accounts''
       (change_table ''accounts'' (without_column ''auto_netting_enabled''))"

definition ddl_014 :: "(store, unit) act" where
  "ddl_014 = bind_act add_netting_column (\<lambda>_. in_data upgrade_014)"

definition undo_014 :: "(store, unit) act" where
  "undo_014 = bind_act (in_data downgrade_014) (\<lambda>_. drop_netting_column)"

section \<open>The order of the migrations\<close>

record revision =
  revision_id :: string
  down_revision :: "string option"
  upgrade :: "(store, unit) act"
  downgrade :: "(store, unit) act"

definition versions :: "(string \<Rightarrow> bool) \<Rightarrow> hidden_columns \<Rightarrow> revision list" where
  "versions is_uuid h =
     [\<lparr>revision_id = ''001'', down_revision = None, upgrade = ddl_001, downgrade = undo_001\<rparr>,
      \<lparr>revision_id = ''002'', down_revision = Some ''001'', upgrade = ddl_002, downgrade = undo_002\<rparr>,
      \<lparr>revision_id = ''003'', down_revision = Some ''002'', upgrade = ddl_003, downgrade = undo_003\<rparr>,
      \<lparr>revision_id = ''004'', down_revision = Some ''003'', upgrade = ddl_004, downgrade = undo_004\<rparr>,
      \<lparr>revision_id = ''005'', down_revision = Some ''004'', upgrade = ddl_005, downgrade = undo_005\<rparr>,
      \<lparr>revision_id = ''006'', down_revision = Some ''005'', upgrade = ddl_006, downgrade = undo_006\<rparr>,
      \<lparr>revision_id = ''007'', down_revision = Some ''006'', upgrade = ddl_007, downgrade = undo_007\<rparr>,
      \<lparr>revision_id = ''008'', down_revision = Some ''007'', upgrade = ddl_008, downgrade = undo_008\<rparr>,
      \<lparr>revision_id = ''009'', down_revision = Some ''008'', upgrade = ddl_009, downgrade = undo_009\<rparr>,
      \<lparr>revision_id = ''010'', down_revision = Some ''009'', upgrade = ddl_010, downgrade = undo_010\<rparr>,
      \<lparr>revision_id = ''011'', down_revision = Some ''010'', upgrade = in_data upgrade_011, downgrade = in_data downgrade_011\<rparr>,
      \<lparr>revision_id = ''012'', down_revision = Some ''011'', upgrade = ddl_012 is_uuid h, downgrade = undo_012 is_uuid h\<rparr>,
      \<lparr>revision_id = ''013'', down_revision = Some ''012'', upgrade = ddl_013 is_uuid h, downgrade = undo_013 is_uuid h\<rparr>,
      \<lparr>revision_id = ''014'', down_revision = Some ''013'', upgrade = ddl_014, downgrade = undo_014\<rparr>]"

text \<open>
  What Alembic does with them, as documented: it follows the \<open>down_revision\<close>s from the version the
  database has, and records the version after each step; \<open>do_run_migrations\<close> of \<open>env.py\<close> opens one
  transaction for the whole run, which an error rolls back.
\<close>

fun path_up :: "nat \<Rightarrow> revision list \<Rightarrow> string option \<Rightarrow> revision list" where
  "path_up 0 vs cur = []"
| "path_up (Suc n) vs cur =
     (case find (\<lambda>r. down_revision r = cur) vs of
        None \<Rightarrow> []
      | Some r \<Rightarrow> r # path_up n vs (Some (revision_id r)))"

fun path_down :: "nat \<Rightarrow> revision list \<Rightarrow> string option \<Rightarrow> revision list" where
  "path_down 0 vs cur = []"
| "path_down (Suc n) vs cur =
     (case find (\<lambda>r. Some (revision_id r) = cur) vs of
        None \<Rightarrow> []
      | Some r \<Rightarrow> r # path_down n vs (down_revision r))"

definition step_up :: "revision \<Rightarrow> (store, unit) act" where
  "step_up r = bind_act (upgrade r) (\<lambda>_. modify (\<lambda>s. s\<lparr>version_num := Some (revision_id r)\<rparr>))"

definition step_down :: "revision \<Rightarrow> (store, unit) act" where
  "step_down r = bind_act (downgrade r) (\<lambda>_. modify (\<lambda>s. s\<lparr>version_num := down_revision r\<rparr>))"

definition do_run_migrations :: "(store, unit) act \<Rightarrow> (store, unit) act" where
  "do_run_migrations m = (\<lambda>s. on_error m (\<lambda>_ _. s) s)"

definition upgrade_head :: "revision list \<Rightarrow> (store, unit) act" where
  "upgrade_head vs = do_run_migrations (\<lambda>s.
     fold_act (\<lambda>r _. step_up r) (path_up (length vs) vs (version_num s)) () s)"

text \<open>\<open>alembic downgrade -n\<close>: the last \<open>n\<close> migrations are undone; \<open>downgrade base\<close> undoes all.\<close>

definition downgrade_by :: "nat \<Rightarrow> revision list \<Rightarrow> (store, unit) act" where
  "downgrade_by n vs = do_run_migrations (\<lambda>s.
     fold_act (\<lambda>r _. step_down r) (path_down n vs (version_num s)) () s)"

section \<open>The database at each version\<close>

definition all_indexes :: "index list" where
  "all_indexes = map (\<lambda>(i, t, cs). \<lparr>idx_name = i, idx_table = t, idx_columns = cs\<rparr>)
     [(''idx_users_email'', ''users'', [''email'']), (''idx_markets_status'', ''markets'', [''status'']),
      (''idx_orders_user_status'', ''orders'', [''user_id'', ''status'', ''created_at'']),
      (''idx_orders_market_active'', ''orders'', [''market_id'', ''created_at'']),
      (''idx_orders_self_trade'', ''orders'', [''market_id'', ''user_id'', ''book_direction'']),
      (''idx_trades_buy_user'', ''trades'', [''buy_user_id'', ''executed_at'']),
      (''idx_trades_sell_user'', ''trades'', [''sell_user_id'', ''executed_at'']),
      (''idx_trades_market_time'', ''trades'', [''market_id'', ''executed_at'']),
      (''idx_trades_scenario'', ''trades'', [''market_id'', ''scenario'']),
      (''idx_positions_user'', ''positions'', [''user_id'']),
      (''idx_ledger_user_time'', ''ledger_entries'', [''user_id'', ''created_at'']),
      (''idx_ledger_reference'', ''ledger_entries'', [''reference_type'', ''reference_id'']),
      (''idx_ledger_type'', ''ledger_entries'', [''entry_type'', ''created_at'']),
      (''idx_wal_market_time'', ''wal_events'', [''market_id'', ''created_at'']),
      (''idx_wal_order_id'', ''wal_events'', [''payload'']),
      (''idx_cb_market'', ''circuit_breaker_events'', [''market_id'', ''triggered_at''])]"

definition all_triggers :: "trigger list" where
  "all_triggers = map (\<lambda>(g, t). \<lparr>trg_name = g, trg_table = t, trg_function = ''fn_update_timestamp''\<rparr>)
     [(''trg_users_updated_at'', ''users''), (''trg_accounts_updated_at'', ''accounts''),
      (''trg_markets_updated_at'', ''markets''), (''trg_orders_updated_at'', ''orders''),
      (''trg_positions_updated_at'', ''positions'')]"

definition stage_tables :: "nat \<Rightarrow> table list" where
  "stage_tables k = take (k - 1)
     [create_users, if k < 14 then create_accounts else accounts_table, create_markets,
      if k < 12 then create_orders else orders_table, if k < 13 then create_trades else trades_table,
      create_positions, create_ledger_entries, create_wal_events, create_circuit_breaker_events]"

definition stage_data :: "(nat \<Rightarrow> string) \<Rightarrow> int \<Rightarrow> nat \<Rightarrow> db" where
  "stage_data g now k =
     (if k < 11 then empty_db g now
      else if k < 14 then (empty_db g now)\<lparr>markets := seed_markets now,
        accounts := [system_account ''SYSTEM_RESERVE'', system_account ''PLATFORM_FEE'']\<rparr>
      else eng_db (deployed g now))"

definition stage_version :: "nat \<Rightarrow> string option" where
  "stage_version k = ([None] @ map Some [''001'', ''002'', ''003'', ''004'', ''005'', ''006'', ''007'', ''008'', ''009'',
     ''010'', ''011'', ''012'', ''013'', ''014'']) ! k"

definition stage :: "(nat \<Rightarrow> string) \<Rightarrow> int \<Rightarrow> nat \<Rightarrow> store" where
  "stage g now k =
     (let ts = stage_tables k in
      \<lparr>tables = ts, indexes = filter (\<lambda>i. idx_table i \<in> tbl_name ` set ts) all_indexes,
       triggers = filter (\<lambda>x. trg_table x \<in> tbl_name ` set ts) all_triggers,
       routines = (if k = 0 then [] else [''fn_update_timestamp'']),
       version_num = stage_version k, data = stage_data g now k\<rparr>)"

lemma table_names [simp]:
  "tbl_name create_users = ''users''" "tbl_name create_accounts = ''accounts''" "tbl_name accounts_table = ''accounts''"
  "tbl_name create_markets = ''markets''" "tbl_name create_orders = ''orders''" "tbl_name orders_table = ''orders''"
  "tbl_name create_trades = ''trades''" "tbl_name trades_table = ''trades''"
  "tbl_name create_positions = ''positions''" "tbl_name create_ledger_entries = ''ledger_entries''"
  "tbl_name create_wal_events = ''wal_events''" "tbl_name create_circuit_breaker_events = ''circuit_breaker_events''"
  by (simp_all add: table_defs)

lemmas ddl_defs = ddl_001_def ddl_002_def ddl_003_def ddl_004_def ddl_005_def ddl_006_def ddl_007_def ddl_008_def
  ddl_009_def ddl_010_def

lemmas undo_defs = undo_001_def undo_002_def undo_003_def undo_004_def undo_005_def undo_006_def undo_007_def undo_008_def
  undo_009_def undo_010_def

lemmas statement_defs = create_function_def create_table_def create_index_def create_trigger_def comment_on_table_def
  needs_def has_table_def has_columns_def bind_act_def

lemmas stage_defs = stage_def stage_tables_def all_indexes_def all_triggers_def stage_version_def stage_data_def

lemma indexed_columns [simp]:
  "''email'' \<in> set (column_names create_users)"
  "''status'' \<in> set (column_names create_markets)"
  "''id'' \<in> set (column_names create_orders)" "''user_id'' \<in> set (column_names create_orders)"
  "''status'' \<in> set (column_names create_orders)" "''created_at'' \<in> set (column_names create_orders)"
  "''market_id'' \<in> set (column_names create_orders)" "''book_direction'' \<in> set (column_names create_orders)"
  "''buy_user_id'' \<in> set (column_names create_trades)" "''sell_user_id'' \<in> set (column_names create_trades)"
  "''executed_at'' \<in> set (column_names create_trades)" "''market_id'' \<in> set (column_names create_trades)"
  "''scenario'' \<in> set (column_names create_trades)"
  "''user_id'' \<in> set (column_names create_positions)"
  "''user_id'' \<in> set (column_names create_ledger_entries)" "''created_at'' \<in> set (column_names create_ledger_entries)"
  "''reference_type'' \<in> set (column_names create_ledger_entries)" "''reference_id'' \<in> set (column_names create_ledger_entries)"
  "''entry_type'' \<in> set (column_names create_ledger_entries)"
  "''market_id'' \<in> set (column_names create_wal_events)" "''created_at'' \<in> set (column_names create_wal_events)"
  "''payload'' \<in> set (column_names create_wal_events)"
  "''market_id'' \<in> set (column_names create_circuit_breaker_events)" "''triggered_at'' \<in> set (column_names create_circuit_breaker_events)"
  by (simp_all add: column_names_def table_defs)

lemma revisions:
  "versions is_uuid h ! 0 = \<lparr>revision_id = ''001'', down_revision = None, upgrade = ddl_001, downgrade = undo_001\<rparr>"
  "versions is_uuid h ! (Suc 0) = \<lparr>revision_id = ''002'', down_revision = Some ''001'', upgrade = ddl_002, downgrade = undo_002\<rparr>"
  "versions is_uuid h ! 2 = \<lparr>revision_id = ''003'', down_revision = Some ''002'', upgrade = ddl_003, downgrade = undo_003\<rparr>"
  "versions is_uuid h ! 3 = \<lparr>revision_id = ''004'', down_revision = Some ''003'', upgrade = ddl_004, downgrade = undo_004\<rparr>"
  "versions is_uuid h ! 4 = \<lparr>revision_id = ''005'', down_revision = Some ''004'', upgrade = ddl_005, downgrade = undo_005\<rparr>"
  "versions is_uuid h ! 5 = \<lparr>revision_id = ''006'', down_revision = Some ''005'', upgrade = ddl_006, downgrade = undo_006\<rparr>"
  "versions is_uuid h ! 6 = \<lparr>revision_id = ''007'', down_revision = Some ''006'', upgrade = ddl_007, downgrade = undo_007\<rparr>"
  "versions is_uuid h ! 7 = \<lparr>revision_id = ''008'', down_revision = Some ''007'', upgrade = ddl_008, downgrade = undo_008\<rparr>"
  "versions is_uuid h ! 8 = \<lparr>revision_id = ''009'', down_revision = Some ''008'', upgrade = ddl_009, downgrade = undo_009\<rparr>"
  "versions is_uuid h ! 9 = \<lparr>revision_id = ''010'', down_revision = Some ''009'', upgrade = ddl_010, downgrade = undo_010\<rparr>"
  "versions is_uuid h ! 10 = \<lparr>revision_id = ''011'', down_revision = Some ''010'', upgrade = in_data upgrade_011, downgrade = in_data downgrade_011\<rparr>"
  "versions is_uuid h ! 11 = \<lparr>revision_id = ''012'', down_revision = Some ''011'', upgrade = ddl_012 is_uuid h, downgrade = undo_012 is_uuid h\<rparr>"
  "versions is_uuid h ! 12 = \<lparr>revision_id = ''013'', down_revision = Some ''012'', upgrade = ddl_013 is_uuid h, downgrade = undo_013 is_uuid h\<rparr>"
  "versions is_uuid h ! 13 = \<lparr>revision_id = ''014'', down_revision = Some ''013'', upgrade = ddl_014, downgrade = undo_014\<rparr>"
  by (simp_all add: versions_def)

text \<open>Each migration leads from one stage to the next, and its downgrade leads back.\<close>

lemma create_ups:
  "k \<in> {0, 1, 2, 3, 4, 5, 6, 7, 8, 9} \<Longrightarrow> step_up (versions is_uuid h ! k) (stage g now k) = (Inr (), stage g now (Suc k))"
  by (elim insertE emptyE)
    (simp_all add: revisions step_up_def ddl_defs statement_defs stage_defs Let_def)

lemma create_downs:
  "k \<in> {0, 1, 2, 3, 4, 5, 6, 7, 8, 9} \<Longrightarrow> step_down (versions is_uuid h ! k) (stage g now (Suc k)) = (Inr (), stage g now k)"
  by (elim insertE emptyE)
    (simp_all add: revisions step_down_def undo_defs statement_defs drop_table_def drop_function_def without_rows_def
      stage_defs empty_db_def Let_def)

lemma alter_id:
  "set_type ''id'' UUID orders_table = create_orders" "set_type ''id'' (VARCHAR 64) create_orders = orders_table"
  by (simp_all add: table_defs)

lemma alter_trades:
  "set_type ''taker_order_id'' (VARCHAR 64) (set_type ''maker_order_id'' (VARCHAR 64)
     (set_type ''sell_order_id'' (VARCHAR 64) (set_type ''buy_order_id'' (VARCHAR 64) create_trades))) = trades_table"
  "set_type ''taker_order_id'' UUID (set_type ''maker_order_id'' UUID
     (set_type ''sell_order_id'' UUID (set_type ''buy_order_id'' UUID trades_table))) = create_trades"
  by (simp_all add: table_defs)

lemma tbl_name_set_type [simp]: "tbl_name (set_type c ty t) = tbl_name t"
  by (simp add: set_type_def)

lemma column_names_set_type [simp]: "column_names (set_type c ty t) = column_names t"
  by (simp add: set_type_def column_names_def)

lemma altered_columns [simp]:
  "column_names orders_table = column_names create_orders" "column_names trades_table = column_names create_trades"
  by (simp_all add: orders_table_def trades_table_def)

lemma order_id_columns_there [simp]:
  "''buy_order_id'' \<in> set (column_names create_trades)" "''sell_order_id'' \<in> set (column_names create_trades)"
  "''maker_order_id'' \<in> set (column_names create_trades)" "''taker_order_id'' \<in> set (column_names create_trades)"
  by (simp_all add: column_names_def table_defs)

lemma netting_column_there [simp]:
  "''auto_netting_enabled'' \<notin> set (column_names create_accounts)"
  "''auto_netting_enabled'' \<in> set (column_names accounts_table)"
  "with_column netting_column create_accounts = accounts_table"
  "without_column ''auto_netting_enabled'' accounts_table = create_accounts"
  by (simp_all add: column_names_def table_defs without_column_def)

lemma no_rows:
  "rows_of h (stage_data g now k) ''orders'' = []" "rows_of h (stage_data g now k) ''trades'' = []"
  by (simp_all add: rows_of_def stage_data_def numbered_def deployed_db empty_db_def)

lemma alter_ups:
  "step_up (versions is_uuid h ! 11) (stage g now 11) = (Inr (), stage g now 12)"
  "step_up (versions is_uuid h ! 12) (stage g now 12) = (Inr (), stage g now 13)"
  "step_down (versions is_uuid h ! 11) (stage g now 12) = (Inr (), stage g now 11)"
  "step_down (versions is_uuid h ! 12) (stage g now 13) = (Inr (), stage g now 12)"
  using no_rows [of h g now 11] no_rows [of h g now 12] no_rows [of h g now 13]
  by (simp_all add: revisions step_up_def step_down_def ddl_012_def ddl_013_def undo_012_def undo_013_def
      alter_type_def change_table_def order_id_columns_def statement_defs alter_id alter_trades stage_defs Let_def)

lemma seed_data:
  "upgrade_011 (stage_data g now 10) = (Inr (), stage_data g now 11)"
  "downgrade_011 (stage_data g now 11) = (Inr (), stage_data g now 10)"
  "upgrade_014 ((stage_data g now 13)\<lparr>accounts := map (auto_netting_enabled_update (\<lambda>_. True)) (accounts (stage_data g now 13))\<rparr>) =
     (Inr (), stage_data g now 14)"
  "downgrade_014 (stage_data g now 14) = (Inr (), stage_data g now 13)"
  using seed_rows_ok
  by (simp_all add: stage_data_def deployed_db seed_accounts_def downgrade_011_def downgrade_014_def seed_defs)

lemma seed_ups:
  "step_up (versions is_uuid h ! 10) (stage g now 10) = (Inr (), stage g now 11)"
  "step_up (versions is_uuid h ! 13) (stage g now 13) = (Inr (), stage g now 14)"
  "step_down (versions is_uuid h ! 10) (stage g now 11) = (Inr (), stage g now 10)"
  "step_down (versions is_uuid h ! 13) (stage g now 14) = (Inr (), stage g now 13)"
  by (simp_all add: revisions step_up_def step_down_def ddl_014_def undo_014_def in_data_def seed_data
      add_netting_column_def drop_netting_column_def change_table_def statement_defs
      stage_def stage_tables_def all_indexes_def all_triggers_def stage_version_def Let_def)

section \<open>Whole runs\<close>

lemma below_14: "k < (14::nat) \<Longrightarrow> k \<in> {0, 1, 2, 3, 4, 5, 6, 7, 8, 9, 10, 11, 12, 13}"
  by (simp, presburger)

lemma steps:
  assumes "k < 14"
  shows "step_up (versions is_uuid h ! k) (stage g now k) = (Inr (), stage g now (Suc k))"
    and "step_down (versions is_uuid h ! k) (stage g now (Suc k)) = (Inr (), stage g now k)"
proof -
  have "k \<in> {0, 1, 2, 3, 4, 5, 6, 7, 8, 9} \<or> k = 10 \<or> k = 11 \<or> k = 12 \<or> k = 13"
    using below_14 [OF assms] by simp
  then have "step_up (versions is_uuid h ! k) (stage g now k) = (Inr (), stage g now (Suc k)) \<and>
      step_down (versions is_uuid h ! k) (stage g now (Suc k)) = (Inr (), stage g now k)"
  proof (elim disjE)
    assume "k \<in> {0, 1, 2, 3, 4, 5, 6, 7, 8, 9}"
    then show ?thesis by (intro conjI create_ups create_downs)
  qed (simp_all add: seed_ups alter_ups)
  then show "step_up (versions is_uuid h ! k) (stage g now k) = (Inr (), stage g now (Suc k))"
    "step_down (versions is_uuid h ! k) (stage g now (Suc k)) = (Inr (), stage g now k)" by blast+
qed

lemma versions_length [simp]: "length (versions is_uuid h) = 14"
  by (simp add: versions_def)

lemma version_of_stage: "version_num (stage g now k) = stage_version k"
  by (simp add: stage_def Let_def)

lemma linked:
  "k \<in> {0, 1, 2, 3, 4, 5, 6, 7, 8, 9, 10, 11, 12, 13} \<Longrightarrow>
   find (\<lambda>r. down_revision r = stage_version k) (versions is_uuid h) = Some (versions is_uuid h ! k) \<and>
   find (\<lambda>r. Some (revision_id r) = stage_version (Suc k)) (versions is_uuid h) = Some (versions is_uuid h ! k) \<and>
   Some (revision_id (versions is_uuid h ! k)) = stage_version (Suc k) \<and>
   down_revision (versions is_uuid h ! k) = stage_version k"
  by (elim insertE emptyE) (simp_all add: versions_def stage_version_def)

lemmas links = linked [OF below_14, THEN conjunct1] linked [OF below_14, THEN conjunct2, THEN conjunct1]
  linked [OF below_14, THEN conjunct2, THEN conjunct2, THEN conjunct1]
  linked [OF below_14, THEN conjunct2, THEN conjunct2, THEN conjunct2]

lemma upgrade_to_head:
  "k \<le> 14 \<Longrightarrow> 14 - k \<le> n \<Longrightarrow>
   fold_act (\<lambda>r _. step_up r) (path_up n (versions is_uuid h) (stage_version k)) () (stage g now k) = (Inr (), stage g now 14)"
proof (induction n arbitrary: k)
  case (Suc n)
  show ?case
  proof (cases "k = 14")
    case True
    then show ?thesis by (simp add: versions_def stage_version_def)
  next
    case False
    then show ?thesis using Suc.prems Suc.IH [of "Suc k"] by (simp add: links steps)
  qed
qed simp

lemma downgrade_from:
  "n \<le> k \<Longrightarrow> k \<le> 14 \<Longrightarrow>
   fold_act (\<lambda>r _. step_down r) (path_down n (versions is_uuid h) (stage_version k)) () (stage g now k) =
     (Inr (), stage g now (k - n))"
proof (induction n arbitrary: k)
  case (Suc n)
  then obtain j where "k = Suc j" by (cases k) auto
  then show ?case using Suc.prems Suc.IH [of j] by (simp add: links steps)
qed simp

lemma migrations_up_and_down:
  assumes "k \<le> 14"
  shows "upgrade_head (versions is_uuid h) (stage g now k) = (Inr (), stage g now 14) \<and>
    downgrade_by (14 - k) (versions is_uuid h) (stage g now 14) = (Inr (), stage g now k)"
proof -
  have "14 - (14 - k) = k" using assms by simp
  then show ?thesis
    using upgrade_to_head [of k 14] downgrade_from [of "14 - k" 14] assms
    by (simp add: upgrade_head_def downgrade_by_def do_run_migrations_def on_error_def version_of_stage)
qed

definition plain_ids :: "nat \<Rightarrow> string" where
  "plain_ids n = replicate n (CHR ''g'')"

definition plain_hidden :: hidden_columns where
  "plain_hidden = \<lparr>random_id = (\<lambda>n. replicate n (CHR ''f'')), serial_id = int, audit_time = (\<lambda>n. 7)\<rparr>"

text \<open>Claim C31. The migrations can be run from and back to every version: upgrading to the head from any of
  the fifteen versions gives the same store, and downgrading from the head by the right number of
  steps gives back the store of that version, catalogue and seeded data included.\<close>

theorem migrations_roundtrip:
  assumes "k \<le> 14"
  shows "upgrade_head (versions is_uuid h) (stage g now k) = (Inr (), stage g now 14) \<and>
    downgrade_by (14 - k) (versions is_uuid h) (stage g now 14) = (Inr (), stage g now k)"
  using assms by (rule migrations_up_and_down)

theorem migrations_roundtrip_witness:
  "downgrade_by 14 (versions (\<lambda>_. False) plain_hidden) (snd (upgrade_head (versions (\<lambda>_. False) plain_hidden) (stage plain_ids 7 0))) =
     (Inr (), stage plain_ids 7 0)"
  using migrations_roundtrip [of 0 "\<lambda>_. False" plain_hidden plain_ids 7] by simp

text \<open>Claim C27. The database of this development is the one the program is deployed on: running the
  migrations on an empty store succeeds and leaves the seeded data, and the tables they have built,
  read column by column and condition by condition from their \<open>CREATE TABLE\<close> texts, accept exactly
  the databases that satisfy the model's constraints \<open>wf_db\<close>, among them every database the served
  requests lead to.\<close>

theorem migrated_tables_hold_the_database:
  assumes "upgrade_head (versions is_uuid h) (stage g now 0) = (r, s)" and "keys_drawn h d"
  shows "r = Inr () \<and> data s = eng_db (deployed g now) \<and> (stored_in h (tables s) d \<longleftrightarrow> wf_db d) \<and>
    (\<forall>p evs. d = eng_db (serve p evs (deployed g now)) \<longrightarrow> stored_in h (tables s) d)"
proof -
  have "r = Inr ()" "s = stage g now 14" using migrations_up_and_down [of 0 is_uuid h g now] assms(1) by simp_all
  moreover have "tables (stage g now 14) = schema" by (simp add: stage_def stage_tables_def schema_def Let_def)
  ultimately show ?thesis
    using stored_iff_wf [OF assms(2)] wf.reachable [OF serve_reachable deployed_wf]
    by (auto simp: stage_def stage_data_def Let_def)
qed

theorem migrated_tables_hold_the_database_witness:
  "stored_in plain_hidden (tables (snd (upgrade_head (versions (\<lambda>_. False) plain_hidden) (stage plain_ids 7 0)))) (eng_db (deployed plain_ids 7)) \<and>
   \<not> stored_in plain_hidden (tables (snd (upgrade_head (versions (\<lambda>_. False) plain_hidden) (stage plain_ids 7 0))))
       ((eng_db (deployed plain_ids 7))\<lparr>accounts := [sample_account ''alice'' (- 1) 0]\<rparr>)"
proof -
  have drawn: "keys_drawn plain_hidden (eng_db (deployed plain_ids 7))"
      "keys_drawn plain_hidden ((eng_db (deployed plain_ids 7))\<lparr>accounts := [sample_account ''alice'' (- 1) 0]\<rparr>)"
    by (auto simp: keys_drawn_def plain_hidden_def deployed_db empty_db_def inj_def replicate_eq_replicate)
  have "\<not> wf_db ((eng_db (deployed plain_ids 7))\<lparr>accounts := [sample_account ''alice'' (- 1) 0]\<rparr>)"
    by (simp add: wf_db_def ck_account_def sample_account_def)
  then show ?thesis
    using migrated_tables_hold_the_database [of "\<lambda>_. False" plain_hidden plain_ids 7, OF surjective_pairing drawn(1)]
      migrated_tables_hold_the_database [of "\<lambda>_. False" plain_hidden plain_ids 7, OF surjective_pairing drawn(2)] deployed_wf
    by blast
qed

text \<open>Going back behind 013 and 012 means reading every order's identifier as a UUID.\<close>

definition live :: "(nat \<Rightarrow> string) \<Rightarrow> int \<Rightarrow> db \<Rightarrow> store" where
  "live g now d = (stage g now 14)\<lparr>data := d\<rparr>"

lemma downgrade_014_rows:
  "downgrade_014 d = (Inr (), d\<lparr>
     accounts := filter (\<lambda>a. acc_user_id a \<noteq> ''00000000-0000-4000-a000-000000000001'') (accounts d),
     users := filter (\<lambda>u. usr_id u \<noteq> ''00000000-0000-4000-a000-000000000001'') (users d)\<rparr>)"
  by (simp add: downgrade_014_def sql_delete_def bind_act_def)

lemma uncastable:
  assumes "o1 \<in> set (orders d)" "\<not> is_uuid (ord_id o1)"
  shows "\<not> list_all (\<lambda>row. castable is_uuid UUID (cell row ''id'')) (rows_of h d ''orders'')"
proof -
  obtain n where n: "n < length (orders d)" "orders d ! n = o1" using assms(1) by (auto simp: in_set_conv_nth)
  then have "rows_of h d ''orders'' ! n = order_cells (audit_time h n) o1" "n < length (rows_of h d ''orders'')"
    by (simp_all add: rows_of_def)
  then have "order_cells (audit_time h n) o1 \<in> set (rows_of h d ''orders'')" by (metis nth_mem)
  moreover have "\<not> castable is_uuid UUID (cell (order_cells now o1) ''id'')" for now
    using assms(2) by (simp add: castable_def cell_def order_cells_def)
  ultimately show ?thesis by (auto simp: list_all_iff)
qed

lemma undo_014_live:
  "step_down (versions is_uuid h ! 13) (live g now d) = (Inr (), (stage g now 13)\<lparr>data := snd (downgrade_014 d)\<rparr>)"
  by (simp add: live_def revisions step_down_def undo_014_def in_data_def downgrade_014_rows drop_netting_column_def
      change_table_def statement_defs stage_def stage_tables_def all_indexes_def all_triggers_def stage_version_def Let_def)

lemma undo_013_live:
  "\<exists>t. step_down (versions is_uuid h ! 12) ((stage g now 13)\<lparr>data := d\<rparr>) \<in>
     {(Inl (DBError ''trades''), t), (Inr (), (stage g now 12)\<lparr>data := d\<rparr>)}"
  by (simp add: revisions step_down_def undo_013_def alter_type_def change_table_def order_id_columns_def statement_defs
      alter_trades stage_def stage_tables_def all_indexes_def all_triggers_def stage_version_def Let_def)

lemma undo_012_live:
  assumes "o1 \<in> set (orders d)" "\<not> is_uuid (ord_id o1)"
  shows "step_down (versions is_uuid h ! 11) ((stage g now 12)\<lparr>data := d\<rparr>) = (Inl (DBError ''orders''), (stage g now 12)\<lparr>data := d\<rparr>)"
  using uncastable [of o1 d is_uuid h] assms
  by (simp add: revisions step_down_def undo_012_def alter_type_def statement_defs stage_def stage_tables_def Let_def)

text \<open>Claim C34. Once an order with an identifier of the program is stored, no downgrade reaches version 011:
  the identifiers are decimal and too short for a UUID, so undoing 013 or 012 is an error of the
  database, and the whole run is rolled back.\<close>

theorem downgrade_refuses_decimal_ids:
  assumes uuids: "\<And>x. is_uuid x \<Longrightarrow> 32 \<le> length x" and stored: "o1 \<in> set (orders d)" "length (ord_id o1) < 32"
    and n: "3 \<le> n"
  shows "\<exists>t. downgrade_by n (versions is_uuid h) (live g now d) = (Inl (DBError t), live g now d)"
proof -
  obtain m where m: "n = Suc (Suc (Suc m))" using n by (metis Suc_le_D numeral_3_eq_3 Suc_le_mono)
  let ?vs = "versions is_uuid h" and ?d = "snd (downgrade_014 d)"
  have "path_down n ?vs (stage_version (Suc 13)) = ?vs ! 13 # ?vs ! 12 # ?vs ! 11 # path_down m ?vs (stage_version 11)"
    using links(2,4) [of 13] links(2,4) [of 12] links(2,4) [of 11] by (simp add: m)
  moreover have "version_num (live g now d) = stage_version (Suc 13)" by (simp add: live_def version_of_stage)
  moreover have "step_down (?vs ! 11) ((stage g now 12)\<lparr>data := ?d\<rparr>) = (Inl (DBError ''orders''), (stage g now 12)\<lparr>data := ?d\<rparr>)"
    by (rule undo_012_live [of o1]) (use uuids stored in \<open>fastforce simp: downgrade_014_rows\<close>)+
  ultimately show ?thesis
    using undo_013_live [where is_uuid = is_uuid and h = h and g = g and now = now and d = ?d]
    by (auto simp: downgrade_by_def do_run_migrations_def on_error_def bind_act_def undo_014_live)
qed

definition one_order_db :: db where
  "one_order_db = sample_db\<lparr>orders := [sample_order ''7300000000000000001'' ''alice'' YES BUY 40 2]\<rparr>"

theorem downgrade_refuses_decimal_ids_witness:
  "\<exists>t. downgrade_by 14 (versions (\<lambda>x. length x = 36) plain_hidden) (live plain_ids 7 one_order_db) = (Inl (DBError t), live plain_ids 7 one_order_db)"
  by (rule downgrade_refuses_decimal_ids [of _ "sample_order ''7300000000000000001'' ''alice'' YES BUY 40 2"])
    (simp_all add: one_order_db_def sample_order_def)

end
