(* ===== verification/Orm.thy ===== *)
theory Orm
  imports Rows Mint_Burn
begin

text \<open>
  The ORM classes of \<open>infrastructure/db_models.py\<close> of each module and of \<open>pm_gateway/user\<close>, in the form
  of \<open>Tables\<close>, and how far they agree with the tables the migrations leave. A \<open>Mapped[T]\<close> without
  \<open>nullable\<close> is nullable when \<open>T\<close> is optional; \<open>Mapped[int]\<close> is an \<open>INTEGER\<close> and \<open>Mapped[datetime]\<close> a
  timestamp without time zone. The default of a column is the one given to \<open>mapped_column\<close>, on
  either side. Only \<open>UserModel\<close> is queried; the other modules write SQL.
\<close>

section \<open>Classes\<close>

definition orm_class :: "string \<Rightarrow> column list \<Rightarrow> table" where
  "orm_class name cols = \<lparr>tbl_name = name, columns = cols, primary_key = ''id'', unique_keys = [], checks = []\<rparr>"

definition AccountORM :: table where
  "AccountORM = orm_class ''accounts''
     [Col ''id'' UUID NOT_NULL No_Default,
      Col ''user_id'' (VARCHAR 64) NOT_NULL No_Default,
      Col ''available_balance'' BIGINT NOT_NULL (DEFAULT (IntV 0)),
      Col ''frozen_balance'' BIGINT NOT_NULL (DEFAULT (IntV 0)),
      Col ''version'' BIGINT NOT_NULL (DEFAULT (IntV 0)),
      Col ''auto_netting_enabled'' BOOLEAN NOT_NULL (DEFAULT (BoolV True)),
      Col ''created_at'' TIMESTAMPTZ NOT_NULL Now,
      Col ''updated_at'' TIMESTAMPTZ NOT_NULL Now]"

definition PositionORM :: table where
  "PositionORM = orm_class ''positions''
     [Col ''id'' UUID NOT_NULL No_Default,
      Col ''user_id'' (VARCHAR 64) NOT_NULL No_Default,
      Col ''market_id'' (VARCHAR 64) NOT_NULL No_Default,
      Col ''yes_volume'' INTEGER NOT_NULL (DEFAULT (IntV 0)),
      Col ''yes_cost_sum'' BIGINT NOT_NULL (DEFAULT (IntV 0)),
      Col ''yes_pending_sell'' INTEGER NOT_NULL (DEFAULT (IntV 0)),
      Col ''no_volume'' INTEGER NOT_NULL (DEFAULT (IntV 0)),
      Col ''no_cost_sum'' BIGINT NOT_NULL (DEFAULT (IntV 0)),
      Col ''no_pending_sell'' INTEGER NOT_NULL (DEFAULT (IntV 0)),
      Col ''created_at'' TIMESTAMPTZ NOT_NULL Now,
      Col ''updated_at'' TIMESTAMPTZ NOT_NULL Now]"

definition LedgerEntryORM :: table where
  "LedgerEntryORM = orm_class ''ledger_entries''
     [Col ''id'' BIGINT NOT_NULL Next_Value,
      Col ''user_id'' (VARCHAR 64) NOT_NULL No_Default,
      Col ''entry_type'' (VARCHAR 30) NOT_NULL No_Default,
      Col ''amount'' BIGINT NOT_NULL No_Default,
      Col ''balance_after'' BIGINT NOT_NULL No_Default,
      Col ''reference_type'' (VARCHAR 30) NULLABLE No_Default,
      Col ''reference_id'' (VARCHAR 64) NULLABLE No_Default,
      Col ''description'' (VARCHAR 500) NULLABLE No_Default,
      Col ''created_at'' TIMESTAMPTZ NOT_NULL Now]"

definition MarketORM :: table where
  "MarketORM = orm_class ''markets''
     [Col ''id'' TEXT NOT_NULL No_Default,
      Col ''title'' TEXT NOT_NULL No_Default,
      Col ''description'' TEXT NULLABLE No_Default,
      Col ''category'' TEXT NULLABLE No_Default,
      Col ''status'' TEXT NOT_NULL No_Default,
      Col ''min_price_cents'' SMALLINT NOT_NULL No_Default,
      Col ''max_price_cents'' SMALLINT NOT_NULL No_Default,
      Col ''max_order_quantity'' INTEGER NOT_NULL No_Default,
      Col ''max_position_per_user'' INTEGER NOT_NULL No_Default,
      Col ''max_order_amount_cents'' BIGINT NOT_NULL No_Default,
      Col ''maker_fee_bps'' SMALLINT NOT_NULL No_Default,
      Col ''taker_fee_bps'' SMALLINT NOT_NULL No_Default,
      Col ''trading_start_at'' TIMESTAMP NULLABLE No_Default,
      Col ''trading_end_at'' TIMESTAMP NULLABLE No_Default,
      Col ''resolution_date'' TIMESTAMP NULLABLE No_Default,
      Col ''resolved_at'' TIMESTAMP NULLABLE No_Default,
      Col ''settled_at'' TIMESTAMP NULLABLE No_Default,
      Col ''resolution_result'' TEXT NULLABLE No_Default,
      Col ''reserve_balance'' BIGINT NOT_NULL No_Default,
      Col ''pnl_pool'' BIGINT NOT_NULL No_Default,
      Col ''total_yes_shares'' BIGINT NOT_NULL No_Default,
      Col ''total_no_shares'' BIGINT NOT_NULL No_Default,
      Col ''created_at'' TIMESTAMP NOT_NULL No_Default,
      Col ''updated_at'' TIMESTAMP NOT_NULL No_Default]"

definition OrderORM :: table where
  "OrderORM = orm_class ''orders''
     [Col ''id'' (VARCHAR 26) NOT_NULL No_Default,
      Col ''client_order_id'' (VARCHAR 64) NOT_NULL No_Default,
      Col ''market_id'' (VARCHAR 64) NOT_NULL No_Default,
      Col ''user_id'' (VARCHAR 64) NOT_NULL No_Default,
      Col ''original_side'' (VARCHAR 10) NOT_NULL No_Default,
      Col ''original_direction'' (VARCHAR 10) NOT_NULL No_Default,
      Col ''original_price'' SMALLINT NOT_NULL No_Default,
      Col ''book_type'' (VARCHAR 20) NOT_NULL No_Default,
      Col ''book_direction'' (VARCHAR 10) NOT_NULL No_Default,
      Col ''book_price'' SMALLINT NOT_NULL No_Default,
      Col ''price_type'' (VARCHAR 10) NOT_NULL (DEFAULT (TextV ''LIMIT'')),
      Col ''time_in_force'' (VARCHAR 3) NOT_NULL (DEFAULT (TextV ''GTC'')),
      Col ''quantity'' INTEGER NOT_NULL No_Default,
      Col ''filled_quantity'' INTEGER NOT_NULL (DEFAULT (IntV 0)),
      Col ''remaining_quantity'' INTEGER NOT_NULL No_Default,
      Col ''frozen_amount'' BIGINT NOT_NULL (DEFAULT (IntV 0)),
      Col ''frozen_asset_type'' (VARCHAR 20) NOT_NULL No_Default,
      Col ''status'' (VARCHAR 20) NOT_NULL (DEFAULT (TextV ''OPEN'')),
      Col ''cancel_reason'' (VARCHAR 100) NULLABLE No_Default,
      Col ''created_at'' TIMESTAMPTZ NOT_NULL Now,
      Col ''updated_at'' TIMESTAMPTZ NOT_NULL Now]"

definition UserModel :: table where
  "UserModel = orm_class ''users''
     [Col ''id'' UUID NOT_NULL Random_UUID,
      Col ''username'' (VARCHAR 64) NOT_NULL No_Default,
      Col ''email'' (VARCHAR 255) NOT_NULL No_Default,
      Col ''password_hash'' (VARCHAR 255) NOT_NULL No_Default,
      Col ''is_active'' BOOLEAN NOT_NULL (DEFAULT (BoolV True)),
      Col ''created_at'' TIMESTAMPTZ NOT_NULL Now,
      Col ''updated_at'' TIMESTAMPTZ NOT_NULL Now]"

lemmas orm_defs = orm_class_def AccountORM_def PositionORM_def LedgerEntryORM_def MarketORM_def OrderORM_def UserModel_def

section \<open>Agreement with the tables\<close>

definition column_of :: "table \<Rightarrow> string \<Rightarrow> column option" where
  "column_of t c = find (\<lambda>x. col_name x = c) (columns t)"

text \<open>The class names the columns of its table, and which of them have another type or nullability.\<close>

definition same_columns :: "table \<Rightarrow> table \<Rightarrow> bool" where
  "same_columns c t \<longleftrightarrow> tbl_name c = tbl_name t \<and> primary_key c = primary_key t \<and>
     distinct (column_names c) \<and> set (column_names c) = set (column_names t)"

definition differing :: "(column \<Rightarrow> 'a) \<Rightarrow> table \<Rightarrow> table \<Rightarrow> string list" where
  "differing f c t = filter (\<lambda>n. map_option f (column_of c n) \<noteq> map_option f (column_of t n)) (column_names c)"

lemmas agreement_defs = differing_def column_of_def column_names_def orm_defs table_defs

lemma same_columns_all:
  "same_columns UserModel create_users" "same_columns AccountORM accounts_table" "same_columns PositionORM create_positions"
  "same_columns LedgerEntryORM create_ledger_entries" "same_columns MarketORM create_markets" "same_columns OrderORM orders_table"
  by (simp_all add: same_columns_def column_names_def orm_defs table_defs insert_commute)

lemma same_types:
  "differing col_type UserModel create_users = []" "differing col_type AccountORM accounts_table = []"
  "differing col_type PositionORM create_positions = []" "differing col_type LedgerEntryORM create_ledger_entries = []"
  by (simp_all add: agreement_defs)

lemma other_types:
  "differing col_type OrderORM orders_table = [''id'', ''price_type'', ''time_in_force'']"
  "differing col_type MarketORM create_markets =
     [''id'', ''title'', ''category'', ''status'', ''trading_start_at'', ''trading_end_at'', ''resolution_date'',
      ''resolved_at'', ''settled_at'', ''resolution_result'', ''created_at'', ''updated_at'']"
  by (simp_all add: agreement_defs)

lemma same_nulls:
  "differing col_null UserModel create_users = []" "differing col_null AccountORM accounts_table = []"
  "differing col_null PositionORM create_positions = []" "differing col_null LedgerEntryORM create_ledger_entries = []"
  "differing col_null OrderORM orders_table = []" "differing col_null MarketORM create_markets = []"
  by (simp_all add: agreement_defs)

lemma other_defaults:
  "differing col_default UserModel create_users = []" "differing col_default LedgerEntryORM create_ledger_entries = []"
  "differing col_default AccountORM accounts_table = [''id'']" "differing col_default PositionORM create_positions = [''id'']"
  "differing col_default OrderORM orders_table = [''id'', ''status'']"
  by (simp_all add: agreement_defs)

lemma schema_columns_of_the_tables:
  "schema_columns ''ledger_entries'' = column_names create_ledger_entries" "schema_columns ''trades'' = column_names trades_table"
  by (simp_all add: schema_columns_def column_names_def table_defs)

text \<open>Every order the program stores has cells that its class takes, as long as identifiers are short.\<close>

lemma OrderORM_takes:
  assumes "ck_order o1" "length (ord_id o1) \<le> 26"
  shows "row_accepted OrderORM (order_cells now o1)"
proof -
  have "varchar 10 ''LIMIT''" "varchar 3 (time_in_force_name (time_in_force o1))"
    by (cases "time_in_force o1"; simp add: varchar_def)+
  moreover have "varchar 26 (ord_id o1)" using assms(2) by (simp add: varchar_def)
  ultimately show ?thesis
    using assms(1) by (auto simp: row_accepted_def orm_defs cell_def order_cells_def ck_order_def in_int2_def in_int4_def)
qed

definition mapped_tables :: "(table \<times> table) list" where
  "mapped_tables = [(UserModel, create_users), (AccountORM, accounts_table), (PositionORM, create_positions),
     (LedgerEntryORM, create_ledger_entries), (MarketORM, create_markets), (OrderORM, orders_table)]"

theorem orm_classes_agree:
  "list_all (\<lambda>(c, t). same_columns c t \<and> differing col_null c t = []) mapped_tables \<and>
   map (\<lambda>(c, t). differing col_type c t) mapped_tables =
     [[], [], [], [],
      [''id'', ''title'', ''category'', ''status'', ''trading_start_at'', ''trading_end_at'', ''resolution_date'',
       ''resolved_at'', ''settled_at'', ''resolution_result'', ''created_at'', ''updated_at''],
      [''id'', ''price_type'', ''time_in_force'']] \<and>
   differing col_default OrderORM orders_table = [''id'', ''status'']"
  by (simp add: mapped_tables_def same_columns_all same_types other_types same_nulls other_defaults)

end
