(* ===== verification/Statements.thy ===== *)
theory Statements
  imports Migrations Orm
begin

text \<open>
  Every SQL statement that the program spells out (its \<open>text(...)\<close>; the queries of users are built by
  SQLAlchemy from \<open>UserModel\<close> of \<open>Orm\<close>, the statements of the migrations are in \<open>Migrations\<close>) as far
  as the tables must agree with it: the table, the columns that a \<open>SELECT\<close> answers with (each with the columns it is computed from), the columns that an
  \<open>INSERT\<close> gives, the key of its \<open>ON CONFLICT\<close> and what that sets, the columns that an \<open>UPDATE\<close> sets, and the
  columns of every condition, order and \<open>RETURNING\<close>. What the statements do with the rows is modelled
  by the operations of the other theories. One definition per text, named after its module and its
  variable or its function.
\<close>

section \<open>Statements and the tables they fit\<close>

datatype statement =
    SELECT string "(string \<times> string list) list" "string list"
  | INSERT string "string list" "string list" "string list" "string list"
  | UPDATE string "string list" "string list" "string list"

definition plain :: "string list \<Rightarrow> (string \<times> string list) list" where
  "plain cs = map (\<lambda>c. (c, [c])) cs"

fun stmt_table :: "statement \<Rightarrow> string" where
  "stmt_table (SELECT t results used) = t"
| "stmt_table (INSERT t given target sets returning) = t"
| "stmt_table (UPDATE t sets used returning) = t"

definition covers_columns :: "table \<Rightarrow> string list \<Rightarrow> bool" where
  "covers_columns t cs \<longleftrightarrow> list_all (\<lambda>c. c \<in> set (column_names t)) cs"

text \<open>
  An insertion must give every column that is neither nullable nor filled by a default, and the
  target of \<open>ON CONFLICT\<close> must be the primary key or a unique key.
\<close>

definition required_columns :: "table \<Rightarrow> string list" where
  "required_columns t = map col_name (filter (\<lambda>c. col_null c = NOT_NULL \<and> col_default c = No_Default) (columns t))"

definition is_key :: "table \<Rightarrow> string list \<Rightarrow> bool" where
  "is_key t cs \<longleftrightarrow> cs = [primary_key t] \<or> list_ex (\<lambda>(n, key). key = cs) (unique_keys t)"

fun statement_fits :: "table \<Rightarrow> statement \<Rightarrow> bool" where
  "statement_fits t (SELECT n results used) \<longleftrightarrow> covers_columns t (concat (map snd results)) \<and> covers_columns t used"
| "statement_fits t (INSERT n given target sets returning) \<longleftrightarrow>
     distinct given \<and> covers_columns t given \<and> list_all (\<lambda>c. c \<in> set given) (required_columns t) \<and>
     (target = [] \<or> is_key t target) \<and> distinct sets \<and> covers_columns t sets \<and> covers_columns t returning"
| "statement_fits t (UPDATE n sets used returning) \<longleftrightarrow>
     distinct sets \<and> covers_columns t sets \<and> covers_columns t used \<and> covers_columns t returning"

text \<open>A statement is accepted by a catalogue that has its table and fits it; no match is an undefined table.\<close>

definition accepted :: "table list \<Rightarrow> statement \<Rightarrow> bool" where
  "accepted ts st = (case find (\<lambda>t. tbl_name t = stmt_table st) ts of None \<Rightarrow> False | Some t \<Rightarrow> statement_fits t st)"

section \<open>Risk checks (pm_risk)\<close>

definition risk_freeze_funds_stmt :: statement where
  "risk_freeze_funds_stmt = UPDATE ''accounts'' [''available_balance'', ''frozen_balance'', ''version'',
     ''updated_at''] [''available_balance'', ''frozen_balance'', ''version'', ''user_id''] [''id'']"

definition risk_freeze_yes_stmt :: statement where
  "risk_freeze_yes_stmt = UPDATE ''positions'' [''yes_pending_sell'', ''updated_at''] [''yes_pending_sell'',
     ''user_id'', ''market_id'', ''yes_volume''] [''id'']"

definition risk_freeze_no_stmt :: statement where
  "risk_freeze_no_stmt = UPDATE ''positions'' [''no_pending_sell'', ''updated_at''] [''no_pending_sell'',
     ''user_id'', ''market_id'', ''no_volume''] [''id'']"

definition risk_market_status_stmt :: statement where
  "risk_market_status_stmt = SELECT ''markets'' (plain [''status'']) [''id'']"

definition risk_texts :: "statement list" where
  "risk_texts = [
     risk_freeze_funds_stmt, risk_freeze_yes_stmt, risk_freeze_no_stmt, risk_market_status_stmt]"

lemmas risk_texts_defs = risk_texts_def
  risk_freeze_funds_stmt_def risk_freeze_yes_stmt_def risk_freeze_no_stmt_def risk_market_status_stmt_def

section \<open>Registration (pm_gateway)\<close>

definition user_new_account_stmt :: statement where
  "user_new_account_stmt = INSERT ''accounts'' [''user_id'', ''available_balance'', ''frozen_balance'',
     ''version''] [] [] []"

definition user_texts :: "statement list" where
  "user_texts = [
     user_new_account_stmt]"

lemmas user_texts_defs = user_texts_def
  user_new_account_stmt_def

section \<open>Order repository (pm_order)\<close>

definition order_insert_order_stmt :: statement where
  "order_insert_order_stmt = INSERT ''orders'' [''id'', ''client_order_id'', ''market_id'', ''user_id'',
     ''original_side'', ''original_direction'', ''original_price'', ''book_type'', ''book_direction'',
     ''book_price'', ''price_type'', ''time_in_force'', ''quantity'', ''filled_quantity'',
     ''remaining_quantity'', ''frozen_amount'', ''frozen_asset_type'', ''status''] [] [] []"

definition order_update_order_stmt :: statement where
  "order_update_order_stmt = UPDATE ''orders'' [''status'', ''filled_quantity'', ''remaining_quantity'',
     ''frozen_amount'', ''updated_at''] [''id''] []"

text \<open>The three queries of orders share their columns.\<close>

definition SELECT_COLUMNS :: "string list" where
  "SELECT_COLUMNS = [''id'', ''client_order_id'', ''market_id'', ''user_id'',
     ''original_side'', ''original_direction'', ''original_price'',
     ''book_type'', ''book_direction'', ''book_price'', ''time_in_force'',
     ''quantity'', ''filled_quantity'', ''remaining_quantity'',
     ''frozen_amount'', ''frozen_asset_type'', ''status'', ''cancel_reason'', ''created_at'', ''updated_at'']"

definition order_get_order_by_id_stmt :: statement where
  "order_get_order_by_id_stmt = SELECT ''orders'' (plain SELECT_COLUMNS) [''id'']"

definition order_get_order_by_client_id_stmt :: statement where
  "order_get_order_by_client_id_stmt =
     SELECT ''orders'' (plain SELECT_COLUMNS) [''client_order_id'', ''user_id'']"

definition order_list_orders_stmt :: statement where
  "order_list_orders_stmt = SELECT ''orders'' (plain SELECT_COLUMNS)
     [''user_id'', ''market_id'', ''id'', ''status'', ''original_side'', ''original_direction'']"

definition order_texts :: "statement list" where
  "order_texts = [
     order_insert_order_stmt, order_update_order_stmt, order_get_order_by_id_stmt,
     order_get_order_by_client_id_stmt, order_list_orders_stmt]"

lemmas order_texts_defs = order_texts_def SELECT_COLUMNS_def
  order_insert_order_stmt_def order_update_order_stmt_def order_get_order_by_id_stmt_def
  order_get_order_by_client_id_stmt_def order_list_orders_stmt_def

section \<open>Administration (pm_admin)\<close>

definition admin_get_market_stmt :: statement where
  "admin_get_market_stmt = SELECT ''markets'' (plain [''id'', ''status'']) [''id'']"

definition admin_list_active_markets_stmt :: statement where
  "admin_list_active_markets_stmt = SELECT ''markets'' (plain [''id'', ''status'', ''reserve_balance'',
     ''pnl_pool'', ''total_yes_shares'', ''total_no_shares'']) [''status'']"

definition admin_get_open_orders_stmt :: statement where
  "admin_get_open_orders_stmt = SELECT ''orders'' (plain [''id'', ''user_id'', ''frozen_amount'',
     ''frozen_asset_type'', ''remaining_quantity'']) [''market_id'', ''status'']"

definition admin_cancel_order_stmt :: statement where
  "admin_cancel_order_stmt = UPDATE ''orders'' [''status'', ''cancel_reason'', ''updated_at''] [''id''] []"

definition admin_unfreeze_funds_stmt :: statement where
  "admin_unfreeze_funds_stmt = UPDATE ''accounts'' [''available_balance'', ''frozen_balance'', ''version'',
     ''updated_at''] [''available_balance'', ''frozen_balance'', ''version'', ''user_id''] []"

definition admin_unfreeze_yes_stmt :: statement where
  "admin_unfreeze_yes_stmt = UPDATE ''positions'' [''yes_pending_sell'', ''updated_at'']
     [''yes_pending_sell'', ''user_id'', ''market_id''] []"

definition admin_unfreeze_no_stmt :: statement where
  "admin_unfreeze_no_stmt = UPDATE ''positions'' [''no_pending_sell'', ''updated_at''] [''no_pending_sell'',
     ''user_id'', ''market_id''] []"

definition admin_stats_stmt :: statement where
  "admin_stats_stmt = SELECT ''trades'' [(''total_trades'', []), (''total_volume'', [''quantity'']),
     (''total_fees'', [''taker_fee'', ''maker_fee'']), (''unique_traders'', [''buy_user_id'',
     ''sell_user_id''])] [''market_id'']"

definition admin_texts :: "statement list" where
  "admin_texts = [
     admin_get_market_stmt, admin_list_active_markets_stmt, admin_get_open_orders_stmt,
     admin_cancel_order_stmt, admin_unfreeze_funds_stmt, admin_unfreeze_yes_stmt, admin_unfreeze_no_stmt,
     admin_stats_stmt]"

lemmas admin_texts_defs = admin_texts_def
  admin_get_market_stmt_def admin_list_active_markets_stmt_def admin_get_open_orders_stmt_def
  admin_cancel_order_stmt_def admin_unfreeze_funds_stmt_def admin_unfreeze_yes_stmt_def
  admin_unfreeze_no_stmt_def admin_stats_stmt_def

section \<open>Account repository (pm_account)\<close>

definition account_deposit_stmt :: statement where
  "account_deposit_stmt = UPDATE ''accounts'' [''available_balance'', ''version'', ''updated_at'']
     [''available_balance'', ''version'', ''user_id''] [''id'', ''user_id'', ''available_balance'',
     ''frozen_balance'', ''version'', ''created_at'', ''updated_at'']"

definition account_withdraw_stmt :: statement where
  "account_withdraw_stmt = UPDATE ''accounts'' [''available_balance'', ''version'', ''updated_at'']
     [''available_balance'', ''version'', ''user_id''] [''id'', ''user_id'', ''available_balance'',
     ''frozen_balance'', ''version'', ''created_at'', ''updated_at'']"

definition account_freeze_funds_stmt :: statement where
  "account_freeze_funds_stmt = UPDATE ''accounts'' [''available_balance'', ''frozen_balance'', ''version'',
     ''updated_at''] [''available_balance'', ''frozen_balance'', ''version'', ''user_id''] [''id'',
     ''user_id'', ''available_balance'', ''frozen_balance'', ''version'', ''created_at'', ''updated_at'']"

definition account_unfreeze_funds_stmt :: statement where
  "account_unfreeze_funds_stmt = UPDATE ''accounts'' [''available_balance'', ''frozen_balance'', ''version'',
     ''updated_at''] [''available_balance'', ''frozen_balance'', ''version'', ''user_id''] [''id'',
     ''user_id'', ''available_balance'', ''frozen_balance'', ''version'', ''created_at'', ''updated_at'']"

definition account_insert_ledger_stmt :: statement where
  "account_insert_ledger_stmt = INSERT ''ledger_entries'' [''user_id'', ''entry_type'', ''amount'',
     ''balance_after'', ''reference_type'', ''reference_id'', ''description''] [] [] [''id'', ''user_id'',
     ''entry_type'', ''amount'', ''balance_after'', ''reference_type'', ''reference_id'', ''description'',
     ''created_at'']"

definition account_create_position_stmt :: statement where
  "account_create_position_stmt = INSERT ''positions'' [''user_id'', ''market_id''] [''user_id'',
     ''market_id''] [] [''id'', ''user_id'', ''market_id'', ''yes_volume'', ''yes_cost_sum'',
     ''yes_pending_sell'', ''no_volume'', ''no_cost_sum'', ''no_pending_sell'', ''created_at'',
     ''updated_at'']"

definition account_existing_position_stmt :: statement where
  "account_existing_position_stmt = SELECT ''positions'' (plain [''id'', ''user_id'', ''market_id'',
     ''yes_volume'', ''yes_cost_sum'', ''yes_pending_sell'', ''no_volume'', ''no_cost_sum'',
     ''no_pending_sell'', ''created_at'', ''updated_at'']) [''user_id'', ''market_id'']"

definition account_freeze_yes_stmt :: statement where
  "account_freeze_yes_stmt = UPDATE ''positions'' [''yes_pending_sell'', ''updated_at'']
     [''yes_pending_sell'', ''user_id'', ''market_id'', ''yes_volume''] [''id'', ''user_id'', ''market_id'',
     ''yes_volume'', ''yes_cost_sum'', ''yes_pending_sell'', ''no_volume'', ''no_cost_sum'',
     ''no_pending_sell'', ''created_at'', ''updated_at'']"

definition account_unfreeze_yes_stmt :: statement where
  "account_unfreeze_yes_stmt = UPDATE ''positions'' [''yes_pending_sell'', ''updated_at'']
     [''yes_pending_sell'', ''user_id'', ''market_id''] [''id'', ''user_id'', ''market_id'', ''yes_volume'',
     ''yes_cost_sum'', ''yes_pending_sell'', ''no_volume'', ''no_cost_sum'', ''no_pending_sell'',
     ''created_at'', ''updated_at'']"

definition account_freeze_no_stmt :: statement where
  "account_freeze_no_stmt = UPDATE ''positions'' [''no_pending_sell'', ''updated_at''] [''no_pending_sell'',
     ''user_id'', ''market_id'', ''no_volume''] [''id'', ''user_id'', ''market_id'', ''yes_volume'',
     ''yes_cost_sum'', ''yes_pending_sell'', ''no_volume'', ''no_cost_sum'', ''no_pending_sell'',
     ''created_at'', ''updated_at'']"

definition account_unfreeze_no_stmt :: statement where
  "account_unfreeze_no_stmt = UPDATE ''positions'' [''no_pending_sell'', ''updated_at'']
     [''no_pending_sell'', ''user_id'', ''market_id''] [''id'', ''user_id'', ''market_id'', ''yes_volume'',
     ''yes_cost_sum'', ''yes_pending_sell'', ''no_volume'', ''no_cost_sum'', ''no_pending_sell'',
     ''created_at'', ''updated_at'']"

definition account_list_ledger_stmt :: statement where
  "account_list_ledger_stmt = SELECT ''ledger_entries'' (plain [''id'', ''user_id'', ''entry_type'',
     ''amount'', ''balance_after'', ''reference_type'', ''reference_id'', ''description'', ''created_at''])
     [''user_id'', ''id'', ''entry_type'']"

definition account_get_account_stmt :: statement where
  "account_get_account_stmt = SELECT ''accounts'' (plain [''id'', ''user_id'', ''available_balance'',
     ''frozen_balance'', ''version'', ''created_at'', ''updated_at'']) [''user_id'']"

definition account_texts :: "statement list" where
  "account_texts = [
     account_deposit_stmt, account_withdraw_stmt, account_freeze_funds_stmt, account_unfreeze_funds_stmt,
     account_insert_ledger_stmt, account_create_position_stmt, account_existing_position_stmt,
     account_freeze_yes_stmt, account_unfreeze_yes_stmt, account_freeze_no_stmt, account_unfreeze_no_stmt,
     account_list_ledger_stmt, account_get_account_stmt]"

lemmas account_texts_defs = account_texts_def
  account_deposit_stmt_def account_withdraw_stmt_def account_freeze_funds_stmt_def
  account_unfreeze_funds_stmt_def account_insert_ledger_stmt_def account_create_position_stmt_def
  account_existing_position_stmt_def account_freeze_yes_stmt_def account_unfreeze_yes_stmt_def
  account_freeze_no_stmt_def account_unfreeze_no_stmt_def account_list_ledger_stmt_def
  account_get_account_stmt_def

section \<open>Positions of a user (pm_account)\<close>

definition positions_list_stmt :: statement where
  "positions_list_stmt = SELECT ''positions'' (plain [''market_id'', ''yes_volume'', ''yes_cost_sum'',
     ''no_volume'', ''no_cost_sum'']) [''user_id'', ''yes_volume'', ''no_volume'', ''market_id'']"

definition positions_get_stmt :: statement where
  "positions_get_stmt = SELECT ''positions'' (plain [''market_id'', ''yes_volume'', ''yes_cost_sum'',
     ''no_volume'', ''no_cost_sum'']) [''user_id'', ''market_id'']"

definition position_texts :: "statement list" where
  "position_texts = [
     positions_list_stmt, positions_get_stmt]"

lemmas position_texts_defs = position_texts_def
  positions_list_stmt_def positions_get_stmt_def

section \<open>Matching engine (pm_matching)\<close>

definition engine_get_market_stmt :: statement where
  "engine_get_market_stmt = SELECT ''markets'' (plain [''id'', ''status'', ''reserve_balance'', ''pnl_pool'',
     ''total_yes_shares'', ''total_no_shares'', ''taker_fee_bps'']) [''id'']"

definition engine_update_market_stmt :: statement where
  "engine_update_market_stmt = UPDATE ''markets'' [''reserve_balance'', ''pnl_pool'', ''total_yes_shares'',
     ''total_no_shares'', ''updated_at''] [''id''] []"

definition rebuild_orderbook_stmt :: statement where
  "rebuild_orderbook_stmt = SELECT ''orders'' (plain [''id'', ''user_id'', ''book_type'', ''book_direction'',
     ''book_price'', ''remaining_quantity'', ''created_at'']) [''market_id'', ''status'', ''created_at'']"

definition remainder_unfreeze_funds_stmt :: statement where
  "remainder_unfreeze_funds_stmt = UPDATE ''accounts'' [''available_balance'', ''frozen_balance'',
     ''version'', ''updated_at''] [''available_balance'', ''frozen_balance'', ''version'', ''user_id''] []"

definition remainder_unfreeze_yes_stmt :: statement where
  "remainder_unfreeze_yes_stmt = UPDATE ''positions'' [''yes_pending_sell'', ''updated_at'']
     [''yes_pending_sell'', ''user_id'', ''market_id''] []"

definition remainder_unfreeze_no_stmt :: statement where
  "remainder_unfreeze_no_stmt = UPDATE ''positions'' [''no_pending_sell'', ''updated_at'']
     [''no_pending_sell'', ''user_id'', ''market_id''] []"

definition cancel_unfreeze_funds_stmt :: statement where
  "cancel_unfreeze_funds_stmt = UPDATE ''accounts'' [''available_balance'', ''frozen_balance'', ''version'',
     ''updated_at''] [''available_balance'', ''frozen_balance'', ''version'', ''user_id''] []"

definition cancel_unfreeze_yes_stmt :: statement where
  "cancel_unfreeze_yes_stmt = UPDATE ''positions'' [''yes_pending_sell'', ''updated_at'']
     [''yes_pending_sell'', ''user_id'', ''market_id''] []"

definition cancel_unfreeze_no_stmt :: statement where
  "cancel_unfreeze_no_stmt = UPDATE ''positions'' [''no_pending_sell'', ''updated_at''] [''no_pending_sell'',
     ''user_id'', ''market_id''] []"

definition cancel_by_row_stmt :: statement where
  "cancel_by_row_stmt = UPDATE ''orders'' [''status'', ''updated_at''] [''id''] []"

definition batch_select_orders_stmt :: statement where
  "batch_select_orders_stmt = SELECT ''orders'' (plain [''id'', ''frozen_amount'', ''frozen_asset_type'',
     ''original_direction'']) [''user_id'', ''market_id'', ''status'', ''original_direction'']"

definition batch_cancel_orders_stmt :: statement where
  "batch_cancel_orders_stmt = UPDATE ''orders'' [''status'', ''updated_at''] [''id''] []"

definition batch_unfreeze_funds_stmt :: statement where
  "batch_unfreeze_funds_stmt = UPDATE ''accounts'' [''available_balance'', ''frozen_balance'', ''version'']
     [''available_balance'', ''frozen_balance'', ''version'', ''user_id''] []"

definition batch_unfreeze_yes_stmt :: statement where
  "batch_unfreeze_yes_stmt = UPDATE ''positions'' [''yes_pending_sell''] [''yes_pending_sell'', ''user_id'',
     ''market_id''] []"

definition batch_unfreeze_no_stmt :: statement where
  "batch_unfreeze_no_stmt = UPDATE ''positions'' [''no_pending_sell''] [''no_pending_sell'', ''user_id'',
     ''market_id''] []"

definition engine_texts :: "statement list" where
  "engine_texts = [
     engine_get_market_stmt, engine_update_market_stmt, rebuild_orderbook_stmt,
     remainder_unfreeze_funds_stmt, remainder_unfreeze_yes_stmt, remainder_unfreeze_no_stmt,
     cancel_unfreeze_funds_stmt, cancel_unfreeze_yes_stmt, cancel_unfreeze_no_stmt, cancel_by_row_stmt,
     batch_select_orders_stmt, batch_cancel_orders_stmt, batch_unfreeze_funds_stmt,
     batch_unfreeze_yes_stmt, batch_unfreeze_no_stmt]"

lemmas engine_texts_defs = engine_texts_def
  engine_get_market_stmt_def engine_update_market_stmt_def rebuild_orderbook_stmt_def
  remainder_unfreeze_funds_stmt_def remainder_unfreeze_yes_stmt_def remainder_unfreeze_no_stmt_def
  cancel_unfreeze_funds_stmt_def cancel_unfreeze_yes_stmt_def cancel_unfreeze_no_stmt_def
  cancel_by_row_stmt_def batch_select_orders_stmt_def batch_cancel_orders_stmt_def
  batch_unfreeze_funds_stmt_def batch_unfreeze_yes_stmt_def batch_unfreeze_no_stmt_def

section \<open>Market repository (pm_market)\<close>

definition market_get_market_stmt :: statement where
  "market_get_market_stmt = SELECT ''markets'' (plain [''id'', ''title'', ''description'', ''category'',
     ''status'', ''min_price_cents'', ''max_price_cents'', ''max_order_quantity'', ''max_position_per_user'',
     ''max_order_amount_cents'', ''maker_fee_bps'', ''taker_fee_bps'', ''reserve_balance'', ''pnl_pool'',
     ''total_yes_shares'', ''total_no_shares'', ''trading_start_at'', ''trading_end_at'',
     ''resolution_date'', ''resolved_at'', ''settled_at'', ''resolution_result'', ''created_at'',
     ''updated_at'']) [''id'']"

definition market_list_markets_stmt :: statement where
  "market_list_markets_stmt = SELECT ''markets'' (plain [''id'', ''title'', ''description'', ''category'',
     ''status'', ''min_price_cents'', ''max_price_cents'', ''max_order_quantity'', ''max_position_per_user'',
     ''max_order_amount_cents'', ''maker_fee_bps'', ''taker_fee_bps'', ''reserve_balance'', ''pnl_pool'',
     ''total_yes_shares'', ''total_no_shares'', ''trading_start_at'', ''trading_end_at'',
     ''resolution_date'', ''resolved_at'', ''settled_at'', ''resolution_result'', ''created_at'',
     ''updated_at'']) [''status'', ''category'', ''created_at'', ''id'']"

definition market_orderbook_aggregate_stmt :: statement where
  "market_orderbook_aggregate_stmt = SELECT ''orders'' [(''book_price'', [''book_price'']),
     (''book_direction'', [''book_direction'']), (''total_qty'', [''remaining_quantity''])] [''market_id'',
     ''status'', ''book_price'', ''book_direction'']"

definition market_last_trade_stmt :: statement where
  "market_last_trade_stmt = SELECT ''trades'' (plain [''price'']) [''market_id'', ''executed_at'', ''id'']"

definition market_texts :: "statement list" where
  "market_texts = [
     market_get_market_stmt, market_list_markets_stmt, market_orderbook_aggregate_stmt,
     market_last_trade_stmt]"

lemmas market_texts_defs = market_texts_def
  market_get_market_stmt_def market_list_markets_stmt_def market_orderbook_aggregate_stmt_def
  market_last_trade_stmt_def

section \<open>Trades (pm_clearing)\<close>

definition trades_list_stmt :: statement where
  "trades_list_stmt = SELECT ''trades'' (plain [''trade_id'', ''market_id'', ''scenario'', ''buy_order_id'',
     ''sell_order_id'', ''buy_user_id'', ''sell_user_id'', ''buy_book_type'', ''sell_book_type'', ''price'',
     ''quantity'', ''maker_order_id'', ''taker_order_id'', ''maker_fee'', ''taker_fee'',
     ''buy_realized_pnl'', ''sell_realized_pnl'', ''executed_at'']) [''buy_user_id'', ''sell_user_id'',
     ''market_id'', ''trade_id'', ''executed_at'']"

definition trades_insert_trade_stmt :: statement where
  "trades_insert_trade_stmt = INSERT ''trades'' [''trade_id'', ''market_id'', ''scenario'', ''buy_order_id'',
     ''sell_order_id'', ''buy_user_id'', ''sell_user_id'', ''buy_book_type'', ''sell_book_type'', ''price'',
     ''quantity'', ''maker_order_id'', ''taker_order_id'', ''maker_fee'', ''taker_fee'',
     ''buy_realized_pnl'', ''sell_realized_pnl'', ''executed_at''] [] [] []"

definition trade_texts :: "statement list" where
  "trade_texts = [
     trades_list_stmt, trades_insert_trade_stmt]"

lemmas trade_texts_defs = trade_texts_def
  trades_list_stmt_def trades_insert_trade_stmt_def

section \<open>Fees (pm_clearing)\<close>

definition fee_deduct_frozen_stmt :: statement where
  "fee_deduct_frozen_stmt = UPDATE ''accounts'' [''frozen_balance'', ''available_balance'', ''version'',
     ''updated_at''] [''frozen_balance'', ''available_balance'', ''version'', ''user_id''] []"

definition fee_deduct_available_stmt :: statement where
  "fee_deduct_available_stmt = UPDATE ''accounts'' [''available_balance'', ''version'', ''updated_at'']
     [''available_balance'', ''version'', ''user_id''] []"

definition fee_credit_platform_stmt :: statement where
  "fee_credit_platform_stmt = UPDATE ''accounts'' [''available_balance'', ''version'', ''updated_at'']
     [''available_balance'', ''version'', ''user_id''] []"

definition fee_texts :: "statement list" where
  "fee_texts = [
     fee_deduct_frozen_stmt, fee_deduct_available_stmt, fee_credit_platform_stmt]"

lemmas fee_texts_defs = fee_texts_def
  fee_deduct_frozen_stmt_def fee_deduct_available_stmt_def fee_credit_platform_stmt_def

section \<open>Ledger and event log (pm_clearing)\<close>

definition ledger_insert_ledger_stmt :: statement where
  "ledger_insert_ledger_stmt = INSERT ''ledger_entries'' [''user_id'', ''entry_type'', ''amount'',
     ''balance_after'', ''reference_type'', ''reference_id''] [] [] []"

definition ledger_insert_wal_stmt :: statement where
  "ledger_insert_wal_stmt = INSERT ''wal_events'' [''market_id'', ''event_type'', ''payload''] [] [] []"

definition ledger_texts :: "statement list" where
  "ledger_texts = [
     ledger_insert_ledger_stmt, ledger_insert_wal_stmt]"

lemmas ledger_texts_defs = ledger_texts_def
  ledger_insert_ledger_stmt_def ledger_insert_wal_stmt_def

section \<open>Netting (pm_clearing)\<close>

definition netting_get_position_stmt :: statement where
  "netting_get_position_stmt = SELECT ''positions'' (plain [''yes_volume'', ''yes_cost_sum'',
     ''yes_pending_sell'', ''no_volume'', ''no_cost_sum'', ''no_pending_sell'']) [''user_id'', ''market_id'']"

definition netting_update_position_net_stmt :: statement where
  "netting_update_position_net_stmt = UPDATE ''positions'' [''yes_volume'', ''yes_cost_sum'', ''no_volume'',
     ''no_cost_sum'', ''updated_at''] [''yes_volume'', ''yes_cost_sum'', ''no_volume'', ''no_cost_sum'',
     ''user_id'', ''market_id''] []"

definition netting_credit_available_stmt :: statement where
  "netting_credit_available_stmt = UPDATE ''accounts'' [''available_balance'', ''version'', ''updated_at'']
     [''available_balance'', ''version'', ''user_id''] []"

definition netting_enabled_stmt :: statement where
  "netting_enabled_stmt = SELECT ''accounts'' (plain [''auto_netting_enabled'']) [''user_id'']"

definition netting_texts :: "statement list" where
  "netting_texts = [
     netting_get_position_stmt, netting_update_position_net_stmt, netting_credit_available_stmt,
     netting_enabled_stmt]"

lemmas netting_texts_defs = netting_texts_def
  netting_get_position_stmt_def netting_update_position_net_stmt_def netting_credit_available_stmt_def
  netting_enabled_stmt_def

section \<open>Clearing scenarios (pm_clearing)\<close>

definition mint_unfreeze_debit_stmt :: statement where
  "mint_unfreeze_debit_stmt = UPDATE ''accounts'' [''frozen_balance'', ''available_balance'', ''version'',
     ''updated_at''] [''frozen_balance'', ''available_balance'', ''version'', ''user_id''] []"

definition mint_add_yes_volume_stmt :: statement where
  "mint_add_yes_volume_stmt = INSERT ''positions'' [''user_id'', ''market_id'', ''yes_volume'',
     ''yes_cost_sum''] [''user_id'', ''market_id''] [''yes_volume'', ''yes_cost_sum'', ''updated_at''] []"

definition mint_add_no_volume_stmt :: statement where
  "mint_add_no_volume_stmt = INSERT ''positions'' [''user_id'', ''market_id'', ''no_volume'',
     ''no_cost_sum''] [''user_id'', ''market_id''] [''no_volume'', ''no_cost_sum'', ''updated_at''] []"

definition transfer_yes_unfreeze_debit_stmt :: statement where
  "transfer_yes_unfreeze_debit_stmt = UPDATE ''accounts'' [''frozen_balance'', ''available_balance'',
     ''version'', ''updated_at''] [''frozen_balance'', ''available_balance'', ''version'', ''user_id''] []"

definition transfer_yes_add_yes_volume_stmt :: statement where
  "transfer_yes_add_yes_volume_stmt = INSERT ''positions'' [''user_id'', ''market_id'', ''yes_volume'',
     ''yes_cost_sum''] [''user_id'', ''market_id''] [''yes_volume'', ''yes_cost_sum'', ''updated_at''] []"

definition transfer_yes_get_seller_yes_stmt :: statement where
  "transfer_yes_get_seller_yes_stmt = SELECT ''positions'' (plain [''yes_volume'', ''yes_cost_sum'',
     ''yes_pending_sell'']) [''user_id'', ''market_id'']"

definition transfer_yes_reduce_yes_volume_stmt :: statement where
  "transfer_yes_reduce_yes_volume_stmt = UPDATE ''positions'' [''yes_volume'', ''yes_cost_sum'',
     ''yes_pending_sell'', ''updated_at''] [''yes_volume'', ''yes_cost_sum'', ''yes_pending_sell'',
     ''user_id'', ''market_id''] []"

definition transfer_yes_add_balance_stmt :: statement where
  "transfer_yes_add_balance_stmt = UPDATE ''accounts'' [''available_balance'', ''version'', ''updated_at'']
     [''available_balance'', ''version'', ''user_id''] []"

definition transfer_no_unfreeze_debit_stmt :: statement where
  "transfer_no_unfreeze_debit_stmt = UPDATE ''accounts'' [''frozen_balance'', ''available_balance'',
     ''version'', ''updated_at''] [''frozen_balance'', ''available_balance'', ''version'', ''user_id''] []"

definition transfer_no_add_no_volume_stmt :: statement where
  "transfer_no_add_no_volume_stmt = INSERT ''positions'' [''user_id'', ''market_id'', ''no_volume'',
     ''no_cost_sum''] [''user_id'', ''market_id''] [''no_volume'', ''no_cost_sum'', ''updated_at''] []"

definition transfer_no_get_buyer_no_stmt :: statement where
  "transfer_no_get_buyer_no_stmt = SELECT ''positions'' (plain [''no_volume'', ''no_cost_sum'',
     ''no_pending_sell'']) [''user_id'', ''market_id'']"

definition transfer_no_reduce_no_volume_stmt :: statement where
  "transfer_no_reduce_no_volume_stmt = UPDATE ''positions'' [''no_volume'', ''no_cost_sum'',
     ''no_pending_sell'', ''updated_at''] [''no_volume'', ''no_cost_sum'', ''no_pending_sell'', ''user_id'',
     ''market_id''] []"

definition transfer_no_add_balance_stmt :: statement where
  "transfer_no_add_balance_stmt = UPDATE ''accounts'' [''available_balance'', ''version'', ''updated_at'']
     [''available_balance'', ''version'', ''user_id''] []"

definition burn_get_yes_pos_stmt :: statement where
  "burn_get_yes_pos_stmt = SELECT ''positions'' (plain [''yes_volume'', ''yes_cost_sum'',
     ''yes_pending_sell'']) [''user_id'', ''market_id'']"

definition burn_get_no_pos_stmt :: statement where
  "burn_get_no_pos_stmt = SELECT ''positions'' (plain [''no_volume'', ''no_cost_sum'', ''no_pending_sell''])
     [''user_id'', ''market_id'']"

definition burn_reduce_yes_volume_stmt :: statement where
  "burn_reduce_yes_volume_stmt = UPDATE ''positions'' [''yes_volume'', ''yes_cost_sum'',
     ''yes_pending_sell'', ''updated_at''] [''yes_volume'', ''yes_cost_sum'', ''yes_pending_sell'',
     ''user_id'', ''market_id''] []"

definition burn_reduce_no_volume_stmt :: statement where
  "burn_reduce_no_volume_stmt = UPDATE ''positions'' [''no_volume'', ''no_cost_sum'', ''no_pending_sell'',
     ''updated_at''] [''no_volume'', ''no_cost_sum'', ''no_pending_sell'', ''user_id'', ''market_id''] []"

definition burn_add_balance_stmt :: statement where
  "burn_add_balance_stmt = UPDATE ''accounts'' [''available_balance'', ''version'', ''updated_at'']
     [''available_balance'', ''version'', ''user_id''] []"

definition scenario_texts :: "statement list" where
  "scenario_texts = [
     mint_unfreeze_debit_stmt, mint_add_yes_volume_stmt, mint_add_no_volume_stmt,
     transfer_yes_unfreeze_debit_stmt, transfer_yes_add_yes_volume_stmt, transfer_yes_get_seller_yes_stmt,
     transfer_yes_reduce_yes_volume_stmt, transfer_yes_add_balance_stmt, transfer_no_unfreeze_debit_stmt,
     transfer_no_add_no_volume_stmt, transfer_no_get_buyer_no_stmt, transfer_no_reduce_no_volume_stmt,
     transfer_no_add_balance_stmt, burn_get_yes_pos_stmt, burn_get_no_pos_stmt,
     burn_reduce_yes_volume_stmt, burn_reduce_no_volume_stmt, burn_add_balance_stmt]"

lemmas scenario_texts_defs = scenario_texts_def
  mint_unfreeze_debit_stmt_def mint_add_yes_volume_stmt_def mint_add_no_volume_stmt_def
  transfer_yes_unfreeze_debit_stmt_def transfer_yes_add_yes_volume_stmt_def
  transfer_yes_get_seller_yes_stmt_def transfer_yes_reduce_yes_volume_stmt_def
  transfer_yes_add_balance_stmt_def transfer_no_unfreeze_debit_stmt_def
  transfer_no_add_no_volume_stmt_def transfer_no_get_buyer_no_stmt_def
  transfer_no_reduce_no_volume_stmt_def transfer_no_add_balance_stmt_def burn_get_yes_pos_stmt_def
  burn_get_no_pos_stmt_def burn_reduce_yes_volume_stmt_def burn_reduce_no_volume_stmt_def
  burn_add_balance_stmt_def

section \<open>Settlement and invariants (pm_clearing)\<close>

definition settle_get_positions_stmt :: statement where
  "settle_get_positions_stmt = SELECT ''positions'' (plain [''user_id'', ''yes_volume'', ''no_volume''])
     [''market_id'']"

definition settle_credit_stmt :: statement where
  "settle_credit_stmt = UPDATE ''accounts'' [''available_balance'', ''version'', ''updated_at'']
     [''available_balance'', ''version'', ''user_id''] []"

definition settle_clear_position_stmt :: statement where
  "settle_clear_position_stmt = UPDATE ''positions'' [''yes_volume'', ''yes_cost_sum'', ''yes_pending_sell'',
     ''no_volume'', ''no_cost_sum'', ''no_pending_sell'', ''updated_at''] [''user_id'', ''market_id''] []"

definition settle_settle_market_stmt :: statement where
  "settle_settle_market_stmt = UPDATE ''markets'' [''status'', ''reserve_balance'', ''pnl_pool'',
     ''total_yes_shares'', ''total_no_shares'', ''resolution_result'', ''settled_at''] [''id''] []"

definition audit_user_balance_stmt :: statement where
  "audit_user_balance_stmt = SELECT ''accounts'' [(''coalesce'', [''available_balance'',
     ''frozen_balance''])] [''user_id'']"

definition audit_market_reserve_stmt :: statement where
  "audit_market_reserve_stmt = SELECT ''markets'' [(''coalesce'', [''reserve_balance''])] []"

definition audit_platform_fee_stmt :: statement where
  "audit_platform_fee_stmt = SELECT ''accounts'' [(''coalesce'', [''available_balance''])] [''user_id'']"

definition audit_net_deposit_stmt :: statement where
  "audit_net_deposit_stmt = SELECT ''ledger_entries'' [(''coalesce'', [''amount''])] [''entry_type'']"

definition check_cost_sum_stmt :: statement where
  "check_cost_sum_stmt = SELECT ''positions'' [(''coalesce'', [''yes_cost_sum'', ''no_cost_sum''])]
     [''market_id'']"

definition settlement_texts :: "statement list" where
  "settlement_texts = [
     settle_get_positions_stmt, settle_credit_stmt, settle_clear_position_stmt, settle_settle_market_stmt,
     audit_user_balance_stmt, audit_market_reserve_stmt, audit_platform_fee_stmt, audit_net_deposit_stmt,
     check_cost_sum_stmt]"

lemmas settlement_texts_defs = settlement_texts_def
  settle_get_positions_stmt_def settle_credit_stmt_def settle_clear_position_stmt_def
  settle_settle_market_stmt_def audit_user_balance_stmt_def audit_market_reserve_stmt_def
  audit_platform_fee_stmt_def audit_net_deposit_stmt_def check_cost_sum_stmt_def

section \<open>Privileged mint (pm_clearing)\<close>

definition mint_service_find_reference_stmt :: statement where
  "mint_service_find_reference_stmt = SELECT ''ledger_entries'' (plain [''amount_cents'', ''reference_id''])
     [''reference_type'', ''reference_id'']"

definition mint_service_market_stmt :: statement where
  "mint_service_market_stmt = SELECT ''markets'' (plain [''status'']) [''id'']"

definition mint_service_funds_stmt :: statement where
  "mint_service_funds_stmt = SELECT ''accounts'' (plain [''available_balance'', ''version'']) [''user_id'']"

definition mint_service_balance_stmt :: statement where
  "mint_service_balance_stmt = UPDATE ''accounts'' [''available_balance'', ''version'']
     [''available_balance'', ''version'', ''user_id''] []"

definition mint_service_reserve_stmt :: statement where
  "mint_service_reserve_stmt = UPDATE ''markets'' [''reserve_balance'', ''total_yes_shares'',
     ''total_no_shares''] [''reserve_balance'', ''total_yes_shares'', ''total_no_shares'', ''id''] []"

definition mint_service_position_stmt :: statement where
  "mint_service_position_stmt = INSERT ''positions'' [''user_id'', ''market_id'', ''yes_volume'',
     ''yes_cost_sum'', ''no_volume'', ''no_cost_sum'', ''yes_pending_sell'', ''no_pending_sell'']
     [''user_id'', ''market_id''] [''yes_volume'', ''yes_cost_sum'', ''no_volume'', ''no_cost_sum''] []"

definition mint_service_first_entry_stmt :: statement where
  "mint_service_first_entry_stmt = INSERT ''ledger_entries'' [''id'', ''user_id'', ''entry_type'',
     ''amount_cents'', ''reference_type'', ''reference_id'', ''created_at''] [] [] []"

definition mint_service_second_entry_stmt :: statement where
  "mint_service_second_entry_stmt = INSERT ''ledger_entries'' [''id'', ''user_id'', ''entry_type'',
     ''amount_cents'', ''reference_type'', ''reference_id'', ''created_at''] [] [] []"

definition mint_service_audit_trade_stmt :: statement where
  "mint_service_audit_trade_stmt = INSERT ''trades'' [''id'', ''market_id'', ''buy_order_id'',
     ''sell_order_id'', ''buy_user_id'', ''sell_user_id'', ''scenario'', ''price_cents'', ''quantity'',
     ''maker_fee'', ''taker_fee'', ''created_at''] [] [] []"

definition mint_service_final_inventory_stmt :: statement where
  "mint_service_final_inventory_stmt = SELECT ''positions'' (plain [''yes_volume'', ''no_volume''])
     [''user_id'', ''market_id'']"

definition mint_service_final_balance_stmt :: statement where
  "mint_service_final_balance_stmt = SELECT ''accounts'' (plain [''available_balance'']) [''user_id'']"

definition mint_service_texts :: "statement list" where
  "mint_service_texts = [
     mint_service_find_reference_stmt, mint_service_market_stmt, mint_service_funds_stmt,
     mint_service_balance_stmt, mint_service_reserve_stmt, mint_service_position_stmt,
     mint_service_first_entry_stmt, mint_service_second_entry_stmt, mint_service_audit_trade_stmt,
     mint_service_final_inventory_stmt, mint_service_final_balance_stmt]"

lemmas mint_service_texts_defs = mint_service_texts_def
  mint_service_find_reference_stmt_def mint_service_market_stmt_def mint_service_funds_stmt_def
  mint_service_balance_stmt_def mint_service_reserve_stmt_def mint_service_position_stmt_def
  mint_service_first_entry_stmt_def mint_service_second_entry_stmt_def mint_service_audit_trade_stmt_def
  mint_service_final_inventory_stmt_def mint_service_final_balance_stmt_def

section \<open>Privileged burn (pm_clearing)\<close>

definition burn_service_find_reference_stmt :: statement where
  "burn_service_find_reference_stmt = SELECT ''ledger_entries'' (plain [''amount_cents'', ''reference_id''])
     [''reference_type'', ''reference_id'']"

definition burn_service_market_stmt :: statement where
  "burn_service_market_stmt = SELECT ''markets'' (plain [''status'']) [''id'']"

definition burn_service_inventory_stmt :: statement where
  "burn_service_inventory_stmt = SELECT ''positions'' (plain [''yes_volume'', ''no_volume'',
     ''yes_pending_sell'', ''no_pending_sell'', ''yes_cost_sum'', ''no_cost_sum'']) [''user_id'',
     ''market_id'']"

definition burn_service_reduce_stmt :: statement where
  "burn_service_reduce_stmt = UPDATE ''positions'' [''yes_volume'', ''yes_cost_sum'', ''no_volume'',
     ''no_cost_sum''] [''yes_volume'', ''yes_cost_sum'', ''no_volume'', ''no_cost_sum'', ''user_id'',
     ''market_id''] []"

definition burn_service_reserve_stmt :: statement where
  "burn_service_reserve_stmt = UPDATE ''markets'' [''reserve_balance''] [''reserve_balance'', ''id''] []"

definition burn_service_balance_stmt :: statement where
  "burn_service_balance_stmt = UPDATE ''accounts'' [''available_balance'', ''version'']
     [''available_balance'', ''version'', ''user_id''] []"

definition burn_service_first_entry_stmt :: statement where
  "burn_service_first_entry_stmt = INSERT ''ledger_entries'' [''id'', ''user_id'', ''entry_type'',
     ''amount_cents'', ''reference_type'', ''reference_id'', ''created_at''] [] [] []"

definition burn_service_second_entry_stmt :: statement where
  "burn_service_second_entry_stmt = INSERT ''ledger_entries'' [''id'', ''user_id'', ''entry_type'',
     ''amount_cents'', ''reference_type'', ''reference_id'', ''created_at''] [] [] []"

definition burn_service_audit_trade_stmt :: statement where
  "burn_service_audit_trade_stmt = INSERT ''trades'' [''id'', ''market_id'', ''buy_order_id'',
     ''sell_order_id'', ''buy_user_id'', ''sell_user_id'', ''scenario'', ''price_cents'', ''quantity'',
     ''maker_fee'', ''taker_fee'', ''created_at''] [] [] []"

definition burn_service_final_inventory_stmt :: statement where
  "burn_service_final_inventory_stmt = SELECT ''positions'' (plain [''yes_volume'', ''no_volume''])
     [''user_id'', ''market_id'']"

definition burn_service_final_balance_stmt :: statement where
  "burn_service_final_balance_stmt = SELECT ''accounts'' (plain [''available_balance'']) [''user_id'']"

definition burn_service_texts :: "statement list" where
  "burn_service_texts = [
     burn_service_find_reference_stmt, burn_service_market_stmt, burn_service_inventory_stmt,
     burn_service_reduce_stmt, burn_service_reserve_stmt, burn_service_balance_stmt,
     burn_service_first_entry_stmt, burn_service_second_entry_stmt, burn_service_audit_trade_stmt,
     burn_service_final_inventory_stmt, burn_service_final_balance_stmt]"

lemmas burn_service_texts_defs = burn_service_texts_def
  burn_service_find_reference_stmt_def burn_service_market_stmt_def burn_service_inventory_stmt_def
  burn_service_reduce_stmt_def burn_service_reserve_stmt_def burn_service_balance_stmt_def
  burn_service_first_entry_stmt_def burn_service_second_entry_stmt_def burn_service_audit_trade_stmt_def
  burn_service_final_inventory_stmt_def burn_service_final_balance_stmt_def

section \<open>The statements against the migrated tables\<close>

definition program_statements :: "statement list" where
  "program_statements = risk_texts @ user_texts @ order_texts @ admin_texts @ account_texts @
     position_texts @ engine_texts @ market_texts @ trade_texts @ fee_texts @ ledger_texts @
     netting_texts @ scenario_texts @ settlement_texts @ mint_service_texts @ burn_service_texts"

lemma table_named:
  "find (\<lambda>t. tbl_name t = ''accounts'') schema = Some accounts_table"
  "find (\<lambda>t. tbl_name t = ''markets'') schema = Some create_markets"
  "find (\<lambda>t. tbl_name t = ''orders'') schema = Some orders_table"
  "find (\<lambda>t. tbl_name t = ''trades'') schema = Some trades_table"
  "find (\<lambda>t. tbl_name t = ''positions'') schema = Some create_positions"
  "find (\<lambda>t. tbl_name t = ''ledger_entries'') schema = Some create_ledger_entries"
  "find (\<lambda>t. tbl_name t = ''wal_events'') schema = Some create_wal_events"
  by (simp_all add: schema_def table_defs)

lemma names_of_columns:
  "column_names accounts_table = [''id'', ''user_id'', ''available_balance'', ''frozen_balance'', ''version'', ''created_at'',
     ''updated_at'', ''auto_netting_enabled'']"
  "column_names create_markets = [''id'', ''title'', ''description'', ''category'', ''status'', ''min_price_cents'',
     ''max_price_cents'', ''max_order_quantity'', ''max_position_per_user'', ''max_order_amount_cents'', ''maker_fee_bps'',
     ''taker_fee_bps'', ''trading_start_at'', ''trading_end_at'', ''resolution_date'', ''resolved_at'', ''settled_at'',
     ''resolution_result'', ''reserve_balance'', ''pnl_pool'', ''total_yes_shares'', ''total_no_shares'', ''created_at'',
     ''updated_at'']"
  "column_names create_orders = [''id'', ''client_order_id'', ''market_id'', ''user_id'', ''original_side'',
     ''original_direction'', ''original_price'', ''book_type'', ''book_direction'', ''book_price'', ''price_type'',
     ''time_in_force'', ''quantity'', ''filled_quantity'', ''remaining_quantity'', ''frozen_amount'',
     ''frozen_asset_type'', ''status'', ''cancel_reason'', ''created_at'', ''updated_at'']"
  "column_names create_trades = [''id'', ''trade_id'', ''market_id'', ''scenario'', ''buy_order_id'', ''sell_order_id'',
     ''buy_user_id'', ''sell_user_id'', ''buy_book_type'', ''sell_book_type'', ''price'', ''quantity'',
     ''maker_order_id'', ''taker_order_id'', ''maker_fee'', ''taker_fee'', ''buy_realized_pnl'', ''sell_realized_pnl'',
     ''executed_at'', ''created_at'']"
  "column_names create_positions = [''id'', ''user_id'', ''market_id'', ''yes_volume'', ''yes_cost_sum'',
     ''yes_pending_sell'', ''no_volume'', ''no_cost_sum'', ''no_pending_sell'', ''created_at'', ''updated_at'']"
  "column_names create_ledger_entries = [''id'', ''user_id'', ''entry_type'', ''amount'', ''balance_after'',
     ''reference_type'', ''reference_id'', ''description'', ''created_at'']"
  "column_names create_wal_events = [''id'', ''market_id'', ''event_type'', ''payload'', ''created_at'']"
  by (simp_all add: column_names_def table_defs)

lemma required_of_tables:
  "required_columns accounts_table = [''user_id'']"
  "required_columns orders_table = [''client_order_id'', ''market_id'', ''user_id'', ''original_side'',
     ''original_direction'', ''original_price'', ''book_type'', ''book_direction'', ''book_price'', ''quantity'',
     ''remaining_quantity'', ''frozen_asset_type'']"
  "required_columns trades_table = [''trade_id'', ''market_id'', ''scenario'', ''buy_order_id'', ''sell_order_id'',
     ''buy_user_id'', ''sell_user_id'', ''buy_book_type'', ''sell_book_type'', ''price'', ''quantity'',
     ''maker_order_id'', ''taker_order_id'', ''executed_at'']"
  "required_columns create_positions = [''user_id'', ''market_id'']"
  "required_columns create_ledger_entries = [''user_id'', ''entry_type'', ''amount'', ''balance_after'']"
  "required_columns create_wal_events = [''market_id'', ''event_type'', ''payload'']"
  by (simp_all add: required_columns_def table_defs)

lemma positions_key: "is_key create_positions [''user_id'', ''market_id'']"
  by (simp add: is_key_def create_positions_def)

lemmas fitting = accepted_def covers_columns_def plain_def table_named names_of_columns required_of_tables positions_key

lemma risk_accepted: "list_all (accepted schema) risk_texts"
  by (simp add: fitting risk_texts_defs)

lemma user_accepted: "list_all (accepted schema) user_texts"
  by (simp add: fitting user_texts_defs)

lemma order_accepted: "list_all (accepted schema) order_texts"
  by (simp add: fitting order_texts_defs)

lemma admin_accepted: "list_all (accepted schema) admin_texts"
  by (simp add: fitting admin_texts_defs)

lemma account_accepted: "list_all (accepted schema) account_texts"
  by (simp add: fitting account_texts_defs)

lemma position_accepted: "list_all (accepted schema) position_texts"
  by (simp add: fitting position_texts_defs)

lemma engine_accepted: "list_all (accepted schema) engine_texts"
  by (simp add: fitting engine_texts_defs)

lemma market_accepted: "list_all (accepted schema) market_texts"
  by (simp add: fitting market_texts_defs)

lemma trade_accepted: "list_all (accepted schema) trade_texts"
  by (simp add: fitting trade_texts_defs)

lemma fee_accepted: "list_all (accepted schema) fee_texts"
  by (simp add: fitting fee_texts_defs)

lemma ledger_accepted: "list_all (accepted schema) ledger_texts"
  by (simp add: fitting ledger_texts_defs)

lemma netting_accepted: "list_all (accepted schema) netting_texts"
  by (simp add: fitting netting_texts_defs)

lemma scenario_accepted: "list_all (accepted schema) scenario_texts"
  by (simp add: fitting scenario_texts_defs)

lemma settlement_accepted: "list_all (accepted schema) settlement_texts"
  by (simp add: fitting settlement_texts_defs)

lemmas groups_accepted = risk_accepted user_accepted order_accepted admin_accepted account_accepted position_accepted
  engine_accepted market_accepted trade_accepted fee_accepted ledger_accepted netting_accepted scenario_accepted
  settlement_accepted

lemma none_refused: "list_all P xs \<Longrightarrow> filter (\<lambda>x. \<not> P x) xs = []"
  by (simp add: list_all_iff filter_empty_conv)

lemma mint_service_refused:
  "filter (\<lambda>st. \<not> accepted schema st) mint_service_texts =
     [mint_service_find_reference_stmt, mint_service_first_entry_stmt, mint_service_second_entry_stmt,
      mint_service_audit_trade_stmt]"
  by (simp add: fitting mint_service_texts_defs)

lemma burn_service_refused:
  "filter (\<lambda>st. \<not> accepted schema st) burn_service_texts =
     [burn_service_find_reference_stmt, burn_service_first_entry_stmt, burn_service_second_entry_stmt,
      burn_service_audit_trade_stmt]"
  by (simp add: fitting burn_service_texts_defs)

text \<open>Claim C32. Every SQL statement that the program spells out names only columns of the tables that the
  migrations build, every insertion gives each column that must be given and names a key in its conflict clause,
  but for the eight statements of the privileged mint and burn that look for or write their ledger
  entries and their audit trade: the database refuses each of those.\<close>

theorem statements_fit_the_migrated_tables:
  "filter (\<lambda>st. \<not> accepted (tables (snd (upgrade_head (versions is_uuid h) (stage g now 0)))) st) program_statements =
     [mint_service_find_reference_stmt, mint_service_first_entry_stmt, mint_service_second_entry_stmt,
      mint_service_audit_trade_stmt,
      burn_service_find_reference_stmt, burn_service_first_entry_stmt, burn_service_second_entry_stmt,
      burn_service_audit_trade_stmt]"
proof -
  have "tables (snd (upgrade_head (versions is_uuid h) (stage g now 0))) = schema"
    using migrations_up_and_down [of 0 is_uuid h g now] by (simp add: stage_def stage_tables_def schema_def Let_def)
  then show ?thesis
    by (simp add: program_statements_def groups_accepted [THEN none_refused] mint_service_refused burn_service_refused)
qed

end
