(* ===== verification/Mappers.thy ===== *)
theory Mappers
  imports Statements "HOL-Library.Monad_Syntax"
begin

text \<open>
  From the rows a statement answers with to the objects of the domain: the attributes of a row are the
  columns its statement selects or returns, and every \<open>_row_to_...\<close> reads them one by one. Reading an
  attribute that the row does not have, or one of another kind, is \<open>None\<close>. The other theories let the
  queries answer with the domain objects directly; the round trip below is why they may.
\<close>

section \<open>Answered rows\<close>

fun answered_columns :: "statement \<Rightarrow> string list" where
  "answered_columns (SELECT t results used) = map fst results"
| "answered_columns (INSERT t given target sets returning) = returning"
| "answered_columns (UPDATE t sets used returning) = returning"

definition answered_row :: "statement \<Rightarrow> cells \<Rightarrow> cells" where
  "answered_row st row = map (\<lambda>c. (c, cell row c)) (answered_columns st)"

definition attribute :: "(sql_value \<Rightarrow> 'a option) \<Rightarrow> cells \<Rightarrow> string \<Rightarrow> 'a option" where
  "attribute f row c = Option.bind (map_of row c) f"

fun str_of :: "sql_value \<Rightarrow> string option" where
  "str_of (TextV s) = Some s"
| "str_of (UuidV u) = Some u"
| "str_of v = None"

fun int_of :: "sql_value \<Rightarrow> int option" where
  "int_of (IntV i) = Some i"
| "int_of v = None"

fun time_of :: "sql_value \<Rightarrow> int option" where
  "time_of (TimeV t) = Some t"
| "time_of v = None"

definition or_none :: "(sql_value \<Rightarrow> 'a option) \<Rightarrow> sql_value \<Rightarrow> 'a option option" where
  "or_none f v = (if v = SQL_NULL then Some None else map_option Some (f v))"

text \<open>The strings that the code keeps for an enumeration are its values here.\<close>

definition member_of :: "('a \<Rightarrow> string) \<Rightarrow> 'a list \<Rightarrow> sql_value \<Rightarrow> 'a option" where
  "member_of name xs v = Option.bind (str_of v) (\<lambda>s. find (\<lambda>x. name x = s) xs)"

definition sides :: "side list" where "sides = [YES, NO]"

definition directions :: "direction list" where "directions = [BUY, SELL, UNSET_DIRECTION]"

definition book_types :: "book_type list" where
  "book_types = [NATIVE_BUY, NATIVE_SELL, SYNTHETIC_BUY, SYNTHETIC_SELL, UNSET_BOOK_TYPE]"

definition frozen_assets :: "frozen_asset list" where
  "frozen_assets = [FUNDS, YES_SHARES, NO_SHARES, UNSET_ASSET]"

definition times_in_force :: "time_in_force list" where "times_in_force = [GTC, IOC]"

definition order_statuses :: "order_status list" where
  "order_statuses = [NEW, OPEN, PARTIALLY_FILLED, FILLED, CANCELLED, REJECTED]"

definition market_statuses :: "market_status list" where
  "market_statuses = [DRAFT, ACTIVE, SUSPENDED, HALTED, RESOLVED, SETTLED, VOIDED]"

definition resolutions :: "resolution_result list" where "resolutions = [RES_YES, RES_NO, RES_VOID]"

definition ledger_types :: "ledger_entry_type list" where
  "ledger_types = [DEPOSIT, WITHDRAW, ORDER_FREEZE, ORDER_UNFREEZE, MINT_COST, MINT_RESERVE_IN, BURN_REVENUE,
     BURN_RESERVE_OUT, TRANSFER_PAYMENT, TRANSFER_RECEIPT, NETTING, NETTING_RESERVE_OUT, FEE, FEE_REVENUE,
     SETTLEMENT_PAYOUT, SETTLEMENT_VOID]"

lemma every_value_listed [simp]:
  "x1 \<in> set sides" "x2 \<in> set directions" "x3 \<in> set book_types" "x4 \<in> set frozen_assets" "x5 \<in> set times_in_force"
  "x6 \<in> set order_statuses" "x7 \<in> set market_statuses" "x8 \<in> set resolutions" "x9 \<in> set ledger_types"
  by ((cases x1; simp add: sides_def),
    (cases x2; simp add: directions_def),
    (cases x3; simp add: book_types_def),
    (cases x4; simp add: frozen_assets_def),
    (cases x5; simp add: times_in_force_def),
    (cases x6; simp add: order_statuses_def),
    (cases x7; simp add: market_statuses_def),
    (cases x8; simp add: resolutions_def),
    (cases x9; simp add: ledger_types_def))

text \<open>A name that no other value has is read back.\<close>

lemma find_named: "inj name \<Longrightarrow> x \<in> set xs \<Longrightarrow> find (\<lambda>y. name y = name x) xs = Some x"
  by (induction xs) (auto dest: injD)

lemma member_of_name [simp]: "inj name \<Longrightarrow> x \<in> set xs \<Longrightarrow> member_of name xs (TextV (name x)) = Some x"
  by (simp add: member_of_def find_named)

lemma inj_listed: "(\<And>x. x \<in> set xs) \<Longrightarrow> distinct (map name xs) \<Longrightarrow> inj name"
  by (metis UNIV_eq_I distinct_map)

lemma names_differ [simp]:
  "inj side_name" "inj direction_name" "inj book_type_name" "inj frozen_asset_name" "inj time_in_force_name"
  "inj order_status_name" "inj market_status_name" "inj resolution_name" "inj ledger_type_name"
  by ((rule inj_listed [of sides], simp, simp add: sides_def),
    (rule inj_listed [of directions], simp, simp add: directions_def),
    (rule inj_listed [of book_types], simp, simp add: book_types_def),
    (rule inj_listed [of frozen_assets], simp, simp add: frozen_assets_def),
    (rule inj_listed [of times_in_force], simp, simp add: times_in_force_def),
    (rule inj_listed [of order_statuses], simp, simp add: order_statuses_def),
    (rule inj_listed [of market_statuses], simp, simp add: market_statuses_def),
    (rule inj_listed [of resolutions], simp, simp add: resolutions_def),
    (rule inj_listed [of ledger_types], simp, simp add: ledger_types_def))

lemma or_none_nullable [simp]:
  "or_none str_of (nullable TextV s) = Some s" "or_none time_of (nullable TimeV t) = Some t"
  "or_none time_of (TimeV n) = Some (Some n)"
  "inj name \<Longrightarrow> (\<And>x. x \<in> set xs) \<Longrightarrow> or_none (member_of name xs) (nullable (\<lambda>x. TextV (name x)) r) = Some r"
  by (auto simp: or_none_def nullable_def split: option.splits)

section \<open>Objects of the domain\<close>

record account_object =
  obj_id :: string
  obj_user_id :: string
  obj_available_balance :: int
  obj_frozen_balance :: int
  obj_version :: int
  obj_created_at :: int
  obj_updated_at :: int

record position_object = position +
  pos_created_at :: "int option"
  pos_updated_at :: "int option"

record market_object = market +
  mkt_updated_at :: int

section \<open>The row mappers\<close>

definition row_to_account :: "cells \<Rightarrow> account_object option" where
  "row_to_account row = do {
     i \<leftarrow> attribute str_of row ''id'';
     u \<leftarrow> attribute str_of row ''user_id'';
     available \<leftarrow> attribute int_of row ''available_balance'';
     frozen \<leftarrow> attribute int_of row ''frozen_balance'';
     v \<leftarrow> attribute int_of row ''version'';
     created \<leftarrow> attribute time_of row ''created_at'';
     updated \<leftarrow> attribute time_of row ''updated_at'';
     Some \<lparr>obj_id = i, obj_user_id = u, obj_available_balance = available, obj_frozen_balance = frozen,
       obj_version = v, obj_created_at = created, obj_updated_at = updated\<rparr>}"

definition row_to_ledger :: "cells \<Rightarrow> ledger_entry option" where
  "row_to_ledger row = do {
     i \<leftarrow> attribute int_of row ''id'';
     u \<leftarrow> attribute str_of row ''user_id'';
     ty \<leftarrow> attribute (member_of ledger_type_name ledger_types) row ''entry_type'';
     amount \<leftarrow> attribute int_of row ''amount'';
     balance \<leftarrow> attribute int_of row ''balance_after'';
     rt \<leftarrow> attribute (or_none str_of) row ''reference_type'';
     ri \<leftarrow> attribute (or_none str_of) row ''reference_id'';
     descr \<leftarrow> attribute (or_none str_of) row ''description'';
     created \<leftarrow> attribute time_of row ''created_at'';
     Some \<lparr>le_id = i, le_user_id = u, entry_type = ty, le_amount = amount, balance_after = balance,
       reference_type = rt, reference_id = ri, le_description = descr, le_created_at = created\<rparr>}"

definition row_to_position :: "cells \<Rightarrow> position_object option" where
  "row_to_position row = do {
     u \<leftarrow> attribute str_of row ''user_id'';
     m \<leftarrow> attribute str_of row ''market_id'';
     yv \<leftarrow> attribute int_of row ''yes_volume'';
     yc \<leftarrow> attribute int_of row ''yes_cost_sum'';
     yp \<leftarrow> attribute int_of row ''yes_pending_sell'';
     nv \<leftarrow> attribute int_of row ''no_volume'';
     nc \<leftarrow> attribute int_of row ''no_cost_sum'';
     np \<leftarrow> attribute int_of row ''no_pending_sell'';
     created \<leftarrow> attribute time_of row ''created_at'';
     updated \<leftarrow> attribute time_of row ''updated_at'';
     Some \<lparr>pos_user_id = u, pos_market_id = m, yes_volume = yv, yes_cost_sum = yc, yes_pending_sell = yp,
       no_volume = nv, no_cost_sum = nc, no_pending_sell = np,
       pos_created_at = Some created, pos_updated_at = Some updated\<rparr>}"

definition row_to_market :: "cells \<Rightarrow> market_object option" where
  "row_to_market row = do {
     i \<leftarrow> attribute str_of row ''id'';
     ti \<leftarrow> attribute str_of row ''title'';
     descr \<leftarrow> attribute (or_none str_of) row ''description'';
     cat \<leftarrow> attribute (or_none str_of) row ''category'';
     st \<leftarrow> attribute (member_of market_status_name market_statuses) row ''status'';
     lo \<leftarrow> attribute int_of row ''min_price_cents'';
     hi \<leftarrow> attribute int_of row ''max_price_cents'';
     moq \<leftarrow> attribute int_of row ''max_order_quantity'';
     mpu \<leftarrow> attribute int_of row ''max_position_per_user'';
     moa \<leftarrow> attribute int_of row ''max_order_amount_cents'';
     mf \<leftarrow> attribute int_of row ''maker_fee_bps'';
     tf \<leftarrow> attribute int_of row ''taker_fee_bps'';
     res \<leftarrow> attribute int_of row ''reserve_balance'';
     pnl \<leftarrow> attribute int_of row ''pnl_pool'';
     ys \<leftarrow> attribute int_of row ''total_yes_shares'';
     ns \<leftarrow> attribute int_of row ''total_no_shares'';
     ts \<leftarrow> attribute (or_none time_of) row ''trading_start_at'';
     te \<leftarrow> attribute (or_none time_of) row ''trading_end_at'';
     rd \<leftarrow> attribute (or_none time_of) row ''resolution_date'';
     ra \<leftarrow> attribute (or_none time_of) row ''resolved_at'';
     sa \<leftarrow> attribute (or_none time_of) row ''settled_at'';
     rr \<leftarrow> attribute (or_none (member_of resolution_name resolutions)) row ''resolution_result'';
     created \<leftarrow> attribute time_of row ''created_at'';
     updated \<leftarrow> attribute time_of row ''updated_at'';
     Some \<lparr>mkt_id = i, title = ti, description = descr, category = cat, mkt_status = st,
       min_price_cents = lo, max_price_cents = hi, max_order_quantity = moq, max_position_per_user = mpu,
       max_order_amount_cents = moa, maker_fee_bps = mf, taker_fee_bps = tf, reserve_balance = res,
       pnl_pool = pnl, total_yes_shares = ys, total_no_shares = ns, trading_start_at = ts,
       trading_end_at = te, resolution_date = rd, resolved_at = ra, settled_at = sa,
       resolution_result = rr, mkt_created_at = created, mkt_updated_at = updated\<rparr>}"

text \<open>\<open>remaining_quantity\<close> is no argument of \<open>Order\<close>: \<open>__post_init__\<close> derives it.\<close>

definition read_order :: "cells \<Rightarrow> order option" where
  "read_order row = do {
     i \<leftarrow> attribute str_of row ''id'';
     c \<leftarrow> attribute str_of row ''client_order_id'';
     m \<leftarrow> attribute str_of row ''market_id'';
     u \<leftarrow> attribute str_of row ''user_id'';
     os \<leftarrow> attribute (member_of side_name sides) row ''original_side'';
     od \<leftarrow> attribute (member_of direction_name directions) row ''original_direction'';
     op \<leftarrow> attribute int_of row ''original_price'';
     bt \<leftarrow> attribute (member_of book_type_name book_types) row ''book_type'';
     bd \<leftarrow> attribute (member_of direction_name directions) row ''book_direction'';
     bp \<leftarrow> attribute int_of row ''book_price'';
     tif \<leftarrow> attribute (member_of time_in_force_name times_in_force) row ''time_in_force'';
     q \<leftarrow> attribute int_of row ''quantity'';
     f \<leftarrow> attribute int_of row ''filled_quantity'';
     fa \<leftarrow> attribute int_of row ''frozen_amount'';
     ft \<leftarrow> attribute (member_of frozen_asset_name frozen_assets) row ''frozen_asset_type'';
     st \<leftarrow> attribute (member_of order_status_name order_statuses) row ''status'';
     reason \<leftarrow> attribute (or_none str_of) row ''cancel_reason'';
     created \<leftarrow> attribute (or_none time_of) row ''created_at'';
     updated \<leftarrow> attribute (or_none time_of) row ''updated_at'';
     Some (order_post_init \<lparr>ord_id = i, client_order_id = c, ord_market_id = m, ord_user_id = u,
       original_side = os, original_direction = od, original_price = op, book_type = bt,
       book_direction = bd, book_price = bp, quantity = q, frozen_amount = fa, frozen_asset_type = ft,
       time_in_force = tif, ord_status = st, cancel_reason = reason, filled_quantity = f,
       remaining_quantity = 0, ord_created_at = created, ord_updated_at = updated\<rparr>)}"

text \<open>The dictionary of a trade; a row without a date keeps \<open>None\<close>.\<close>

definition dict_columns :: "string list" where
  "dict_columns = [''trade_id'', ''market_id'', ''scenario'', ''buy_order_id'', ''sell_order_id'', ''buy_user_id'',
     ''sell_user_id'', ''buy_book_type'', ''sell_book_type'', ''price'', ''quantity'', ''maker_order_id'',
     ''taker_order_id'', ''maker_fee'', ''taker_fee'', ''buy_realized_pnl'', ''sell_realized_pnl'']"

definition row_to_dict :: "(int \<Rightarrow> string) \<Rightarrow> cells \<Rightarrow> cells option" where
  "row_to_dict isoformat row = do {
     vs \<leftarrow> those (map (map_of row) dict_columns);
     t \<leftarrow> attribute (or_none time_of) row ''executed_at'';
     Some (zip dict_columns vs @ [(''executed_at'', nullable (TextV \<circ> isoformat) t)])}"

section \<open>Reading back\<close>

lemma attribute_answer [simp]:
  "c \<in> set (answered_columns st) \<Longrightarrow> attribute f (answered_row st row) c = f (cell row c)"
  by (simp add: attribute_def answered_row_def map_of_map_restrict)

text \<open>The statements each mapper reads rows of.\<close>

definition account_queries :: "statement list" where
  "account_queries = [account_get_account_stmt, account_deposit_stmt, account_withdraw_stmt, account_freeze_funds_stmt,
     account_unfreeze_funds_stmt]"

definition ledger_queries :: "statement list" where
  "ledger_queries = [account_insert_ledger_stmt, account_list_ledger_stmt]"

definition position_queries :: "statement list" where
  "position_queries = [account_create_position_stmt, account_existing_position_stmt, account_freeze_yes_stmt,
     account_unfreeze_yes_stmt, account_freeze_no_stmt, account_unfreeze_no_stmt]"

definition market_queries :: "statement list" where
  "market_queries = [market_get_market_stmt, market_list_markets_stmt]"

definition order_queries :: "statement list" where
  "order_queries = [order_get_order_by_id_stmt, order_get_order_by_client_id_stmt, order_list_orders_stmt]"

text \<open>A stored order has its dates: those of the object, or the column's default.\<close>

definition stored_dates :: "int \<Rightarrow> order \<Rightarrow> order" where
  "stored_dates now o1 = o1\<lparr>ord_created_at := Some (case ord_created_at o1 of Some t \<Rightarrow> t | None \<Rightarrow> now),
     ord_updated_at := Some (case ord_updated_at o1 of Some t \<Rightarrow> t | None \<Rightarrow> now)\<rparr>"

lemma account_reads_back:
  "list_all (\<lambda>st. row_to_account (answered_row st (account_cells i created updated a)) =
     Some \<lparr>obj_id = i, obj_user_id = acc_user_id a, obj_available_balance = available_balance a,
       obj_frozen_balance = frozen_balance a, obj_version = acc_version a, obj_created_at = created, obj_updated_at = updated\<rparr>)
     account_queries"
  by (simp add: account_queries_def account_texts_defs row_to_account_def plain_def cell_def account_cells_def)

lemma ledger_reads_back:
  "list_all (\<lambda>st. row_to_ledger (answered_row st (ledger_cells e)) = Some e) ledger_queries"
  by (simp add: ledger_queries_def account_texts_defs row_to_ledger_def plain_def cell_def ledger_cells_def)

lemma position_reads_back:
  "list_all (\<lambda>st. row_to_position (answered_row st (position_cells i created updated p)) =
     Some (position.extend p \<lparr>pos_created_at = Some created, pos_updated_at = Some updated\<rparr>)) position_queries"
  by (simp add: position_queries_def account_texts_defs row_to_position_def plain_def cell_def position_cells_def
      position.defs)

lemma market_reads_back:
  "list_all (\<lambda>st. row_to_market (answered_row st (market_cells updated m)) =
     Some (market.extend m \<lparr>mkt_updated_at = updated\<rparr>)) market_queries"
  by (simp add: market_queries_def market_texts_defs row_to_market_def plain_def cell_def market_cells_def market.defs)

lemma order_reads_back:
  "list_all (\<lambda>st. read_order (answered_row st (order_cells now o1)) = Some (row_to_order (stored_dates now o1))) order_queries"
  by (cases o1) (simp add: order_queries_def order_texts_defs read_order_def plain_def cell_def order_cells_def
      row_to_order_def order_post_init_def stored_dates_def)

lemma trade_reads_back:
  "row_to_dict isoformat (answered_row trades_list_stmt (trade_cells i created t)) =
     Some (map (\<lambda>c. (c, cell (trade_cells i created t) c)) dict_columns @
       [(''executed_at'', TextV (isoformat (executed_at t)))])"
  by (simp add: row_to_dict_def trade_texts_defs plain_def dict_columns_def answered_row_def attribute_def cell_def
      trade_cells_def or_none_def nullable_def)

text \<open>Claim C33. Every row that a statement of the repositories answers with, as the tables store it, is read
  back into the object it holds: no mapper asks for a column that its statement leaves out, none takes
  one column for another, and the object of an order has its remaining quantity derived anew.\<close>

theorem stored_rows_read_back:
  "list_all (\<lambda>st. row_to_account (answered_row st (account_cells i created updated a)) =
     Some \<lparr>obj_id = i, obj_user_id = acc_user_id a, obj_available_balance = available_balance a,
       obj_frozen_balance = frozen_balance a, obj_version = acc_version a, obj_created_at = created,
       obj_updated_at = updated\<rparr>) account_queries \<and>
   list_all (\<lambda>st. row_to_ledger (answered_row st (ledger_cells e)) = Some e) ledger_queries \<and>
   list_all (\<lambda>st. row_to_position (answered_row st (position_cells i created updated p)) =
     Some (position.extend p \<lparr>pos_created_at = Some created, pos_updated_at = Some updated\<rparr>)) position_queries \<and>
   list_all (\<lambda>st. row_to_market (answered_row st (market_cells updated m)) =
     Some (market.extend m \<lparr>mkt_updated_at = updated\<rparr>)) market_queries \<and>
   list_all (\<lambda>st. read_order (answered_row st (order_cells now o1)) = Some (row_to_order (stored_dates now o1))) order_queries \<and>
   row_to_dict isoformat (answered_row trades_list_stmt (trade_cells i created t)) =
     Some (map (\<lambda>c. (c, cell (trade_cells i created t) c)) dict_columns @
       [(''executed_at'', TextV (isoformat (executed_at t)))])"
  by (intro conjI account_reads_back ledger_reads_back position_reads_back market_reads_back order_reads_back
      trade_reads_back)

end
