(* ===== verification/Process.thy ===== *)
theory Process
  imports Api
begin

text \<open>
  The process around the routes: the middleware stack of \<open>main.py\<close> with the request log of
  \<open>pm_gateway/middleware/request_log.py\<close> (the rate limiter of \<open>rate_limit.py\<close> is a placeholder that
  is not installed), the request ids of the envelopes, and the Redis pool of \<open>redis_client.py\<close> from
  the start to the end of the \<open>lifespan\<close>. Random identifiers and the readings of
  \<open>perf_counter\<close> are the streams of the process. Starlette's stack is as documented: exceptions that
  have a handler become responses below the installed middleware, all others above it.
\<close>

section \<open>State\<close>

record log_line =
  log_method :: string
  log_path :: string
  log_status :: int
  log_elapsed :: int
  log_request_id :: string

record process =
  proc_state :: engine_state
  redis_pool :: "nat option"        \<comment> \<open>the module's pool, by the number of pools made before\<close>
  redis_made :: nat
  redis_open :: "nat list"
  uuid4_hex :: "nat \<Rightarrow> string"
  uuid_next :: nat
  perf_counter :: "nat \<Rightarrow> int"
  perf_next :: nat
  request_log :: "log_line list"

definition draw_uuid :: "(process, string) act" where
  "draw_uuid = (\<lambda>s. (Inr (uuid4_hex s (uuid_next s)), s\<lparr>uuid_next := Suc (uuid_next s)\<rparr>))"

definition read_perf :: "(process, int) act" where
  "read_perf = (\<lambda>s. (Inr (perf_counter s (perf_next s)), s\<lparr>perf_next := Suc (perf_next s)\<rparr>))"

section \<open>Redis and the lifespan\<close>

definition get_redis :: "(process, nat) act" where
  "get_redis = (\<lambda>s.
     case redis_pool s of
       Some r \<Rightarrow> (Inr r, s)
     | None \<Rightarrow> (Inr (redis_made s), s\<lparr>redis_pool := Some (redis_made s), redis_made := Suc (redis_made s),
         redis_open := redis_made s # redis_open s\<rparr>))"

definition close_redis :: "(process, unit) act" where
  "close_redis = modify (\<lambda>s.
     case redis_pool s of
       None \<Rightarrow> s
     | Some r \<Rightarrow> s\<lparr>redis_pool := None, redis_open := removeAll r (redis_open s)\<rparr>)"

text \<open>\<open>db_up\<close> says whether \<open>SELECT 1\<close> succeeds; without it the program does not start.\<close>

definition startup :: "bool \<Rightarrow> (process, unit) act" where
  "startup db_up =
     bind_act (raise_if (\<not> db_up) (DBError ''connection'')) (\<lambda>_. bind_act get_redis (\<lambda>_. ret ()))"

definition shutdown :: "(process, unit) act" where
  "shutdown = close_redis"

definition pool_ok :: "process \<Rightarrow> bool" where
  "pool_ok s \<longleftrightarrow> redis_open s = (case redis_pool s of None \<Rightarrow> [] | Some r \<Rightarrow> [r]) \<and>
     (\<forall>r. redis_pool s = Some r \<longrightarrow> r < redis_made s)"

lemma get_redis_pool:
  "pool_ok s \<Longrightarrow> get_redis s = (q, s') \<Longrightarrow> pool_ok s' \<and> redis_pool s' \<noteq> None \<and> get_redis s' = (q, s')"
  by (auto simp: pool_ok_def get_redis_def split: option.splits)

lemma lifespan_leaves_no_pool:
  "pool_ok s \<Longrightarrow> bind_act (startup up) (\<lambda>_. shutdown) s = (q, s') \<Longrightarrow>
   pool_ok s' \<and> (if up then q = Inr () \<and> redis_open s' = [] else s' = s)"
  by (auto simp: pool_ok_def startup_def shutdown_def close_redis_def get_redis_def bind_act_def raise_if_def
      split: option.splits)

section \<open>Paths\<close>

text \<open>Method and path of each call, from the prefixes of \<open>main.py\<close> and the routers' decorators.\<close>

definition api :: "string \<Rightarrow> string" where
  "api path = ''/api/v1'' @ path"

fun method_path :: "call \<Rightarrow> string \<times> string" where
  "method_path GET_health = (''GET'', ''/health'')"
| "method_path (POST_register name mail password) = (''POST'', api ''/auth/register'')"
| "method_path (POST_login name password) = (''POST'', api ''/auth/login'')"
| "method_path (POST_refresh token) = (''POST'', api ''/auth/refresh'')"
| "method_path GET_balance = (''GET'', api ''/account/balance'')"
| "method_path (POST_deposit n) = (''POST'', api ''/account/deposit'')"
| "method_path (POST_withdraw n) = (''POST'', api ''/account/withdraw'')"
| "method_path (GET_ledger cursor limit ty) = (''GET'', api ''/account/ledger'')"
| "method_path GET_positions = (''GET'', api ''/positions'')"
| "method_path (GET_position m) = (''GET'', api (''/positions/'' @ m))"
| "method_path (GET_markets status cat limit cursor) = (''GET'', api ''/markets'')"
| "method_path (GET_market m) = (''GET'', api (''/markets/'' @ m))"
| "method_path (GET_orderbook m levels) = (''GET'', api (''/markets/'' @ m @ ''/orderbook''))"
| "method_path (GET_trades m limit cursor) = (''GET'', api ''/trades'')"
| "method_path (POST_order req) = (''POST'', api ''/orders'')"
| "method_path (POST_cancel oid) = (''POST'', api (''/orders/'' @ oid @ ''/cancel''))"
| "method_path (GET_orders m status sd dir limit cursor) = (''GET'', api ''/orders'')"
| "method_path (GET_order oid) = (''GET'', api (''/orders/'' @ oid))"
| "method_path (POST_replace oid req) = (''POST'', api ''/amm/orders/replace'')"
| "method_path (POST_batch_cancel m scope) = (''POST'', api ''/amm/orders/batch-cancel'')"
| "method_path (POST_resolve m outcome) = (''POST'', api (''/admin/markets/'' @ m @ ''/resolve''))"
| "method_path (GET_stats m) = (''GET'', api (''/admin/markets/'' @ m @ ''/stats''))"
| "method_path POST_verify = (''POST'', api ''/admin/verify-invariants'')"
| "method_path (POST_mint m qty key) = (''POST'', api ''/amm/mint'')"
| "method_path (POST_burn m qty key) = (''POST'', api ''/amm/burn'')"

section \<open>The middleware stack\<close>

text \<open>The exceptions that have a handler: \<open>app_error_handler\<close> and FastAPI's own.\<close>

fun handled_below :: "exc \<Rightarrow> bool" where
  "handled_below (AppError code message http_status) \<longleftrightarrow> True"
| "handled_below (HTTPException status detail) \<longleftrightarrow> True"
| "handled_below RequestValidationError \<longleftrightarrow> True"
| "handled_below _ \<longleftrightarrow> False"

definition call_next :: "platform \<Rightarrow> request \<Rightarrow> (process, http_response) act" where
  "call_next p req = (\<lambda>s.
     case route p (req_token req) (req_call req) (proc_state s) of
       (Inr resp, t) \<Rightarrow> (Inr resp, s\<lparr>proc_state := t\<rparr>)
     | (Inl e, t) \<Rightarrow>
         (case error_to_response e of
            Some resp \<Rightarrow> if handled_below e then (Inr resp, s\<lparr>proc_state := t\<rparr>) else (Inl e, s\<lparr>proc_state := t\<rparr>)
          | None \<Rightarrow> (Inl e, s\<lparr>proc_state := t\<rparr>)))"

definition dispatch :: "platform \<Rightarrow> request \<Rightarrow> (process, string \<times> http_response) act" where
  "dispatch p req =
     bind_act draw_uuid (\<lambda>u.
     (let rid = ''req_'' @ take 12 u in
      bind_act read_perf (\<lambda>start.
      bind_act (call_next p req) (\<lambda>resp.
      bind_act read_perf (\<lambda>now.
      bind_act (modify (\<lambda>s. s\<lparr>request_log := request_log s @
        [\<lparr>log_method = fst (method_path (req_call req)), log_path = snd (method_path (req_call req)),
          log_status = response_status resp, log_elapsed = now - start, log_request_id = rid\<rparr>]\<rparr>)) (\<lambda>_.
      ret (rid, resp)))))))"

definition rate_limit_dispatch :: "(process, 'a) act \<Rightarrow> (process, 'a) act" where
  "rate_limit_dispatch next = next"

text \<open>
  \<open>ApiResponse\<close> draws an id of its own, which the routes of users, accounts and markets replace by the
  request's; the error handler and the other routes keep it.
\<close>

fun shares_request_id :: "call \<Rightarrow> bool" where
  "shares_request_id (POST_register name mail password) \<longleftrightarrow> True"
| "shares_request_id (POST_login name password) \<longleftrightarrow> True"
| "shares_request_id (POST_refresh token) \<longleftrightarrow> True"
| "shares_request_id GET_balance \<longleftrightarrow> True"
| "shares_request_id (POST_deposit n) \<longleftrightarrow> True"
| "shares_request_id (POST_withdraw n) \<longleftrightarrow> True"
| "shares_request_id (GET_ledger cursor limit ty) \<longleftrightarrow> True"
| "shares_request_id (GET_markets status cat limit cursor) \<longleftrightarrow> True"
| "shares_request_id (GET_market m) \<longleftrightarrow> True"
| "shares_request_id (GET_orderbook m levels) \<longleftrightarrow> True"
| "shares_request_id _ \<longleftrightarrow> False"

definition envelope_id :: "call \<Rightarrow> string \<Rightarrow> http_response \<Rightarrow> (process, string option) act" where
  "envelope_id c rid resp =
     (case resp of
        Response st (Envelope body) \<Rightarrow>
          bind_act draw_uuid (\<lambda>u. ret (Some (if api_code body = 0 \<and> shares_request_id c then rid else ''req_'' @ take 12 u)))
      | _ \<Rightarrow> ret None)"

text \<open>The answer to a request: the response and the request id of its envelope, if it has one.\<close>

definition respond :: "platform \<Rightarrow> request \<Rightarrow> process \<Rightarrow> (http_response \<times> string option) option \<times> process" where
  "respond p req s =
     (case bind_act (dispatch p req) (\<lambda>(rid, resp).
             bind_act (envelope_id (req_call req) rid resp) (\<lambda>i. ret (resp, i))) s of
        (Inr a, s') \<Rightarrow> (Some a, s')
      | (Inl e, s') \<Rightarrow> (map_option (\<lambda>resp. (resp, None)) (error_to_response e), s'))"

section \<open>What it adds\<close>

text \<open>A request crashes when its exception has no handler (or when it never returns).\<close>

definition crashes :: "platform \<Rightarrow> request \<Rightarrow> engine_state \<Rightarrow> bool" where
  "crashes p req s \<longleftrightarrow>
     (case fst (route p (req_token req) (req_call req) s) of Inl e \<Rightarrow> \<not> handled_below e | Inr resp \<Rightarrow> False)"

lemma handled_response: "handled_below e \<Longrightarrow> error_to_response e \<noteq> None"
  by (cases e) simp_all

lemma unhandled_response: "\<not> handled_below e \<Longrightarrow> error_to_response e \<in> {None, Some (Response 500 Internal_Server_Error)}"
  by (cases e) simp_all

lemma envelope_id_run:
  "\<exists>i n. envelope_id c rid resp s = (Inr i, s\<lparr>uuid_next := n\<rparr>)"
proof -
  have keep: "\<exists>n. s = s\<lparr>uuid_next := n\<rparr>" by (rule exI [of _ "uuid_next s"]) simp
  show ?thesis
    by (cases resp; cases "case resp of Response st b \<Rightarrow> b")
      (auto simp: envelope_id_def draw_uuid_def bind_act_def ret_def keep intro: exI)
qed

lemma route_result:
  obtains (answered) resp t where "route p (req_token req) (req_call req) (proc_state s) = (Inr resp, t)"
  | (handled) e resp t where "route p (req_token req) (req_call req) (proc_state s) = (Inl e, t)" "handled_below e"
      "error_to_response e = Some resp"
  | (crashed) e t where "route p (req_token req) (req_call req) (proc_state s) = (Inl e, t)" "\<not> handled_below e"
  using handled_response by (cases "route p (req_token req) (req_call req) (proc_state s)"; cases "fst (route p (req_token req) (req_call req) (proc_state s))") fastforce+

lemma respond_dispatched:
  assumes "dispatch p req s = (Inr (rid, resp), s')"
  shows "\<exists>i n. respond p req s = (Some (resp, i), s'\<lparr>uuid_next := n\<rparr>)"
proof -
  obtain i n where "envelope_id (req_call req) rid resp s' = (Inr i, s'\<lparr>uuid_next := n\<rparr>)" using envelope_id_run by metis
  then have "respond p req s = (Some (resp, i), s'\<lparr>uuid_next := n\<rparr>)"
    using assms by (simp add: respond_def bind_act_def)
  then show ?thesis by blast
qed

lemma respond_crashed:
  "dispatch p req s = (Inl e, s') \<Longrightarrow> respond p req s = (map_option (\<lambda>resp. (resp, None)) (error_to_response e), s')"
  by (simp add: respond_def)

definition logged :: "request \<Rightarrow> http_response \<Rightarrow> process \<Rightarrow> log_line" where
  "logged req resp s =
     \<lparr>log_method = fst (method_path (req_call req)), log_path = snd (method_path (req_call req)),
      log_status = response_status resp,
      log_elapsed = perf_counter s (Suc (perf_next s)) - perf_counter s (perf_next s),
      log_request_id = ''req_'' @ take 12 (uuid4_hex s (uuid_next s))\<rparr>"

lemma dispatch_run:
  assumes "call_next p req (s\<lparr>uuid_next := Suc (uuid_next s), perf_next := Suc (perf_next s)\<rparr>) =
    (r, s\<lparr>uuid_next := Suc (uuid_next s), perf_next := Suc (perf_next s), proc_state := t\<rparr>)"
  shows "dispatch p req s = (case r of
      Inl e \<Rightarrow> (Inl e, s\<lparr>uuid_next := Suc (uuid_next s), perf_next := Suc (perf_next s), proc_state := t\<rparr>)
    | Inr resp \<Rightarrow> (Inr (''req_'' @ take 12 (uuid4_hex s (uuid_next s)), resp),
        s\<lparr>uuid_next := Suc (uuid_next s), perf_next := Suc (Suc (perf_next s)), proc_state := t,
          request_log := request_log s @ [logged req resp s]\<rparr>))"
  using assms
  by (cases r) (simp_all add: dispatch_def draw_uuid_def read_perf_def bind_act_def Let_def logged_def)

text \<open>Claim C28. The middleware stack is transparent: the answer to a request and the state it leaves are
  those of its route, and each answer is logged exactly once with its method, path and status, unless
  the request raises an exception without a handler, which is answered above the log and leaves
  no line.\<close>

theorem every_answer_is_logged:
  "map_option fst (fst (respond p req s)) = fst (handle p req (proc_state s)) \<and>
   proc_state (snd (respond p req s)) = snd (handle p req (proc_state s)) \<and>
   map (\<lambda>l. (log_method l, log_path l, log_status l)) (request_log (snd (respond p req s))) =
     map (\<lambda>l. (log_method l, log_path l, log_status l)) (request_log s) @
     (if crashes p req (proc_state s) then []
      else [(fst (method_path (req_call req)), snd (method_path (req_call req)),
             response_status (the (fst (handle p req (proc_state s)))))])"
proof -
  let ?s0 = "s\<lparr>uuid_next := Suc (uuid_next s), perf_next := Suc (perf_next s)\<rparr>"
  have served: ?thesis if "call_next p req ?s0 = (Inr resp, ?s0\<lparr>proc_state := t\<rparr>)"
      "handle p req (proc_state s) = (Some resp, t)" "\<not> crashes p req (proc_state s)" for resp t
  proof -
    have "dispatch p req s = (Inr (''req_'' @ take 12 (uuid4_hex s (uuid_next s)), resp),
        s\<lparr>uuid_next := Suc (uuid_next s), perf_next := Suc (Suc (perf_next s)), proc_state := t,
          request_log := request_log s @ [logged req resp s]\<rparr>)"
      using dispatch_run [of p req s "Inr resp" t] that(1) by simp
    from respond_dispatched [OF this] that(2,3) show ?thesis by (auto simp: logged_def)
  qed
  show ?thesis
  proof (rule route_result [of p req s])
    fix resp t
    assume "route p (req_token req) (req_call req) (proc_state s) = (Inr resp, t)"
    then show ?thesis by (intro served [of resp t]) (simp_all add: call_next_def handle_def crashes_def)
  next
    fix e resp t
    assume "route p (req_token req) (req_call req) (proc_state s) = (Inl e, t)" "handled_below e"
      "error_to_response e = Some resp"
    then show ?thesis by (intro served [of resp t]) (simp_all add: call_next_def handle_def crashes_def)
  next
    fix e t
    assume run: "route p (req_token req) (req_call req) (proc_state s) = (Inl e, t)" "\<not> handled_below e"
    then have "call_next p req ?s0 = (Inl e, ?s0\<lparr>proc_state := t\<rparr>)"
      by (simp add: call_next_def split: option.splits)
    then have "dispatch p req s = (Inl e, ?s0\<lparr>proc_state := t\<rparr>)" using dispatch_run [of p req s "Inl e" t] by simp
    from respond_crashed [OF this] run show ?thesis by (simp add: handle_def crashes_def option.map_comp comp_def option.map_ident)
  qed
qed

section \<open>Request ids\<close>

text \<open>
  The id of an answer is the logged one only for the successful answers of the routes that copy it: the
  envelope of an error always has another.
\<close>

lemma answer_id:
  assumes "dispatch p req s = (Inr (rid, Response st (Envelope body)), s')"
  shows "map_option snd (fst (respond p req s)) =
    Some (Some (if api_code body = 0 \<and> shares_request_id (req_call req) then rid
                else ''req_'' @ take 12 (uuid4_hex s' (uuid_next s'))))"
  using assms by (simp add: respond_def bind_act_def envelope_id_def draw_uuid_def)

lemma error_id_not_logged:
  assumes "dispatch p req s = (Inr (rid, Response st (Envelope body)), s')" and "api_code body \<noteq> 0"
    and fresh: "inj (\<lambda>n. take 12 (uuid4_hex s n))"
  shows "map_option snd (fst (respond p req s)) \<noteq> Some (Some (log_request_id (last (request_log s'))))"
proof -
  have "uuid4_hex s' = uuid4_hex s" "uuid_next s' = Suc (uuid_next s)"
    "log_request_id (last (request_log s')) = ''req_'' @ take 12 (uuid4_hex s (uuid_next s))"
    using assms(1)
    by (auto simp: dispatch_def draw_uuid_def read_perf_def call_next_def bind_act_def Let_def
        split: prod.splits sum.splits option.splits if_splits)
  moreover have "take 12 (uuid4_hex s (uuid_next s)) \<noteq> take 12 (uuid4_hex s (Suc (uuid_next s)))"
    using injD [OF fresh, of "uuid_next s" "Suc (uuid_next s)"] by auto
  ultimately show ?thesis using answer_id [OF assms(1)] assms(2) by auto
qed

end
