(* ===== verification/Spec2Isabelle.thy ===== *)
theory Spec2Isabelle
  imports Ids Book_Safety Mappers Process
begin

text \<open>
  A verification library of the prediction-market backend under \<open>src/src\<close> (FastAPI services over
  PostgreSQL with an in-memory matching engine) and of its schema under \<open>src/alembic/versions\<close>.

  \<^bold>\<open>How the program is put together.\<close> A market trades YES and NO shares that cost 100 cents a
  pair. Every order is translated to one YES book (\<open>pm_order/domain/transformer.py\<close>), checked and
  its funds or shares frozen (\<open>pm_risk\<close>), matched by price and time (\<open>pm_matching/engine\<close>), and every
  trade is cleared by one of four scenarios (\<open>pm_clearing\<close>): minting a pair, transferring YES or NO,
  burning a pair. The database holds accounts, positions, orders, trades and logs; the books live in
  the engine's memory. Services commit or roll back the session around the engine's call.

  \<^bold>\<open>How it is modelled.\<close> A coroutine on a state is a function from the state to a result (an exception
  or a value) and the state it leaves (\<open>('s, 'a) act\<close> in \<open>Prelude\<close>); a table is the list of its rows,
  a statement tests every \<open>CHECK\<close> constraint, column range and unique key of the rows it writes and
  raises without writing when one fails. Integers are Python's, with the ranges of the columns in the
  constraints. Strings are compared by character codes, as under the C collation. Instants are integers.
  Loops are structural recursions, functions with a measure, or partial functions whose result \<open>None\<close>
  is not returning. Requests are handled one at a time: the market locks and the sessions serialize
  them; where the code reads outside its lock, reading and acting are separate definitions.

  \<^bold>\<open>The theories\<close>, from the bottom:
  \<^item> \<open>Prelude\<close>, \<open>Numerals_Py\<close>: computations, tables, column sums; decimal printing.
  \<^item> \<open>Domain\<close>, \<open>Schema\<close>, \<open>Ledger\<close>: enumerations, dataclasses and errors; the tables of the migrations,
    their constraints \<open>wf_db\<close>; the ledger and WAL writers and the views (funds, shares held).
  \<^item> \<open>Fees\<close>, \<open>Risk\<close>: \<open>cents.py\<close>, \<open>fee.py\<close>; the rules of \<open>pm_risk\<close>, \<open>transformer.py\<close>, freezing.
  \<^item> \<open>Order_Book\<close>, \<open>Matching\<close>: \<open>order_book.py\<close> with its invariant and contract; \<open>matching_algo.py\<close> with a
    one-pass reference, priority, conservation and completeness of matching.
  \<^item> \<open>Clearing\<close>, \<open>Settlement\<close>: the scenarios, netting, fees and invariant checks under one clearing
    contract; resolution, settlement and the invariant reports of \<open>pm_admin\<close>.
  \<^item> \<open>Order_Repo\<close>, \<open>Engine\<close>, \<open>Engine_Runs\<close>, \<open>Engine_Cancel\<close>, \<open>Engine_Money\<close>: the order repository and
    \<open>engine.py\<close>: placing, cancelling, replacing, batch cancelling; that book and database stay in step up
    to lost orders, what is released to the cent (\<open>paid_back\<close>), what is conserved, and when the code
    fails to: books lost to a failed order, stale cancels, replayed replacements, uncovered orders.
  \<^item> \<open>Pagination\<close>, \<open>Cursors\<close>: the contract of keyset listings and the client that follows cursors;
    Base64 and the ledger's cursor.
  \<^item> \<open>Account\<close>, \<open>Order_Service\<close>, \<open>Market_Data\<close>, \<open>Trade_History\<close>: the services and repositories of
    \<open>pm_account\<close>, \<open>pm_order\<close>, \<open>pm_market\<close> and the trades of \<open>pm_clearing\<close>.
  \<^item> \<open>Users\<close>, \<open>Mint_Burn\<close>, \<open>Ids\<close>: \<open>pm_gateway\<close>, the privileged mint and burn on their session, the
    Snowflake generator on a sequence of clock readings.
  \<^item> \<open>Invariants\<close>, \<open>System\<close>: what every statement of the program keeps, proved once for any invariant
    with the laws of the locales \<open>trading_invariant\<close> and \<open>stored_invariant\<close>; requests as steps,
    reachable states, idempotency of the client order id.
  \<^item> \<open>Frames\<close>, \<open>Resolution\<close>, \<open>Conservation\<close>: what an operation cannot touch (locale \<open>untouched\<close>), a
    resolution seen from outside, and runs of successful requests: books in step, markets solvent,
    money conserved, up to and beyond the settlement of a market.
  \<^item> \<open>Failures\<close>: a request that fails leaves the tables and makes the books at most thinner, as a restart
    does; a refused replacement takes the old order out of the book alone; a system in order stays so
    with the missing entries among its lost orders, the set \<open>X\<close> of \<open>in_order X\<close> (open orders that
    their book does not show, so that nobody trades with them).
  \<^item> \<open>Deployment\<close>: the seed migrations and the state in which the program is deployed.
  \<^item> \<open>Api\<close>, \<open>Bystanders\<close>, \<open>Api_Safety\<close>: every route of \<open>main.py\<close> and of the routers, from token and
    parameters to status and content, and what holds of whole requests: access control, requests
    that only read, failures; that every order, position and user has an account; that nobody else's
    money or shares move (\<open>untouched\<close> again); that the audit of a deployed system stays clean through every run; who can log in.
  \<^item> \<open>Order_Life\<close>, \<open>Book_Safety\<close>: an order that meets nobody and is cancelled leaves its owner's
    money and the books as they were; in every state that requests reach from the deployment, no book
    shows an order that the database does not have open.
  \<^item> \<open>Tables\<close>, \<open>Rows\<close>, \<open>Migrations\<close>: the \<open>CREATE TABLE\<close> texts as data with SQL's three truth values; the
    rows of the model as their rows (\<open>stored_iff_wf\<close>: \<open>wf_db\<close> is what the tables accept); all fourteen
    migrations and their downgrades on a catalogue, run in one transaction as \<open>env.py\<close> does.
  \<^item> \<open>Statements\<close>, \<open>Mappers\<close>: the table and columns that each SQL text of the program names, checked against
    the migrated tables; the \<open>_row_to_...\<close> functions of the repositories on the rows those texts answer
    with (the other theories let a query answer with the object, which the round trip justifies).
  \<^item> \<open>Orm\<close>: the ORM classes and where they differ from the tables.
  \<^item> \<open>Process\<close>: the middleware stack with the request log, request ids, the Redis pool.
  \<^item> \<open>Samples\<close>: concrete data on which the properties are applied.

  \<^bold>\<open>Parameters.\<close> Libraries and the database's random keys are arguments of the definitions that use
  them: bcrypt, the signing and reading of tokens, UUID parsing, JSON and ISO texts of cursors, the
  successive identifiers of \<open>generate_id\<close> (\<open>gid\<close> of the database record; \<open>Ids\<close> models the generator).
  The routes take them all in the record \<open>platform\<close> of \<open>Api\<close>.

  \<^bold>\<open>Bounds and fuel.\<close> Loops that the code bounds itself are structural; the walk along the revisions has
  fuel, their number, which \<open>upgrade_to_head\<close> shows to be enough; clients that follow cursors have
  fuel, for which the termination properties give enough.

  \<^bold>\<open>Not modelled.\<close> What FastAPI, SQLAlchemy and Alembic do inside (parsing of JSON, connection pools, the
  version table's locking), CORS, time stamps of the envelope, the body of the trigger function and the
  audit column \<open>updated_at\<close> that it maintains (statements answer with it, none computes with it), predicates of partial
  indexes, and the interleaving of two requests inside one transaction of the database.
\<close>

end
